(* ===== verification/Prelude.thy ===== *)
theory Prelude
  imports Main "HOL-Library.Word"
begin

text \<open>
  Shared ground of the development: the machine integers the Rust code uses, with its
  saturating and checked operations; fallible computations as values of a sum type (an
  \<open>anyhow::Error\<close> is the list of its causes, outermost first); the string operations of the
  standard library the code calls; and the lemma collections the component theories use.
\<close>

named_theorems u64_simps \<open>unsigned readings of the 64-bit operations\<close>
named_theorems res_simps \<open>success and failure of chained fallible computations\<close>

section \<open>Machine integers\<close>

type_synonym u8 = "8 word"
type_synonym u64 = "64 word"
type_synonym bytes = "u8 list"

text \<open>A signed 64-bit column value; every value is produced by a range check.\<close>

type_synonym i64 = int

text \<open>\<open>u64::saturating_add\<close>, \<open>u64::checked_add\<close>, \<open>u64::saturating_sub\<close>.\<close>

definition saturating_add :: "u64 \<Rightarrow> u64 \<Rightarrow> u64" where
  "saturating_add a b = (if unat a + unat b < 2 ^ 64 then a + b else - 1)"

definition checked_add :: "u64 \<Rightarrow> u64 \<Rightarrow> u64 option" where
  "checked_add a b = (if unat a + unat b < 2 ^ 64 then Some (a + b) else None)"

definition saturating_sub :: "u64 \<Rightarrow> u64 \<Rightarrow> u64" where
  "saturating_sub a b = (if b \<le> a then a - b else 0)"

lemma unat_lt_64 [simp]: "unat (a :: u64) < 18446744073709551616"
  using unsigned_less [of a] by simp

lemma unat_max_64 [u64_simps]: "unat (- 1 :: u64) = 18446744073709551615"
  by (simp add: unsigned_minus_1_eq_mask mask_eq_exp_minus_1)

lemma unat_add_no_wrap [u64_simps]:
  "unat (a :: u64) + unat b < 18446744073709551616 \<Longrightarrow> unat (a + b) = unat a + unat b"
  by (simp add: unat_word_ariths)

lemma unat_saturating_add [u64_simps]:
  "unat (saturating_add a b) = min (unat a + unat b) 18446744073709551615"
  by (simp add: saturating_add_def u64_simps min_def)

lemma checked_add_eq_Some [u64_simps]:
  "checked_add a b = Some c \<longleftrightarrow> unat c = unat a + unat b"
proof
  assume "checked_add a b = Some c"
  then show "unat c = unat a + unat b"
    by (auto simp: checked_add_def u64_simps split: if_splits)
next
  assume c: "unat c = unat a + unat b"
  then have lt: "unat a + unat b < 18446744073709551616" using unat_lt_64 [of c] by simp
  then have "unat (a + b) = unat c" using c by (simp add: u64_simps)
  then have "a + b = c" by (simp add: unat_arith_simps)
  with lt show "checked_add a b = Some c" by (simp add: checked_add_def)
qed

lemma unat_saturating_sub [u64_simps]: "unat (saturating_sub a b) = unat a - unat b"
  by (auto simp: saturating_sub_def unat_sub word_le_nat_alt)

lemma uint_word_of_int_64: "0 \<le> i \<Longrightarrow> i \<le> 9223372036854775807 \<Longrightarrow> uint (word_of_int i :: u64) = i"
  by (simp only: uint_word_of_int) simp

text \<open>The inclusive range \<open>a..=b\<close> of block numbers, empty when \<open>b < a\<close>.\<close>

definition range_inclusive :: "u64 \<Rightarrow> u64 \<Rightarrow> u64 list" where
  "range_inclusive a b = map word_of_nat [unat a ..< Suc (unat b)]"

lemma set_range_inclusive [simp]: "set (range_inclusive a b) = {x. a \<le> x \<and> x \<le> b}"
proof (intro equalityI subsetI)
  fix x assume "x \<in> set (range_inclusive a b)"
  then obtain n where n: "x = word_of_nat n" "unat a \<le> n" "n \<le> unat b"
    by (auto simp: range_inclusive_def)
  then have "n < 2 ^ LENGTH(64)" using unat_lt_64 [of b] by (simp del: unat_lt_64)
  then have "unat x = n" using n(1) by (simp add: unat_of_nat)
  with n show "x \<in> {x. a \<le> x \<and> x \<le> b}" by (simp add: word_le_nat_alt)
next
  fix x assume "x \<in> {x. a \<le> x \<and> x \<le> b}"
  then have "unat x \<in> set [unat a ..< Suc (unat b)]" "word_of_nat (unat x) = x"
    by (auto simp: word_le_nat_alt)
  then show "x \<in> set (range_inclusive a b)"
    unfolding range_inclusive_def by (metis image_eqI list.set_map)
qed

lemma map_unat_range_inclusive: "map unat (range_inclusive a b) = [unat a ..< Suc (unat b)]"
proof (rule nth_equalityI)
  fix i assume "i < length (map unat (range_inclusive a b))"
  then have i: "i < Suc (unat b) - unat a" by (simp add: range_inclusive_def del: upt_Suc)
  then have "unat a + i < 2 ^ LENGTH(64)" using unat_lt_64 [of b] by (simp del: unat_lt_64)
  with i show "map unat (range_inclusive a b) ! i = [unat a ..< Suc (unat b)] ! i"
    by (simp add: range_inclusive_def unat_of_nat del: upt_Suc of_nat_add)
qed (simp add: range_inclusive_def del: upt_Suc)

lemma length_range_inclusive: "length (range_inclusive a b) = Suc (unat b) - unat a"
  by (simp add: range_inclusive_def del: upt_Suc)

text \<open>Fixed-size byte arrays are words read in big-endian order.\<close>

definition be_bytes :: "nat \<Rightarrow> 'a::len word \<Rightarrow> bytes" where
  "be_bytes n w = rev (map (\<lambda>i. word_of_nat (unat w div 256 ^ i)) [0 ..< n])"

definition of_be_bytes :: "bytes \<Rightarrow> 'a::len word" where
  "of_be_bytes bs = word_of_nat (foldl (\<lambda>acc b. acc * 256 + unat b) 0 bs)"

lemma length_be_bytes [simp]: "length (be_bytes n w) = n"
  by (simp add: be_bytes_def)

lemma foldl_be_digits:
  "foldl (\<lambda>acc b. acc * 256 + unat b) 0 (rev (map (\<lambda>i. (word_of_nat (v div 256 ^ i) :: u8)) [0 ..< n]))
     = v mod 256 ^ n"
proof (induction n arbitrary: v)
  case 0
  then show ?case by simp
next
  case (Suc n)
  have shift: "rev (map (\<lambda>i. (word_of_nat (v div 256 ^ i) :: u8)) [0 ..< Suc n])
      = rev (map (\<lambda>i. (word_of_nat ((v div 256) div 256 ^ i) :: u8)) [0 ..< n]) @ [word_of_nat v]"
    by (simp only: upt_conv_Cons zero_less_Suc map_Suc_upt [symmetric])
      (simp add: div_mult2_eq comp_def)
  have "unat (word_of_nat v :: u8) = v mod 256" by (simp add: unat_of_nat)
  moreover have "v div 256 mod 256 ^ n * 256 + v mod 256 = v mod (256 * 256 ^ n)"
    by (simp add: mod_mult2_eq)
  ultimately show ?case unfolding shift by (simp add: Suc.IH)
qed

lemma of_be_bytes_be_bytes [simp]:
  "LENGTH('a) = 8 * n \<Longrightarrow> of_be_bytes (be_bytes n (w :: 'a::len word)) = w"
proof -
  assume n: "LENGTH('a) = 8 * n"
  have "unat w < 2 ^ LENGTH('a)" by (rule unsigned_less)
  then have "unat w < 256 ^ n" by (simp add: n power_mult)
  then show ?thesis by (simp add: of_be_bytes_def be_bytes_def foldl_be_digits)
qed

section \<open>Errors as values\<close>

text \<open>
  The typed errors the code raises or downcasts to. \<open>Message\<close> is an \<open>anyhow!\<close> text or a
  \<open>context\<close> layer; \<open>Backend\<close> an error of a driver or library, carried as it is; \<open>Driver\<close> a
  database driver's error with the labels and the code the code looks at; \<open>Transport\<close> the RPC
  client's error with the code, message and retryability of the error response, if it is one, and
  its text; \<open>MissingBlock\<close> and \<open>MissingTransaction\<close> are \<open>BlockReceiptsResponseError\<close>, with the
  text of the hash; \<open>Panic\<close> marks a branch where the code would panic instead of returning.
\<close>

datatype cause =
    Message string
  | BlockSourceRequest
  | InvalidCommand string
  | InvalidMonitorId
  | AbiParse string
  | AbiType string
  | AbiDecode string
  | FilterFailure string string
  | Panic string
  | Transport "(int \<times> string \<times> bool) option" string
  | MissingBlock u64
  | MissingTransaction string
  | Backend string
  | Driver "string list" "int option" string

type_synonym error = "cause list"
type_synonym 'a result = "error + 'a"

definition anyhow :: "string \<Rightarrow> error" where
  "anyhow message = [Message message]"

definition context_error :: "string \<Rightarrow> error + 'a \<Rightarrow> error + 'a" where
  "context_error message r = (case r of Inl e \<Rightarrow> Inl (Message message # e) | Inr x \<Rightarrow> Inr x)"

text \<open>The \<open>?\<close> operator, \<open>map_err\<close>, \<open>ensure!\<close> and \<open>collect\<close> into a \<open>Result\<close>.\<close>

definition res_bind :: "'e + 'a \<Rightarrow> ('a \<Rightarrow> 'e + 'b) \<Rightarrow> 'e + 'b" where
  "res_bind r f = (case r of Inl e \<Rightarrow> Inl e | Inr x \<Rightarrow> f x)"

definition map_err :: "('e \<Rightarrow> 'f) \<Rightarrow> 'e + 'a \<Rightarrow> 'f + 'a" where
  "map_err g r = (case r of Inl e \<Rightarrow> Inl (g e) | Inr x \<Rightarrow> Inr x)"

definition ensure :: "bool \<Rightarrow> 'e \<Rightarrow> 'e + unit" where
  "ensure b e = (if b then Inr () else Inl e)"

definition ok_or :: "'e \<Rightarrow> 'a option \<Rightarrow> 'e + 'a" where
  "ok_or e x = (case x of None \<Rightarrow> Inl e | Some v \<Rightarrow> Inr v)"

fun traverse :: "('a \<Rightarrow> 'e + 'b) \<Rightarrow> 'a list \<Rightarrow> 'e + 'b list" where
  "traverse f [] = Inr []"
| "traverse f (x # xs) =
     res_bind (f x) (\<lambda>y. res_bind (traverse f xs) (\<lambda>ys. Inr (y # ys)))"

text \<open>\<open>Option::transpose\<close> after a fallible map.\<close>

definition traverse_option :: "('a \<Rightarrow> 'e + 'b) \<Rightarrow> 'a option \<Rightarrow> 'e + 'b option" where
  "traverse_option f x =
     (case x of None \<Rightarrow> Inr None | Some v \<Rightarrow> res_bind (f v) (\<lambda>y. Inr (Some y)))"

lemma res_bind_simps [simp]: "res_bind (Inl e) f = Inl e" "res_bind (Inr x) f = f x"
  by (simp_all add: res_bind_def)

lemma res_bind_Inr [res_simps]:
  "res_bind r f = Inr y \<longleftrightarrow> (\<exists>x. r = Inr x \<and> f x = Inr y)"
  by (cases r) auto

lemma res_bind_Inl [res_simps]:
  "res_bind r f = Inl e \<longleftrightarrow> r = Inl e \<or> (\<exists>x. r = Inr x \<and> f x = Inl e)"
  by (cases r) auto

lemma res_bind_cong [fundef_cong]:
  "r = r' \<Longrightarrow> (\<And>x. r' = Inr x \<Longrightarrow> f x = g x) \<Longrightarrow> res_bind r f = res_bind r' g"
  by (cases r') auto

lemma map_err_simps [simp]: "map_err g (Inl e) = Inl (g e)" "map_err g (Inr x) = Inr x"
  by (simp_all add: map_err_def)

lemma map_err_Inr [res_simps]: "map_err g r = Inr y \<longleftrightarrow> r = Inr y"
  by (cases r) auto

lemma map_err_Inl [res_simps]: "map_err g r = Inl e \<longleftrightarrow> (\<exists>e'. r = Inl e' \<and> e = g e')"
  by (cases r) auto

lemma context_error_simps [simp]:
  "context_error m (Inl e) = Inl (Message m # e)" "context_error m (Inr x) = Inr x"
  by (simp_all add: context_error_def)

lemma context_error_Inr [res_simps]: "context_error m r = Inr y \<longleftrightarrow> r = Inr y"
  by (cases r) auto

lemma ensure_simps [simp]: "ensure True e = Inr ()" "ensure False e = Inl e"
  by (simp_all add: ensure_def)

lemma ensure_Inr [res_simps]: "ensure b e = Inr u \<longleftrightarrow> b"
  by (simp add: ensure_def)

lemma ensure_Inl [res_simps]: "ensure b e = Inl e' \<longleftrightarrow> \<not> b \<and> e' = e"
  by (auto simp: ensure_def)

lemma ok_or_simps [simp]: "ok_or e None = Inl e" "ok_or e (Some x) = Inr x"
  by (simp_all add: ok_or_def)

lemma ok_or_Inr [res_simps]: "ok_or e x = Inr y \<longleftrightarrow> x = Some y"
  by (cases x) auto

lemma ok_or_Inl [res_simps]: "ok_or e x = Inl e' \<longleftrightarrow> x = None \<and> e' = e"
  by (cases x) auto

lemma traverse_Inr: "traverse f xs = Inr ys \<longleftrightarrow> list_all2 (\<lambda>x y. f x = Inr y) xs ys"
  by (induction xs arbitrary: ys) (auto simp: res_simps list_all2_Cons1)

lemma traverse_length: "traverse f xs = Inr ys \<Longrightarrow> length ys = length xs"
  by (simp add: traverse_Inr list_all2_lengthD)

lemma traverse_map_Inr: "(\<And>x. x \<in> set xs \<Longrightarrow> f x = Inr (g x)) \<Longrightarrow> traverse f xs = Inr (map g xs)"
  by (induction xs) auto

lemma traverse_append:
  "traverse f (xs @ ys) = res_bind (traverse f xs) (\<lambda>a. res_bind (traverse f ys) (\<lambda>b. Inr (a @ b)))"
proof (induction xs)
  case Nil
  show ?case by (cases "traverse f ys") simp_all
next
  case (Cons x xs)
  then show ?case by (cases "f x"; cases "traverse f xs"; cases "traverse f ys") simp_all
qed

lemma traverse_cong [fundef_cong]:
  "xs = ys \<Longrightarrow> (\<And>x. x \<in> set ys \<Longrightarrow> f x = g x) \<Longrightarrow> traverse f xs = traverse g ys"
  by (induction ys arbitrary: xs) (auto intro!: res_bind_cong)

lemma traverse_option_simps [simp]:
  "traverse_option f None = Inr None"
  "traverse_option f (Some v) = res_bind (f v) (\<lambda>y. Inr (Some y))"
  by (simp_all add: traverse_option_def)

lemma traverse_option_Inr [res_simps]:
  "traverse_option f x = Inr y \<longleftrightarrow>
     (x = None \<and> y = None) \<or> (\<exists>v w. x = Some v \<and> f v = Inr w \<and> y = Some w)"
  by (cases x) (auto simp: res_simps)

section \<open>Calls with effects\<close>

text \<open>An \<open>await?\<close> in the body of a method: the state is threaded, the first error ends it.\<close>

definition io_bind :: "('d \<Rightarrow> 'a result \<times> 'd) \<Rightarrow> ('a \<Rightarrow> 'd \<Rightarrow> 'b result \<times> 'd) \<Rightarrow> 'd \<Rightarrow> 'b result \<times> 'd" where
  "io_bind m f d = (case m d of (Inl e, d1) \<Rightarrow> (Inl e, d1) | (Inr x, d1) \<Rightarrow> f x d1)"

definition io_lift :: "'a result \<Rightarrow> 'd \<Rightarrow> 'a result \<times> 'd" where
  "io_lift r d = (r, d)"

text \<open>A stream of calls whose results are taken in order, up to the first error.\<close>

fun io_traverse :: "('a \<Rightarrow> 'd \<Rightarrow> 'b result \<times> 'd) \<Rightarrow> 'a list \<Rightarrow> 'd \<Rightarrow> 'b list result \<times> 'd" where
  "io_traverse f [] = io_lift (Inr [])"
| "io_traverse f (x # xs) = io_bind (f x) (\<lambda>y. io_bind (io_traverse f xs) (\<lambda>ys. io_lift (Inr (y # ys))))"

lemma io_bind_Inr: "io_bind m f d = (Inr y, d') \<longleftrightarrow> (\<exists>x d1. m d = (Inr x, d1) \<and> f x d1 = (Inr y, d'))"
  by (auto simp: io_bind_def split: prod.splits sum.splits)

lemma io_bind_Inl:
  "io_bind m f d = (Inl e, d') \<longleftrightarrow> m d = (Inl e, d') \<or> (\<exists>x d1. m d = (Inr x, d1) \<and> f x d1 = (Inl e, d'))"
  by (auto simp: io_bind_def split: prod.splits sum.splits)

lemma io_lift_eq: "io_lift r d = (r', d') \<longleftrightarrow> r = r' \<and> d' = d"
  by (auto simp: io_lift_def)

lemmas io_simps = io_bind_Inr io_bind_Inl io_lift_eq

text \<open>A property of single calls holds of the answers of a stream of them.\<close>

lemma io_traverse_Inr:
  assumes "\<And>x d y d'. f x d = (Inr y, d') \<Longrightarrow> P x y"
  shows "io_traverse f xs d = (Inr ys, d') \<Longrightarrow> list_all2 P xs ys"
  by (induction xs arbitrary: d ys) (auto simp: io_simps intro: assms)

lemma io_traverse_Inl:
  assumes "\<And>x d e d'. f x d = (Inl e, d') \<Longrightarrow> Q e"
  shows "io_traverse f xs d = (Inl e, d') \<Longrightarrow> Q e"
  by (induction xs arbitrary: d) (auto simp: io_simps intro: assms)

lemma io_traverse_total:
  assumes "\<And>x d. \<exists>y d'. f x d = (Inr y, d')"
  shows "\<exists>ys d'. io_traverse f xs d = (Inr ys, d')"
proof (induction xs arbitrary: d)
  case (Cons x xs)
  obtain y d1 where y: "f x d = (Inr y, d1)" using assms by blast
  obtain ys d2 where "io_traverse f xs d1 = (Inr ys, d2)" using Cons by blast
  with y have "io_traverse f (x # xs) d = (Inr (y # ys), d2)" by (simp add: io_simps)
  then show ?case by blast
qed (simp add: io_simps)

end
