(* ===== verification/Model.thy ===== *)
theory Model
  imports Strings
begin

text \<open>
  The domain types of \<open>parseon-core/src/model.rs\<close> and the ABI parameter schema of
  \<open>abi.rs\<close> they carry. A struct is a record, an enum a datatype, a newtype a datatype with one
  constructor. Addresses, hashes and selectors are words, ordered as the byte arrays of the
  code are (big-endian). \<open>dyn_sol_type\<close>, \<open>dyn_sol_value\<close> and \<open>json\<close> are the library enums the
  code matches on, with the constructors it names and one for the rest.
\<close>

section \<open>Library enums the code matches on\<close>

type_synonym chain_id = u64
type_synonym block_number = u64
type_synonym address = "160 word"
type_synonym b256 = "256 word"
type_synonym tx_hash = b256
type_synonym selector = "32 word"
type_synonym u256 = "256 word"
type_synonym i256 = "256 word"
type_synonym url = string

datatype dyn_sol_type =
    TBool
  | TInt nat
  | TUint nat
  | TFixedBytes nat
  | TAddress
  | TFunction
  | TBytes
  | TString
  | TTuple "dyn_sol_type list"
  | TComposite string

datatype dyn_sol_value =
    VBool bool
  | VInt i256 nat
  | VUint u256 nat
  | VFixedBytes b256 nat
  | VAddress address
  | VFunction bytes
  | VBytes bytes
  | VString string
  | VTuple "dyn_sol_value list"
  | VComposite string

datatype json =
    JNull
  | JBool bool
  | JNumber string
  | JString string
  | JArray "json list"
  | JObject "(string \<times> json) list"

section \<open>Identities\<close>

datatype chain = Chain (chain_id_of: chain_id)

text \<open>A monitor id is non-zero: \<open>MonitorId::new\<close> is the only constructor the code exposes.\<close>

datatype monitor_id = MonitorId (monitor_id_get: u64)

definition monitor_id_new :: "u64 \<Rightarrow> monitor_id result" where
  "monitor_id_new n = (if n = 0 then Inl [InvalidMonitorId] else Inr (MonitorId n))"

lemma monitor_id_get_inject: "uint (monitor_id_get i) = uint (monitor_id_get j) \<longleftrightarrow> i = j"
  by (cases i; cases j) (simp add: word_uint_eq_iff)

datatype cursor = Cursor (cursor_block: "block_number option")

definition cursor_next :: "cursor \<Rightarrow> block_number \<Rightarrow> block_number" where
  "cursor_next c start_block =
     (case cursor_block c of None \<Rightarrow> start_block | Some block \<Rightarrow> saturating_add block 1)"

section \<open>Targets\<close>

record abi_param =
  param_name :: string
  param_ty :: dyn_sol_type
  param_indexed :: bool

record call_target =
  ct_address :: address
  ct_selector :: selector
  ct_inputs :: "abi_param list"

record event_target =
  et_address :: address
  et_topic0 :: b256
  et_params :: "abi_param list"

datatype target = CallT call_target | EventT event_target

section \<open>Decoded values, source data and results\<close>

datatype decoded_value =
    DUint u256
  | DInt i256
  | DBool bool
  | DAddress address
  | DString string
  | DBytes bytes

record block_transaction =
  bt_hash :: b256
  bt_from :: address
  bt_to :: address
  bt_input :: bytes

record source_block =
  sb_number :: block_number
  sb_transactions :: "block_transaction list"

record execution_outcome =
  eo_transaction_hash :: b256
  eo_succeeded :: bool

record decoded_call =
  dc_monitor_id :: monitor_id
  dc_block_number :: block_number
  dc_transaction_hash :: b256
  dc_from :: address
  dc_to :: address
  dc_params :: "decoded_value list"

record source_log =
  sl_block_number :: "block_number option"
  sl_transaction_hash :: "b256 option"
  sl_log_index :: "u64 option"
  sl_address :: address
  sl_topics :: "b256 list"
  sl_data :: bytes
  sl_removed :: bool

record decoded_event =
  de_monitor_id :: monitor_id
  de_block_number :: block_number
  de_transaction_hash :: b256
  de_log_index :: u64
  de_params :: "decoded_value list"

datatype decoded_result = ResultCall decoded_call | ResultEvent decoded_event

fun result_monitor_id :: "decoded_result \<Rightarrow> monitor_id" where
  "result_monitor_id (ResultCall c) = dc_monitor_id c"
| "result_monitor_id (ResultEvent e) = de_monitor_id e"

fun result_block_number :: "decoded_result \<Rightarrow> block_number" where
  "result_block_number (ResultCall c) = dc_block_number c"
| "result_block_number (ResultEvent e) = de_block_number e"

lemma monitor_id_new_Inr [res_simps]: "monitor_id_new n = Inr i \<longleftrightarrow> n \<noteq> 0 \<and> i = MonitorId n"
  by (auto simp: monitor_id_new_def)

lemma monitor_id_new_get: "monitor_id_new n = Inr i \<Longrightarrow> monitor_id_get i = n \<and> n \<noteq> 0"
  by (auto simp: res_simps)

lemma cursor_next_None [simp]: "cursor_next (Cursor None) s = s"
  by (simp add: cursor_next_def)

lemma unat_cursor_next_Some [u64_simps]:
  "unat (cursor_next (Cursor (Some b)) s) = min (Suc (unat b)) 18446744073709551615"
  by (simp add: cursor_next_def u64_simps)

end
