(* ===== verification/Externals.thy ===== *)
theory Externals
  imports Model
begin

text \<open>
  The functions of third-party crates the code calls, as one record that every definition using
  them takes as its argument \<open>X\<close>: the alloy crates (Solidity types, ABI decoding, hexadecimal
  and decimal texts) and \<open>serde_json\<close>. Nothing is said here about what they compute. The
  predicates at the end name the documented behaviour some properties rely on; the theory
  \<open>Reference_Externals\<close> gives a concrete record that satisfies them.
\<close>

text \<open>\<open>alloy::json_abi\<close>: the parsed human-readable item, with the results of its \<open>selector()\<close>.\<close>

record json_abi_param =
  ja_name :: string
  ja_ty :: string
  ja_indexed :: bool

record json_abi_function =
  jf_inputs :: "json_abi_param list"
  jf_selector :: selector

record json_abi_event =
  je_inputs :: "json_abi_param list"
  je_anonymous :: bool
  je_selector :: b256

datatype abi_item = ItemFunction json_abi_function | ItemEvent json_abi_event | ItemOther

text \<open>\<open>alloy::dyn_abi::DynSolEvent\<close>: the arguments it was built from.\<close>

datatype dyn_sol_event =
  DynSolEvent (ev_topic0: "b256 option") (ev_indexed: "dyn_sol_type list") (ev_body: dyn_sol_type)

record externs =
  ty_display :: "dyn_sol_type \<Rightarrow> string"
  ty_from_str :: "string \<Rightarrow> string + dyn_sol_type"
  resolve_type :: "json_abi_param \<Rightarrow> string + dyn_sol_type"
  abi_item_parse :: "string \<Rightarrow> string + abi_item"
  abi_decode_params :: "dyn_sol_type \<Rightarrow> bytes \<Rightarrow> string + dyn_sol_value"
  dyn_sol_event_new :: "b256 option \<Rightarrow> dyn_sol_type list \<Rightarrow> dyn_sol_type \<Rightarrow> dyn_sol_event option"
  decode_log_parts :: "dyn_sol_event \<Rightarrow> b256 list \<Rightarrow> bytes \<Rightarrow> string + (dyn_sol_value list \<times> dyn_sol_value list)"
  coerce_str :: "dyn_sol_type \<Rightarrow> string \<Rightarrow> string + dyn_sol_value"
  u256_display :: "u256 \<Rightarrow> string"
  i256_display :: "i256 \<Rightarrow> string"
  address_display :: "address \<Rightarrow> string"
  address_from_str :: "string \<Rightarrow> string + address"
  b256_display :: "b256 \<Rightarrow> string"
  b256_from_str :: "string \<Rightarrow> string + b256"
  selector_display :: "selector \<Rightarrow> string"
  selector_from_str :: "string \<Rightarrow> string + selector"
  hex_encode :: "bytes \<Rightarrow> string"
  hex_decode :: "string \<Rightarrow> string + bytes"
  json_to_vec :: "json \<Rightarrow> string + bytes"

section \<open>Documented behaviour\<close>

text \<open>Parsing the printed form of a scalar Solidity type gives the type back.\<close>

definition scalar_type :: "dyn_sol_type \<Rightarrow> bool" where
  "scalar_type ty = (case ty of TTuple ts \<Rightarrow> False | TComposite s \<Rightarrow> False | _ \<Rightarrow> True)"

definition type_text_laws :: "externs \<Rightarrow> bool" where
  "type_text_laws X = (\<forall>ty. scalar_type ty \<longrightarrow> ty_from_str X (ty_display X ty) = Inr ty)"

text \<open>
  Values print as plain decimal digits (a sign first when negative), addresses and bytes as
  lower-case hexadecimal, and coercing or decoding the printed form gives the value back.
\<close>

definition decimal_text :: "string \<Rightarrow> bool" where
  "decimal_text s = (s \<noteq> [] \<and> (\<forall>c \<in> set s. is_ascii_digit c))"

definition signed_decimal_text :: "string \<Rightarrow> bool" where
  "signed_decimal_text s =
     decimal_text (case strip_prefix ''-'' s of None \<Rightarrow> s | Some digits \<Rightarrow> digits)"

definition hex_text :: "string \<Rightarrow> bool" where
  "hex_text s = (\<forall>c \<in> set s. is_ascii_hexdigit c)"

definition value_text_laws :: "externs \<Rightarrow> bool" where
  "value_text_laws X =
     ((\<forall>bits s v. coerce_str X (TUint bits) s = Inr v \<longrightarrow>
        (\<exists>w n. v = VUint w n \<and> decimal_text (u256_display X w)
           \<and> coerce_str X (TUint bits) (u256_display X w) = Inr v))
    \<and> (\<forall>bits s v. coerce_str X (TInt bits) s = Inr v \<longrightarrow>
        (\<exists>w n. v = VInt w n \<and> signed_decimal_text (i256_display X w)
           \<and> coerce_str X (TInt bits) (i256_display X w) = Inr v))
    \<and> (\<forall>a. \<exists>h. address_display X a = ''0x'' @ h \<and> length h = 40 \<and> hex_text h
        \<and> address_from_str X (address_display X a) = Inr a)
    \<and> (\<forall>b. hex_text (hex_encode X b) \<and> length (hex_encode X b) = 2 * length b
        \<and> hex_decode X (hex_encode X b) = Inr b))"

lemma value_text_lawsD:
  assumes "value_text_laws X"
  shows coerce_uint_law: "coerce_str X (TUint bits) s = Inr v \<Longrightarrow>
      \<exists>w n. v = VUint w n \<and> decimal_text (u256_display X w)
        \<and> coerce_str X (TUint bits) (u256_display X w) = Inr v"
    and coerce_int_law: "coerce_str X (TInt bits) s = Inr v \<Longrightarrow>
      \<exists>w n. v = VInt w n \<and> signed_decimal_text (i256_display X w)
        \<and> coerce_str X (TInt bits) (i256_display X w) = Inr v"
    and address_text_law: "\<exists>h. address_display X a = ''0x'' @ h \<and> length h = 40 \<and> hex_text h
        \<and> address_from_str X (address_display X a) = Inr a"
    and hex_text_law: "hex_text (hex_encode X b)"
    and hex_length_law: "length (hex_encode X b) = 2 * length b"
    and hex_decode_law: "hex_decode X (hex_encode X b) = Inr b"
  using assms unfolding value_text_laws_def by blast+

end
