(* ===== verification/Abi.thy ===== *)
theory Abi
  imports Externals
begin

text \<open>
  \<open>parseon-core/src/abi.rs\<close>: the parameter schema, parsing a target signature into a
  selector or topic and a schema, and the reusable call and event decoders. Only scalar types
  get through: \<open>ensure_supported_type\<close> guards every schema, \<open>decode_value\<close> every value.
\<close>

section \<open>Parameter schemas\<close>

text \<open>The three variants of \<open>AbiError\<close> are causes of the shared error type.\<close>

definition ensure_supported_type :: "externs \<Rightarrow> dyn_sol_type \<Rightarrow> unit result" where
  "ensure_supported_type X ty =
     (case ty of
        TBool \<Rightarrow> Inr ()
      | TInt _ \<Rightarrow> Inr ()
      | TUint _ \<Rightarrow> Inr ()
      | TFixedBytes _ \<Rightarrow> Inr ()
      | TAddress \<Rightarrow> Inr ()
      | TFunction \<Rightarrow> Inr ()
      | TBytes \<Rightarrow> Inr ()
      | TString \<Rightarrow> Inr ()
      | _ \<Rightarrow> Inl [AbiType (''composite type not supported: '' @ ty_display X ty)])"

definition abi_param_new :: "externs \<Rightarrow> string \<Rightarrow> dyn_sol_type \<Rightarrow> abi_param result" where
  "abi_param_new X name ty =
     res_bind (ensure_supported_type X ty) (\<lambda>_.
       Inr \<lparr>param_name = name, param_ty = ty, param_indexed = False\<rparr>)"

definition sol_type :: "externs \<Rightarrow> abi_param \<Rightarrow> string" where
  "sol_type X param = ty_display X (param_ty param)"

definition with_indexed :: "bool \<Rightarrow> abi_param \<Rightarrow> abi_param" where
  "with_indexed indexed param = param\<lparr>param_indexed := indexed\<rparr>"

definition parse_abi_type :: "externs \<Rightarrow> string \<Rightarrow> dyn_sol_type result" where
  "parse_abi_type X value =
     res_bind (map_err (\<lambda>e. [AbiType e]) (ty_from_str X value)) (\<lambda>ty.
     res_bind (ensure_supported_type X ty) (\<lambda>_. Inr ty))"

section \<open>Target signatures\<close>

record method_spec =
  ms_selector :: selector
  ms_params :: "abi_param list"

record event_spec_data =
  es_topic0 :: b256
  es_params :: "abi_param list"

datatype target_spec = SpecCall method_spec | SpecEvent event_spec_data

text \<open>
  The closure \<open>method_spec\<close> and \<open>event_spec\<close> map over the inputs: resolve the type, name an
  unnamed parameter after its index, reject a name that is already in the set, and build the
  parameter. The set of names is threaded; the first error stops the collection.
\<close>

definition spec_param_name :: "nat \<Rightarrow> json_abi_param \<Rightarrow> string" where
  "spec_param_name idx p = (if ja_name p = [] then ''arg'' @ show_nat idx else ja_name p)"

fun spec_params :: "externs \<Rightarrow> bool \<Rightarrow> string set \<Rightarrow> nat \<Rightarrow> json_abi_param list \<Rightarrow> abi_param list result" where
  "spec_params X event names idx [] = Inr []"
| "spec_params X event names idx (p # ps) =
     res_bind (map_err (\<lambda>e. [AbiType (''param `'' @ ja_name p @ ''`: '' @ e)]) (resolve_type X p)) (\<lambda>ty.
     let name = spec_param_name idx p in
     if name \<in> names then Inl [AbiParse (''duplicate parameter name `'' @ name @ ''`'')]
     else
       res_bind (abi_param_new X name ty) (\<lambda>param.
       res_bind (spec_params X event (insert name names) (Suc idx) ps) (\<lambda>rest.
       Inr ((if event then with_indexed (ja_indexed p) param else param) # rest))))"

definition method_spec_of :: "externs \<Rightarrow> json_abi_function \<Rightarrow> method_spec result" where
  "method_spec_of X func =
     res_bind (spec_params X False {} 0 (jf_inputs func)) (\<lambda>params.
     if params = [] then Inl [AbiParse ''functions with no inputs are not supported'']
     else Inr \<lparr>ms_selector = jf_selector func, ms_params = params\<rparr>)"

definition event_spec :: "externs \<Rightarrow> json_abi_event \<Rightarrow> event_spec_data result" where
  "event_spec X event =
     (if je_anonymous event then Inl [AbiParse ''anonymous events are not supported'']
      else if 3 < length (filter ja_indexed (je_inputs event)) then
        Inl [AbiParse ''non-anonymous events support at most three indexed parameters'']
      else
        res_bind (spec_params X True {} 0 (je_inputs event)) (\<lambda>params.
        Inr \<lparr>es_topic0 = je_selector event, es_params = params\<rparr>))"

definition parse_target_signature :: "externs \<Rightarrow> string \<Rightarrow> target_spec result" where
  "parse_target_signature X signature =
     res_bind (map_err (\<lambda>e. [AbiParse (''failed to parse target signature: '' @ e)])
                 (abi_item_parse X signature)) (\<lambda>item.
     case item of
       ItemFunction func \<Rightarrow> res_bind (method_spec_of X func) (\<lambda>s. Inr (SpecCall s))
     | ItemEvent event \<Rightarrow> res_bind (event_spec X event) (\<lambda>s. Inr (SpecEvent s))
     | ItemOther \<Rightarrow> Inl [AbiParse (''invalid target signature: '' @ signature)])"

section \<open>Decoders\<close>

definition decode_value :: "dyn_sol_value \<Rightarrow> decoded_value result" where
  "decode_value v =
     (case v of
        VBool b \<Rightarrow> Inr (DBool b)
      | VAddress a \<Rightarrow> Inr (DAddress a)
      | VString s \<Rightarrow> Inr (DString s)
      | VBytes b \<Rightarrow> Inr (DBytes b)
      | VFixedBytes w n \<Rightarrow>
          if n \<le> 32 then Inr (DBytes (take n (be_bytes 32 w))) else Inl [Panic ''slice index out of range'']
      | VFunction f \<Rightarrow> Inr (DBytes f)
      | VUint u _ \<Rightarrow> Inr (DUint u)
      | VInt i _ \<Rightarrow> Inr (DInt i)
      | _ \<Rightarrow> Inl [AbiDecode ''composite types not supported at decode time''])"

datatype call_decoder = CallDecoder (cd_params: dyn_sol_type)

definition call_decoder_new :: "abi_param list \<Rightarrow> call_decoder" where
  "call_decoder_new params = CallDecoder (TTuple (map param_ty params))"

definition call_decode :: "externs \<Rightarrow> call_decoder \<Rightarrow> bytes \<Rightarrow> decoded_value list result" where
  "call_decode X d data =
     res_bind (map_err (\<lambda>e. [AbiDecode e]) (abi_decode_params X (cd_params d) data)) (\<lambda>decoded.
     traverse decode_value (case decoded of VTuple values \<Rightarrow> values | single \<Rightarrow> [single]))"

record event_decoder =
  edec_event :: dyn_sol_event
  edec_indexed :: "bool list"

definition event_decoder_new :: "externs \<Rightarrow> abi_param list \<Rightarrow> b256 \<Rightarrow> event_decoder result" where
  "event_decoder_new X params topic0 =
     res_bind
       (ok_or [AbiDecode ''event has too many indexed parameters'']
         (dyn_sol_event_new X (Some topic0)
           (map param_ty (filter param_indexed params))
           (TTuple (map param_ty (filter (\<lambda>p. \<not> param_indexed p) params))))) (\<lambda>event.
     Inr \<lparr>edec_event = event, edec_indexed = map param_indexed params\<rparr>)"

text \<open>The closure of \<open>EventDecoder::decode\<close>: take the next indexed or body value, per flag.\<close>

fun merge_parts :: "bool list \<Rightarrow> dyn_sol_value list \<Rightarrow> dyn_sol_value list \<Rightarrow> decoded_value list result" where
  "merge_parts [] is bs = Inr []"
| "merge_parts (True # fs) is bs =
     (case is of
        [] \<Rightarrow> Inl [AbiDecode ''decoded parameter count mismatch'']
      | v # is' \<Rightarrow> res_bind (decode_value v) (\<lambda>d. res_bind (merge_parts fs is' bs) (\<lambda>ds. Inr (d # ds))))"
| "merge_parts (False # fs) is bs =
     (case bs of
        [] \<Rightarrow> Inl [AbiDecode ''decoded parameter count mismatch'']
      | v # bs' \<Rightarrow> res_bind (decode_value v) (\<lambda>d. res_bind (merge_parts fs is bs') (\<lambda>ds. Inr (d # ds))))"

definition event_decode :: "externs \<Rightarrow> event_decoder \<Rightarrow> b256 list \<Rightarrow> bytes \<Rightarrow> decoded_value list result" where
  "event_decode X d topics data =
     res_bind (map_err (\<lambda>e. [AbiDecode e]) (decode_log_parts X (edec_event d) topics data))
       (\<lambda>(indexed, body). merge_parts (edec_indexed d) indexed body)"

definition decode_event :: "externs \<Rightarrow> abi_param list \<Rightarrow> b256 \<Rightarrow> b256 list \<Rightarrow> bytes \<Rightarrow> decoded_value list result" where
  "decode_event X params topic0 topics data =
     res_bind (event_decoder_new X params topic0) (\<lambda>d. event_decode X d topics data)"

definition decode_calldata :: "externs \<Rightarrow> abi_param list \<Rightarrow> bytes \<Rightarrow> decoded_value list result" where
  "decode_calldata X params data = call_decode X (call_decoder_new params) data"


section \<open>Parsed schemas are scalar and unambiguous\<close>

lemma ensure_supported_type_Inr [res_simps]:
  "ensure_supported_type X ty = Inr u \<longleftrightarrow> scalar_type ty"
  by (cases ty) (simp_all add: ensure_supported_type_def scalar_type_def)

lemma abi_param_new_Inr [res_simps]:
  "abi_param_new X n ty = Inr p \<longleftrightarrow>
     scalar_type ty \<and> p = \<lparr>param_name = n, param_ty = ty, param_indexed = False\<rparr>"
  by (auto simp: abi_param_new_def res_simps)

lemma with_indexed_simps [simp]:
  "param_name (with_indexed i p) = param_name p"
  "param_ty (with_indexed i p) = param_ty p"
  "param_indexed (with_indexed i p) = i"
  by (simp_all add: with_indexed_def)

lemma spec_params_names:
  assumes "spec_params X event names idx ps = Inr qs"
  shows "distinct (map param_name qs) \<and> set (map param_name qs) \<inter> names = {}"
  using assms
proof (induction ps arbitrary: names idx qs)
  case Nil
  then show ?case by simp
next
  case (Cons p ps)
  then obtain ty param rest where
    new: "spec_param_name idx p \<notin> names"
      "abi_param_new X (spec_param_name idx p) ty = Inr param"
      "spec_params X event (insert (spec_param_name idx p) names) (Suc idx) ps = Inr rest"
      "qs = (if event then with_indexed (ja_indexed p) param else param) # rest"
    by (auto simp: Let_def res_simps split: if_splits)
  then have "param_name param = spec_param_name idx p" by (auto simp: res_simps)
  with new Cons.IH [OF new(3)] show ?case by auto
qed

lemma spec_params_schema:
  assumes "spec_params X event names idx ps = Inr qs"
  shows "list_all2 (\<lambda>p q. resolve_type X p = Inr (param_ty q) \<and> scalar_type (param_ty q)
           \<and> param_indexed q = (event \<and> ja_indexed p)) ps qs"
  using assms
proof (induction ps arbitrary: names idx qs)
  case Nil
  then show ?case by simp
next
  case (Cons p ps)
  then obtain ty param rest where
    new: "resolve_type X p = Inr ty"
      "abi_param_new X (spec_param_name idx p) ty = Inr param"
      "spec_params X event (insert (spec_param_name idx p) names) (Suc idx) ps = Inr rest"
      "qs = (if event then with_indexed (ja_indexed p) param else param) # rest"
    by (auto simp: Let_def res_simps split: if_splits)
  with Cons.IH [OF new(3)] show ?case by (auto simp: res_simps)
qed

lemma spec_params_indexed_count:
  assumes "spec_params X True names idx ps = Inr qs"
  shows "length (filter param_indexed qs) = length (filter ja_indexed ps)"
  using spec_params_schema [OF assms] by (induction rule: list_all2_induct) auto

definition schema_ok :: "abi_param list \<Rightarrow> bool" where
  "schema_ok ps = (distinct (map param_name ps) \<and> (\<forall>p \<in> set ps. scalar_type (param_ty p)))"

definition target_spec_ok :: "target_spec \<Rightarrow> bool" where
  "target_spec_ok s =
     (case s of
        SpecCall m \<Rightarrow> schema_ok (ms_params m) \<and> ms_params m \<noteq> []
          \<and> (\<forall>p \<in> set (ms_params m). \<not> param_indexed p)
      | SpecEvent e \<Rightarrow> schema_ok (es_params e) \<and> length (filter param_indexed (es_params e)) \<le> 3)"

lemma spec_params_schema_ok:
  "spec_params X event names idx ps = Inr qs \<Longrightarrow> schema_ok qs"
  using spec_params_names [of X event names idx ps qs] spec_params_schema [of X event names idx ps qs]
  by (auto simp: schema_ok_def list_all2_conv_all_nth in_set_conv_nth)

lemma method_spec_of_ok: "method_spec_of X f = Inr m \<Longrightarrow> target_spec_ok (SpecCall m)"
  using spec_params_schema [of X False "{}" 0 "jf_inputs f"]
  by (auto simp: method_spec_of_def target_spec_ok_def res_simps spec_params_schema_ok
      list_all2_conv_all_nth in_set_conv_nth split: if_splits)

lemma event_spec_ok: "event_spec X e = Inr s \<Longrightarrow> target_spec_ok (SpecEvent s)"
  by (auto simp: event_spec_def target_spec_ok_def res_simps spec_params_schema_ok
      spec_params_indexed_count split: if_splits)

section \<open>Decoding an event restores the parameter order\<close>

text \<open>The values of a log in ABI order, with the flag of the parameter each belongs to.\<close>

lemma merge_parts_partition:
  "merge_parts (map fst fvs) (map snd (filter fst fvs)) (map snd (filter (\<lambda>x. \<not> fst x) fvs))
     = traverse decode_value (map snd fvs)"
proof (induction fvs)
  case Nil
  then show ?case by simp
next
  case (Cons fv fvs)
  then show ?case by (cases fv; cases "fst fv") simp_all
qed

lemma merge_parts_length: "merge_parts fs is bs = Inr ds \<Longrightarrow> length ds = length fs"
  by (induction fs "is" bs arbitrary: ds rule: merge_parts.induct)
    (auto simp: res_simps split: list.splits)

lemma event_decode_length:
  "event_decoder_new X params topic0 = Inr d \<Longrightarrow> event_decode X d topics data = Inr ds
     \<Longrightarrow> length ds = length params"
  by (auto simp: event_decoder_new_def event_decode_def res_simps merge_parts_length)

section \<open>Decoded values have the schema's types\<close>

text \<open>
  The value a scalar type decodes to, and the same on \<open>decoded_value\<close> after \<open>decode_value\<close>.
  An indexed string or bytes parameter decodes to its 32-byte topic hash.
\<close>

fun sol_value_has_type :: "dyn_sol_type \<Rightarrow> dyn_sol_value \<Rightarrow> bool" where
  "sol_value_has_type TBool v = (case v of VBool _ \<Rightarrow> True | _ \<Rightarrow> False)"
| "sol_value_has_type (TInt n) v = (case v of VInt _ m \<Rightarrow> m = n | _ \<Rightarrow> False)"
| "sol_value_has_type (TUint n) v = (case v of VUint _ m \<Rightarrow> m = n | _ \<Rightarrow> False)"
| "sol_value_has_type (TFixedBytes n) v = (case v of VFixedBytes _ m \<Rightarrow> m = n \<and> n \<le> 32 | _ \<Rightarrow> False)"
| "sol_value_has_type TAddress v = (case v of VAddress _ \<Rightarrow> True | _ \<Rightarrow> False)"
| "sol_value_has_type TFunction v = (case v of VFunction f \<Rightarrow> length f = 24 | _ \<Rightarrow> False)"
| "sol_value_has_type TBytes v = (case v of VBytes _ \<Rightarrow> True | _ \<Rightarrow> False)"
| "sol_value_has_type TString v = (case v of VString _ \<Rightarrow> True | _ \<Rightarrow> False)"
| "sol_value_has_type (TTuple ts) v = False"
| "sol_value_has_type (TComposite s) v = False"

fun value_has_type :: "dyn_sol_type \<Rightarrow> decoded_value \<Rightarrow> bool" where
  "value_has_type TBool d = (case d of DBool _ \<Rightarrow> True | _ \<Rightarrow> False)"
| "value_has_type (TInt n) d = (case d of DInt _ \<Rightarrow> True | _ \<Rightarrow> False)"
| "value_has_type (TUint n) d = (case d of DUint _ \<Rightarrow> True | _ \<Rightarrow> False)"
| "value_has_type (TFixedBytes n) d = (case d of DBytes b \<Rightarrow> length b = n | _ \<Rightarrow> False)"
| "value_has_type TAddress d = (case d of DAddress _ \<Rightarrow> True | _ \<Rightarrow> False)"
| "value_has_type TFunction d = (case d of DBytes f \<Rightarrow> length f = 24 | _ \<Rightarrow> False)"
| "value_has_type TBytes d = (case d of DBytes _ \<Rightarrow> True | _ \<Rightarrow> False)"
| "value_has_type TString d = (case d of DString _ \<Rightarrow> True | _ \<Rightarrow> False)"
| "value_has_type (TTuple ts) d = False"
| "value_has_type (TComposite s) d = False"

lemma decode_value_has_type:
  "sol_value_has_type ty v \<Longrightarrow> \<exists>d. decode_value v = Inr d \<and> value_has_type ty d"
  by (cases ty; cases v) (simp_all add: decode_value_def)

text \<open>
  The type an event parameter arrives with: indexed dynamic values are hashed to 32 bytes.
\<close>

definition topic_type :: "dyn_sol_type \<Rightarrow> dyn_sol_type" where
  "topic_type ty = (case ty of TString \<Rightarrow> TFixedBytes 32 | TBytes \<Rightarrow> TFixedBytes 32 | _ \<Rightarrow> ty)"

definition wire_type :: "bool \<Rightarrow> abi_param \<Rightarrow> dyn_sol_type" where
  "wire_type event p = (if event \<and> param_indexed p then topic_type (param_ty p) else param_ty p)"

definition params_conform :: "bool \<Rightarrow> abi_param list \<Rightarrow> decoded_value list \<Rightarrow> bool" where
  "params_conform event ps vs = list_all2 (\<lambda>p v. value_has_type (wire_type event p) v) ps vs"

text \<open>
  What the ABI decoders document: a parameter tuple decodes to one value of its type per
  parameter; the parts of a log are the indexed and the body values in order.
\<close>

definition abi_decode_laws :: "externs \<Rightarrow> bool" where
  "abi_decode_laws X =
     ((\<forall>tys data v. (\<forall>ty \<in> set tys. scalar_type ty) \<longrightarrow>
         abi_decode_params X (TTuple tys) data = Inr v \<longrightarrow>
         (\<exists>vs. v = VTuple vs \<and> list_all2 sol_value_has_type tys vs))
    \<and> (\<forall>t0 itys btys ev topics data is bs.
         (\<forall>ty \<in> set itys \<union> set btys. scalar_type ty) \<longrightarrow>
         dyn_sol_event_new X t0 itys (TTuple btys) = Some ev \<longrightarrow>
         decode_log_parts X ev topics data = Inr (is, bs) \<longrightarrow>
         list_all2 sol_value_has_type (map topic_type itys) is \<and> list_all2 sol_value_has_type btys bs))"

lemma traverse_decode_value_types:
  "list_all2 sol_value_has_type tys vs \<Longrightarrow>
     \<exists>ds. traverse decode_value vs = Inr ds \<and> list_all2 value_has_type tys ds"
proof (induction rule: list_all2_induct)
  case Nil
  then show ?case by simp
next
  case (Cons ty tys v vs)
  then obtain d ds where "decode_value v = Inr d" "value_has_type ty d"
    "traverse decode_value vs = Inr ds" "list_all2 value_has_type tys ds"
    using decode_value_has_type by blast
  then show ?case by auto
qed

lemma call_decode_conform:
  assumes laws: "abi_decode_laws X" and ok: "schema_ok ps"
    and dec: "call_decode X (call_decoder_new ps) data = Inr ds"
  shows "params_conform False ps ds"
proof -
  from dec obtain v where v: "abi_decode_params X (TTuple (map param_ty ps)) data = Inr v"
    "traverse decode_value (case v of VTuple values \<Rightarrow> values | single \<Rightarrow> [single]) = Inr ds"
    by (auto simp: call_decode_def call_decoder_new_def res_simps)
  moreover have "\<forall>ty \<in> set (map param_ty ps). scalar_type ty" using ok by (auto simp: schema_ok_def)
  ultimately obtain vs where vs: "v = VTuple vs" "list_all2 sol_value_has_type (map param_ty ps) vs"
    using laws unfolding abi_decode_laws_def by blast
  with v traverse_decode_value_types [OF vs(2)] have "list_all2 value_has_type (map param_ty ps) ds"
    by auto
  then show ?thesis
    by (simp add: params_conform_def wire_type_def list_all2_map1)
qed

lemma merge_parts_types:
  assumes "merge_parts (map param_indexed ps) is bs = Inr ds"
    and "list_all2 sol_value_has_type (map topic_type (map param_ty (filter param_indexed ps))) is"
    and "list_all2 sol_value_has_type (map param_ty (filter (\<lambda>p. \<not> param_indexed p) ps)) bs"
  shows "params_conform True ps ds"
  using assms
proof (induction ps arbitrary: "is" bs ds)
  case Nil
  then show ?case by (simp add: params_conform_def)
next
  case (Cons p ps)
  show ?case
  proof (cases "param_indexed p")
    case True
    with Cons.prems(2) obtain v is' where v: "is = v # is'" "sol_value_has_type (topic_type (param_ty p)) v"
      "list_all2 sol_value_has_type (map topic_type (map param_ty (filter param_indexed ps))) is'"
      by (auto simp: list_all2_Cons1)
    with Cons.prems(1) True obtain d ds' where d: "decode_value v = Inr d" "ds = d # ds'"
      "merge_parts (map param_indexed ps) is' bs = Inr ds'"
      by (auto simp: res_simps)
    have "params_conform True ps ds'"
      using Cons.IH [OF d(3) v(3)] Cons.prems(3) True by simp
    then show ?thesis
      using decode_value_has_type [OF v(2)] d True by (simp add: params_conform_def wire_type_def)
  next
    case False
    with Cons.prems(3) obtain v bs' where v: "bs = v # bs'" "sol_value_has_type (param_ty p) v"
      "list_all2 sol_value_has_type (map param_ty (filter (\<lambda>p. \<not> param_indexed p) ps)) bs'"
      by (auto simp: list_all2_Cons1)
    with Cons.prems(1) False obtain d ds' where d: "decode_value v = Inr d" "ds = d # ds'"
      "merge_parts (map param_indexed ps) is bs' = Inr ds'"
      by (auto simp: res_simps)
    have "params_conform True ps ds'"
      using Cons.IH [OF d(3) _ v(3)] Cons.prems(2) False by simp
    then show ?thesis
      using decode_value_has_type [OF v(2)] d False by (simp add: params_conform_def wire_type_def)
  qed
qed

lemma event_decode_conform:
  assumes laws: "abi_decode_laws X" and ok: "schema_ok ps"
    and new: "event_decoder_new X ps topic0 = Inr d"
    and dec: "event_decode X d topics data = Inr ds"
  shows "params_conform True ps ds"
proof -
  from new obtain ev where ev:
    "dyn_sol_event_new X (Some topic0) (map param_ty (filter param_indexed ps))
       (TTuple (map param_ty (filter (\<lambda>p. \<not> param_indexed p) ps))) = Some ev"
    "d = \<lparr>edec_event = ev, edec_indexed = map param_indexed ps\<rparr>"
    by (auto simp: event_decoder_new_def res_simps)
  from dec ev(2) obtain "is" bs where parts: "decode_log_parts X ev topics data = Inr (is, bs)"
    "merge_parts (map param_indexed ps) is bs = Inr ds"
    by (auto simp: event_decode_def res_simps)
  have "\<forall>ty \<in> set (map param_ty (filter param_indexed ps))
      \<union> set (map param_ty (filter (\<lambda>p. \<not> param_indexed p) ps)). scalar_type ty"
    using ok by (auto simp: schema_ok_def)
  then have "list_all2 sol_value_has_type (map topic_type (map param_ty (filter param_indexed ps))) is
      \<and> list_all2 sol_value_has_type (map param_ty (filter (\<lambda>p. \<not> param_indexed p) ps)) bs"
    using laws ev(1) parts(1) unfolding abi_decode_laws_def by blast
  then show ?thesis using merge_parts_types [OF parts(2)] by blast
qed

end
