(* ===== verification/Filters.thy ===== *)
theory Filters
  imports Abi
begin

text \<open>
  \<open>parseon-core/src/filter.rs\<close>: the JSON filter language. The expression tree as it is
  deserialized, its resource limits, its compilation against a target (which types and
  canonicalizes the literals), evaluation over one decoded result, and the preview path.
\<close>

section \<open>Expressions\<close>

definition FILTER_VERSION :: int where "FILTER_VERSION = 1"
definition MAX_BYTES :: nat where "MAX_BYTES = 16 * 1024"
definition MAX_NODES :: nat where "MAX_NODES = 128"
definition MAX_DEPTH :: nat where "MAX_DEPTH = 16"
definition MAX_CHILDREN :: nat where "MAX_CHILDREN = 32"

datatype comparison_operator = OpEq | OpNe | OpGt | OpGte | OpLt | OpLte

definition op_ordered :: "comparison_operator \<Rightarrow> bool" where
  "op_ordered op = (op \<in> {OpGt, OpGte, OpLt, OpLte})"

record comparison =
  cmp_field :: string
  cmp_op :: comparison_operator
  cmp_value :: json

datatype filter_expression =
    FAnd "filter_expression list"
  | FOr "filter_expression list"
  | FNot filter_expression
  | FCompare comparison

text \<open>The serialized form, as the \<open>serde\<close> attributes on the types give it.\<close>

definition op_name :: "comparison_operator \<Rightarrow> string" where
  "op_name op =
     (case op of OpEq \<Rightarrow> ''eq'' | OpNe \<Rightarrow> ''ne'' | OpGt \<Rightarrow> ''gt''
               | OpGte \<Rightarrow> ''gte'' | OpLt \<Rightarrow> ''lt'' | OpLte \<Rightarrow> ''lte'')"

fun expression_json :: "filter_expression \<Rightarrow> json" where
  "expression_json (FAnd es) = JObject [(''and'', JArray (map expression_json es))]"
| "expression_json (FOr es) = JObject [(''or'', JArray (map expression_json es))]"
| "expression_json (FNot e) = JObject [(''not'', expression_json e)]"
| "expression_json (FCompare c) =
     JObject [(''field'', JString (cmp_field c)), (''op'', JString (op_name (cmp_op c))),
              (''value'', cmp_value c)]"

record filter_definition =
  fd_version :: int
  fd_expression :: filter_expression

section \<open>Compiled filters\<close>

datatype resolved_field =
    BlockNumberField
  | TransactionHashField
  | CallFromField
  | CallToField
  | EventEmitterField
  | EventLogIndexField
  | ParameterField nat

datatype filter_value =
    FVUint u256
  | FVInt i256
  | FVBool bool
  | FVAddress address
  | FVString string
  | FVBytes bytes

datatype value_type =
    TyUint nat
  | TyInt nat
  | TyBool
  | TyAddress
  | TyString
  | TyBytes "nat option"

datatype runtime_value =
    RUint u256
  | RInt i256
  | RBool bool
  | RAddress address
  | RString string
  | RBytes32 b256
  | RBytes bytes

datatype compiled_expression =
    CAnd "compiled_expression list"
  | COr "compiled_expression list"
  | CNot compiled_expression
  | CCompare resolved_field comparison_operator filter_value

datatype monitor_filter = FilterAll | FilterExpr compiled_expression

text \<open>The borrowed view of one decoded result, and the sample of a preview.\<close>

datatype filter_context =
    CtxCall block_number b256 address address "decoded_value list"
  | CtxEvent block_number b256 address u64 "decoded_value list"

fun context_params :: "filter_context \<Rightarrow> decoded_value list" where
  "context_params (CtxCall _ _ _ _ ps) = ps"
| "context_params (CtxEvent _ _ _ _ ps) = ps"

fun context_block_number :: "filter_context \<Rightarrow> block_number" where
  "context_block_number (CtxCall b _ _ _ _) = b"
| "context_block_number (CtxEvent b _ _ _ _) = b"

fun context_tx_hash :: "filter_context \<Rightarrow> b256" where
  "context_tx_hash (CtxCall _ h _ _ _) = h"
| "context_tx_hash (CtxEvent _ h _ _ _) = h"

datatype filter_sample =
    SampleCall block_number b256 address address "(string \<times> json) list"
  | SampleEvent block_number b256 address u64 "(string \<times> json) list"

record filter_preview =
  fp_filter :: filter_expression
  fp_matches :: bool

definition filter_error :: "string \<Rightarrow> string \<Rightarrow> error" where
  "filter_error path message = [FilterFailure path message]"

section \<open>Resource limits\<close>

text \<open>
  The recursive walk \<open>visit\<close> of \<open>validate_limits\<close>, with its running node counter. The
  companion \<open>visit_children\<close> is the loop over the children of a conjunction or disjunction.
\<close>

fun visit :: "filter_expression \<Rightarrow> nat \<Rightarrow> nat \<Rightarrow> string \<Rightarrow> nat result"
and visit_children :: "filter_expression list \<Rightarrow> nat \<Rightarrow> nat \<Rightarrow> string \<Rightarrow> nat \<Rightarrow> nat result" where
  "visit e depth nodes path =
     (if MAX_NODES < Suc nodes then
        Inl (filter_error path (''filter exceeds '' @ show_nat MAX_NODES @ '' nodes''))
      else if MAX_DEPTH < depth then
        Inl (filter_error path (''filter exceeds depth '' @ show_nat MAX_DEPTH))
      else
        (case e of
           FAnd es \<Rightarrow>
             if 2 \<le> length es \<and> length es \<le> MAX_CHILDREN
             then visit_children es (depth + 1) (Suc nodes) (path @ ''/and'') 0
             else Inl (filter_error (path @ ''/and'')
                    (''expected 2 to '' @ show_nat MAX_CHILDREN @ '' expressions''))
         | FOr es \<Rightarrow>
             if 2 \<le> length es \<and> length es \<le> MAX_CHILDREN
             then visit_children es (depth + 1) (Suc nodes) (path @ ''/or'') 0
             else Inl (filter_error (path @ ''/or'')
                    (''expected 2 to '' @ show_nat MAX_CHILDREN @ '' expressions''))
         | FNot e' \<Rightarrow> visit e' (depth + 1) (Suc nodes) (path @ ''/not'')
         | FCompare c \<Rightarrow> Inr (Suc nodes)))"
| "visit_children [] depth nodes path index = Inr nodes"
| "visit_children (e # es) depth nodes path index =
     res_bind (visit e depth nodes (path @ ''/'' @ show_nat index)) (\<lambda>nodes'.
     visit_children es depth nodes' path (Suc index))"

definition validate_limits :: "externs \<Rightarrow> filter_expression \<Rightarrow> unit result" where
  "validate_limits X e =
     res_bind (map_err (filter_error ''/filter'') (json_to_vec X (expression_json e))) (\<lambda>bytes.
     if MAX_BYTES < length bytes then
       Inl (filter_error ''/filter'' (''canonical filter exceeds '' @ show_nat MAX_BYTES @ '' bytes''))
     else res_bind (visit e 1 0 ''/filter'') (\<lambda>_. Inr ()))"

section \<open>Compilation\<close>

definition value_type :: "externs \<Rightarrow> abi_param \<Rightarrow> bool \<Rightarrow> value_type result" where
  "value_type X param event =
     (if event \<and> param_indexed param \<and> param_ty param \<in> {TString, TBytes} then Inr (TyBytes (Some 32))
      else
        (case param_ty param of
           TUint bits \<Rightarrow> Inr (TyUint bits)
         | TInt bits \<Rightarrow> Inr (TyInt bits)
         | TBool \<Rightarrow> Inr TyBool
         | TAddress \<Rightarrow> Inr TyAddress
         | TString \<Rightarrow> Inr TyString
         | TBytes \<Rightarrow> Inr (TyBytes None)
         | TFixedBytes n \<Rightarrow> Inr (TyBytes (Some n))
         | TFunction \<Rightarrow> Inr (TyBytes (Some 24))
         | ty \<Rightarrow> Inl (filter_error ''/filter'' (''unsupported parameter type `'' @ ty_display X ty @ ''`''))))"

definition is_event_target :: "target \<Rightarrow> bool" where
  "is_event_target t = (case t of CallT _ \<Rightarrow> False | EventT _ \<Rightarrow> True)"

definition target_params :: "target \<Rightarrow> abi_param list" where
  "target_params t = (case t of CallT c \<Rightarrow> ct_inputs c | EventT e \<Rightarrow> et_params e)"

text \<open>\<open>params.iter().enumerate().find(..)\<close>: the first parameter with the name, and its index.\<close>

fun find_param :: "string \<Rightarrow> nat \<Rightarrow> abi_param list \<Rightarrow> (nat \<times> abi_param) option" where
  "find_param name index [] = None"
| "find_param name index (p # ps) =
     (if param_name p = name then Some (index, p) else find_param name (Suc index) ps)"

definition resolve_field :: "externs \<Rightarrow> target \<Rightarrow> string \<Rightarrow> string \<Rightarrow> (resolved_field \<times> value_type) result" where
  "resolve_field X t field path =
     (if field = ''block.number'' then Inr (BlockNumberField, TyUint 64)
      else if field = ''tx.hash'' then Inr (TransactionHashField, TyBytes (Some 32))
      else if \<not> is_event_target t \<and> field = ''tx.from'' then Inr (CallFromField, TyAddress)
      else if \<not> is_event_target t \<and> field = ''tx.to'' then Inr (CallToField, TyAddress)
      else if is_event_target t \<and> field = ''event.emitter'' then Inr (EventEmitterField, TyAddress)
      else if is_event_target t \<and> field = ''event.log_index'' then Inr (EventLogIndexField, TyUint 64)
      else
        (case strip_prefix ''params.'' field of
           None \<Rightarrow> Inl (filter_error path (''unknown field `'' @ field @ ''`''))
         | Some name \<Rightarrow>
             (case find_param name 0 (target_params t) of
                None \<Rightarrow> Inl (filter_error path (''unknown parameter `'' @ name @ ''`''))
              | Some (index, param) \<Rightarrow>
                  res_bind (value_type X param (is_event_target t)) (\<lambda>ty. Inr (ParameterField index, ty)))))"

definition json_string :: "string \<Rightarrow> json \<Rightarrow> string \<Rightarrow> string result" where
  "json_string path v expected =
     (case v of JString s \<Rightarrow> Inr s | _ \<Rightarrow> Inl (filter_error path (''expected '' @ expected)))"

text \<open>
  \<open>parse_value\<close>: the typed literal and its canonical JSON. The \<open>unreachable!()\<close> branches of the
  code are the \<open>Panic\<close> branches.
\<close>

definition parse_uint :: "externs \<Rightarrow> nat \<Rightarrow> json \<Rightarrow> string \<Rightarrow> (filter_value \<times> json) result" where
  "parse_uint X bits v path =
     res_bind (json_string path v ''a decimal string'') (\<lambda>s.
     if s = [] \<or> \<not> list_all is_ascii_digit s
     then Inl (filter_error path ''expected an unsigned decimal string'')
     else
       res_bind (map_err (filter_error path) (coerce_str X (TUint bits) s)) (\<lambda>r.
       case r of
         VUint w _ \<Rightarrow> Inr (FVUint w, JString (u256_display X w))
       | _ \<Rightarrow> Inl [Panic ''unreachable'']))"

definition parse_int :: "externs \<Rightarrow> nat \<Rightarrow> json \<Rightarrow> string \<Rightarrow> (filter_value \<times> json) result" where
  "parse_int X bits v path =
     res_bind (json_string path v ''a signed decimal string'') (\<lambda>s.
     let digits = (case strip_prefix ''-'' s of None \<Rightarrow> s | Some d \<Rightarrow> d) in
     if digits = [] \<or> \<not> list_all is_ascii_digit digits
     then Inl (filter_error path ''expected a signed decimal string'')
     else
       res_bind (map_err (filter_error path) (coerce_str X (TInt bits) s)) (\<lambda>r.
       case r of
         VInt w _ \<Rightarrow> Inr (FVInt w, JString (i256_display X w))
       | _ \<Rightarrow> Inl [Panic ''unreachable'']))"

definition parse_address :: "externs \<Rightarrow> json \<Rightarrow> string \<Rightarrow> (filter_value \<times> json) result" where
  "parse_address X v path =
     res_bind (json_string path v ''a 20-byte 0x-prefixed address'') (\<lambda>s.
     if (case strip_prefix ''0x'' s of None \<Rightarrow> True
           | Some hex \<Rightarrow> length hex \<noteq> 40 \<or> \<not> list_all is_ascii_hexdigit hex)
     then Inl (filter_error path ''expected a 20-byte 0x-prefixed address'')
     else
       res_bind (map_err (filter_error path) (address_from_str X s)) (\<lambda>a.
       Inr (FVAddress a, JString (address_display X a))))"

definition parse_bytes :: "externs \<Rightarrow> nat option \<Rightarrow> json \<Rightarrow> string \<Rightarrow> (filter_value \<times> json) result" where
  "parse_bytes X sz v path =
     res_bind (json_string path v ''0x-prefixed hexadecimal bytes'') (\<lambda>s.
     res_bind (ok_or (filter_error path ''expected 0x-prefixed hexadecimal bytes'')
                 (strip_prefix ''0x'' s)) (\<lambda>hex.
     if odd (length hex) \<or> \<not> list_all is_ascii_hexdigit hex
     then Inl (filter_error path ''expected even-length hexadecimal bytes'')
     else
       res_bind (map_err (filter_error path) (hex_decode X hex)) (\<lambda>bytes.
       case sz of
         None \<Rightarrow> Inr (FVBytes bytes, JString (''0x'' @ hex_encode X bytes))
       | Some n \<Rightarrow>
           if length bytes \<noteq> n then Inl (filter_error path (''expected '' @ show_nat n @ '' bytes''))
           else Inr (FVBytes bytes, JString (''0x'' @ hex_encode X bytes)))))"

definition parse_value :: "externs \<Rightarrow> value_type \<Rightarrow> json \<Rightarrow> string \<Rightarrow> (filter_value \<times> json) result" where
  "parse_value X ty v path =
     (case ty of
        TyUint bits \<Rightarrow> parse_uint X bits v path
      | TyInt bits \<Rightarrow> parse_int X bits v path
      | TyBool \<Rightarrow>
          (case v of JBool b \<Rightarrow> Inr (FVBool b, JBool b)
                   | _ \<Rightarrow> Inl (filter_error path ''expected a boolean''))
      | TyAddress \<Rightarrow> parse_address X v path
      | TyString \<Rightarrow> res_bind (json_string path v ''a string'') (\<lambda>s. Inr (FVString s, JString s))
      | TyBytes sz \<Rightarrow> parse_bytes X sz v path)"

definition integer_type :: "value_type \<Rightarrow> bool" where
  "integer_type ty = (case ty of TyUint _ \<Rightarrow> True | TyInt _ \<Rightarrow> True | _ \<Rightarrow> False)"

definition compile_comparison ::
  "externs \<Rightarrow> target \<Rightarrow> comparison \<Rightarrow> string \<Rightarrow> (filter_expression \<times> compiled_expression) result" where
  "compile_comparison X t c path =
     res_bind (resolve_field X t (cmp_field c) (path @ ''/field'')) (\<lambda>(field, ty).
     if op_ordered (cmp_op c) \<and> \<not> integer_type ty
     then Inl (filter_error (path @ ''/op'')
                 (''operator '' @ op_name (cmp_op c) @ '' requires an integer field''))
     else
       res_bind (parse_value X ty (cmp_value c) (path @ ''/value'')) (\<lambda>(literal, canonical).
       Inr (FCompare (c\<lparr>cmp_value := canonical\<rparr>), CCompare field (cmp_op c) literal)))"

fun compile_expression ::
  "externs \<Rightarrow> filter_expression \<Rightarrow> target \<Rightarrow> string \<Rightarrow> (filter_expression \<times> compiled_expression) result"
and compile_children ::
  "externs \<Rightarrow> filter_expression list \<Rightarrow> target \<Rightarrow> string \<Rightarrow> nat
     \<Rightarrow> (filter_expression \<times> compiled_expression) list result" where
  "compile_expression X (FAnd es) t path =
     res_bind (compile_children X es t (path @ ''/and/'') 0) (\<lambda>values.
     Inr (FAnd (map fst values), CAnd (map snd values)))"
| "compile_expression X (FOr es) t path =
     res_bind (compile_children X es t (path @ ''/or/'') 0) (\<lambda>values.
     Inr (FOr (map fst values), COr (map snd values)))"
| "compile_expression X (FNot e) t path =
     res_bind (compile_expression X e t (path @ ''/not'')) (\<lambda>(source, compiled).
     Inr (FNot source, CNot compiled))"
| "compile_expression X (FCompare c) t path = compile_comparison X t c path"
| "compile_children X [] t base index = Inr []"
| "compile_children X (e # es) t base index =
     res_bind (compile_expression X e t (base @ show_nat index)) (\<lambda>v.
     res_bind (compile_children X es t base (Suc index)) (\<lambda>vs. Inr (v # vs)))"

definition prepare :: "externs \<Rightarrow> filter_expression \<Rightarrow> target \<Rightarrow> (filter_definition \<times> monitor_filter) result" where
  "prepare X e t =
     res_bind (validate_limits X e) (\<lambda>_.
     res_bind (compile_expression X e t ''/filter'') (\<lambda>(expression, compiled).
     Inr (\<lparr>fd_version = FILTER_VERSION, fd_expression = expression\<rparr>, FilterExpr compiled)))"

definition compile_definition :: "externs \<Rightarrow> filter_definition \<Rightarrow> target \<Rightarrow> monitor_filter result" where
  "compile_definition X d t =
     (if fd_version d \<noteq> FILTER_VERSION then
        Inl (filter_error ''/filter_version''
               (''unsupported filter version '' @ show_int (fd_version d)))
      else
        res_bind (validate_limits X (fd_expression d)) (\<lambda>_.
        res_bind (compile_expression X (fd_expression d) t ''/filter'') (\<lambda>v.
        Inr (FilterExpr (snd v)))))"

section \<open>Evaluation\<close>

definition resolve_value :: "resolved_field \<Rightarrow> filter_context \<Rightarrow> runtime_value result" where
  "resolve_value field ctx =
     (case (field, ctx) of
        (BlockNumberField, _) \<Rightarrow> Inr (RUint (ucast (context_block_number ctx)))
      | (TransactionHashField, _) \<Rightarrow> Inr (RBytes32 (context_tx_hash ctx))
      | (CallFromField, CtxCall _ _ from to _) \<Rightarrow> Inr (RAddress from)
      | (CallToField, CtxCall _ _ from to _) \<Rightarrow> Inr (RAddress to)
      | (EventEmitterField, CtxEvent _ _ emitter _ _) \<Rightarrow> Inr (RAddress emitter)
      | (EventLogIndexField, CtxEvent _ _ _ log_index _) \<Rightarrow> Inr (RUint (ucast log_index))
      | (ParameterField index, _) \<Rightarrow>
          (if index < length (context_params ctx) then
             Inr (case context_params ctx ! index of
                    DUint w \<Rightarrow> RUint w
                  | DInt w \<Rightarrow> RInt w
                  | DBool b \<Rightarrow> RBool b
                  | DAddress a \<Rightarrow> RAddress a
                  | DString s \<Rightarrow> RString s
                  | DBytes b \<Rightarrow> RBytes b)
           else Inl (filter_error ''/filter'' ''decoded parameter index is missing''))
      | _ \<Rightarrow> Inl (filter_error ''/filter'' ''field is unavailable in this evaluation context''))"

text \<open>Slices and strings compare lexicographically, byte by byte.\<close>

fun lex_less :: "('a \<Rightarrow> nat) \<Rightarrow> 'a list \<Rightarrow> 'a list \<Rightarrow> bool" where
  "lex_less key [] [] = False"
| "lex_less key [] (_ # _) = True"
| "lex_less key (_ # _) [] = False"
| "lex_less key (x # xs) (y # ys) =
     (key x < key y \<or> (key x = key y \<and> lex_less key xs ys))"

definition apply_op :: "('a \<Rightarrow> 'a \<Rightarrow> bool) \<Rightarrow> 'a \<Rightarrow> comparison_operator \<Rightarrow> 'a \<Rightarrow> bool" where
  "apply_op lt l op r =
     (case op of
        OpEq \<Rightarrow> l = r
      | OpNe \<Rightarrow> l \<noteq> r
      | OpGt \<Rightarrow> lt r l
      | OpGte \<Rightarrow> lt r l \<or> l = r
      | OpLt \<Rightarrow> lt l r
      | OpLte \<Rightarrow> lt l r \<or> l = r)"

definition compare :: "runtime_value \<Rightarrow> comparison_operator \<Rightarrow> filter_value \<Rightarrow> bool result" where
  "compare l op r =
     (case (l, r) of
        (RUint a, FVUint b) \<Rightarrow> Inr (apply_op (\<lambda>x y. x < y) a op b)
      | (RInt a, FVInt b) \<Rightarrow> Inr (apply_op (\<lambda>x y. sint x < sint y) a op b)
      | (RBool a, FVBool b) \<Rightarrow> Inr (apply_op (\<lambda>x y. \<not> x \<and> y) a op b)
      | (RAddress a, FVAddress b) \<Rightarrow> Inr (apply_op (\<lambda>x y. x < y) a op b)
      | (RString a, FVString b) \<Rightarrow> Inr (apply_op (lex_less of_char) a op b)
      | (RBytes32 a, FVBytes b) \<Rightarrow> Inr (apply_op (lex_less unat) (be_bytes 32 a) op b)
      | (RBytes a, FVBytes b) \<Rightarrow> Inr (apply_op (lex_less unat) a op b)
      | _ \<Rightarrow> Inl (filter_error ''/filter'' ''resolved field type does not match compiled literal''))"

fun evaluate :: "compiled_expression \<Rightarrow> filter_context \<Rightarrow> bool result"
and evaluate_and :: "compiled_expression list \<Rightarrow> filter_context \<Rightarrow> bool result"
and evaluate_or :: "compiled_expression list \<Rightarrow> filter_context \<Rightarrow> bool result" where
  "evaluate (CAnd es) ctx = evaluate_and es ctx"
| "evaluate (COr es) ctx = evaluate_or es ctx"
| "evaluate (CNot e) ctx = res_bind (evaluate e ctx) (\<lambda>b. Inr (\<not> b))"
| "evaluate (CCompare field op v) ctx = res_bind (resolve_value field ctx) (\<lambda>l. compare l op v)"
| "evaluate_and [] ctx = Inr True"
| "evaluate_and (e # es) ctx =
     res_bind (evaluate e ctx) (\<lambda>b. if \<not> b then Inr False else evaluate_and es ctx)"
| "evaluate_or [] ctx = Inr False"
| "evaluate_or (e # es) ctx =
     res_bind (evaluate e ctx) (\<lambda>b. if b then Inr True else evaluate_or es ctx)"

definition filter_evaluate :: "monitor_filter \<Rightarrow> filter_context \<Rightarrow> bool result" where
  "filter_evaluate f ctx = (case f of FilterAll \<Rightarrow> Inr True | FilterExpr e \<Rightarrow> evaluate e ctx)"

section \<open>Preview\<close>

fun literal_value :: "filter_value \<Rightarrow> decoded_value" where
  "literal_value (FVUint w) = DUint w"
| "literal_value (FVInt w) = DInt w"
| "literal_value (FVBool b) = DBool b"
| "literal_value (FVAddress a) = DAddress a"
| "literal_value (FVString s) = DString s"
| "literal_value (FVBytes b) = DBytes b"

text \<open>The loop of \<open>decode_sample_params\<close>, with the map the code removes the values from.\<close>

fun decode_sample_list ::
  "externs \<Rightarrow> abi_param list \<Rightarrow> bool \<Rightarrow> (string \<times> json) list \<Rightarrow> decoded_value list result" where
  "decode_sample_list X [] event values = Inr []"
| "decode_sample_list X (p # ps) event values =
     (let path = ''/sample/params/'' @ param_name p in
      res_bind (ok_or (filter_error path ''missing ABI parameter'') (map_of values (param_name p))) (\<lambda>v.
      res_bind (value_type X p event) (\<lambda>ty.
      res_bind (parse_value X ty v path) (\<lambda>(literal, _).
      res_bind (decode_sample_list X ps event (List.filter (\<lambda>(k, _). k \<noteq> param_name p) values)) (\<lambda>rest.
      Inr (literal_value literal # rest))))))"

definition decode_sample_params ::
  "externs \<Rightarrow> abi_param list \<Rightarrow> bool \<Rightarrow> (string \<times> json) list \<Rightarrow> decoded_value list result" where
  "decode_sample_params X params event values =
     (if length values \<noteq> length params then
        Inl (filter_error ''/sample/params'' ''sample parameters must exactly match the ABI schema'')
      else decode_sample_list X params event values)"

definition preview :: "externs \<Rightarrow> target \<Rightarrow> filter_expression \<Rightarrow> filter_sample \<Rightarrow> filter_preview result" where
  "preview X t e sample =
     res_bind (prepare X e t) (\<lambda>(definition, f).
     res_bind
       (case (t, sample) of
          (CallT c, SampleCall block_number tx_hash from to params) \<Rightarrow>
            res_bind (decode_sample_params X (ct_inputs c) False params) (\<lambda>values.
            filter_evaluate f (CtxCall block_number tx_hash from to values))
        | (EventT ev, SampleEvent block_number tx_hash emitter log_index params) \<Rightarrow>
            res_bind (decode_sample_params X (et_params ev) True params) (\<lambda>values.
            filter_evaluate f (CtxEvent block_number tx_hash emitter log_index values))
        | _ \<Rightarrow> Inl (filter_error ''/sample/kind'' ''sample kind does not match signature'')) (\<lambda>matches.
     Inr \<lparr>fp_filter = fd_expression definition, fp_matches = matches\<rparr>))"


section \<open>The limits bound the tree\<close>

fun node_count :: "filter_expression \<Rightarrow> nat" where
  "node_count (FAnd es) = Suc (sum_list (map node_count es))"
| "node_count (FOr es) = Suc (sum_list (map node_count es))"
| "node_count (FNot e) = Suc (node_count e)"
| "node_count (FCompare c) = 1"

fun height :: "filter_expression \<Rightarrow> nat" where
  "height (FAnd es) = Suc (foldr max (map height es) 0)"
| "height (FOr es) = Suc (foldr max (map height es) 0)"
| "height (FNot e) = Suc (height e)"
| "height (FCompare c) = 1"

fun arity_ok :: "filter_expression \<Rightarrow> bool" where
  "arity_ok (FAnd es) = (2 \<le> length es \<and> length es \<le> MAX_CHILDREN \<and> list_all arity_ok es)"
| "arity_ok (FOr es) = (2 \<le> length es \<and> length es \<le> MAX_CHILDREN \<and> list_all arity_ok es)"
| "arity_ok (FNot e) = arity_ok e"
| "arity_ok (FCompare c) = True"

lemma foldr_max_le: "foldr max (map f xs) 0 \<le> (k :: nat) \<longleftrightarrow> (\<forall>x \<in> set xs. f x \<le> k)"
  by (induction xs) auto

lemma height_pos: "0 < height e"
  by (cases e) auto

declare visit.simps [simp del]

lemma visit_and_children_Inr:
  "visit e d n p = Inr m \<longleftrightarrow>
     m = n + node_count e \<and> m \<le> MAX_NODES \<and> d + height e \<le> Suc MAX_DEPTH \<and> arity_ok e"
  "n \<le> MAX_NODES \<Longrightarrow> visit_children es d n p i = Inr m \<longleftrightarrow>
     m = n + sum_list (map node_count es) \<and> m \<le> MAX_NODES
     \<and> (\<forall>e \<in> set es. d + height e \<le> Suc MAX_DEPTH \<and> arity_ok e)"
proof (induction e d n p and es d n p i arbitrary: m and m rule: visit_visit_children.induct)
  case (1 e depth nodes path)
  show ?case
  proof (cases "MAX_NODES < Suc nodes \<or> MAX_DEPTH < depth")
    case True
    moreover have "0 < node_count e" by (cases e) auto
    ultimately show ?thesis using height_pos [of e] by (auto simp: visit.simps [of e])
  next
    case False
    have depth: "(\<forall>x \<in> set es. Suc depth + height x \<le> Suc MAX_DEPTH)
        \<longleftrightarrow> depth + Suc (foldr max (map height es) 0) \<le> Suc MAX_DEPTH" for es
      using False foldr_max_le [of height es "MAX_DEPTH - depth"] by (auto)
    show ?thesis
    proof (cases e)
      case (FAnd es)
      show ?thesis
        using False "1.IH"(1) [OF _ _ FAnd] depth [of es]
        by (auto simp: visit.simps [of "FAnd es"] FAnd list_all_iff)
    next
      case (FOr es)
      show ?thesis
        using False "1.IH"(2) [OF _ _ FOr] depth [of es]
        by (auto simp: visit.simps [of "FOr es"] FOr list_all_iff)
    next
      case (FNot e')
      show ?thesis
        using False "1.IH"(3) [OF _ _ FNot] by (auto simp: visit.simps [of "FNot e'"] FNot)
    next
      case (FCompare c)
      with False show ?thesis by (auto simp: visit.simps [of "FCompare c"])
    qed
  qed
next
  case (2 depth nodes path index)
  then show ?case by auto
next
  case (3 e es depth nodes path index)
  have step: "visit_children (e # es) depth nodes path index = Inr m \<longleftrightarrow>
      (\<exists>n1. visit e depth nodes (path @ ''/'' @ show_nat index) = Inr n1
         \<and> visit_children es depth n1 path (Suc index) = Inr m)"
    by (simp add: res_simps)
  show ?case
  proof (cases "visit e depth nodes (path @ ''/'' @ show_nat index) = Inr (nodes + node_count e)")
    case True
    with "3.IH"(1) [of "nodes + node_count e"] have now:
      "nodes + node_count e \<le> MAX_NODES" "depth + height e \<le> Suc MAX_DEPTH" "arity_ok e" by auto
    show ?thesis
      using "3.IH"(2) [OF True, of m] True now unfolding step by (simp add: add.assoc)
  next
    case False
    have none: "visit e depth nodes (path @ ''/'' @ show_nat index) \<noteq> Inr n1" for n1
      using "3.IH"(1) [of n1] False by auto
    with "3.IH"(1) [of "nodes + node_count e"] have "\<not> (nodes + node_count e \<le> MAX_NODES
        \<and> depth + height e \<le> Suc MAX_DEPTH \<and> arity_ok e)" by simp
    with none show ?thesis unfolding step by auto
  qed
qed

lemma validate_limits_Inr:
  "validate_limits X e = Inr u \<longleftrightarrow>
     (\<exists>bytes. json_to_vec X (expression_json e) = Inr bytes \<and> length bytes \<le> MAX_BYTES)
     \<and> node_count e \<le> MAX_NODES \<and> height e \<le> MAX_DEPTH \<and> arity_ok e"
proof (cases "json_to_vec X (expression_json e)")
  case (Inr bytes)
  then show ?thesis by (auto simp: validate_limits_def visit_and_children_Inr(1) res_simps)
qed (simp add: validate_limits_def)

section \<open>Compiled filters evaluate without errors\<close>

text \<open>
  The classical reading of a filter: every connective total, no short circuit, no errors. A value
  reads as a list of integers, a number as the list of its one (signed or unsigned) value, text
  and bytes as their codes; the operators are those of the lexicographic order on such lists.
\<close>

fun runtime_reading :: "runtime_value \<Rightarrow> int list" where
  "runtime_reading (RUint w) = [uint w]"
| "runtime_reading (RInt w) = [sint w]"
| "runtime_reading (RBool b) = [of_bool b]"
| "runtime_reading (RAddress a) = [uint a]"
| "runtime_reading (RString s) = map (\<lambda>c. int (of_char c)) s"
| "runtime_reading (RBytes32 w) = map uint (be_bytes 32 w)"
| "runtime_reading (RBytes bs) = map uint bs"

fun literal_reading :: "filter_value \<Rightarrow> int list" where
  "literal_reading (FVUint w) = [uint w]"
| "literal_reading (FVInt w) = [sint w]"
| "literal_reading (FVBool b) = [of_bool b]"
| "literal_reading (FVAddress a) = [uint a]"
| "literal_reading (FVString s) = map (\<lambda>c. int (of_char c)) s"
| "literal_reading (FVBytes bs) = map uint bs"

definition op_meaning :: "comparison_operator \<Rightarrow> int list \<Rightarrow> int list \<Rightarrow> bool" where
  "op_meaning op x y =
     (case op of
        OpEq \<Rightarrow> x = y
      | OpNe \<Rightarrow> x \<noteq> y
      | OpGt \<Rightarrow> ord_class.lexordp y x
      | OpGte \<Rightarrow> \<not> ord_class.lexordp x y
      | OpLt \<Rightarrow> ord_class.lexordp x y
      | OpLte \<Rightarrow> \<not> ord_class.lexordp y x)"

definition comparison_holds :: "externs \<Rightarrow> target \<Rightarrow> filter_context \<Rightarrow> comparison \<Rightarrow> bool" where
  "comparison_holds X t ctx c =
     (case resolve_field X t (cmp_field c) [] of
        Inl _ \<Rightarrow> False
      | Inr (field, ty) \<Rightarrow>
          (case parse_value X ty (cmp_value c) [] of
             Inl _ \<Rightarrow> False
           | Inr (literal, _) \<Rightarrow>
               (case resolve_value field ctx of
                  Inl _ \<Rightarrow> False
                | Inr l \<Rightarrow> op_meaning (cmp_op c) (runtime_reading l) (literal_reading literal))))"

fun holds :: "externs \<Rightarrow> target \<Rightarrow> filter_context \<Rightarrow> filter_expression \<Rightarrow> bool" where
  "holds X t ctx (FAnd es) = list_all (holds X t ctx) es"
| "holds X t ctx (FOr es) = list_ex (holds X t ctx) es"
| "holds X t ctx (FNot e) = (\<not> holds X t ctx e)"
| "holds X t ctx (FCompare c) = comparison_holds X t ctx c"

definition context_conforms :: "target \<Rightarrow> filter_context \<Rightarrow> bool" where
  "context_conforms t ctx =
     (case (t, ctx) of
        (CallT c, CtxCall _ _ _ _ ps) \<Rightarrow> params_conform False (ct_inputs c) ps
      | (EventT e, CtxEvent _ _ _ _ ps) \<Rightarrow> params_conform True (et_params e) ps
      | _ \<Rightarrow> False)"

fun runtime_has_type :: "value_type \<Rightarrow> runtime_value \<Rightarrow> bool" where
  "runtime_has_type (TyUint _) v = (case v of RUint _ \<Rightarrow> True | _ \<Rightarrow> False)"
| "runtime_has_type (TyInt _) v = (case v of RInt _ \<Rightarrow> True | _ \<Rightarrow> False)"
| "runtime_has_type TyBool v = (case v of RBool _ \<Rightarrow> True | _ \<Rightarrow> False)"
| "runtime_has_type TyAddress v = (case v of RAddress _ \<Rightarrow> True | _ \<Rightarrow> False)"
| "runtime_has_type TyString v = (case v of RString _ \<Rightarrow> True | _ \<Rightarrow> False)"
| "runtime_has_type (TyBytes _) v = (case v of RBytes _ \<Rightarrow> True | RBytes32 _ \<Rightarrow> True | _ \<Rightarrow> False)"

fun literal_has_type :: "value_type \<Rightarrow> filter_value \<Rightarrow> bool" where
  "literal_has_type (TyUint _) v = (case v of FVUint _ \<Rightarrow> True | _ \<Rightarrow> False)"
| "literal_has_type (TyInt _) v = (case v of FVInt _ \<Rightarrow> True | _ \<Rightarrow> False)"
| "literal_has_type TyBool v = (case v of FVBool _ \<Rightarrow> True | _ \<Rightarrow> False)"
| "literal_has_type TyAddress v = (case v of FVAddress _ \<Rightarrow> True | _ \<Rightarrow> False)"
| "literal_has_type TyString v = (case v of FVString _ \<Rightarrow> True | _ \<Rightarrow> False)"
| "literal_has_type (TyBytes sz) v =
     (case v of FVBytes b \<Rightarrow> (case sz of None \<Rightarrow> True | Some n \<Rightarrow> length b = n) | _ \<Rightarrow> False)"

lemma case_uint_Inr:
  "(case r of VUint w n \<Rightarrow> Inr (f w) | _ \<Rightarrow> Inl e) = Inr y \<longleftrightarrow> (\<exists>w n. r = VUint w n \<and> y = f w)"
  by (cases r) auto

lemma case_int_Inr:
  "(case r of VInt w n \<Rightarrow> Inr (f w) | _ \<Rightarrow> Inl e) = Inr y \<longleftrightarrow> (\<exists>w n. r = VInt w n \<and> y = f w)"
  by (cases r) auto

lemma json_string_Inr [res_simps]: "json_string path v expected = Inr s \<longleftrightarrow> v = JString s"
  by (cases v) (auto simp: json_string_def)

lemma if_Inl_Inr: "(if b then Inl e else r) = Inr y \<longleftrightarrow> \<not> b \<and> r = Inr y"
  by simp

text \<open>When a literal parses, and to what; the path only labels the errors.\<close>

lemma parse_uint_Inr:
  "parse_uint X bits v path = Inr r \<longleftrightarrow>
     (\<exists>s w n. v = JString s \<and> s \<noteq> [] \<and> list_all is_ascii_digit s
        \<and> coerce_str X (TUint bits) s = Inr (VUint w n) \<and> r = (FVUint w, JString (u256_display X w)))"
  unfolding parse_uint_def res_bind_Inr json_string_Inr if_Inl_Inr map_err_Inr case_uint_Inr by blast

lemma parse_int_Inr:
  "parse_int X bits v path = Inr r \<longleftrightarrow>
     (\<exists>s d w n. v = JString s \<and> d = (case strip_prefix ''-'' s of None \<Rightarrow> s | Some d \<Rightarrow> d)
        \<and> d \<noteq> [] \<and> list_all is_ascii_digit d
        \<and> coerce_str X (TInt bits) s = Inr (VInt w n) \<and> r = (FVInt w, JString (i256_display X w)))"
  unfolding parse_int_def Let_def res_bind_Inr json_string_Inr if_Inl_Inr map_err_Inr case_int_Inr by blast

lemma parse_address_Inr:
  "parse_address X v path = Inr r \<longleftrightarrow>
     (\<exists>s h a. v = JString s \<and> strip_prefix ''0x'' s = Some h \<and> length h = 40
        \<and> list_all is_ascii_hexdigit h
        \<and> address_from_str X s = Inr a \<and> r = (FVAddress a, JString (address_display X a)))"
  unfolding parse_address_def res_bind_Inr json_string_Inr if_Inl_Inr map_err_Inr
  by (auto split: option.splits)

lemma parse_bytes_Inr:
  "parse_bytes X sz v path = Inr r \<longleftrightarrow>
     (\<exists>s h b. v = JString s \<and> strip_prefix ''0x'' s = Some h \<and> even (length h)
        \<and> list_all is_ascii_hexdigit h \<and> hex_decode X h = Inr b
        \<and> (case sz of None \<Rightarrow> True | Some n \<Rightarrow> length b = n)
        \<and> r = (FVBytes b, JString (''0x'' @ hex_encode X b)))"
  unfolding parse_bytes_def res_bind_Inr json_string_Inr if_Inl_Inr map_err_Inr ok_or_Inr
  by (cases sz) auto

lemma parse_bool_Inr:
  "(case v of JBool b \<Rightarrow> Inr (FVBool b, JBool b) | _ \<Rightarrow> Inl e) = Inr r \<longleftrightarrow>
     (\<exists>b. v = JBool b \<and> r = (FVBool b, JBool b))"
  by (cases v) auto

lemmas parse_value_Inr =
  parse_value_def parse_uint_Inr parse_int_Inr parse_address_Inr parse_bytes_Inr parse_bool_Inr

lemma parse_value_literal: "parse_value X ty v path = Inr (l, c) \<Longrightarrow> literal_has_type ty l"
  by (cases ty) (auto simp: parse_value_Inr res_simps)

lemma parse_value_path: "parse_value X ty v path = Inr r \<Longrightarrow> parse_value X ty v path' = Inr r"
  by (cases ty) (simp_all add: parse_value_Inr res_bind_Inr json_string_Inr)

lemma find_param_Some:
  "find_param name i ps = Some (j, p) \<Longrightarrow> i \<le> j \<and> j < i + length ps \<and> ps ! (j - i) = p \<and> param_name p = name"
proof (induction ps arbitrary: i)
  case (Cons q qs)
  show ?case
  proof (cases "param_name q = name")
    case False
    with Cons.prems have "find_param name (Suc i) qs = Some (j, p)" by simp
    from Cons.IH [OF this] show ?thesis by (auto simp: nth_Cons')
  qed (use Cons.prems in auto)
qed simp

lemma resolve_field_path:
  assumes "resolve_field X t f path = Inr r" shows "resolve_field X t f path' = Inr r"
proof (cases "strip_prefix ''params.'' f")
  case None
  with assms show ?thesis
    by (simp only: resolve_field_def option.simps split: if_splits) simp_all
next
  case (Some name)
  show ?thesis
  proof (cases "find_param name 0 (target_params t)")
    case None
    with Some assms show ?thesis
      by (simp only: resolve_field_def option.simps split: if_splits) simp_all
  next
    case (Some p)
    with \<open>strip_prefix ''params.'' f = Some name\<close> assms show ?thesis
      by (simp only: resolve_field_def option.simps)
  qed
qed

lemma value_type_runtime:
  "value_type X p event = Inr ty \<Longrightarrow> value_has_type (wire_type event p) d \<Longrightarrow>
     runtime_has_type ty (case d of DUint w \<Rightarrow> RUint w | DInt w \<Rightarrow> RInt w | DBool b \<Rightarrow> RBool b
       | DAddress a \<Rightarrow> RAddress a | DString s \<Rightarrow> RString s | DBytes b \<Rightarrow> RBytes b)"
  by (auto simp: value_type_def wire_type_def topic_type_def
      split: if_splits dyn_sol_type.splits decoded_value.splits)

lemma params_conform_nth:
  "params_conform event ps vs \<Longrightarrow> i < length ps \<Longrightarrow>
     i < length vs \<and> value_has_type (wire_type event (ps ! i)) (vs ! i)"
  by (auto simp: params_conform_def list_all2_conv_all_nth)

lemma context_conforms_params:
  "context_conforms t ctx \<Longrightarrow> params_conform (is_event_target t) (target_params t) (context_params ctx)"
  by (auto simp: context_conforms_def is_event_target_def target_params_def
      split: target.splits filter_context.splits)

lemma resolve_value_typed:
  assumes f: "resolve_field X t f path = Inr (field, ty)" and c: "context_conforms t ctx"
  shows "\<exists>l. resolve_value field ctx = Inr l \<and> runtime_has_type ty l"
proof (cases field)
  case (ParameterField i)
  with f obtain name p where p: "find_param name 0 (target_params t) = Some (i, p)"
    "value_type X p (is_event_target t) = Inr ty"
    by (auto simp: resolve_field_def res_simps split: if_splits option.splits prod.splits)
  have "i < length (target_params t)" "target_params t ! i = p"
    using find_param_Some [OF p(1)] by auto
  with params_conform_nth [OF context_conforms_params [OF c]] value_type_runtime [OF p(2)]
  show ?thesis by (auto simp: ParameterField resolve_value_def)
qed (use f c in \<open>auto simp: resolve_field_def resolve_value_def context_conforms_def is_event_target_def res_simps
      split: if_splits option.splits target.splits filter_context.splits\<close>)

lemma lexordp_total: "ord_class.lexordp x y \<longleftrightarrow> \<not> ord_class.lexordp y x \<and> x \<noteq> (y :: int list)"
  using lexordp_linear [of x y] lexordp_antisym [of x y] lexordp_irreflexive' [of x] by auto

lemma apply_op_meaning:
  assumes "\<And>a b. lt a b \<longleftrightarrow> ord_class.lexordp (f a) (f b)" and "inj f"
  shows "apply_op lt a op b = op_meaning op (f a) (f b)"
  using lexordp_total [of "f a" "f b"] lexordp_total [of "f b" "f a"] inj_eq [OF assms(2), of a b]
  by (cases op) (auto simp: apply_op_def op_meaning_def assms(1))

lemma lex_less_reading: "lex_less key xs ys \<longleftrightarrow> ord_class.lexordp (map (\<lambda>x. int (key x)) xs) (map (\<lambda>x. int (key x)) ys)"
  by (induction key xs ys rule: lex_less.induct) auto

lemma inj_word_readings:
  "inj (\<lambda>w :: 'a::len word. [uint w])" "inj (\<lambda>w :: 'a::len word. [sint w])" "inj (map (uint :: 'a word \<Rightarrow> int))"
  "inj (\<lambda>b :: bool. [of_bool b :: int])" "inj (map (\<lambda>c :: char. int (of_char c)))"
proof -
  show "inj (\<lambda>w :: 'a word. [uint w])" by (rule injI) (simp add: word_uint_eq_iff)
  show "inj (\<lambda>w :: 'a word. [sint w])"
    by (rule inj_on_inverseI [where g = "\<lambda>xs. word_of_int (hd xs)"]) simp
  show "inj (map (uint :: 'a word \<Rightarrow> int))" by (rule inj_mapI) (simp add: inj_def word_uint_eq_iff)
  show "inj (\<lambda>b :: bool. [of_bool b :: int])" by (rule injI) (simp add: of_bool_def split: if_splits)
  show "inj (map (\<lambda>c :: char. int (of_char c)))" by (rule inj_mapI) (simp add: inj_def)
qed

lemma be_bytes_lex_less: "lex_less unat xs ys \<longleftrightarrow> ord_class.lexordp (map uint xs) (map uint ys)"
  unfolding lex_less_reading by simp

lemma text_lex_less: "lex_less of_char s t \<longleftrightarrow> ord_class.lexordp (map (\<lambda>c. int (of_char c)) s) (map (\<lambda>c. int (of_char c)) t)"
  by (rule lex_less_reading)

lemma compare_typed:
  assumes "runtime_has_type ty l" and "literal_has_type ty r"
  shows "compare l op r = Inr (op_meaning op (runtime_reading l) (literal_reading r))"
  using assms
  by (cases ty)
    (auto simp: compare_def apply_op_meaning [OF _ inj_word_readings(1)] apply_op_meaning [OF _ inj_word_readings(2)]
      apply_op_meaning [OF _ inj_word_readings(4)]
      apply_op_meaning [OF text_lex_less inj_word_readings(5)] apply_op_meaning [OF be_bytes_lex_less inj_word_readings(3)]
      word_less_def split: runtime_value.splits filter_value.splits)

lemma evaluate_and_list_all:
  "(\<And>e. e \<in> set es \<Longrightarrow> evaluate e ctx = Inr (P e)) \<Longrightarrow> evaluate_and es ctx = Inr (list_all P es)"
  by (induction es) auto

lemma evaluate_or_list_ex:
  "(\<And>e. e \<in> set es \<Longrightarrow> evaluate e ctx = Inr (P e)) \<Longrightarrow> evaluate_or es ctx = Inr (list_ex P es)"
  by (induction es) auto

lemma evaluate_children_holds:
  assumes "list_all2 (\<lambda>e v. evaluate (snd v) ctx = Inr (holds X t ctx e)) es vs"
  shows "evaluate_and (map snd vs) ctx = Inr (list_all (holds X t ctx) es)"
    and "evaluate_or (map snd vs) ctx = Inr (list_ex (holds X t ctx) es)"
  using assms by (induction rule: list_all2_induct) auto

lemma compile_comparison_holds:
  assumes comp: "compile_comparison X t c path = Inr (e', compiled)" and conf: "context_conforms t ctx"
  shows "evaluate compiled ctx = Inr (comparison_holds X t ctx c)"
proof -
  from comp obtain field ty lit canon where
    rf: "resolve_field X t (cmp_field c) (path @ ''/field'') = Inr (field, ty)" and
    pv: "parse_value X ty (cmp_value c) (path @ ''/value'') = Inr (lit, canon)" and
    out: "compiled = CCompare field (cmp_op c) lit"
    by (auto simp: compile_comparison_def res_simps split: if_splits)
  obtain l where l: "resolve_value field ctx = Inr l" "runtime_has_type ty l"
    using resolve_value_typed [OF rf conf] by blast
  note b = compare_typed [OF l(2) parse_value_literal [OF pv], of "cmp_op c"]
  show ?thesis
    using resolve_field_path [OF rf, of "[]"] parse_value_path [OF pv, of "[]"]
    by (simp add: out l b comparison_holds_def)
qed

lemma compile_expression_holds:
  "compile_expression X e t path = Inr v \<Longrightarrow> context_conforms t ctx \<Longrightarrow>
     evaluate (snd v) ctx = Inr (holds X t ctx e)"
  "compile_children X es t base i = Inr vs \<Longrightarrow> context_conforms t ctx \<Longrightarrow>
     list_all2 (\<lambda>e v. evaluate (snd v) ctx = Inr (holds X t ctx e)) es vs"
proof (induction X e t path and X es t base i arbitrary: v and vs rule: compile_expression_compile_children.induct)
  case (4 X c t path)
  then show ?case using compile_comparison_holds by (cases v) auto
qed (fastforce simp: res_simps evaluate_children_holds)+

section \<open>Canonical expressions recompile to the same filter\<close>

lemma decimal_text_iff: "decimal_text s \<longleftrightarrow> s \<noteq> [] \<and> list_all is_ascii_digit s"
  by (simp add: decimal_text_def list_all_iff)

lemma hex_text_iff: "hex_text s \<longleftrightarrow> list_all is_ascii_hexdigit s"
  by (simp add: hex_text_def list_all_iff)

lemma parse_value_canonical:
  assumes laws: "value_text_laws X" and pv: "parse_value X ty v path = Inr (l, c)"
  shows "parse_value X ty c path = Inr (l, c)"
proof (cases ty)
  case (TyUint bits)
  with pv obtain s w n where s: "coerce_str X (TUint bits) s = Inr (VUint w n)"
    "l = FVUint w" "c = JString (u256_display X w)"
    by (auto simp: parse_value_Inr)
  from coerce_uint_law [OF laws s(1)] s show ?thesis
    by (auto simp: TyUint parse_value_Inr decimal_text_iff)
next
  case (TyInt bits)
  with pv obtain s w n where s: "coerce_str X (TInt bits) s = Inr (VInt w n)"
    "l = FVInt w" "c = JString (i256_display X w)"
    by (auto simp: parse_value_Inr)
  from coerce_int_law [OF laws s(1)] s show ?thesis
    by (auto simp: TyInt parse_value_Inr signed_decimal_text_def decimal_text_iff)
next
  case TyBool
  with pv show ?thesis by (auto simp: parse_value_Inr)
next
  case TyAddress
  with pv obtain a where a: "l = FVAddress a" "c = JString (address_display X a)"
    by (auto simp: parse_value_Inr)
  from address_text_law [OF laws, of a] obtain h where h: "address_display X a = ''0x'' @ h" "length h = 40"
    "hex_text h" "address_from_str X (address_display X a) = Inr a" by blast
  have "strip_prefix ''0x'' (address_display X a) = Some h" unfolding h(1) by (rule strip_prefix_append)
  with a h(2-4) show ?thesis
    by (simp add: TyAddress parse_value_Inr hex_text_iff)
next
  case TyString
  with pv show ?thesis by (auto simp: parse_value_Inr res_simps)
next
  case (TyBytes sz)
  with pv obtain b where b: "l = FVBytes b" "c = JString (''0x'' @ hex_encode X b)"
    "case sz of None \<Rightarrow> True | Some n \<Rightarrow> length b = n"
    by (auto simp: parse_value_Inr)
  have "strip_prefix ''0x'' (''0x'' @ hex_encode X b) = Some (hex_encode X b)" by (rule strip_prefix_append)
  with b hex_text_law [OF laws, of b] hex_length_law [OF laws, of b] hex_decode_law [OF laws, of b]
  show ?thesis
    by (auto simp: TyBytes parse_value_Inr hex_text_iff)
qed

lemma compile_comparison_canonical:
  assumes laws: "value_text_laws X" and comp: "compile_comparison X t c path = Inr v"
  shows "compile_expression X (fst v) t path = Inr v"
  using comp parse_value_canonical [OF laws]
  by (auto simp: compile_comparison_def res_simps split: if_splits)

lemma compile_expression_canonical:
  "compile_expression X e t path = Inr v \<Longrightarrow> value_text_laws X \<Longrightarrow>
     compile_expression X (fst v) t path = Inr v"
  "compile_children X es t base i = Inr vs \<Longrightarrow> value_text_laws X \<Longrightarrow>
     compile_children X (map fst vs) t base i = Inr vs"
proof (induction X e t path and X es t base i arbitrary: v and vs rule: compile_expression_compile_children.induct)
  case (4 X c t path)
  then show ?case using compile_comparison_canonical by simp
next
  case (1 X es t path)
  then show ?case by (auto simp: res_simps)
next
  case (2 X es t path)
  then show ?case by (auto simp: res_simps)
next
  case (3 X e t path)
  then obtain s c where "compile_expression X e t (path @ ''/not'') = Inr (s, c)"
    "v = (FNot s, CNot c)" by (auto simp: res_simps)
  with "3.IH" "3.prems"(2) show ?case by fastforce
next
  case (5 X t base index)
  then show ?case by simp
next
  case (6 X e es t base index)
  then obtain w ws where "compile_expression X e t (base @ show_nat index) = Inr w"
    "compile_children X es t base (Suc index) = Inr ws" "vs = w # ws"
    by (auto simp: res_simps)
  with 6 show ?case by simp
qed

text \<open>Canonicalization keeps the shape of the tree, hence its limits.\<close>

lemma compile_expression_shape:
  "compile_expression X e t path = Inr v \<Longrightarrow>
     node_count (fst v) = node_count e \<and> height (fst v) = height e \<and> arity_ok (fst v) = arity_ok e"
  "compile_children X es t base i = Inr vs \<Longrightarrow>
     map node_count (map fst vs) = map node_count es \<and> map height (map fst vs) = map height es
     \<and> map arity_ok (map fst vs) = map arity_ok es"
proof (induction X e t path and X es t base i arbitrary: v and vs rule: compile_expression_compile_children.induct)
  case (1 X es t path)
  then obtain vs where vs: "compile_children X es t (path @ ''/and/'') 0 = Inr vs"
    "v = (FAnd (map fst vs), CAnd (map snd vs))" by (auto simp: res_simps)
  note IH = "1.IH" [OF vs(1)]
  from IH have "length vs = length es" by (metis length_map)
  moreover have "list_all arity_ok (map fst vs) = list_all arity_ok es"
    using IH by (metis list_all_length length_map nth_map)
  ultimately show ?case using IH vs(2) by simp
next
  case (2 X es t path)
  then obtain vs where vs: "compile_children X es t (path @ ''/or/'') 0 = Inr vs"
    "v = (FOr (map fst vs), COr (map snd vs))" by (auto simp: res_simps)
  note IH = "2.IH" [OF vs(1)]
  from IH have "length vs = length es" by (metis length_map)
  moreover have "list_all arity_ok (map fst vs) = list_all arity_ok es"
    using IH by (metis list_all_length length_map nth_map)
  ultimately show ?case using IH vs(2) by simp
next
  case (4 X c t path)
  then show ?case by (auto simp: compile_comparison_def res_simps split: if_splits)
next
  case (3 X e t path)
  then obtain s c where "compile_expression X e t (path @ ''/not'') = Inr (s, c)"
    "v = (FNot s, CNot c)" by (auto simp: res_simps)
  with "3.IH" show ?case by fastforce
next
  case (5 X t base index)
  then show ?case by simp
next
  case (6 X e es t base index)
  then obtain w ws where "compile_expression X e t (base @ show_nat index) = Inr w"
    "compile_children X es t base (Suc index) = Inr ws" "vs = w # ws"
    by (auto simp: res_simps)
  with "6.IH" show ?case by simp
qed

section \<open>Sample values conform to the schema\<close>

lemma value_type_literal:
  "value_type X p event = Inr ty \<Longrightarrow> literal_has_type ty l \<Longrightarrow>
     value_has_type (wire_type event p) (literal_value l)"
  by (auto simp: value_type_def wire_type_def topic_type_def
      split: if_splits dyn_sol_type.splits filter_value.splits)

lemma decode_sample_list_conform:
  "decode_sample_list X ps event vals = Inr vs \<Longrightarrow> params_conform event ps vs"
proof (induction ps arbitrary: vals vs)
  case Nil
  then show ?case by (simp add: params_conform_def)
next
  case (Cons p ps)
  then obtain v ty l c rest where
    "value_type X p event = Inr ty"
    "parse_value X ty v (''/sample/params/'' @ param_name p) = Inr (l, c)"
    "decode_sample_list X ps event (List.filter (\<lambda>(k, _). k \<noteq> param_name p) vals) = Inr rest"
    "vs = literal_value l # rest"
    by (auto simp: Let_def res_simps)
  with Cons.IH value_type_literal parse_value_literal show ?case
    unfolding params_conform_def by (metis list_all2_Cons)
qed

lemma decode_sample_params_conform:
  "decode_sample_params X ps event vals = Inr vs \<Longrightarrow> params_conform event ps vs"
  by (auto simp: decode_sample_params_def decode_sample_list_conform split: if_splits)

end
