(* ===== verification/Containers.thy ===== *)
theory Containers
  imports Prelude "HOL-Library.Multiset"
begin

text \<open>
  The standard-library containers the components use, as lists: \<open>BTreeMap\<close> entries and
  \<open>BTreeSet\<close> elements in ascending order of their keys, slices with checked indexing and the
  bisection of \<open>slice::binary_search\<close>.
\<close>

section \<open>Slices\<close>

definition slice_get :: "'a list \<Rightarrow> nat \<Rightarrow> 'a option" where
  "slice_get xs i = (if i < length xs then Some (xs ! i) else None)"

lemma slice_get_Some [res_simps]: "slice_get xs i = Some x \<longleftrightarrow> i < length xs \<and> x = xs ! i"
  by (auto simp: slice_get_def)

text \<open>
  \<open>slice::binary_search(x).is_ok()\<close>: bisect the window of \<open>sz\<close> elements that starts at
  \<open>base\<close>, then compare the one element that is left.
\<close>

function bisect :: "'a::linorder list \<Rightarrow> 'a \<Rightarrow> nat \<Rightarrow> nat \<Rightarrow> nat" where
  "bisect xs x base sz =
     (if sz \<le> 1 then base
      else
        (let half = sz div 2; mid = base + half in
         bisect xs x (if x < xs ! mid then base else mid) (sz - half)))"
  by pat_completeness auto
termination by (relation "measure (\<lambda>(xs, x, base, sz). sz)") auto

declare bisect.simps [simp del]

definition binary_search :: "'a::linorder list \<Rightarrow> 'a \<Rightarrow> bool" where
  "binary_search xs x = (xs \<noteq> [] \<and> xs ! bisect xs x 0 (length xs) = x)"

lemma bisect_bounds:
  "0 < sz \<Longrightarrow> base \<le> bisect xs x base sz \<and> bisect xs x base sz < base + sz"
proof (induction xs x base sz rule: bisect.induct)
  case (1 xs x base sz)
  show ?case
  proof (cases "sz \<le> 1")
    case True
    with 1 show ?thesis by (simp add: bisect.simps)
  next
    case False
    let ?half = "sz div 2"
    let ?base = "if x < xs ! (base + ?half) then base else base + ?half"
    from False have "0 < sz - ?half" by simp
    from "1.IH" [OF False refl refl this] have "?base \<le> bisect xs x ?base (sz - ?half)
        \<and> bisect xs x ?base (sz - ?half) < ?base + (sz - ?half)" .
    moreover have "bisect xs x base sz = bisect xs x ?base (sz - ?half)"
      using False by (subst bisect.simps) (simp add: Let_def)
    moreover have "base \<le> ?base" "?base \<le> base + ?half" "?half + (sz - ?half) = sz" by simp_all
    ultimately show ?thesis by linarith
  qed
qed

lemma bisect_finds:
  assumes "sorted xs" and "base \<le> i" and "i < base + sz" and "base + sz \<le> length xs"
    and "xs ! i = x"
  shows "xs ! bisect xs x base sz = x"
  using assms
proof (induction xs x base sz arbitrary: i rule: bisect.induct)
  case (1 xs x base sz)
  show ?case
  proof (cases "sz \<le> 1")
    case True
    with 1 have "i = base" by simp
    with True 1 show ?thesis by (simp add: bisect.simps)
  next
    case False
    let ?half = "sz div 2"
    let ?base = "if x < xs ! (base + ?half) then base else base + ?half"
    have step: "bisect xs x base sz = bisect xs x ?base (sz - ?half)"
      using False by (subst bisect.simps) (simp add: Let_def)
    have "\<exists>j. ?base \<le> j \<and> j < ?base + (sz - ?half) \<and> xs ! j = x"
    proof (cases "x < xs ! (base + ?half)")
      case True
      have "i < base + ?half"
      proof (rule ccontr)
        assume "\<not> i < base + ?half"
        then have "xs ! (base + ?half) \<le> xs ! i"
          using "1.prems" by (intro sorted_nth_mono) auto
        with True "1.prems" show False by simp
      qed
      with True "1.prems" show ?thesis by (auto intro!: exI [of _ i])
    next
      case ge: False
      show ?thesis
      proof (cases "base + ?half \<le> i")
        case True
        with ge "1.prems" show ?thesis by (auto intro!: exI [of _ i])
      next
        case i: False
        then have "xs ! i \<le> xs ! (base + ?half)"
          using "1.prems" False by (intro sorted_nth_mono) auto
        with ge "1.prems" have "xs ! (base + ?half) = x" by simp
        with ge False show ?thesis by (auto intro!: exI [of _ "base + ?half"])
      qed
    qed
    then obtain j where j: "?base \<le> j" "j < ?base + (sz - ?half)" "xs ! j = x" by blast
    have "?base + (sz - ?half) \<le> length xs" using "1.prems" False by auto
    from "1.IH" [OF False refl refl "1.prems"(1) j(1,2) this j(3)] show ?thesis
      unfolding step .
  qed
qed

lemma binary_search_iff: "sorted xs \<Longrightarrow> binary_search xs x \<longleftrightarrow> x \<in> set xs"
proof
  assume found: "binary_search xs x"
  then have "bisect xs x 0 (length xs) < length xs"
    using bisect_bounds [of "length xs" 0 xs x] by (auto simp: binary_search_def)
  with found show "x \<in> set xs" by (metis binary_search_def nth_mem)
next
  assume "sorted xs" "x \<in> set xs"
  then show "binary_search xs x"
    using bisect_finds [of xs 0 _ "length xs" x] by (auto simp: binary_search_def in_set_conv_nth)
qed

section \<open>Ordered maps of vectors\<close>

text \<open>\<open>map.entry(k).or_default().push(v)\<close> on a \<open>BTreeMap\<close>.\<close>

fun entry_push :: "'k::linorder \<Rightarrow> 'v \<Rightarrow> ('k \<times> 'v list) list \<Rightarrow> ('k \<times> 'v list) list" where
  "entry_push k v [] = [(k, [v])]"
| "entry_push k v ((k', vs) # m) =
     (if k < k' then (k, [v]) # (k', vs) # m
      else if k = k' then (k', vs @ [v]) # m
      else (k', vs) # entry_push k v m)"

definition entry_get :: "('k \<times> 'v list) list \<Rightarrow> 'k \<Rightarrow> 'v list" where
  "entry_get m k = (case map_of m k of None \<Rightarrow> [] | Some vs \<Rightarrow> vs)"

definition ordered_entries :: "('k::linorder \<times> 'v list) list \<Rightarrow> bool" where
  "ordered_entries m = (sorted_wrt (<) (map fst m) \<and> (\<forall>(k, vs) \<in> set m. vs \<noteq> []))"

lemma ordered_entries_Nil [simp]: "ordered_entries []" and entry_get_Nil [simp]: "entry_get [] k = []"
  by (simp_all add: ordered_entries_def entry_get_def)

lemma fst_entry_push: "fst ` set (entry_push k v m) = insert k (fst ` set m)"
  by (induction k v m rule: entry_push.induct) auto

lemma ordered_entry_push: "ordered_entries m \<Longrightarrow> ordered_entries (entry_push k v m)"
proof (induction k v m rule: entry_push.induct)
  case (2 k v k' vs m)
  from "2.prems" have m: "ordered_entries m" "\<forall>x \<in> fst ` set m. k' < x" "vs \<noteq> []"
    by (auto simp: ordered_entries_def)
  have "ordered_entries ((k', vs) # entry_push k v m)" if "k' < k"
    using "2.IH" m that fst_entry_push [of k v m]
    by (auto simp: ordered_entries_def fst_entry_push [simplified])
  with "2.prems" m show ?case by (auto simp: ordered_entries_def)
qed (simp add: ordered_entries_def)

lemma entry_get_push:
  "ordered_entries m \<Longrightarrow>
     entry_get (entry_push k v m) k' = (if k' = k then entry_get m k @ [v] else entry_get m k')"
proof (induction k v m rule: entry_push.induct)
  case (2 k v k2 vs m)
  from "2.prems" have m: "ordered_entries m" "\<forall>x \<in> fst ` set m. k2 < x"
    by (auto simp: ordered_entries_def)
  then have "map_of m k = None" if "k < k2" using that by (force simp: map_of_eq_None_iff)
  with "2.IH" m show ?case by (auto simp: entry_get_def)
qed (auto simp: entry_get_def)

text \<open>Pushing a list of pairs groups it by key and keeps its order.\<close>

lemma foldl_entry_push:
  assumes "ordered_entries m"
  shows "ordered_entries (foldl (\<lambda>m (k, v). entry_push k v m) m ps)
    \<and> entry_get (foldl (\<lambda>m (k, v). entry_push k v m) m ps) k
        = entry_get m k @ map snd (filter (\<lambda>p. fst p = k) ps)"
  using assms
proof (induction ps arbitrary: m)
  case (Cons p ps)
  then show ?case by (cases p) (simp add: ordered_entry_push entry_get_push)
qed simp

lemma entry_in_get:
  "ordered_entries m \<Longrightarrow> (k, vs) \<in> set m \<longleftrightarrow> vs = entry_get m k \<and> vs \<noteq> []"
proof -
  assume m: "ordered_entries m"
  then have "distinct (map fst m)"
    by (simp add: ordered_entries_def strict_sorted_iff)
  with m show ?thesis
    by (auto simp: entry_get_def ordered_entries_def split: option.splits
        dest: map_of_SomeD eq_key_imp_eq_value)
qed

section \<open>Ordered sets\<close>

text \<open>\<open>BTreeSet::insert\<close>.\<close>

fun ordered_insert :: "'a::linorder \<Rightarrow> 'a list \<Rightarrow> 'a list" where
  "ordered_insert x [] = [x]"
| "ordered_insert x (y # ys) =
     (if x < y then x # y # ys else if x = y then y # ys else y # ordered_insert x ys)"

lemma set_ordered_insert [simp]: "set (ordered_insert x ys) = insert x (set ys)"
  by (induction x ys rule: ordered_insert.induct) auto

lemma sorted_ordered_insert: "sorted_wrt (<) ys \<Longrightarrow> sorted_wrt (<) (ordered_insert x ys)"
  by (induction x ys rule: ordered_insert.induct) auto

lemma sorted_wrt_less_sorted: "sorted_wrt (<) xs \<Longrightarrow> sorted (xs :: 'a::linorder list) \<and> distinct xs"
  by (induction xs) auto

text \<open>Two ascending lists with the same elements are the same list.\<close>

lemma sorted_wrt_less_unique:
  "sorted_wrt (<) xs \<Longrightarrow> sorted_wrt (<) ys \<Longrightarrow> set xs = set ys \<Longrightarrow> xs = (ys :: 'a::linorder list)"
  using sorted_wrt_less_sorted [of xs] sorted_wrt_less_sorted [of ys] by (auto intro: sorted_distinct_set_unique)

lemma distinct_remdups_adj_sorted: "sorted xs \<Longrightarrow> distinct (remdups_adj xs)"
  by (induction xs rule: remdups_adj.induct) auto

lemma sort_remdups_adj:
  "sorted_wrt (<) (remdups_adj (sort xs)) \<and> set (remdups_adj (sort xs)) = set (xs :: 'a::linorder list)"
proof
  have "sorted (remdups_adj (sort xs))" "distinct (remdups_adj (sort xs))"
    by (auto simp: sorted_remdups_adj distinct_remdups_adj_sorted)
  then show "sorted_wrt (<) (remdups_adj (sort xs))"
    by (simp add: strict_sorted_iff)
qed simp

section \<open>Multisets of grouped results\<close>

lemma mset_concat_partition:
  assumes "distinct (map key gs)"
  shows "mset (concat (map (\<lambda>g. filter (\<lambda>i. lay i = Some (key g)) is) gs))
    = mset (filter (\<lambda>i. \<exists>g \<in> set gs. lay i = Some (key g)) is)"
  using assms
proof (induction gs)
  case (Cons g gs)
  have "\<not> (\<exists>g' \<in> set gs. lay i = Some (key g'))" if "lay i = Some (key g)" for i
    using Cons.prems that by (auto simp: rev_image_eqI)
  then have "filter_mset (\<lambda>i. lay i = Some (key g) \<or> (\<exists>g \<in> set gs. lay i = Some (key g))) (mset is)
     = filter_mset (\<lambda>i. lay i = Some (key g)) (mset is)
       + filter_mset (\<lambda>i. \<exists>g \<in> set gs. lay i = Some (key g)) (mset is)"
    by (induction "is") auto
  with Cons show ?case by (simp add: mset_filter)
qed simp

section \<open>Rows with a key\<close>

lemma find_map_same:
  "(\<And>r. p (g r) = p r) \<Longrightarrow> List.find p (map g rs) = map_option g (List.find p rs)"
  by (induction rs) auto

lemma find_distinct_key:
  "distinct (map f rs) \<Longrightarrow> r \<in> set rs \<Longrightarrow> List.find (\<lambda>x. f x = f r) rs = Some r"
  by (induction rs) (auto simp: image_iff)

lemma matched_all:
  assumes "distinct (map f rs)" and "distinct ks" and "length (filter (\<lambda>r. f r \<in> set ks \<and> q r) rs) = length ks"
  shows "\<forall>k \<in> set ks. \<exists>r \<in> set rs. f r = k \<and> q r"
proof -
  let ?sel = "filter (\<lambda>r. f r \<in> set ks \<and> q r) rs"
  have "distinct (map f ?sel)" using assms(1) by (simp add: distinct_map_filter)
  then have "card (f ` set ?sel) = card (set ks)"
    using assms(2,3) by (metis distinct_card length_map list.set_map)
  moreover have "f ` set ?sel \<subseteq> set ks" by auto
  ultimately have "f ` set ?sel = set ks" by (intro card_subset_eq) auto
  show ?thesis
  proof
    fix k assume "k \<in> set ks"
    with \<open>f ` set ?sel = set ks\<close> have "k \<in> f ` set ?sel" by simp
    then show "\<exists>r \<in> set rs. f r = k \<and> q r" by auto
  qed
qed

end
