(* ===== verification/Monitors.thy ===== *)
theory Monitors
  imports Filters Containers
begin

text \<open>
  \<open>parseon-core/src/monitor.rs\<close> and \<open>scheduler.rs\<close>: the monitor definition with its range and
  cursor helpers, and the plan that maps each wanted block to the monitors that cover it.
\<close>

section \<open>Monitors\<close>

record monitor =
  mon_id :: monitor_id
  mon_chain :: chain
  mon_target :: target
  mon_start_block :: block_number
  mon_end_block :: "block_number option"
  mon_cursor :: cursor
  mon_completed :: bool
  mon_enabled :: bool
  mon_filter :: monitor_filter

definition covers :: "monitor \<Rightarrow> block_number \<Rightarrow> bool" where
  "covers m b =
     (mon_enabled m \<and> \<not> mon_completed m \<and> mon_start_block m \<le> b
      \<and> (case mon_end_block m of None \<Rightarrow> True | Some e \<Rightarrow> b \<le> e))"

definition next_block :: "monitor \<Rightarrow> block_number" where
  "next_block m = cursor_next (mon_cursor m) (mon_start_block m)"

definition needs_block :: "monitor \<Rightarrow> block_number \<Rightarrow> bool" where
  "needs_block m b =
     (covers m b \<and> (case cursor_block (mon_cursor m) of None \<Rightarrow> True | Some c \<Rightarrow> c < b))"

section \<open>Block planning\<close>

record block_plan =
  bp_block_number :: block_number
  bp_monitor_indices :: "nat list"

text \<open>The bounds \<open>from..=to\<close> of one monitor; the batch size is a \<open>NonZeroU64\<close>.\<close>

definition plan_to :: "monitor \<Rightarrow> block_number \<Rightarrow> u64 \<Rightarrow> block_number" where
  "plan_to m finalized_head batch_size =
     min (min (case mon_end_block m of None \<Rightarrow> finalized_head | Some e \<Rightarrow> e) finalized_head)
         (saturating_add (next_block m) (batch_size - 1))"

fun plan_loop ::
  "nat \<Rightarrow> monitor list \<Rightarrow> block_number \<Rightarrow> u64 \<Rightarrow> (block_number \<times> nat list) list
     \<Rightarrow> (block_number \<times> nat list) list" where
  "plan_loop index [] finalized_head batch_size wanted = wanted"
| "plan_loop index (m # ms) finalized_head batch_size wanted =
     plan_loop (Suc index) ms finalized_head batch_size
       (foldl (\<lambda>w b. entry_push b index w) wanted
         (range_inclusive (next_block m) (plan_to m finalized_head batch_size)))"

definition plan_blocks :: "monitor list \<Rightarrow> block_number \<Rightarrow> u64 \<Rightarrow> block_plan list" where
  "plan_blocks monitors finalized_head batch_size =
     map (\<lambda>(b, is). \<lparr>bp_block_number = b, bp_monitor_indices = is\<rparr>)
       (plan_loop 0 monitors finalized_head batch_size [])"

section \<open>The plan is exact\<close>

text \<open>When a poll wants block \<open>b\<close> for a monitor: in its range, finalized, in the batch.\<close>

definition wants :: "monitor \<Rightarrow> block_number \<Rightarrow> u64 \<Rightarrow> block_number \<Rightarrow> bool" where
  "wants m finalized_head batch_size b =
     (next_block m \<le> b \<and> b \<le> finalized_head
      \<and> (case mon_end_block m of None \<Rightarrow> True | Some e \<Rightarrow> b \<le> e)
      \<and> unat b < unat (next_block m) + unat batch_size)"

lemma batch_bound:
  assumes "batch_size \<noteq> 0"
  shows "b \<le> saturating_add from (batch_size - 1) \<longleftrightarrow> unat b < unat from + unat batch_size"
proof -
  have pos: "0 < unat batch_size" using assms by (simp add: unat_gt_0)
  then have "unat (batch_size - 1) = unat batch_size - 1"
    by (simp add: unat_sub word_le_nat_alt Suc_le_eq)
  then have "unat (saturating_add from (batch_size - 1))
      = min (unat from + unat batch_size - 1) 18446744073709551615"
    using pos by (simp add: u64_simps)
  with pos unat_lt_64 [of b] show ?thesis by (auto simp: word_le_nat_alt simp del: unat_lt_64)
qed

lemma in_plan_range:
  "batch_size \<noteq> 0 \<Longrightarrow>
     b \<in> set (range_inclusive (next_block m) (plan_to m finalized_head batch_size))
       \<longleftrightarrow> wants m finalized_head batch_size b"
  by (auto simp: plan_to_def wants_def batch_bound split: option.splits)

lemma distinct_range_inclusive: "distinct (range_inclusive a b)"
proof -
  have "distinct (map unat (range_inclusive a b))" unfolding map_unat_range_inclusive by simp
  then show ?thesis by (simp add: distinct_map)
qed

lemma foldl_push_index:
  assumes "ordered_entries w" and "distinct bs"
  shows "ordered_entries (foldl (\<lambda>w b. entry_push b index w) w bs)
    \<and> entry_get (foldl (\<lambda>w b. entry_push b index w) w bs) k
        = entry_get w k @ (if k \<in> set bs then [index] else [])"
  using assms
  by (induction bs arbitrary: w) (auto simp: ordered_entry_push entry_get_push)

lemma plan_loop_spec:
  assumes "batch_size \<noteq> 0" and "ordered_entries w"
  shows "ordered_entries (plan_loop index ms head batch_size w)
    \<and> entry_get (plan_loop index ms head batch_size w) b
        = entry_get w b
          @ filter (\<lambda>i. wants (ms ! (i - index)) head batch_size b) [index ..< index + length ms]"
  using assms(2)
proof (induction ms arbitrary: index w)
  case (Cons m ms)
  let ?w = "foldl (\<lambda>w b. entry_push b index w) w (range_inclusive (next_block m) (plan_to m head batch_size))"
  note step = foldl_push_index [OF Cons.prems distinct_range_inclusive, of index "next_block m" "plan_to m head batch_size"]
  have "filter (\<lambda>i. wants (ms ! (i - Suc index)) head batch_size b) [Suc index ..< Suc index + length ms]
      = filter (\<lambda>i. wants ((m # ms) ! (i - index)) head batch_size b) [Suc index ..< Suc index + length ms]"
    by (rule filter_cong) (auto simp: nth_Cons' Suc_diff_le)
  moreover have "[index ..< index + length (m # ms)] = index # [Suc index ..< Suc index + length ms]"
    by (simp add: upt_rec [of index] Suc_le_eq)
  ultimately show ?case
    using Cons.IH [of ?w "Suc index"] step in_plan_range [OF assms(1), of b m head] by simp
qed simp

definition planned_for :: "monitor list \<Rightarrow> block_number \<Rightarrow> u64 \<Rightarrow> block_number \<Rightarrow> nat list" where
  "planned_for ms head batch_size b = filter (\<lambda>i. wants (ms ! i) head batch_size b) [0 ..< length ms]"

lemma set_planned_for [simp]:
  "i \<in> set (planned_for ms head batch_size b) \<longleftrightarrow> i < length ms \<and> wants (ms ! i) head batch_size b"
  by (auto simp: planned_for_def)

lemma sorted_planned_for: "sorted_wrt (<) (planned_for ms head batch_size b)"
  by (simp add: planned_for_def sorted_wrt_filter)

lemma plan_entries:
  assumes "batch_size \<noteq> 0"
  shows "ordered_entries (plan_loop 0 ms head batch_size [])"
    and "entry_get (plan_loop 0 ms head batch_size []) b = planned_for ms head batch_size b"
  using plan_loop_spec [OF assms ordered_entries_Nil, of 0 ms head b] by (simp_all add: planned_for_def)

lemma set_plan_blocks:
  assumes "batch_size \<noteq> 0"
  shows "p \<in> set (plan_blocks ms head batch_size) \<longleftrightarrow>
    bp_monitor_indices p = planned_for ms head batch_size (bp_block_number p) \<and> bp_monitor_indices p \<noteq> []"
proof -
  have "p \<in> set (plan_blocks ms head batch_size)
      \<longleftrightarrow> (bp_block_number p, bp_monitor_indices p) \<in> set (plan_loop 0 ms head batch_size [])"
    by (force simp: plan_blocks_def)
  then show ?thesis by (simp add: entry_in_get plan_entries [OF assms])
qed

lemma plan_blocks_ascending:
  assumes "batch_size \<noteq> 0"
  shows "sorted_wrt (<) (map bp_block_number (plan_blocks ms head batch_size))"
proof -
  have "map bp_block_number (plan_blocks ms head batch_size)
      = map fst (plan_loop 0 ms head batch_size [])"
    by (simp add: plan_blocks_def case_prod_beta)
  with plan_entries(1) [OF assms, of ms head] show ?thesis by (simp add: ordered_entries_def)
qed

lemma plan_blocks_planned:
  assumes "batch_size \<noteq> 0" and "i < length ms" and "wants (ms ! i) head batch_size b"
  shows "\<lparr>bp_block_number = b, bp_monitor_indices = planned_for ms head batch_size b\<rparr>
    \<in> set (plan_blocks ms head batch_size)"
proof -
  have "i \<in> set (planned_for ms head batch_size b)" using assms(2,3) by simp
  then have "planned_for ms head batch_size b \<noteq> []" by force
  then show ?thesis by (simp add: set_plan_blocks [OF assms(1)])
qed

text \<open>
  Storage keeps a cursor inside the monitor's range; then every planned block is one its
  monitors need, so none of its results is dropped.
\<close>

definition cursor_in_range :: "monitor \<Rightarrow> bool" where
  "cursor_in_range m =
     (case cursor_block (mon_cursor m) of None \<Rightarrow> True
      | Some c \<Rightarrow> mon_start_block m \<le> c \<and> c < - 1)"

lemma wants_needs_block:
  assumes "cursor_in_range m" and "mon_enabled m" and "\<not> mon_completed m"
    and "wants m head batch_size b"
  shows "needs_block m b"
proof (cases "cursor_block (mon_cursor m)")
  case None
  with assms show ?thesis
    by (auto simp: needs_block_def covers_def wants_def next_block_def cursor_next_def)
next
  case (Some c)
  with assms have c: "mon_start_block m \<le> c" "c < - 1" by (auto simp: cursor_in_range_def)
  then have "unat c < 18446744073709551615" by (simp add: word_less_nat_alt u64_simps)
  with Some assms c show ?thesis
    by (auto simp: needs_block_def covers_def wants_def next_block_def cursor_next_def
        word_le_nat_alt word_less_nat_alt u64_simps split: option.splits)
qed

lemma needs_block_not_before: "needs_block m b \<Longrightarrow> next_block m \<le> b"
  by (auto simp: needs_block_def covers_def next_block_def cursor_next_def word_le_nat_alt
      word_less_nat_alt u64_simps split: option.splits)

end
