(* ===== verification/Indexer.thy ===== *)
theory Indexer
  imports Monitors
begin

text \<open>
  \<open>parseon-core/src/indexer.rs\<close>: the per-poll index that hashes call targets by address and
  selector and event targets by address and topic, and groups the monitors of one key by the
  ABI wire layout; and the decoding of one block's transactions or logs, once per layout, fanned
  out to the monitors of the group. The outer hash maps are partial maps; the inner ones are
  lists of their entries. The code iterates over an inner map in the map's own order, which the
  parameter \<open>H\<close> stands for.
\<close>

section \<open>The index\<close>

record ('layout, 'decoder) layout_group =
  lg_layout :: 'layout
  lg_monitor_indices :: "nat list"
  lg_decoder :: 'decoder

type_synonym call_layout = "string list"
type_synonym event_layout = "(string \<times> bool) list"
type_synonym call_group = "(call_layout, call_decoder) layout_group"
type_synonym event_group = "(event_layout, event_decoder) layout_group"

record monitor_index =
  mi_monitors :: "monitor list"
  mi_calls :: "address \<times> selector \<Rightarrow> call_group list option"
  mi_events :: "address \<times> b256 \<Rightarrow> event_group list option"

text \<open>The iteration order of the inner hash maps.\<close>

record hash_order =
  ho_calls :: "call_group list \<Rightarrow> call_group list"
  ho_events :: "event_group list \<Rightarrow> event_group list"

definition hash_order_ok :: "hash_order \<Rightarrow> bool" where
  "hash_order_ok H =
     ((\<forall>gs. mset (ho_calls H gs) = mset gs) \<and> (\<forall>gs. mset (ho_events H gs) = mset gs))"

definition call_layout_of :: "externs \<Rightarrow> call_target \<Rightarrow> call_layout" where
  "call_layout_of X t = map (sol_type X) (ct_inputs t)"

definition event_layout_of :: "externs \<Rightarrow> event_target \<Rightarrow> event_layout" where
  "event_layout_of X t = map (\<lambda>p. (sol_type X p, param_indexed p)) (et_params t)"

text \<open>
  \<open>layouts.get_mut(&layout)\<close> with a push, or an insert of a fresh group whose decoder
  \<open>mk\<close> builds.
\<close>

fun group_push ::
  "'l \<Rightarrow> nat \<Rightarrow> 'd result \<Rightarrow> ('l, 'd) layout_group list \<Rightarrow> ('l, 'd) layout_group list result" where
  "group_push layout index mk [] =
     res_bind mk (\<lambda>d. Inr [\<lparr>lg_layout = layout, lg_monitor_indices = [index], lg_decoder = d\<rparr>])"
| "group_push layout index mk (g # gs) =
     (if lg_layout g = layout
      then Inr (g\<lparr>lg_monitor_indices := lg_monitor_indices g @ [index]\<rparr> # gs)
      else res_bind (group_push layout index mk gs) (\<lambda>gs'. Inr (g # gs')))"

definition entry_groups :: "('k \<Rightarrow> 'g list option) \<Rightarrow> 'k \<Rightarrow> 'g list" where
  "entry_groups m k = (case m k of None \<Rightarrow> [] | Some gs \<Rightarrow> gs)"

definition index_monitor :: "externs \<Rightarrow> nat \<Rightarrow> monitor \<Rightarrow> monitor_index \<Rightarrow> monitor_index result" where
  "index_monitor X index m idx =
     (case mon_target m of
        CallT t \<Rightarrow>
          (let key = (ct_address t, ct_selector t) in
           res_bind (group_push (call_layout_of X t) index (Inr (call_decoder_new (ct_inputs t)))
                       (entry_groups (mi_calls idx) key)) (\<lambda>gs.
           Inr (idx\<lparr>mi_calls := (mi_calls idx)(key \<mapsto> gs)\<rparr>)))
      | EventT t \<Rightarrow>
          (let key = (et_address t, et_topic0 t) in
           res_bind (group_push (event_layout_of X t) index (event_decoder_new X (et_params t) (et_topic0 t))
                       (entry_groups (mi_events idx) key)) (\<lambda>gs.
           Inr (idx\<lparr>mi_events := (mi_events idx)(key \<mapsto> gs)\<rparr>))))"

fun index_loop :: "externs \<Rightarrow> nat \<Rightarrow> monitor list \<Rightarrow> monitor_index \<Rightarrow> monitor_index result" where
  "index_loop X index [] idx = Inr idx"
| "index_loop X index (m # ms) idx =
     res_bind (index_monitor X index m idx) (\<lambda>idx'. index_loop X (Suc index) ms idx')"

definition active_monitors :: "monitor list \<Rightarrow> monitor list" where
  "active_monitors ms = filter (\<lambda>m. mon_enabled m \<and> \<not> mon_completed m) ms"

definition monitor_index_new :: "externs \<Rightarrow> monitor list \<Rightarrow> monitor_index result" where
  "monitor_index_new X ms =
     (let active = active_monitors ms in
      index_loop X 0 active \<lparr>mi_monitors = active, mi_calls = Map.empty, mi_events = Map.empty\<rparr>)"

definition index_get_monitor :: "monitor_index \<Rightarrow> nat \<Rightarrow> monitor option" where
  "index_get_monitor idx i = slice_get (mi_monitors idx) i"

definition monitor_is_planned :: "monitor_index \<Rightarrow> nat \<Rightarrow> block_number \<Rightarrow> nat list \<Rightarrow> bool" where
  "monitor_is_planned idx i block planned =
     (binary_search planned i
      \<and> (case index_get_monitor idx i of None \<Rightarrow> False | Some m \<Rightarrow> needs_block m block))"

definition group_planned ::
  "monitor_index \<Rightarrow> block_number \<Rightarrow> nat list \<Rightarrow> ('l, 'd) layout_group \<Rightarrow> bool" where
  "group_planned idx block planned g =
     list_ex (\<lambda>i. monitor_is_planned idx i block planned) (lg_monitor_indices g)"

definition has_call :: "monitor_index \<Rightarrow> block_number \<Rightarrow> address \<Rightarrow> selector \<Rightarrow> nat list \<Rightarrow> bool" where
  "has_call idx block addr sel planned =
     (case mi_calls idx (addr, sel) of
        None \<Rightarrow> False
      | Some groups \<Rightarrow> list_ex (group_planned idx block planned) groups)"

section \<open>Decoding calls\<close>

text \<open>\<open>tx.input.get(..4)\<close> as a selector.\<close>

definition input_selector :: "bytes \<Rightarrow> selector option" where
  "input_selector input = (if 4 \<le> length input then Some (of_be_bytes (take 4 input)) else None)"

definition call_of :: "monitor \<Rightarrow> block_number \<Rightarrow> block_transaction \<Rightarrow> decoded_value list \<Rightarrow> decoded_call" where
  "call_of m block tx params =
     \<lparr>dc_monitor_id = mon_id m, dc_block_number = block, dc_transaction_hash = bt_hash tx,
      dc_from = bt_from tx, dc_to = bt_to tx, dc_params = params\<rparr>"

text \<open>
  The loop over one group's monitors. The groups of an index only hold indices of its
  monitors; \<open>monitors.monitors[monitor_index]\<close> is reached only when \<open>monitor_is_planned\<close> found it.
\<close>

fun call_fanout ::
  "monitor_index \<Rightarrow> block_number \<Rightarrow> nat list \<Rightarrow> block_transaction \<Rightarrow> decoded_value list \<Rightarrow> nat list
     \<Rightarrow> decoded_call list result" where
  "call_fanout idx block planned tx params [] = Inr []"
| "call_fanout idx block planned tx params (i # is) =
     (if \<not> monitor_is_planned idx i block planned then call_fanout idx block planned tx params is
      else
        (let m = mi_monitors idx ! i in
         res_bind (filter_evaluate (mon_filter m)
                     (CtxCall block (bt_hash tx) (bt_from tx) (bt_to tx) params)) (\<lambda>keep.
         res_bind (call_fanout idx block planned tx params is) (\<lambda>cs.
         Inr (if keep then call_of m block tx params # cs else cs)))))"

fun decode_call_groups ::
  "externs \<Rightarrow> monitor_index \<Rightarrow> block_number \<Rightarrow> nat list \<Rightarrow> block_transaction \<Rightarrow> call_group list
     \<Rightarrow> decoded_call list result" where
  "decode_call_groups X idx block planned tx [] = Inr []"
| "decode_call_groups X idx block planned tx (g # gs) =
     (if \<not> group_planned idx block planned g then decode_call_groups X idx block planned tx gs
      else
        (case call_decode X (lg_decoder g) (drop 4 (bt_input tx)) of
           Inl _ \<Rightarrow> decode_call_groups X idx block planned tx gs
         | Inr params \<Rightarrow>
             res_bind (call_fanout idx block planned tx params (lg_monitor_indices g)) (\<lambda>cs.
             res_bind (decode_call_groups X idx block planned tx gs) (\<lambda>ds. Inr (cs @ ds)))))"

definition decode_call_tx ::
  "externs \<Rightarrow> hash_order \<Rightarrow> monitor_index \<Rightarrow> block_number \<Rightarrow> nat list \<Rightarrow> block_transaction
     \<Rightarrow> execution_outcome \<Rightarrow> decoded_call list result" where
  "decode_call_tx X H idx block planned tx outcome =
     (if eo_transaction_hash outcome \<noteq> bt_hash tx then
        Inl (anyhow ''execution outcome order does not match call candidates'')
      else if \<not> eo_succeeded outcome then Inr []
      else
        (case input_selector (bt_input tx) of
           None \<Rightarrow> Inr []
         | Some sel \<Rightarrow>
             (case mi_calls idx (bt_to tx, sel) of
                None \<Rightarrow> Inr []
              | Some groups \<Rightarrow> decode_call_groups X idx block planned tx (ho_calls H groups))))"

fun decode_call_list ::
  "externs \<Rightarrow> hash_order \<Rightarrow> monitor_index \<Rightarrow> source_block \<Rightarrow> nat list \<Rightarrow> (nat \<times> execution_outcome) list
     \<Rightarrow> decoded_call list result" where
  "decode_call_list X H idx block planned [] = Inr []"
| "decode_call_list X H idx block planned ((ti, outcome) # rest) =
     res_bind (ok_or (anyhow ''call candidate index is outside the source block'')
                 (slice_get (sb_transactions block) ti)) (\<lambda>tx.
     res_bind (decode_call_tx X H idx (sb_number block) planned tx outcome) (\<lambda>cs.
     res_bind (decode_call_list X H idx block planned rest) (\<lambda>ds. Inr (cs @ ds))))"

definition decode_calls ::
  "externs \<Rightarrow> hash_order \<Rightarrow> source_block \<Rightarrow> monitor_index \<Rightarrow> nat list \<Rightarrow> nat list
     \<Rightarrow> execution_outcome list \<Rightarrow> decoded_call list result" where
  "decode_calls X H block idx planned candidates outcomes =
     (if length candidates \<noteq> length outcomes then
        Inl (anyhow ''execution outcome count does not match call candidates'')
      else decode_call_list X H idx block planned (zip candidates outcomes))"

section \<open>Decoding events\<close>

record log_position =
  lp_transaction_hash :: b256
  lp_log_index :: u64

definition event_of :: "monitor \<Rightarrow> block_number \<Rightarrow> log_position \<Rightarrow> decoded_value list \<Rightarrow> decoded_event" where
  "event_of m block pos params =
     \<lparr>de_monitor_id = mon_id m, de_block_number = block, de_transaction_hash = lp_transaction_hash pos,
      de_log_index = lp_log_index pos, de_params = params\<rparr>"

fun event_fanout ::
  "monitor_index \<Rightarrow> block_number \<Rightarrow> nat list \<Rightarrow> address \<Rightarrow> log_position \<Rightarrow> decoded_value list \<Rightarrow> nat list
     \<Rightarrow> decoded_event list result" where
  "event_fanout idx block planned emitter pos params [] = Inr []"
| "event_fanout idx block planned emitter pos params (i # is) =
     (if \<not> monitor_is_planned idx i block planned
      then event_fanout idx block planned emitter pos params is
      else
        (let m = mi_monitors idx ! i in
         res_bind (filter_evaluate (mon_filter m)
                     (CtxEvent block (lp_transaction_hash pos) emitter (lp_log_index pos) params)) (\<lambda>keep.
         res_bind (event_fanout idx block planned emitter pos params is) (\<lambda>es.
         Inr (if keep then event_of m block pos params # es else es)))))"

fun decode_event_groups ::
  "externs \<Rightarrow> monitor_index \<Rightarrow> block_number \<Rightarrow> nat list \<Rightarrow> source_log \<Rightarrow> log_position \<Rightarrow> event_group list
     \<Rightarrow> decoded_event list result" where
  "decode_event_groups X idx block planned log pos [] = Inr []"
| "decode_event_groups X idx block planned log pos (g # gs) =
     (if \<not> group_planned idx block planned g then decode_event_groups X idx block planned log pos gs
      else
        (case event_decode X (lg_decoder g) (sl_topics log) (sl_data log) of
           Inl _ \<Rightarrow> decode_event_groups X idx block planned log pos gs
         | Inr params \<Rightarrow>
             res_bind (event_fanout idx block planned (sl_address log) pos params (lg_monitor_indices g)) (\<lambda>es.
             res_bind (decode_event_groups X idx block planned log pos gs) (\<lambda>fs. Inr (es @ fs)))))"

definition decode_event_log ::
  "externs \<Rightarrow> hash_order \<Rightarrow> monitor_index \<Rightarrow> block_number \<Rightarrow> nat list \<Rightarrow> source_log
     \<Rightarrow> decoded_event list result" where
  "decode_event_log X H idx block planned log =
     (case slice_get (sl_topics log) 0 of
        None \<Rightarrow> Inr []
      | Some topic0 \<Rightarrow>
          (case mi_events idx (sl_address log, topic0) of
             None \<Rightarrow> Inr []
           | Some groups \<Rightarrow>
               if \<not> list_ex (group_planned idx block planned) groups then Inr []
               else if sl_removed log then
                 Inl (anyhow (''removed log returned for finalized block '' @ show_u64 block))
               else if sl_block_number log \<noteq> Some block then
                 Inl (anyhow ''log has missing or incorrect block number'')
               else
                 res_bind (ok_or (anyhow ''log is missing transaction hash'') (sl_transaction_hash log)) (\<lambda>hash.
                 res_bind (ok_or (anyhow ''log is missing log index'') (sl_log_index log)) (\<lambda>log_index.
                 decode_event_groups X idx block planned log
                   \<lparr>lp_transaction_hash = hash, lp_log_index = log_index\<rparr> (ho_events H groups)))))"

fun decode_events ::
  "externs \<Rightarrow> hash_order \<Rightarrow> block_number \<Rightarrow> monitor_index \<Rightarrow> nat list \<Rightarrow> source_log list
     \<Rightarrow> decoded_event list result" where
  "decode_events X H block idx planned [] = Inr []"
| "decode_events X H block idx planned (log # logs) =
     res_bind (decode_event_log X H idx block planned log) (\<lambda>es.
     res_bind (decode_events X H block idx planned logs) (\<lambda>fs. Inr (es @ fs)))"


section \<open>Every key holds one group per layout\<close>

text \<open>
  \<open>groups_ok lay mk ns gs\<close>: the groups \<open>gs\<close> of one key partition the indices in \<open>ns\<close> whose
  monitors have the key, by their layout \<open>lay i\<close>; a group keeps the order of the indices and the
  decoder of its first monitor.
\<close>

definition groups_ok ::
  "(nat \<Rightarrow> 'l option) \<Rightarrow> (nat \<Rightarrow> 'd result) \<Rightarrow> nat list \<Rightarrow> ('l, 'd) layout_group list \<Rightarrow> bool" where
  "groups_ok lay mk ns gs =
     (distinct (map lg_layout gs)
      \<and> (\<forall>i \<in> set ns. \<forall>l. lay i = Some l \<longrightarrow> l \<in> lg_layout ` set gs)
      \<and> (\<forall>g \<in> set gs. lg_monitor_indices g = filter (\<lambda>i. lay i = Some (lg_layout g)) ns
           \<and> lg_monitor_indices g \<noteq> [] \<and> mk (hd (lg_monitor_indices g)) = Inr (lg_decoder g)))"

lemma groups_ok_Nil: "(\<And>i. i \<in> set ns \<Longrightarrow> lay i = None) \<Longrightarrow> groups_ok lay mk ns []"
  by (force simp: groups_ok_def)

lemma groups_ok_other: "lay n = None \<Longrightarrow> groups_ok lay mk (ns @ [n]) gs = groups_ok lay mk ns gs"
  by (auto simp: groups_ok_def)

lemma group_push_layouts:
  "group_push l i d gs = Inr gs' \<Longrightarrow>
     map lg_layout gs' = (if l \<in> lg_layout ` set gs then map lg_layout gs else map lg_layout gs @ [l])"
  by (induction l i d gs arbitrary: gs' rule: group_push.induct) (auto simp: res_simps split: if_splits)

lemma group_push_member:
  assumes "group_push l i d gs = Inr gs'" and "distinct (map lg_layout gs)" and "g' \<in> set gs'"
  shows "(g' \<in> set gs \<and> lg_layout g' \<noteq> l)
    \<or> (\<exists>g \<in> set gs. lg_layout g = l \<and> g' = g\<lparr>lg_monitor_indices := lg_monitor_indices g @ [i]\<rparr>)
    \<or> (l \<notin> lg_layout ` set gs \<and> lg_layout g' = l \<and> lg_monitor_indices g' = [i] \<and> d = Inr (lg_decoder g'))"
  using assms
proof (induction l i d gs arbitrary: gs' rule: group_push.induct)
  case (2 l i d g gs)
  show ?case
  proof (cases "lg_layout g = l")
    case True
    then have "lg_layout x \<noteq> l" if "x \<in> set gs" for x
      using that "2.prems"(2) by (metis distinct.simps(2) image_eqI list.set_map list.simps(9))
    with "2.prems"(1,3) True show ?thesis by auto
  next
    case False
    with "2.prems"(1) obtain gs2 where gs2: "group_push l i d gs = Inr gs2" "gs' = g # gs2"
      by (auto simp: res_simps)
    with "2.IH" [OF False gs2(1)] "2.prems"(2,3) False show ?thesis by auto
  qed
qed (auto simp: res_simps)

lemma groups_ok_push:
  assumes ok: "groups_ok lay mk ns gs" and push: "group_push l n (mk n) gs = Inr gs'"
    and lay: "lay n = Some l"
  shows "groups_ok lay mk (ns @ [n]) gs'"
proof -
  from ok have dist: "distinct (map lg_layout gs)" by (simp add: groups_ok_def)
  have "distinct (map lg_layout gs') \<and> set (map lg_layout gs') = insert l (set (map lg_layout gs))"
    using dist unfolding group_push_layouts [OF push] by auto
  then have layouts: "distinct (map lg_layout gs')" "lg_layout ` set gs' = insert l (lg_layout ` set gs)"
    by simp_all
  have member: "lg_monitor_indices g' = filter (\<lambda>i. lay i = Some (lg_layout g')) (ns @ [n])
      \<and> lg_monitor_indices g' \<noteq> [] \<and> mk (hd (lg_monitor_indices g')) = Inr (lg_decoder g')"
    if "g' \<in> set gs'" for g'
    using group_push_member [OF push dist that]
  proof (elim disjE)
    assume "l \<notin> lg_layout ` set gs \<and> lg_layout g' = l \<and> lg_monitor_indices g' = [n] \<and> mk n = Inr (lg_decoder g')"
    moreover from this ok have "filter (\<lambda>i. lay i = Some l) ns = []"
      by (auto simp: groups_ok_def filter_empty_conv)
    ultimately show ?thesis using lay by simp
  next
    assume "g' \<in> set gs \<and> lg_layout g' \<noteq> l"
    then have g: "g' \<in> set gs" "lg_layout g' \<noteq> l" by auto
    then have "lg_monitor_indices g' = filter (\<lambda>i. lay i = Some (lg_layout g')) ns"
      "lg_monitor_indices g' \<noteq> []" "mk (hd (lg_monitor_indices g')) = Inr (lg_decoder g')"
      using ok unfolding groups_ok_def by blast+
    moreover have "filter (\<lambda>i. lay i = Some (lg_layout g')) (ns @ [n]) = filter (\<lambda>i. lay i = Some (lg_layout g')) ns"
      using g lay by simp
    ultimately show ?thesis by metis
  next
    assume "\<exists>g \<in> set gs. lg_layout g = l \<and> g' = g\<lparr>lg_monitor_indices := lg_monitor_indices g @ [n]\<rparr>"
    then obtain g where g: "g \<in> set gs" "lg_layout g = l"
      "g' = g\<lparr>lg_monitor_indices := lg_monitor_indices g @ [n]\<rparr>" by blast
    with ok have "lg_monitor_indices g = filter (\<lambda>i. lay i = Some l) ns" "lg_monitor_indices g \<noteq> []"
      "mk (hd (lg_monitor_indices g)) = Inr (lg_decoder g)" unfolding groups_ok_def by blast+
    with g lay show ?thesis by simp
  qed
  have "\<forall>i \<in> set (ns @ [n]). \<forall>k. lay i = Some k \<longrightarrow> k \<in> lg_layout ` set gs'"
    using ok lay unfolding layouts(2) groups_ok_def by auto
  with layouts(1) member show ?thesis unfolding groups_ok_def by blast
qed

text \<open>The layout a monitor has under one key, and the decoder it would build.\<close>

definition call_key_layout :: "externs \<Rightarrow> monitor list \<Rightarrow> address \<times> selector \<Rightarrow> nat \<Rightarrow> call_layout option" where
  "call_key_layout X ms key i =
     (case mon_target (ms ! i) of
        CallT t \<Rightarrow> if (ct_address t, ct_selector t) = key then Some (call_layout_of X t) else None
      | EventT _ \<Rightarrow> None)"

definition event_key_layout :: "externs \<Rightarrow> monitor list \<Rightarrow> address \<times> b256 \<Rightarrow> nat \<Rightarrow> event_layout option" where
  "event_key_layout X ms key i =
     (case mon_target (ms ! i) of
        CallT _ \<Rightarrow> None
      | EventT t \<Rightarrow> if (et_address t, et_topic0 t) = key then Some (event_layout_of X t) else None)"

definition own_call_decoder :: "monitor list \<Rightarrow> nat \<Rightarrow> call_decoder result" where
  "own_call_decoder ms i =
     (case mon_target (ms ! i) of CallT t \<Rightarrow> Inr (call_decoder_new (ct_inputs t)) | EventT _ \<Rightarrow> Inl [])"

definition own_event_decoder :: "externs \<Rightarrow> monitor list \<Rightarrow> nat \<Rightarrow> event_decoder result" where
  "own_event_decoder X ms i =
     (case mon_target (ms ! i) of CallT _ \<Rightarrow> Inl [] | EventT t \<Rightarrow> event_decoder_new X (et_params t) (et_topic0 t))"

definition index_ok :: "externs \<Rightarrow> nat \<Rightarrow> monitor_index \<Rightarrow> bool" where
  "index_ok X n idx =
     ((\<forall>key. groups_ok (call_key_layout X (mi_monitors idx) key) (own_call_decoder (mi_monitors idx)) [0 ..< n]
               (entry_groups (mi_calls idx) key))
      \<and> (\<forall>key. groups_ok (event_key_layout X (mi_monitors idx) key) (own_event_decoder X (mi_monitors idx)) [0 ..< n]
               (entry_groups (mi_events idx) key)))"

lemma entry_groups_upd [simp]:
  "entry_groups (m(k \<mapsto> gs)) k' = (if k' = k then gs else entry_groups m k')"
  by (simp add: entry_groups_def)

lemma index_monitor_ok:
  assumes ok: "index_ok X n idx" and step: "index_monitor X n (mi_monitors idx ! n) idx = Inr idx'"
  shows "index_ok X (Suc n) idx' \<and> mi_monitors idx' = mi_monitors idx"
proof (cases "mon_target (mi_monitors idx ! n)")
  case (CallT t)
  let ?key = "(ct_address t, ct_selector t)"
  from step CallT obtain gs where gs:
    "group_push (call_layout_of X t) n (own_call_decoder (mi_monitors idx) n)
       (entry_groups (mi_calls idx) ?key) = Inr gs"
    "idx' = idx\<lparr>mi_calls := (mi_calls idx)(?key \<mapsto> gs)\<rparr>"
    by (auto simp: index_monitor_def own_call_decoder_def Let_def res_simps)
  have lay: "call_key_layout X (mi_monitors idx) ?key n = Some (call_layout_of X t)"
    and none: "key \<noteq> ?key \<Longrightarrow> call_key_layout X (mi_monitors idx) key n = None"
    and ev: "event_key_layout X (mi_monitors idx) key' n = None" for key key'
    using CallT by (auto simp: call_key_layout_def event_key_layout_def)
  show ?thesis
    using ok none ev
      groups_ok_push [where mk = "own_call_decoder (mi_monitors idx)"
        and lay = "call_key_layout X (mi_monitors idx) ?key" and ns = "[0 ..< n]", OF _ gs(1) lay]
    by (auto simp: index_ok_def gs(2) groups_ok_other)
next
  case (EventT t)
  let ?key = "(et_address t, et_topic0 t)"
  from step EventT obtain gs where gs:
    "group_push (event_layout_of X t) n (own_event_decoder X (mi_monitors idx) n)
       (entry_groups (mi_events idx) ?key) = Inr gs"
    "idx' = idx\<lparr>mi_events := (mi_events idx)(?key \<mapsto> gs)\<rparr>"
    by (auto simp: index_monitor_def own_event_decoder_def Let_def res_simps)
  have lay: "event_key_layout X (mi_monitors idx) ?key n = Some (event_layout_of X t)"
    and none: "key \<noteq> ?key \<Longrightarrow> event_key_layout X (mi_monitors idx) key n = None"
    and ev: "call_key_layout X (mi_monitors idx) key' n = None" for key key'
    using EventT by (auto simp: call_key_layout_def event_key_layout_def)
  show ?thesis
    using ok none ev
      groups_ok_push [where mk = "own_event_decoder X (mi_monitors idx)"
        and lay = "event_key_layout X (mi_monitors idx) ?key" and ns = "[0 ..< n]", OF _ gs(1) lay]
    by (auto simp: index_ok_def gs(2) groups_ok_other)
qed

lemma index_loop_ok:
  assumes "index_ok X n idx" and "index_loop X n ms idx = Inr idx'"
    and "mi_monitors idx = pre @ ms" and "length pre = n"
  shows "index_ok X (n + length ms) idx' \<and> mi_monitors idx' = mi_monitors idx"
  using assms
proof (induction ms arbitrary: n idx pre)
  case (Cons m ms)
  then obtain idx2 where idx2: "index_monitor X n m idx = Inr idx2" "index_loop X (Suc n) ms idx2 = Inr idx'"
    by (auto simp: res_simps)
  have "mi_monitors idx ! n = m" using Cons.prems(3,4) by (auto simp: nth_append)
  with index_monitor_ok [OF Cons.prems(1)] idx2(1)
  have "index_ok X (Suc n) idx2" "mi_monitors idx2 = mi_monitors idx" by auto
  with Cons.IH [OF _ idx2(2), of "pre @ [m]"] Cons.prems show ?case by simp
qed simp

lemma monitor_index_new_ok:
  assumes "monitor_index_new X ms = Inr idx"
  shows "index_ok X (length (mi_monitors idx)) idx" and "mi_monitors idx = active_monitors ms"
proof -
  have "index_ok X 0 \<lparr>mi_monitors = active_monitors ms, mi_calls = Map.empty, mi_events = Map.empty\<rparr>"
    by (simp add: index_ok_def groups_ok_def entry_groups_def)
  from index_loop_ok [OF this, of "active_monitors ms" idx "[]"] assms
  show "index_ok X (length (mi_monitors idx)) idx" and "mi_monitors idx = active_monitors ms"
    by (auto simp: monitor_index_new_def Let_def)
qed

end
