(* ===== verification/Decoding.thy ===== *)
theory Decoding
  imports Indexer
begin

text \<open>
  The grouped decoding of \<open>indexer.rs\<close> against its reference: decode the payload for every
  planned monitor on its own. The index shares one decoder among all monitors of a layout, which
  is sound because layouts are the printed parameter types, and printed types parse back.
\<close>

section \<open>Equal layouts decode equally\<close>

lemma layout_types:
  assumes laws: "type_text_laws X"
    and "\<forall>p \<in> set ps. scalar_type (param_ty p)" and "\<forall>p \<in> set qs. scalar_type (param_ty p)"
    and "map (sol_type X) ps = map (sol_type X) qs"
  shows "map param_ty ps = map param_ty qs"
proof -
  have parsed: "map (ty_from_str X) (map (sol_type X) ps) = map Inr (map param_ty ps)"
    if "\<forall>p \<in> set ps. scalar_type (param_ty p)" for ps
    using that laws by (auto simp: type_text_laws_def sol_type_def)
  have "map Inr (map param_ty ps) = (map Inr (map param_ty qs) :: (string + dyn_sol_type) list)"
    using parsed [OF assms(2)] parsed [OF assms(3)] assms(4) by metis
  then show ?thesis by (rule map_injective) simp
qed

lemma call_layout_decoder:
  assumes "type_text_laws X" and "schema_ok (ct_inputs t)" and "schema_ok (ct_inputs t')"
    and "call_layout_of X t = call_layout_of X t'"
  shows "call_decoder_new (ct_inputs t) = call_decoder_new (ct_inputs t')"
  using layout_types [of X "ct_inputs t" "ct_inputs t'"] assms
  by (simp add: schema_ok_def call_layout_of_def call_decoder_new_def)

lemma filter_parts_eq:
  "map param_ty ps = map param_ty qs \<Longrightarrow> map param_indexed ps = map param_indexed qs \<Longrightarrow>
     map param_ty (filter param_indexed ps) = map param_ty (filter param_indexed qs)
   \<and> map param_ty (filter (\<lambda>p. \<not> param_indexed p) ps) = map param_ty (filter (\<lambda>p. \<not> param_indexed p) qs)"
proof (induction ps arbitrary: qs)
  case (Cons p ps)
  then show ?case by (cases qs) auto
qed simp

lemma event_layout_decoder:
  assumes "type_text_laws X" and "schema_ok (et_params t)" and "schema_ok (et_params t')"
    and "event_layout_of X t = event_layout_of X t'" and "et_topic0 t = et_topic0 t'"
  shows "event_decoder_new X (et_params t) (et_topic0 t) = event_decoder_new X (et_params t') (et_topic0 t')"
proof -
  have "map fst (event_layout_of X t) = map fst (event_layout_of X t')"
    "map snd (event_layout_of X t) = map snd (event_layout_of X t')"
    using assms(4) by simp_all
  then have l: "map (sol_type X) (et_params t) = map (sol_type X) (et_params t')"
    "map param_indexed (et_params t) = map param_indexed (et_params t')"
    by (simp_all add: event_layout_of_def comp_def)
  have "map param_ty (et_params t) = map param_ty (et_params t')"
    using layout_types [OF assms(1) _ _ l(1)] assms(2,3) by (simp add: schema_ok_def)
  from filter_parts_eq [OF this l(2)] l(2) assms(5) show ?thesis
    by (simp add: event_decoder_new_def)
qed

section \<open>Well-formed monitors\<close>

text \<open>
  The schema came out of \<open>parse_target_signature\<close> or \<open>AbiParam::new\<close>, the filter out of
  \<open>compile_expression\<close> for the monitor's own target.
\<close>

definition filter_compiled :: "externs \<Rightarrow> target \<Rightarrow> monitor_filter \<Rightarrow> bool" where
  "filter_compiled X t f =
     (f = FilterAll \<or> (\<exists>e path v. compile_expression X e t path = Inr v \<and> f = FilterExpr (snd v)))"

definition monitor_ok :: "externs \<Rightarrow> monitor \<Rightarrow> bool" where
  "monitor_ok X m =
     (schema_ok (target_params (mon_target m)) \<and> filter_compiled X (mon_target m) (mon_filter m))"

lemma filter_compiled_total:
  assumes "filter_compiled X t f" and "context_conforms t ctx"
  shows "\<exists>b. filter_evaluate f ctx = Inr b"
  using assms compile_expression_holds(1)
  by (auto simp: filter_compiled_def filter_evaluate_def)

section \<open>Reference decoding\<close>

definition call_match :: "externs \<Rightarrow> monitor \<Rightarrow> block_number \<Rightarrow> block_transaction \<Rightarrow> decoded_call option" where
  "call_match X m block tx =
     (case mon_target m of
        EventT _ \<Rightarrow> None
      | CallT t \<Rightarrow>
          if ct_address t \<noteq> bt_to tx \<or> input_selector (bt_input tx) \<noteq> Some (ct_selector t) then None
          else
            (case decode_calldata X (ct_inputs t) (drop 4 (bt_input tx)) of
               Inl _ \<Rightarrow> None
             | Inr params \<Rightarrow>
                 if filter_evaluate (mon_filter m)
                      (CtxCall block (bt_hash tx) (bt_from tx) (bt_to tx) params) = Inr True
                 then Some (call_of m block tx params) else None))"

definition reference_calls ::
  "externs \<Rightarrow> monitor list \<Rightarrow> block_number \<Rightarrow> nat list \<Rightarrow> block_transaction \<Rightarrow> decoded_call list" where
  "reference_calls X ms block planned tx =
     List.map_filter (\<lambda>i. if i < length ms \<and> needs_block (ms ! i) block
                          then call_match X (ms ! i) block tx else None) planned"

definition event_match :: "externs \<Rightarrow> monitor \<Rightarrow> block_number \<Rightarrow> source_log \<Rightarrow> log_position \<Rightarrow> decoded_event option" where
  "event_match X m block log pos =
     (case mon_target m of
        CallT _ \<Rightarrow> None
      | EventT t \<Rightarrow>
          if et_address t \<noteq> sl_address log \<or> slice_get (sl_topics log) 0 \<noteq> Some (et_topic0 t) then None
          else
            (case decode_event X (et_params t) (et_topic0 t) (sl_topics log) (sl_data log) of
               Inl _ \<Rightarrow> None
             | Inr params \<Rightarrow>
                 if filter_evaluate (mon_filter m)
                      (CtxEvent block (lp_transaction_hash pos) (sl_address log) (lp_log_index pos) params) = Inr True
                 then Some (event_of m block pos params) else None))"

definition reference_events ::
  "externs \<Rightarrow> monitor list \<Rightarrow> block_number \<Rightarrow> nat list \<Rightarrow> source_log \<Rightarrow> log_position \<Rightarrow> decoded_event list" where
  "reference_events X ms block planned log pos =
     List.map_filter (\<lambda>i. if i < length ms \<and> needs_block (ms ! i) block
                          then event_match X (ms ! i) block log pos else None) planned"

section \<open>Sums over groups\<close>

lemma mset_map_filter_cong: "mset xs = mset ys \<Longrightarrow> mset (List.map_filter f xs) = mset (List.map_filter f ys)"
  by (simp add: List.map_filter_def mset_filter mset_map)

lemma map_filter_append [simp]: "List.map_filter f (xs @ ys) = List.map_filter f xs @ List.map_filter f ys"
  by (simp add: List.map_filter_def)

lemma map_filter_concat: "List.map_filter f (concat xss) = concat (map (List.map_filter f) xss)"
  by (induction xss) (simp_all add: List.map_filter_simps)

lemma map_filter_filter: "(\<And>x. x \<in> set xs \<Longrightarrow> \<not> P x \<Longrightarrow> f x = None) \<Longrightarrow>
    List.map_filter f (filter P xs) = List.map_filter f xs"
  by (induction xs) (auto simp: List.map_filter_simps split: option.split)

lemma map_filter_cong2: "(\<And>x. x \<in> set xs \<Longrightarrow> f x = g x) \<Longrightarrow> List.map_filter f xs = List.map_filter g xs"
  by (induction xs) (auto simp: List.map_filter_simps split: option.split)

lemma mset_concat_map_cong: "mset gs = mset gs' \<Longrightarrow> mset (concat (map f gs)) = mset (concat (map f gs'))"
  by (simp add: mset_concat sum_mset_sum_list [symmetric] comp_def flip: mset_map)
    (metis mset_map)

lemma groups_sum:
  assumes ok: "groups_ok lay mk [0 ..< n] gs" and perm: "mset gs' = mset gs"
    and none: "\<And>i. i < n \<Longrightarrow> lay i = None \<Longrightarrow> f i = None"
  shows "mset (concat (map (\<lambda>g. List.map_filter f (lg_monitor_indices g)) gs'))
    = mset (List.map_filter f [0 ..< n])"
proof -
  let ?pick = "\<lambda>g. filter (\<lambda>i. lay i = Some (lg_layout g)) [0 ..< n]"
  have "map (\<lambda>g. List.map_filter f (lg_monitor_indices g)) gs = map (List.map_filter f) (map ?pick gs)"
    using ok by (auto simp: groups_ok_def)
  then have grouped: "concat (map (\<lambda>g. List.map_filter f (lg_monitor_indices g)) gs)
      = List.map_filter f (concat (map ?pick gs))"
    by (simp only: map_filter_concat)
  have parts: "mset (concat (map ?pick gs))
      = mset (filter (\<lambda>i. \<exists>g \<in> set gs. lay i = Some (lg_layout g)) [0 ..< n])"
    using ok by (intro mset_concat_partition) (simp add: groups_ok_def)
  have all: "List.map_filter f (filter (\<lambda>i. \<exists>g \<in> set gs. lay i = Some (lg_layout g)) [0 ..< n])
      = List.map_filter f [0 ..< n]"
  proof (rule map_filter_filter)
    fix i assume "i \<in> set [0 ..< n]" "\<not> (\<exists>g \<in> set gs. lay i = Some (lg_layout g))"
    moreover from this ok have "lay i = None"
      unfolding groups_ok_def by (cases "lay i") (auto 4 4 simp: image_iff)
    ultimately show "f i = None" using none by simp
  qed
  show ?thesis
    unfolding mset_concat_map_cong [OF perm] grouped mset_map_filter_cong [OF parts] all by (rule refl)
qed

lemma planned_indices:
  assumes "sorted_wrt (<) planned"
  shows "filter (\<lambda>i. i \<in> set planned) [0 ..< n] = filter (\<lambda>i. i < n) planned"
  using assms by (intro sorted_wrt_less_unique) (auto simp: sorted_wrt_filter)

lemma map_filter_planned:
  assumes "sorted_wrt (<) planned" and "\<And>i. f i \<noteq> None \<Longrightarrow> i < n"
  shows "List.map_filter (\<lambda>i. if i \<in> set planned then f i else None) [0 ..< n] = List.map_filter f planned"
proof -
  have "List.map_filter (\<lambda>i. if i \<in> set planned then f i else None) [0 ..< n]
      = List.map_filter (\<lambda>i. if i \<in> set planned then f i else None) (filter (\<lambda>i. i \<in> set planned) [0 ..< n])"
    by (rule map_filter_filter [symmetric]) simp
  also have "\<dots> = List.map_filter f (filter (\<lambda>i. i \<in> set planned) [0 ..< n])"
    by (rule map_filter_cong2) simp
  also have "\<dots> = List.map_filter f planned"
    unfolding planned_indices [OF assms(1)] using assms(2) by (intro map_filter_filter) blast
  finally show ?thesis .
qed

lemma monitor_is_planned_iff:
  "sorted_wrt (<) planned \<Longrightarrow> monitor_is_planned idx i block planned \<longleftrightarrow>
     i \<in> set planned \<and> i < length (mi_monitors idx) \<and> needs_block (mi_monitors idx ! i) block"
  using sorted_wrt_less_sorted [of planned]
  by (auto simp: monitor_is_planned_def binary_search_iff index_get_monitor_def slice_get_def)


section \<open>Calls\<close>

lemma call_fanout_total:
  assumes "\<And>i. i \<in> set ns \<Longrightarrow> monitor_is_planned idx i block planned \<Longrightarrow>
    \<exists>b. filter_evaluate (mon_filter (mi_monitors idx ! i))
          (CtxCall block (bt_hash tx) (bt_from tx) (bt_to tx) params) = Inr b"
  shows "call_fanout idx block planned tx params ns
    = Inr (List.map_filter (\<lambda>i. if monitor_is_planned idx i block planned
              \<and> filter_evaluate (mon_filter (mi_monitors idx ! i))
                  (CtxCall block (bt_hash tx) (bt_from tx) (bt_to tx) params) = Inr True
            then Some (call_of (mi_monitors idx ! i) block tx params) else None) ns)"
  using assms
proof (induction ns)
  case (Cons i ns)
  then have rest: "call_fanout idx block planned tx params ns
    = Inr (List.map_filter (\<lambda>i. if monitor_is_planned idx i block planned
              \<and> filter_evaluate (mon_filter (mi_monitors idx ! i))
                  (CtxCall block (bt_hash tx) (bt_from tx) (bt_to tx) params) = Inr True
            then Some (call_of (mi_monitors idx ! i) block tx params) else None) ns)"
    by simp
  show ?case
  proof (cases "monitor_is_planned idx i block planned")
    case True
    with Cons.prems [of i] obtain b where "filter_evaluate (mon_filter (mi_monitors idx ! i))
          (CtxCall block (bt_hash tx) (bt_from tx) (bt_to tx) params) = Inr b" by auto
    with True rest show ?thesis by (simp add: List.map_filter_simps)
  qed (simp add: rest List.map_filter_simps)
qed (simp add: List.map_filter_simps)

text \<open>What the index guarantees of the groups found for a transaction.\<close>

definition call_group_matches ::
  "externs \<Rightarrow> monitor list \<Rightarrow> block_transaction \<Rightarrow> call_group \<Rightarrow> bool" where
  "call_group_matches X ms tx g =
     (\<forall>i \<in> set (lg_monitor_indices g). \<exists>t. mon_target (ms ! i) = CallT t \<and> ct_address t = bt_to tx
        \<and> input_selector (bt_input tx) = Some (ct_selector t)
        \<and> lg_decoder g = call_decoder_new (ct_inputs t) \<and> monitor_ok X (ms ! i))"

lemma decode_call_groups_total:
  assumes laws: "abi_decode_laws X"
    and match: "\<forall>g \<in> set gs. call_group_matches X (mi_monitors idx) tx g"
  shows "decode_call_groups X idx block planned tx gs
    = Inr (concat (map (\<lambda>g. List.map_filter (\<lambda>i. if monitor_is_planned idx i block planned
        then call_match X (mi_monitors idx ! i) block tx else None) (lg_monitor_indices g)) gs))"
  using match
proof (induction gs)
  case (Cons g gs)
  let ?f = "\<lambda>i. if monitor_is_planned idx i block planned
        then call_match X (mi_monitors idx ! i) block tx else None"
  have rest: "decode_call_groups X idx block planned tx gs
      = Inr (concat (map (\<lambda>g. List.map_filter ?f (lg_monitor_indices g)) gs))"
    using Cons by simp
  have g: "call_group_matches X (mi_monitors idx) tx g" using Cons.prems by simp
  show ?case
  proof (cases "group_planned idx block planned g")
    case False
    then have "List.map_filter ?f (lg_monitor_indices g) = List.map_filter (\<lambda>i. None) (lg_monitor_indices g)"
      by (intro map_filter_cong2) (auto simp: group_planned_def list_ex_iff)
    with False rest show ?thesis by (simp add: List.map_filter_def)
  next
    case True
    show ?thesis
    proof (cases "call_decode X (lg_decoder g) (drop 4 (bt_input tx))")
      case (Inl e)
      have "List.map_filter ?f (lg_monitor_indices g) = List.map_filter (\<lambda>i. None) (lg_monitor_indices g)"
        using g Inl by (intro map_filter_cong2) (auto simp: call_group_matches_def call_match_def decode_calldata_def)
      with True Inl rest show ?thesis by (simp add: List.map_filter_def)
    next
      case (Inr params)
      have "\<exists>b. filter_evaluate (mon_filter (mi_monitors idx ! i))
          (CtxCall block (bt_hash tx) (bt_from tx) (bt_to tx) params) = Inr b"
        if "i \<in> set (lg_monitor_indices g)" for i
      proof -
        from g that obtain t where t: "mon_target (mi_monitors idx ! i) = CallT t"
          "lg_decoder g = call_decoder_new (ct_inputs t)" "monitor_ok X (mi_monitors idx ! i)"
          by (auto simp: call_group_matches_def)
        then have "schema_ok (ct_inputs t)" by (simp add: monitor_ok_def target_params_def)
        from call_decode_conform [OF laws this] Inr t have "params_conform False (ct_inputs t) params" by simp
        with t show ?thesis
          by (intro filter_compiled_total [of X "CallT t"]) (auto simp: monitor_ok_def context_conforms_def)
      qed
      from call_fanout_total [OF this]
      have "call_fanout idx block planned tx params (lg_monitor_indices g)
          = Inr (List.map_filter (\<lambda>i. if monitor_is_planned idx i block planned
              \<and> filter_evaluate (mon_filter (mi_monitors idx ! i))
                  (CtxCall block (bt_hash tx) (bt_from tx) (bt_to tx) params) = Inr True
            then Some (call_of (mi_monitors idx ! i) block tx params) else None) (lg_monitor_indices g))"
        by blast
      also have "List.map_filter (\<lambda>i. if monitor_is_planned idx i block planned
              \<and> filter_evaluate (mon_filter (mi_monitors idx ! i))
                  (CtxCall block (bt_hash tx) (bt_from tx) (bt_to tx) params) = Inr True
            then Some (call_of (mi_monitors idx ! i) block tx params) else None) (lg_monitor_indices g)
          = List.map_filter ?f (lg_monitor_indices g)"
        using g Inr by (intro map_filter_cong2)
          (auto simp: call_group_matches_def call_match_def decode_calldata_def)
      finally show ?thesis using True Inr rest by simp
    qed
  qed
qed simp

lemma index_ok_calls: "index_ok X n idx \<Longrightarrow>
    groups_ok (call_key_layout X (mi_monitors idx) key) (own_call_decoder (mi_monitors idx)) [0 ..< n]
      (entry_groups (mi_calls idx) key)"
  and index_ok_events: "index_ok X n idx \<Longrightarrow>
    groups_ok (event_key_layout X (mi_monitors idx) key') (own_event_decoder X (mi_monitors idx)) [0 ..< n]
      (entry_groups (mi_events idx) key')"
  unfolding index_ok_def by blast+

lemma index_call_groups:
  assumes idx: "index_ok X (length (mi_monitors idx)) idx" and laws: "type_text_laws X"
    and ms: "\<forall>m \<in> set (mi_monitors idx). monitor_ok X m"
    and gs: "mi_calls idx (bt_to tx, sel) = Some gs" and sel: "input_selector (bt_input tx) = Some sel"
  shows "groups_ok (call_key_layout X (mi_monitors idx) (bt_to tx, sel)) (own_call_decoder (mi_monitors idx))
           [0 ..< length (mi_monitors idx)] gs"
    and "\<forall>g \<in> set gs. call_group_matches X (mi_monitors idx) tx g"
proof -
  let ?lay = "call_key_layout X (mi_monitors idx) (bt_to tx, sel)"
  show ok: "groups_ok ?lay (own_call_decoder (mi_monitors idx)) [0 ..< length (mi_monitors idx)] gs"
    using index_ok_calls [OF idx, of "(bt_to tx, sel)"] gs by (simp add: entry_groups_def)
  show "\<forall>g \<in> set gs. call_group_matches X (mi_monitors idx) tx g"
  proof
    fix g assume "g \<in> set gs"
    with ok have g: "lg_monitor_indices g = filter (\<lambda>i. ?lay i = Some (lg_layout g)) [0 ..< length (mi_monitors idx)]"
      "lg_monitor_indices g \<noteq> []" "own_call_decoder (mi_monitors idx) (hd (lg_monitor_indices g)) = Inr (lg_decoder g)"
      by (auto simp: groups_ok_def simp del: upt_Suc)
    have member: "\<exists>t. mon_target (mi_monitors idx ! i) = CallT t \<and> ct_address t = bt_to tx \<and> ct_selector t = sel
        \<and> call_layout_of X t = lg_layout g \<and> schema_ok (ct_inputs t) \<and> monitor_ok X (mi_monitors idx ! i)"
      if "i \<in> set (lg_monitor_indices g)" for i
      using that ms unfolding g(1)
      by (auto simp: call_key_layout_def monitor_ok_def target_params_def split: target.splits if_splits)
    have "hd (lg_monitor_indices g) \<in> set (lg_monitor_indices g)" using g(2) by simp
    from member [OF this] obtain t0 where t0: "mon_target (mi_monitors idx ! hd (lg_monitor_indices g)) = CallT t0"
      "call_layout_of X t0 = lg_layout g" "schema_ok (ct_inputs t0)" by blast
    with g(3) have dec: "lg_decoder g = call_decoder_new (ct_inputs t0)" by (simp add: own_call_decoder_def)
    show "call_group_matches X (mi_monitors idx) tx g"
      unfolding call_group_matches_def
    proof
      fix i assume "i \<in> set (lg_monitor_indices g)"
      from member [OF this] obtain t where "mon_target (mi_monitors idx ! i) = CallT t" "ct_address t = bt_to tx"
        "ct_selector t = sel" "call_layout_of X t = lg_layout g" "schema_ok (ct_inputs t)"
        "monitor_ok X (mi_monitors idx ! i)" by blast
      with call_layout_decoder [OF laws t0(3), of t] t0(2) dec sel
      show "\<exists>t. mon_target (mi_monitors idx ! i) = CallT t \<and> ct_address t = bt_to tx
        \<and> input_selector (bt_input tx) = Some (ct_selector t)
        \<and> lg_decoder g = call_decoder_new (ct_inputs t) \<and> monitor_ok X (mi_monitors idx ! i)" by auto
    qed
  qed
qed

lemma call_match_none:
  "call_key_layout X ms (bt_to tx, sel) i = None \<Longrightarrow> input_selector (bt_input tx) = Some sel \<Longrightarrow>
     call_match X (ms ! i) block tx = None"
  by (auto simp: call_key_layout_def call_match_def split: target.splits if_splits)

lemma decode_call_tx_reference:
  assumes new: "monitor_index_new X all = Inr idx"
    and laws: "type_text_laws X" "abi_decode_laws X" and order: "hash_order_ok H"
    and ms: "\<forall>m \<in> set all. monitor_ok X m" and sorted: "sorted_wrt (<) planned"
    and hash: "eo_transaction_hash outcome = bt_hash tx" and succ: "eo_succeeded outcome"
  shows "\<exists>cs. decode_call_tx X H idx block planned tx outcome = Inr cs
    \<and> mset cs = mset (reference_calls X (mi_monitors idx) block planned tx)"
proof -
  let ?ms = "mi_monitors idx"
  let ?f = "\<lambda>i. if monitor_is_planned idx i block planned then call_match X (?ms ! i) block tx else None"
  let ?r = "\<lambda>i. if i < length ?ms \<and> needs_block (?ms ! i) block then call_match X (?ms ! i) block tx else None"
  note ok = monitor_index_new_ok(1) [OF new]
  have ms': "\<forall>m \<in> set ?ms. monitor_ok X m"
    using ms monitor_index_new_ok(2) [OF new] by (auto simp: active_monitors_def)
  have split: "(\<lambda>i. if i \<in> set planned then ?r i else None) = ?f"
    by (auto simp: fun_eq_iff monitor_is_planned_iff [OF sorted])
  have "List.map_filter (\<lambda>i. if i \<in> set planned then ?r i else None) [0 ..< length ?ms]
      = List.map_filter ?r planned"
    by (rule map_filter_planned [OF sorted]) (auto split: if_splits)
  then have ref: "reference_calls X ?ms block planned tx = List.map_filter ?f [0 ..< length ?ms]"
    unfolding split reference_calls_def by simp
  show ?thesis
  proof (cases "input_selector (bt_input tx)")
    case None
    then have "?f = (\<lambda>i. None)" by (auto simp: fun_eq_iff call_match_def split: target.splits)
    with None hash succ ref show ?thesis by (simp add: decode_call_tx_def List.map_filter_def)
  next
    case (Some sel)
    show ?thesis
    proof (cases "mi_calls idx (bt_to tx, sel)")
      case None
      then have "groups_ok (call_key_layout X ?ms (bt_to tx, sel)) (own_call_decoder ?ms) [0 ..< length ?ms] []"
        using index_ok_calls [OF ok, of "(bt_to tx, sel)"] by (simp add: entry_groups_def)
      then have "call_key_layout X ?ms (bt_to tx, sel) i = None" if "i < length ?ms" for i
        using that by (cases "call_key_layout X ?ms (bt_to tx, sel) i") (auto simp: groups_ok_def)
      then have "?f i = None" if "i < length ?ms" for i
        using that call_match_none [OF _ Some] by simp
      then have "List.map_filter ?f [0 ..< length ?ms] = List.map_filter (\<lambda>i. None) [0 ..< length ?ms]"
        by (intro map_filter_cong2) simp
      with None Some hash succ ref show ?thesis by (simp add: decode_call_tx_def List.map_filter_def)
    next
      case (Some gs)
      note groups = index_call_groups [OF ok laws(1) ms' Some \<open>input_selector (bt_input tx) = Some sel\<close>]
      have perm: "mset (ho_calls H gs) = mset gs" using order by (simp add: hash_order_ok_def)
      have "\<forall>g \<in> set (ho_calls H gs). call_group_matches X ?ms tx g"
        using groups(2) mset_eq_setD [OF perm] by simp
      from decode_call_groups_total [OF laws(2) this, of block planned]
        groups_sum [OF groups(1) perm, of ?f] call_match_none
      show ?thesis
        using Some \<open>input_selector (bt_input tx) = Some sel\<close> hash succ
        by (auto simp: decode_call_tx_def ref)
    qed
  qed
qed


text \<open>A whole block: the successful candidates, each decoded on its own for every planned monitor.\<close>

lemma decode_call_list_reference:
  assumes new: "monitor_index_new X all = Inr idx"
    and laws: "type_text_laws X" "abi_decode_laws X" and order: "hash_order_ok H"
    and ms: "\<forall>m \<in> set all. monitor_ok X m" and sorted: "sorted_wrt (<) planned"
    and outs: "\<forall>(ti, out) \<in> set pairs. ti < length (sb_transactions block)
      \<and> eo_transaction_hash out = bt_hash (sb_transactions block ! ti)"
  shows "\<exists>cs. decode_call_list X H idx block planned pairs = Inr cs
    \<and> mset cs = mset (concat (map (\<lambda>(ti, out). if eo_succeeded out
        then reference_calls X (mi_monitors idx) (sb_number block) planned (sb_transactions block ! ti)
        else []) pairs))"
  using outs
proof (induction pairs)
  case (Cons p pairs)
  obtain ti out where p: "p = (ti, out)" by (cases p)
  let ?tx = "sb_transactions block ! ti"
  from Cons.prems p have here: "ti < length (sb_transactions block)" "eo_transaction_hash out = bt_hash ?tx"
    by auto
  obtain cs where cs: "decode_call_tx X H idx (sb_number block) planned ?tx out = Inr cs"
    "mset cs = mset (if eo_succeeded out
       then reference_calls X (mi_monitors idx) (sb_number block) planned ?tx else [])"
  proof (cases "eo_succeeded out")
    case True
    from decode_call_tx_reference [OF new laws order ms sorted here(2) True] True that show ?thesis
      by auto
  next
    case False
    with here(2) that [of "[]"] show ?thesis by (simp add: decode_call_tx_def)
  qed
  from Cons obtain ds where "decode_call_list X H idx block planned pairs = Inr ds"
    "mset ds = mset (concat (map (\<lambda>(ti, out). if eo_succeeded out
        then reference_calls X (mi_monitors idx) (sb_number block) planned (sb_transactions block ! ti)
        else []) pairs))" by auto
  with cs here p show ?case by (simp add: slice_get_def)
qed simp

lemma has_call_iff:
  assumes new: "monitor_index_new X all = Inr idx" and sorted: "sorted_wrt (<) planned"
  shows "has_call idx block addr sel planned \<longleftrightarrow>
    (\<exists>i \<in> set planned. i < length (mi_monitors idx) \<and> needs_block (mi_monitors idx ! i) block
       \<and> call_key_layout X (mi_monitors idx) (addr, sel) i \<noteq> None)"
proof -
  let ?ms = "mi_monitors idx" and ?lay = "call_key_layout X (mi_monitors idx) (addr, sel)"
  let ?gs = "entry_groups (mi_calls idx) (addr, sel)"
  have ok: "groups_ok ?lay (own_call_decoder ?ms) [0 ..< length ?ms] ?gs"
    using index_ok_calls [OF monitor_index_new_ok(1) [OF new]] .
  have cover: "\<exists>g \<in> set ?gs. ?lay i = Some (lg_layout g)" if "i < length ?ms" "?lay i \<noteq> None" for i
    using ok that unfolding groups_ok_def by (auto simp: image_iff)
  have "has_call idx block addr sel planned \<longleftrightarrow> (\<exists>g \<in> set ?gs. group_planned idx block planned g)"
    by (auto simp: has_call_def entry_groups_def list_ex_iff split: option.splits)
  also have "\<dots> \<longleftrightarrow> (\<exists>g \<in> set ?gs. \<exists>i \<in> set (lg_monitor_indices g). monitor_is_planned idx i block planned)"
    by (simp add: group_planned_def list_ex_iff)
  also have "\<dots> \<longleftrightarrow> (\<exists>g \<in> set ?gs. \<exists>i. i < length ?ms \<and> ?lay i = Some (lg_layout g)
      \<and> monitor_is_planned idx i block planned)"
    using ok unfolding groups_ok_def by (intro bex_cong refl) auto
  also have "\<dots> \<longleftrightarrow> (\<exists>i. i < length ?ms \<and> ?lay i \<noteq> None \<and> monitor_is_planned idx i block planned)"
    using cover by force
  finally show ?thesis by (auto simp: monitor_is_planned_iff [OF sorted])
qed

lemma no_call_no_reference:
  assumes new: "monitor_index_new X all = Inr idx" and sorted: "sorted_wrt (<) planned"
    and none: "case input_selector (bt_input tx) of None \<Rightarrow> True
                 | Some sel \<Rightarrow> \<not> has_call idx block (bt_to tx) sel planned"
  shows "reference_calls X (mi_monitors idx) block planned tx = []"
proof -
  have "(if i < length (mi_monitors idx) \<and> needs_block (mi_monitors idx ! i) block
      then call_match X (mi_monitors idx ! i) block tx else None) = None" if "i \<in> set planned" for i
  proof (cases "input_selector (bt_input tx)")
    case None
    then show ?thesis by (auto simp: call_match_def split: target.splits)
  next
    case (Some sel)
    with none that have "i < length (mi_monitors idx) \<Longrightarrow> needs_block (mi_monitors idx ! i) block \<Longrightarrow>
        call_key_layout X (mi_monitors idx) (bt_to tx, sel) i = None"
      by (auto simp: has_call_iff [OF new sorted])
    with call_match_none [OF _ Some] show ?thesis by auto
  qed
  then have "reference_calls X (mi_monitors idx) block planned tx = List.map_filter (\<lambda>i. None) planned"
    unfolding reference_calls_def by (rule map_filter_cong2)
  then show ?thesis by (simp add: List.map_filter_def)
qed

section \<open>Events\<close>

lemma event_fanout_total:
  assumes "\<And>i. i \<in> set ns \<Longrightarrow> monitor_is_planned idx i block planned \<Longrightarrow>
    \<exists>b. filter_evaluate (mon_filter (mi_monitors idx ! i))
          (CtxEvent block (lp_transaction_hash pos) emitter (lp_log_index pos) params) = Inr b"
  shows "event_fanout idx block planned emitter pos params ns
    = Inr (List.map_filter (\<lambda>i. if monitor_is_planned idx i block planned
              \<and> filter_evaluate (mon_filter (mi_monitors idx ! i))
                  (CtxEvent block (lp_transaction_hash pos) emitter (lp_log_index pos) params) = Inr True
            then Some (event_of (mi_monitors idx ! i) block pos params) else None) ns)"
  using assms
proof (induction ns)
  case (Cons i ns)
  then have rest: "event_fanout idx block planned emitter pos params ns
    = Inr (List.map_filter (\<lambda>i. if monitor_is_planned idx i block planned
              \<and> filter_evaluate (mon_filter (mi_monitors idx ! i))
                  (CtxEvent block (lp_transaction_hash pos) emitter (lp_log_index pos) params) = Inr True
            then Some (event_of (mi_monitors idx ! i) block pos params) else None) ns)"
    by simp
  show ?case
  proof (cases "monitor_is_planned idx i block planned")
    case True
    with Cons.prems [of i] obtain b where "filter_evaluate (mon_filter (mi_monitors idx ! i))
          (CtxEvent block (lp_transaction_hash pos) emitter (lp_log_index pos) params) = Inr b" by auto
    with True rest show ?thesis by (simp add: List.map_filter_simps)
  qed (simp add: rest List.map_filter_simps)
qed (simp add: List.map_filter_simps)

definition event_group_matches :: "externs \<Rightarrow> monitor list \<Rightarrow> source_log \<Rightarrow> event_group \<Rightarrow> bool" where
  "event_group_matches X ms log g =
     (\<forall>i \<in> set (lg_monitor_indices g). \<exists>t. mon_target (ms ! i) = EventT t \<and> et_address t = sl_address log
        \<and> slice_get (sl_topics log) 0 = Some (et_topic0 t)
        \<and> event_decoder_new X (et_params t) (et_topic0 t) = Inr (lg_decoder g) \<and> monitor_ok X (ms ! i))"

lemma decode_event_groups_total:
  assumes laws: "abi_decode_laws X"
    and match: "\<forall>g \<in> set gs. event_group_matches X (mi_monitors idx) log g"
  shows "decode_event_groups X idx block planned log pos gs
    = Inr (concat (map (\<lambda>g. List.map_filter (\<lambda>i. if monitor_is_planned idx i block planned
        then event_match X (mi_monitors idx ! i) block log pos else None) (lg_monitor_indices g)) gs))"
  using match
proof (induction gs)
  case (Cons g gs)
  let ?f = "\<lambda>i. if monitor_is_planned idx i block planned
        then event_match X (mi_monitors idx ! i) block log pos else None"
  have rest: "decode_event_groups X idx block planned log pos gs
      = Inr (concat (map (\<lambda>g. List.map_filter ?f (lg_monitor_indices g)) gs))"
    using Cons by simp
  have g: "event_group_matches X (mi_monitors idx) log g" using Cons.prems by simp
  show ?case
  proof (cases "group_planned idx block planned g")
    case False
    then have "List.map_filter ?f (lg_monitor_indices g) = List.map_filter (\<lambda>i. None) (lg_monitor_indices g)"
      by (intro map_filter_cong2) (auto simp: group_planned_def list_ex_iff)
    with False rest show ?thesis by (simp add: List.map_filter_def)
  next
    case True
    show ?thesis
    proof (cases "event_decode X (lg_decoder g) (sl_topics log) (sl_data log)")
      case (Inl e)
      have "List.map_filter ?f (lg_monitor_indices g) = List.map_filter (\<lambda>i. None) (lg_monitor_indices g)"
        using g Inl by (intro map_filter_cong2) (auto simp: event_group_matches_def event_match_def decode_event_def)
      with True Inl rest show ?thesis by (simp add: List.map_filter_def)
    next
      case (Inr params)
      let ?ctx = "CtxEvent block (lp_transaction_hash pos) (sl_address log) (lp_log_index pos) params"
      have "\<exists>b. filter_evaluate (mon_filter (mi_monitors idx ! i)) ?ctx = Inr b"
        if "i \<in> set (lg_monitor_indices g)" for i
      proof -
        from g that obtain t where t: "mon_target (mi_monitors idx ! i) = EventT t"
          "event_decoder_new X (et_params t) (et_topic0 t) = Inr (lg_decoder g)" "monitor_ok X (mi_monitors idx ! i)"
          unfolding event_group_matches_def by blast
        then have "schema_ok (et_params t)" by (simp add: monitor_ok_def target_params_def)
        from event_decode_conform [OF laws this t(2) Inr] t show ?thesis
          by (intro filter_compiled_total [of X "EventT t"]) (auto simp: monitor_ok_def context_conforms_def)
      qed
      from event_fanout_total [OF this]
      have "event_fanout idx block planned (sl_address log) pos params (lg_monitor_indices g)
          = Inr (List.map_filter (\<lambda>i. if monitor_is_planned idx i block planned
              \<and> filter_evaluate (mon_filter (mi_monitors idx ! i)) ?ctx = Inr True
            then Some (event_of (mi_monitors idx ! i) block pos params) else None) (lg_monitor_indices g))"
        by blast
      also have "List.map_filter (\<lambda>i. if monitor_is_planned idx i block planned
              \<and> filter_evaluate (mon_filter (mi_monitors idx ! i)) ?ctx = Inr True
            then Some (event_of (mi_monitors idx ! i) block pos params) else None) (lg_monitor_indices g)
          = List.map_filter ?f (lg_monitor_indices g)"
        using g Inr by (intro map_filter_cong2)
          (auto simp: event_group_matches_def event_match_def decode_event_def)
      finally show ?thesis using True Inr rest by simp
    qed
  qed
qed simp

lemma index_event_groups:
  assumes idx: "index_ok X (length (mi_monitors idx)) idx" and laws: "type_text_laws X"
    and ms: "\<forall>m \<in> set (mi_monitors idx). monitor_ok X m"
    and gs: "mi_events idx (sl_address log, topic0) = Some gs" and t0: "slice_get (sl_topics log) 0 = Some topic0"
  shows "groups_ok (event_key_layout X (mi_monitors idx) (sl_address log, topic0)) (own_event_decoder X (mi_monitors idx))
           [0 ..< length (mi_monitors idx)] gs"
    and "\<forall>g \<in> set gs. event_group_matches X (mi_monitors idx) log g"
proof -
  let ?lay = "event_key_layout X (mi_monitors idx) (sl_address log, topic0)"
  show ok: "groups_ok ?lay (own_event_decoder X (mi_monitors idx)) [0 ..< length (mi_monitors idx)] gs"
    using index_ok_events [OF idx, of "(sl_address log, topic0)"] gs by (simp add: entry_groups_def)
  show "\<forall>g \<in> set gs. event_group_matches X (mi_monitors idx) log g"
  proof
    fix g assume "g \<in> set gs"
    with ok have g: "lg_monitor_indices g = filter (\<lambda>i. ?lay i = Some (lg_layout g)) [0 ..< length (mi_monitors idx)]"
      "lg_monitor_indices g \<noteq> []" "own_event_decoder X (mi_monitors idx) (hd (lg_monitor_indices g)) = Inr (lg_decoder g)"
      by (auto simp: groups_ok_def simp del: upt_Suc)
    have member: "\<exists>t. mon_target (mi_monitors idx ! i) = EventT t \<and> et_address t = sl_address log \<and> et_topic0 t = topic0
        \<and> event_layout_of X t = lg_layout g \<and> schema_ok (et_params t) \<and> monitor_ok X (mi_monitors idx ! i)"
      if "i \<in> set (lg_monitor_indices g)" for i
      using that ms unfolding g(1)
      by (auto simp: event_key_layout_def monitor_ok_def target_params_def split: target.splits if_splits)
    have "hd (lg_monitor_indices g) \<in> set (lg_monitor_indices g)" using g(2) by simp
    from member [OF this] obtain t' where t': "mon_target (mi_monitors idx ! hd (lg_monitor_indices g)) = EventT t'"
      "event_layout_of X t' = lg_layout g" "schema_ok (et_params t')" "et_topic0 t' = topic0" by blast
    with g(3) have dec: "event_decoder_new X (et_params t') topic0 = Inr (lg_decoder g)"
      by (simp add: own_event_decoder_def)
    show "event_group_matches X (mi_monitors idx) log g"
      unfolding event_group_matches_def
    proof
      fix i assume "i \<in> set (lg_monitor_indices g)"
      from member [OF this] obtain t where "mon_target (mi_monitors idx ! i) = EventT t" "et_address t = sl_address log"
        "et_topic0 t = topic0" "event_layout_of X t = lg_layout g" "schema_ok (et_params t)"
        "monitor_ok X (mi_monitors idx ! i)" by blast
      with event_layout_decoder [OF laws _ t'(3), of t] t' dec t0
      show "\<exists>t. mon_target (mi_monitors idx ! i) = EventT t \<and> et_address t = sl_address log
        \<and> slice_get (sl_topics log) 0 = Some (et_topic0 t)
        \<and> event_decoder_new X (et_params t) (et_topic0 t) = Inr (lg_decoder g) \<and> monitor_ok X (mi_monitors idx ! i)"
        by auto
    qed
  qed
qed

lemma event_match_none:
  "event_key_layout X ms (sl_address log, topic0) i = None \<Longrightarrow> slice_get (sl_topics log) 0 = Some topic0 \<Longrightarrow>
     event_match X (ms ! i) block log pos = None"
  by (auto simp: event_key_layout_def event_match_def split: target.splits if_splits)

text \<open>A log of the finalized block, as \<open>eth_getLogs\<close> returns it.\<close>

definition log_positioned :: "source_log \<Rightarrow> block_number \<Rightarrow> log_position \<Rightarrow> bool" where
  "log_positioned log block pos =
     (\<not> sl_removed log \<and> sl_block_number log = Some block
      \<and> sl_transaction_hash log = Some (lp_transaction_hash pos)
      \<and> sl_log_index log = Some (lp_log_index pos))"

lemma decode_event_log_reference:
  assumes new: "monitor_index_new X all = Inr idx"
    and laws: "type_text_laws X" "abi_decode_laws X" and order: "hash_order_ok H"
    and ms: "\<forall>m \<in> set all. monitor_ok X m" and sorted: "sorted_wrt (<) planned"
    and pos: "log_positioned log block pos"
  shows "\<exists>es. decode_event_log X H idx block planned log = Inr es
    \<and> mset es = mset (reference_events X (mi_monitors idx) block planned log pos)"
proof -
  let ?ms = "mi_monitors idx"
  let ?f = "\<lambda>i. if monitor_is_planned idx i block planned then event_match X (?ms ! i) block log pos else None"
  let ?r = "\<lambda>i. if i < length ?ms \<and> needs_block (?ms ! i) block then event_match X (?ms ! i) block log pos else None"
  note ok = monitor_index_new_ok(1) [OF new]
  have ms': "\<forall>m \<in> set ?ms. monitor_ok X m"
    using ms monitor_index_new_ok(2) [OF new] by (auto simp: active_monitors_def)
  have split: "(\<lambda>i. if i \<in> set planned then ?r i else None) = ?f"
    by (auto simp: fun_eq_iff monitor_is_planned_iff [OF sorted])
  have "List.map_filter (\<lambda>i. if i \<in> set planned then ?r i else None) [0 ..< length ?ms]
      = List.map_filter ?r planned"
    by (rule map_filter_planned [OF sorted]) (auto split: if_splits)
  then have ref: "reference_events X ?ms block planned log pos = List.map_filter ?f [0 ..< length ?ms]"
    unfolding split reference_events_def by simp
  show ?thesis
  proof (cases "slice_get (sl_topics log) 0")
    case None
    then have "?f i = None" for i by (auto simp: event_match_def split: target.splits)
    with None ref show ?thesis by (simp add: decode_event_log_def List.map_filter_def)
  next
    case (Some topic0)
    show ?thesis
    proof (cases "mi_events idx (sl_address log, topic0)")
      case None
      then have "groups_ok (event_key_layout X ?ms (sl_address log, topic0)) (own_event_decoder X ?ms) [0 ..< length ?ms] []"
        using index_ok_events [OF ok, of "(sl_address log, topic0)"] by (simp add: entry_groups_def)
      then have "event_key_layout X ?ms (sl_address log, topic0) i = None" if "i < length ?ms" for i
        using that by (cases "event_key_layout X ?ms (sl_address log, topic0) i") (auto simp: groups_ok_def)
      then have none: "?f i = None" if "i < length ?ms" for i
        using that event_match_none [OF _ Some] by simp
      have "List.map_filter ?f [0 ..< length ?ms] = List.map_filter (\<lambda>i. None) [0 ..< length ?ms]"
        by (rule map_filter_cong2) (use none in simp)
      then have "List.map_filter ?f [0 ..< length ?ms] = []" by (simp add: List.map_filter_def)
      with None Some ref show ?thesis by (simp add: decode_event_log_def)
    next
      case (Some gs)
      note groups = index_event_groups [OF ok laws(1) ms' Some \<open>slice_get (sl_topics log) 0 = Some topic0\<close>]
      have perm: "mset (ho_events H gs) = mset gs" using order by (simp add: hash_order_ok_def)
      have "\<forall>g \<in> set (ho_events H gs). event_group_matches X ?ms log g"
        using groups(2) mset_eq_setD [OF perm] by simp
      note total = decode_event_groups_total [OF laws(2) this, of block planned pos]
      have sum: "mset (concat (map (\<lambda>g. List.map_filter ?f (lg_monitor_indices g)) (ho_events H gs)))
          = mset (List.map_filter ?f [0 ..< length ?ms])"
        using groups_sum [OF groups(1) perm, of ?f] event_match_none
          \<open>slice_get (sl_topics log) 0 = Some topic0\<close> by simp
      have idle: "concat (map (\<lambda>g. List.map_filter ?f (lg_monitor_indices g)) (ho_events H gs)) = []"
        if "\<not> list_ex (group_planned idx block planned) gs"
      proof -
        have "List.map_filter ?f (lg_monitor_indices g) = []" if "g \<in> set (ho_events H gs)" for g
        proof -
          from that \<open>\<not> list_ex _ _\<close> have "\<forall>i \<in> set (lg_monitor_indices g). ?f i = None"
            using mset_eq_setD [OF perm] by (auto simp: group_planned_def list_ex_iff)
          then have "List.map_filter ?f (lg_monitor_indices g) = List.map_filter (\<lambda>i. None) (lg_monitor_indices g)"
            by (intro map_filter_cong2) blast
          then show ?thesis by (simp add: List.map_filter_def)
        qed
        then show ?thesis by simp
      qed
      show ?thesis
      proof (cases "list_ex (group_planned idx block planned) gs")
        case True
        with pos Some \<open>slice_get (sl_topics log) 0 = Some topic0\<close>
        have "decode_event_log X H idx block planned log
            = decode_event_groups X idx block planned log pos (ho_events H gs)"
          by (cases pos) (simp add: decode_event_log_def log_positioned_def)
        with total sum show ?thesis by (simp add: ref)
      next
        case False
        from sum have "mset (List.map_filter ?f [0 ..< length ?ms]) = {#}"
          unfolding idle [OF False] by simp
        with False Some \<open>slice_get (sl_topics log) 0 = Some topic0\<close> show ?thesis
          by (simp add: decode_event_log_def ref)
      qed
    qed
  qed
qed

text \<open>All logs of a block, and the logs a block must not have.\<close>

lemma decode_events_reference:
  assumes new: "monitor_index_new X all = Inr idx"
    and laws: "type_text_laws X" "abi_decode_laws X" and order: "hash_order_ok H"
    and ms: "\<forall>m \<in> set all. monitor_ok X m" and sorted: "sorted_wrt (<) planned"
    and pos: "list_all2 (\<lambda>log pos. log_positioned log block pos) logs poss"
  shows "\<exists>es. decode_events X H block idx planned logs = Inr es
    \<and> mset es = mset (concat (map (\<lambda>(log, pos).
        reference_events X (mi_monitors idx) block planned log pos) (zip logs poss)))"
  using pos
proof (induction rule: list_all2_induct)
  case (Cons log logs pos poss)
  obtain es where "decode_event_log X H idx block planned log = Inr es"
    "mset es = mset (reference_events X (mi_monitors idx) block planned log pos)"
    using decode_event_log_reference [OF new laws order ms sorted Cons(1)] by blast
  with Cons(3) show ?case by auto
qed simp

end
