(* ===== verification/Ports.thy ===== *)
theory Ports
  imports Decoding
begin

text \<open>
  \<open>parseon-core/src/ports\<close>: the contracts between the core and its adapters. A trait object is
  a record of its methods, over a state the caller threads; the data the ports exchange is
  modelled with the operations the files define on it: block ranges, log queries, commits,
  canonical parameter JSON, sink batches and telemetry.
\<close>

section \<open>Block ranges and log queries (\<open>source.rs\<close>)\<close>

record block_range =
  br_start :: block_number
  br_end :: block_number

definition block_range_new :: "block_number \<Rightarrow> block_number \<Rightarrow> block_range option" where
  "block_range_new s e = (if s \<le> e then Some \<lparr>br_start = s, br_end = e\<rparr> else None)"

definition block_range_single :: "block_number \<Rightarrow> block_range" where
  "block_range_single b = \<lparr>br_start = b, br_end = b\<rparr>"

datatype log_target = LogTarget (lt_address: address) (lt_topic0: b256)

text \<open>The derived \<open>Ord\<close>: address first, then topic.\<close>

instantiation log_target :: linorder
begin

definition less_eq_log_target :: "log_target \<Rightarrow> log_target \<Rightarrow> bool" where
  "less_eq_log_target a b =
     (lt_address a < lt_address b \<or> (lt_address a = lt_address b \<and> lt_topic0 a \<le> lt_topic0 b))"

definition less_log_target :: "log_target \<Rightarrow> log_target \<Rightarrow> bool" where
  "less_log_target a b =
     (lt_address a < lt_address b \<or> (lt_address a = lt_address b \<and> lt_topic0 a < lt_topic0 b))"

instance
proof
  fix a b c :: log_target
  show "a \<le> b \<Longrightarrow> b \<le> a \<Longrightarrow> a = b"
    by (cases a; cases b) (auto simp: less_eq_log_target_def)
qed (auto simp: less_eq_log_target_def less_log_target_def)

end

record log_query =
  lq_range :: block_range
  lq_targets :: "log_target list"

definition log_query_new :: "block_range \<Rightarrow> log_target list \<Rightarrow> log_query" where
  "log_query_new rng targets = \<lparr>lq_range = rng, lq_targets = remdups_adj (sort targets)\<rparr>"

definition log_query_is_empty :: "log_query \<Rightarrow> bool" where
  "log_query_is_empty q = (lq_targets q = [])"

definition in_range :: "block_range \<Rightarrow> block_number \<Rightarrow> bool" where
  "in_range r b = (br_start r \<le> b \<and> b \<le> br_end r)"

text \<open>The target of a log, when it has one.\<close>

definition log_target_of :: "source_log \<Rightarrow> log_target option" where
  "log_target_of log =
     (case slice_get (sl_topics log) 0 of None \<Rightarrow> None | Some t \<Rightarrow> Some (LogTarget (sl_address log) t))"

record block_source =
  bs_chain_id :: "u64 result"
  bs_finalized_head :: "block_number result"
  bs_fetch_block :: "block_number \<Rightarrow> source_block result"
  bs_fetch_execution_outcomes :: "block_number \<Rightarrow> b256 list \<Rightarrow> execution_outcome list result"
  bs_fetch_logs :: "log_query \<Rightarrow> source_log list result"
  bs_set_rpc_url :: "url \<Rightarrow> unit result"

text \<open>
  The contract in the trait's documentation: the exact requested block, one outcome per hash in
  the same order, and logs of the queried blocks and targets only.
\<close>

definition source_contract :: "block_source \<Rightarrow> bool" where
  "source_contract S =
     ((\<forall>b blk. bs_fetch_block S b = Inr blk \<longrightarrow> sb_number blk = b)
      \<and> (\<forall>b hs outs. bs_fetch_execution_outcomes S b hs = Inr outs \<longrightarrow> map eo_transaction_hash outs = hs)
      \<and> (\<forall>q logs. bs_fetch_logs S q = Inr logs \<longrightarrow>
           (\<forall>log \<in> set logs. (\<exists>b pos. log_positioned log b pos \<and> in_range (lq_range q) b)
              \<and> log_target_of log \<in> Some ` set (lq_targets q))))"

section \<open>Canonical parameters and commits (\<open>storage.rs\<close>)\<close>

record block_commit =
  bc_chain :: chain
  bc_block_number :: block_number
  bc_monitors :: "monitor list"
  bc_results :: "decoded_result list"

record 's index_storage =
  is_load_monitors :: "'s \<Rightarrow> chain \<Rightarrow> monitor list result"
  is_commit_block :: "'s \<Rightarrow> block_commit \<Rightarrow> unit result \<times> 's"

record registered_chain =
  rc_chain :: chain
  rc_rpc_url :: url
  rc_enabled :: bool

record new_chain =
  nc_chain :: chain
  nc_rpc_url :: url
  nc_enabled :: bool

record chain_update =
  cu_rpc_url :: "url option"
  cu_enabled :: "bool option"

record chain_record =
  cr_chain :: chain
  cr_rpc_url :: url
  cr_enabled :: bool
  cr_created_at :: int
  cr_updated_at :: int

datatype monitor_kind = KindCall | KindEvent

definition monitor_kind_as_str :: "monitor_kind \<Rightarrow> string" where
  "monitor_kind_as_str k = (case k of KindCall \<Rightarrow> ''call'' | KindEvent \<Rightarrow> ''event'')"

record new_monitor =
  nm_chain :: chain
  nm_target :: target
  nm_start_block :: block_number
  nm_end_block :: "block_number option"
  nm_filter :: "filter_definition option"

record monitor_record =
  mr_id :: monitor_id
  mr_chain :: chain
  mr_target :: target
  mr_start_block :: block_number
  mr_end_block :: "block_number option"
  mr_cursor :: "block_number option"
  mr_completed :: bool
  mr_enabled :: bool
  mr_filter :: "filter_definition option"
  mr_created_at :: int
  mr_updated_at :: int

datatype result_record =
    RecordCall b256 block_number json
  | RecordEvent b256 u64 block_number json

text \<open>The JSON of one value; the parameters become the fields of an object, in schema order.\<close>

definition canonical_value :: "externs \<Rightarrow> decoded_value \<Rightarrow> json" where
  "canonical_value X v =
     (case v of
        DUint w \<Rightarrow> JString (u256_display X w)
      | DInt w \<Rightarrow> JString (i256_display X w)
      | DBool b \<Rightarrow> JBool b
      | DAddress a \<Rightarrow> JString (address_display X a)
      | DString s \<Rightarrow> JString s
      | DBytes b \<Rightarrow> JString (''0x'' @ hex_encode X b))"

text \<open>\<open>serde_json::Map\<close>: a later field of the same name replaces the earlier one.\<close>

fun object_insert :: "string \<Rightarrow> 'v \<Rightarrow> (string \<times> 'v) list \<Rightarrow> (string \<times> 'v) list" where
  "object_insert k v [] = [(k, v)]"
| "object_insert k v ((k', v') # kvs) =
     (if k = k' then (k, v) # kvs else (k', v') # object_insert k v kvs)"

definition collect_fields :: "(string \<times> 'v) list \<Rightarrow> (string \<times> 'v) list" where
  "collect_fields kvs = foldl (\<lambda>fs (k, v). object_insert k v fs) [] kvs"

definition collect_object :: "(string \<times> json) list \<Rightarrow> json" where
  "collect_object kvs = JObject (collect_fields kvs)"

definition canonical_params :: "externs \<Rightarrow> abi_param list \<Rightarrow> decoded_value list \<Rightarrow> json result" where
  "canonical_params X schema vs =
     res_bind (ensure (length schema = length vs) (anyhow ''parameter count mismatch'')) (\<lambda>_.
     Inr (collect_object (map (\<lambda>(param, v). (param_name param, canonical_value X v)) (zip schema vs))))"

section \<open>The block cache (\<open>cache.rs\<close>)\<close>

record 'c block_cache_ops =
  cache_get :: "'c \<Rightarrow> chain \<Rightarrow> block_number \<Rightarrow> 'c \<times> source_block option"
  cache_put :: "'c \<Rightarrow> chain \<Rightarrow> source_block \<Rightarrow> 'c"
  cache_evict_before :: "'c \<Rightarrow> chain \<Rightarrow> block_number \<Rightarrow> 'c"

section \<open>Telemetry (\<open>telemetry.rs\<close>, \<open>InFlightGuard\<close>)\<close>

text \<open>One constructor per recording method; durations are not modelled.\<close>

datatype telemetry_event =
    RecordRpc chain_id string string string
  | RecordCache chain_id bool
  | RecordCommit chain_id nat nat string
  | SetWorkerLag chain_id block_number
  | AdjustInFlight chain_id string int

definition in_flight_enter :: "chain_id \<Rightarrow> string \<Rightarrow> telemetry_event" where
  "in_flight_enter c stage = AdjustInFlight c stage 1"

definition in_flight_leave :: "chain_id \<Rightarrow> string \<Rightarrow> telemetry_event" where
  "in_flight_leave c stage = AdjustInFlight c stage (- 1)"

text \<open>The gauge value a trace leaves for one chain and stage.\<close>

fun in_flight :: "chain_id \<Rightarrow> string \<Rightarrow> telemetry_event list \<Rightarrow> int" where
  "in_flight c stage [] = 0"
| "in_flight c stage (e # es) =
     (case e of AdjustInFlight c' stage' d \<Rightarrow> if c' = c \<and> stage' = stage then d else 0 | _ \<Rightarrow> 0)
       + in_flight c stage es"

lemma in_flight_append [simp]: "in_flight c s (xs @ ys) = in_flight c s xs + in_flight c s ys"
  by (induction xs) auto

section \<open>Sink batches (\<open>sink.rs\<close>)\<close>

datatype sink_result =
    SinkCall u64 b256 address address json
  | SinkEvent u64 b256 address u64 json

record sink_batch =
  sk_version :: nat
  sk_chain_id :: chain_id
  sk_block_number :: block_number
  sk_results :: "sink_result list"

definition find_monitor :: "monitor list \<Rightarrow> monitor_id \<Rightarrow> monitor result" where
  "find_monitor ms i =
     ok_or (anyhow (''result references unknown monitor '' @ show_u64 (monitor_id_get i)))
       (List.find (\<lambda>m. mon_id m = i) ms)"

definition sink_result_of :: "externs \<Rightarrow> monitor list \<Rightarrow> decoded_result \<Rightarrow> sink_result result" where
  "sink_result_of X ms r =
     (case r of
        ResultCall c \<Rightarrow>
          res_bind (find_monitor ms (dc_monitor_id c)) (\<lambda>m.
          (case mon_target m of
             EventT _ \<Rightarrow> Inl (anyhow ''call result references event monitor'')
           | CallT t \<Rightarrow>
               res_bind (canonical_params X (ct_inputs t) (dc_params c)) (\<lambda>params.
               Inr (SinkCall (monitor_id_get (dc_monitor_id c)) (dc_transaction_hash c) (dc_from c) (dc_to c) params))))
      | ResultEvent e \<Rightarrow>
          res_bind (find_monitor ms (de_monitor_id e)) (\<lambda>m.
          (case mon_target m of
             CallT _ \<Rightarrow> Inl (anyhow ''event result references call monitor'')
           | EventT t \<Rightarrow>
               res_bind (canonical_params X (et_params t) (de_params e)) (\<lambda>params.
               Inr (SinkEvent (monitor_id_get (de_monitor_id e)) (de_transaction_hash e) (et_address t)
                      (de_log_index e) params)))))"

definition sink_batch_new ::
  "externs \<Rightarrow> chain \<Rightarrow> block_number \<Rightarrow> monitor list \<Rightarrow> decoded_result list \<Rightarrow> sink_batch option result" where
  "sink_batch_new X ch block ms results =
     (if results = [] then Inr None
      else
        res_bind (traverse (sink_result_of X ms) results) (\<lambda>rs.
        Inr (Some \<lparr>sk_version = 1, sk_chain_id = chain_id_of ch, sk_block_number = block, sk_results = rs\<rparr>)))"


section \<open>Facts about the exchanged data\<close>

lemma block_range_new_Some [res_simps]:
  "block_range_new s e = Some r \<longleftrightarrow> s \<le> e \<and> r = \<lparr>br_start = s, br_end = e\<rparr>"
  by (auto simp: block_range_new_def)

lemma log_query_new_targets:
  "sorted_wrt (<) (lq_targets (log_query_new r ts)) \<and> set (lq_targets (log_query_new r ts)) = set ts"
  using sort_remdups_adj by (auto simp: log_query_new_def)

lemma object_insert_fresh: "k \<notin> fst ` set fs \<Longrightarrow> object_insert k v fs = fs @ [(k, v)]"
  by (induction k v fs rule: object_insert.induct) auto

lemma foldl_object_insert_distinct:
  "distinct (map fst kvs) \<Longrightarrow> fst ` set kvs \<inter> fst ` set fs = {} \<Longrightarrow>
     foldl (\<lambda>fs (k, v). object_insert k v fs) fs kvs = fs @ kvs"
proof (induction kvs arbitrary: fs)
  case (Cons kv kvs)
  then show ?case by (cases kv) (auto simp: object_insert_fresh)
qed simp

lemma collect_fields_distinct: "distinct (map fst kvs) \<Longrightarrow> collect_fields kvs = kvs"
  by (simp add: collect_fields_def foldl_object_insert_distinct)

lemma collect_object_distinct: "distinct (map fst kvs) \<Longrightarrow> collect_object kvs = JObject kvs"
  by (simp add: collect_object_def collect_fields_distinct)

lemma canonical_params_fields:
  assumes "distinct (map param_name ps)" and "length vs = length ps"
  shows "canonical_params X ps vs = Inr (JObject (zip (map param_name ps) (map (canonical_value X) vs)))"
proof -
  let ?kvs = "map (\<lambda>(p, v). (param_name p, canonical_value X v)) (zip ps vs)"
  have eq: "?kvs = zip (map param_name ps) (map (canonical_value X) vs)"
    by (rule nth_equalityI) (auto simp: assms(2))
  have "map fst ?kvs = map param_name ps"
    by (rule nth_equalityI) (auto simp: assms(2))
  with assms(1) have "collect_object ?kvs = JObject ?kvs" by (intro collect_object_distinct) simp
  with assms(2) show ?thesis by (simp add: canonical_params_def eq)
qed

text \<open>Printed values determine the value, when the library's displays do.\<close>

definition display_laws :: "externs \<Rightarrow> bool" where
  "display_laws X =
     (inj (u256_display X) \<and> inj (i256_display X) \<and> inj (address_display X) \<and> inj (hex_encode X))"

lemma canonical_value_inject:
  assumes "display_laws X" and "value_has_type ty v" and "value_has_type ty w"
  shows "canonical_value X v = canonical_value X w \<longleftrightarrow> v = w"
  using assms
  by (cases ty; cases v; cases w)
    (auto simp: canonical_value_def display_laws_def inj_eq)

lemma canonical_params_inject:
  assumes "display_laws X" and "schema_ok ps"
    and "params_conform ev ps vs" and "params_conform ev ps ws"
    and eq: "canonical_params X ps vs = canonical_params X ps ws"
  shows "vs = ws"
proof -
  have len: "length vs = length ps" "length ws = length ps"
    using assms(3,4) by (auto simp: params_conform_def dest: list_all2_lengthD)
  have "distinct (map param_name ps)" using assms(2) by (simp add: schema_ok_def)
  with eq len have zips: "zip (map param_name ps) (map (canonical_value X) vs)
      = zip (map param_name ps) (map (canonical_value X) ws)"
    by (simp add: canonical_params_fields)
  have "map (canonical_value X) vs = map snd (zip (map param_name ps) (map (canonical_value X) vs))"
    using len by (simp add: map_snd_zip)
  also have "\<dots> = map (canonical_value X) ws" unfolding zips using len by (simp add: map_snd_zip)
  finally have "map (canonical_value X) vs = map (canonical_value X) ws" .
  then have "canonical_value X (vs ! i) = canonical_value X (ws ! i)" if "i < length ps" for i
    using that len by (metis nth_map)
  moreover have "value_has_type (wire_type ev (ps ! i)) (vs ! i) \<and> value_has_type (wire_type ev (ps ! i)) (ws ! i)"
    if "i < length ps" for i
    using that assms(3,4) by (auto simp: params_conform_def list_all2_conv_all_nth)
  ultimately have "vs ! i = ws ! i" if "i < length ps" for i
    using that canonical_value_inject [OF assms(1)] by blast
  with len show ?thesis by (intro nth_equalityI) auto
qed

section \<open>Batches of a committed block\<close>

text \<open>The results a batch can be built from: each names a monitor of its kind and schema.\<close>

definition result_of_monitors :: "monitor list \<Rightarrow> decoded_result \<Rightarrow> bool" where
  "result_of_monitors ms r =
     (\<exists>m \<in> set ms.
        (case (r, mon_target m) of
           (ResultCall c, CallT t) \<Rightarrow> mon_id m = dc_monitor_id c \<and> length (dc_params c) = length (ct_inputs t)
         | (ResultEvent e, EventT t) \<Rightarrow> mon_id m = de_monitor_id e \<and> length (de_params e) = length (et_params t)
         | _ \<Rightarrow> False))"

lemma find_monitor_distinct:
  "distinct (map mon_id ms) \<Longrightarrow> m \<in> set ms \<Longrightarrow> find_monitor ms (mon_id m) = Inr m"
proof -
  assume "distinct (map mon_id ms)" "m \<in> set ms"
  then have "List.find (\<lambda>m'. mon_id m' = mon_id m) ms = Some m"
  proof (induction ms)
    case (Cons m2 ms)
    then show ?case by (auto simp: rev_image_eqI)
  qed simp
  then show ?thesis by (simp add: find_monitor_def)
qed

lemma sink_result_of_total:
  assumes "distinct (map mon_id ms)" and "result_of_monitors ms r"
  shows "\<exists>s. sink_result_of X ms r = Inr s"
proof -
  obtain m where m: "m \<in> set ms"
    "case (r, mon_target m) of
       (ResultCall c, CallT t) \<Rightarrow> mon_id m = dc_monitor_id c \<and> length (dc_params c) = length (ct_inputs t)
     | (ResultEvent e, EventT t) \<Rightarrow> mon_id m = de_monitor_id e \<and> length (de_params e) = length (et_params t)
     | _ \<Rightarrow> False"
    using assms(2) by (auto simp: result_of_monitors_def)
  have found: "find_monitor ms (mon_id m) = Inr m" by (rule find_monitor_distinct [OF assms(1) m(1)])
  show ?thesis
    using m(2) found
    by (cases r; cases "mon_target m") (auto simp: sink_result_of_def canonical_params_def)
qed

lemma sink_batch_new_total:
  assumes "distinct (map mon_id ms)" and "\<forall>r \<in> set results. result_of_monitors ms r"
  shows "\<exists>b. sink_batch_new X ch block ms results = Inr b
    \<and> (case b of None \<Rightarrow> results = []
       | Some batch \<Rightarrow> sk_block_number batch = block \<and> length (sk_results batch) = length results \<and> results \<noteq> [])"
proof (cases "results = []")
  case False
  have "\<exists>rs. traverse (sink_result_of X ms) results = Inr rs"
    using assms(2)
  proof (induction results)
    case (Cons r rs)
    with sink_result_of_total [OF assms(1), of r X] show ?case by auto
  qed simp
  then obtain rs where "traverse (sink_result_of X ms) results = Inr rs" ..
  with False traverse_length [OF this] show ?thesis by (simp add: sink_batch_new_def)
qed (simp add: sink_batch_new_def)

end
