(* ===== verification/Cache_Contract.thy ===== *)
theory Cache_Contract
  imports Ports
begin

text \<open>
  The interface the worker relies on when it asks a \<open>BlockCache\<close> before the source. The view
  says which block a cache state would return for a key; the laws allow an implementation to
  forget entries at any time, but never to return a block that was not put under the key.
\<close>

type_synonym cache_key = "chain_id \<times> block_number"

locale block_cache_port =
  fixes C :: "'c block_cache_ops"
    and view :: "'c \<Rightarrow> cache_key \<Rightarrow> source_block option"
  assumes get_view: "snd (cache_get C c ch b) = view c (chain_id_of ch, b)"
    and get_keeps: "view (fst (cache_get C c ch b)) k = Some blk \<Longrightarrow> view c k = Some blk"
    and put_view: "view (cache_put C c ch blk) k = Some blk' \<Longrightarrow>
      (k = (chain_id_of ch, sb_number blk) \<and> blk' = blk) \<or> (k \<noteq> (chain_id_of ch, sb_number blk) \<and> view c k = Some blk')"
    and evict_view: "view (cache_evict_before C c ch n) k = Some blk \<Longrightarrow>
      view c k = Some blk \<and> \<not> (fst k = chain_id_of ch \<and> snd k < n)"
    and evict_keeps: "view c k = Some blk \<Longrightarrow> \<not> (fst k = chain_id_of ch \<and> snd k < n) \<Longrightarrow>
      view (cache_evict_before C c ch n) k = Some blk"
begin

text \<open>The cache only holds what the source would answer.\<close>

definition coherent :: "chain \<Rightarrow> (block_number \<Rightarrow> source_block) \<Rightarrow> 'c \<Rightarrow> bool" where
  "coherent ch truth c = (\<forall>b blk. view c (chain_id_of ch, b) = Some blk \<longrightarrow> blk = truth b)"

lemma coherent_get:
  "coherent ch truth c \<Longrightarrow> cache_get C c ch b = (c', r) \<Longrightarrow>
     coherent ch truth c' \<and> (case r of None \<Rightarrow> True | Some blk \<Rightarrow> blk = truth b)"
proof -
  assume c: "coherent ch truth c" and get: "cache_get C c ch b = (c', r)"
  have keeps: "view c k = Some blk" if "view c' k = Some blk" for k blk
    using get_keeps [of c ch b k blk] that get by simp
  have r: "r = view c (chain_id_of ch, b)"
    using get_view [of c ch b] get by simp
  have "coherent ch truth c'" unfolding coherent_def
  proof (intro allI impI)
    fix b blk assume "view c' (chain_id_of ch, b) = Some blk"
    from keeps [OF this] c show "blk = truth b" by (simp add: coherent_def)
  qed
  moreover have "case r of None \<Rightarrow> True | Some blk \<Rightarrow> blk = truth b"
    using c by (simp add: r coherent_def split: option.split)
  ultimately show ?thesis ..
qed

lemma coherent_put:
  assumes "coherent ch truth c" and "blk = truth b" and "sb_number blk = b"
  shows "coherent ch truth (cache_put C c ch blk)"
  unfolding coherent_def
proof (intro allI impI)
  fix b' blk' assume "view (cache_put C c ch blk) (chain_id_of ch, b') = Some blk'"
  from put_view [OF this] assms show "blk' = truth b'" by (auto simp: coherent_def)
qed

lemma coherent_evict:
  assumes "coherent ch truth c"
  shows "coherent ch truth (cache_evict_before C c ch n)"
  unfolding coherent_def
proof (intro allI impI)
  fix b blk assume "view (cache_evict_before C c ch n) (chain_id_of ch, b) = Some blk"
  from evict_view [OF this] assms show "blk = truth b" by (simp add: coherent_def)
qed

text \<open>Eviction drops every block below the bound, of its chain, and nothing else.\<close>

lemma view_evict:
  "view (cache_evict_before C c ch n) k = (if fst k = chain_id_of ch \<and> snd k < n then None else view c k)"
proof (cases "fst k = chain_id_of ch \<and> snd k < n")
  case True
  then show ?thesis
    using evict_view [of c ch n k] by (cases "view (cache_evict_before C c ch n) k") auto
next
  case False
  show ?thesis
  proof (cases "view c k")
    case None
    with False show ?thesis
      using evict_view [of c ch n k] by (cases "view (cache_evict_before C c ch n) k") auto
  next
    case (Some blk)
    from evict_keeps [OF this False] Some False show ?thesis by simp
  qed
qed

lemma get_after_evict:
  "snd (cache_get C (cache_evict_before C c ch n) ch' b)
     = (if ch' = ch \<and> b < n then None else snd (cache_get C c ch' b))"
  by (cases ch; cases ch') (simp add: get_view view_evict)

end

end
