(* ===== verification/Preparation.thy ===== *)
theory Preparation
  imports Cache_Contract
begin

text \<open>
  \<open>parseon-core/src/worker/prepare.rs\<close>: the read-and-decode side of a poll. Windows of
  consecutive block plans, the exact log query of a window, the calls of one block (through the
  cache), and the events attached to them. The concurrent streams of the code, which yield in
  input order, are read one element after the other: the order of their results is the code's,
  the order of their cache and telemetry effects is one the code can have.
\<close>

section \<open>The world of a poll\<close>

text \<open>
  What the methods behind \<open>PollContext\<close> change: cache, storage, the telemetry trace and the sink
  batches. \<open>w_cancel\<close> is the number of looks at the cancellation token that still find it live,
  \<open>None\<close> when it is never cancelled.
\<close>

record ('c, 's) world =
  w_cache :: 'c
  w_storage :: 's
  w_telemetry :: "telemetry_event list"
  w_sink :: "sink_batch list"
  w_cancel :: "nat option"

type_synonym ('c, 's, 'a) action = "('c, 's) world \<Rightarrow> 'a result \<times> ('c, 's) world"

definition act_bind :: "('c, 's, 'a) action \<Rightarrow> ('a \<Rightarrow> ('c, 's, 'b) action) \<Rightarrow> ('c, 's, 'b) action" where
  "act_bind m f = (\<lambda>w. case m w of (Inl e, w1) \<Rightarrow> (Inl e, w1) | (Inr x, w1) \<Rightarrow> f x w1)"

definition act_pure :: "'a result \<Rightarrow> ('c, 's, 'a) action" where
  "act_pure r = (\<lambda>w. (r, w))"

definition record_event :: "telemetry_event \<Rightarrow> ('c, 's) world \<Rightarrow> ('c, 's) world" where
  "record_event e w = w\<lparr>w_telemetry := w_telemetry w @ [e]\<rparr>"

text \<open>An \<open>InFlightGuard\<close> around an action: it is dropped on every way out.\<close>

definition guarded :: "chain_id \<Rightarrow> string \<Rightarrow> ('c, 's, 'a) action \<Rightarrow> ('c, 's, 'a) action" where
  "guarded c stage m = (\<lambda>w.
     (let (r, w1) = m (record_event (in_flight_enter c stage) w) in
      (r, record_event (in_flight_leave c stage) w1)))"

section \<open>Windows\<close>

definition window_extends :: "nat \<Rightarrow> block_plan list \<Rightarrow> block_plan \<Rightarrow> bool" where
  "window_extends max_blocks window plan =
     (length window < max_blocks
      \<and> (case window of [] \<Rightarrow> False
         | _ \<Rightarrow> checked_add (bp_block_number (last window)) 1 = Some (bp_block_number plan)))"

fun plan_windows_loop :: "nat \<Rightarrow> block_plan list list \<Rightarrow> block_plan list \<Rightarrow> block_plan list list" where
  "plan_windows_loop max_blocks windows [] = windows"
| "plan_windows_loop max_blocks windows (plan # plans) =
     plan_windows_loop max_blocks
       (if windows \<noteq> [] \<and> window_extends max_blocks (last windows) plan
        then butlast windows @ [last windows @ [plan]]
        else windows @ [[plan]]) plans"

definition plan_windows :: "block_plan list \<Rightarrow> u64 \<Rightarrow> block_plan list list" where
  "plan_windows plans max_blocks = plan_windows_loop (unat max_blocks) [] plans"

section \<open>The log query of a window\<close>

fun query_targets :: "monitor_index \<Rightarrow> nat list \<Rightarrow> log_target list \<Rightarrow> log_target list result" where
  "query_targets idx [] targets = Inr targets"
| "query_targets idx (i # is) targets =
     res_bind (ok_or (anyhow ''block plan references unknown monitor'') (index_get_monitor idx i)) (\<lambda>m.
     query_targets idx is
       (case mon_target m of
          CallT _ \<Rightarrow> targets
        | EventT t \<Rightarrow> ordered_insert (LogTarget (et_address t) (et_topic0 t)) targets))"

definition window_query :: "block_plan list \<Rightarrow> monitor_index \<Rightarrow> log_query option result" where
  "window_query plans idx =
     (case plans of
        [] \<Rightarrow> Inr None
      | first # _ \<Rightarrow>
          res_bind (query_targets idx (concat (map bp_monitor_indices plans)) []) (\<lambda>targets.
          if targets = [] then Inr None
          else
            res_bind (ok_or (anyhow ''block plans are not ordered'')
                       (block_range_new (bp_block_number first) (bp_block_number (last plans)))) (\<lambda>rng.
            Inr (Some (log_query_new rng targets)))))"

section \<open>The calls of a block\<close>

record prepared_calls =
  pcl_plan :: block_plan
  pcl_results :: "decoded_result list"

record prepared_block =
  pb_block_number :: block_number
  pb_monitor_indices :: "nat list"
  pb_monitors :: "monitor list"
  pb_results :: "decoded_result list"

definition plan_has_calls :: "monitor_index \<Rightarrow> block_plan \<Rightarrow> bool" where
  "plan_has_calls idx plan =
     list_ex (\<lambda>i. case index_get_monitor idx i of None \<Rightarrow> False
                  | Some m \<Rightarrow> (case mon_target m of CallT _ \<Rightarrow> True | EventT _ \<Rightarrow> False))
       (bp_monitor_indices plan)"

text \<open>Ask the cache, fetch on a miss and store what was fetched.\<close>

definition load_block ::
  "'c block_cache_ops \<Rightarrow> block_source \<Rightarrow> chain \<Rightarrow> block_number \<Rightarrow> ('c, 's, source_block) action" where
  "load_block C S ch b = (\<lambda>w.
     (case cache_get C (w_cache w) ch b of
        (c1, Some blk) \<Rightarrow> (Inr blk, record_event (RecordCache (chain_id_of ch) True) (w\<lparr>w_cache := c1\<rparr>))
      | (c1, None) \<Rightarrow>
          (let w1 = record_event (RecordCache (chain_id_of ch) False) (w\<lparr>w_cache := c1\<rparr>) in
           (case bs_fetch_block S b of
              Inl e \<Rightarrow> (Inl e, w1)
            | Inr blk \<Rightarrow> (Inr blk, w1\<lparr>w_cache := cache_put C c1 ch blk\<rparr>)))))"

definition call_candidates :: "monitor_index \<Rightarrow> block_plan \<Rightarrow> source_block \<Rightarrow> nat list" where
  "call_candidates idx plan blk =
     filter (\<lambda>ti. let tx = sb_transactions blk ! ti in
               (case input_selector (bt_input tx) of
                  None \<Rightarrow> False
                | Some sel \<Rightarrow> has_call idx (bp_block_number plan) (bt_to tx) sel (bp_monitor_indices plan)))
       [0 ..< length (sb_transactions blk)]"

definition candidate_outcomes :: "block_source \<Rightarrow> block_number \<Rightarrow> b256 list \<Rightarrow> execution_outcome list result" where
  "candidate_outcomes S b hashes = (if hashes = [] then Inr [] else bs_fetch_execution_outcomes S b hashes)"

definition block_calls ::
  "externs \<Rightarrow> hash_order \<Rightarrow> block_source \<Rightarrow> monitor_index \<Rightarrow> block_plan \<Rightarrow> source_block \<Rightarrow> decoded_result list result" where
  "block_calls X H S idx plan blk =
     (let candidates = call_candidates idx plan blk in
      res_bind (candidate_outcomes S (bp_block_number plan)
                  (map (\<lambda>ti. bt_hash (sb_transactions blk ! ti)) candidates)) (\<lambda>outcomes.
      res_bind (decode_calls X H blk idx (bp_monitor_indices plan) candidates outcomes) (\<lambda>calls.
      Inr (map ResultCall calls))))"

definition prepare_calls ::
  "externs \<Rightarrow> hash_order \<Rightarrow> 'c block_cache_ops \<Rightarrow> block_source \<Rightarrow> chain \<Rightarrow> monitor_index \<Rightarrow> block_plan
     \<Rightarrow> ('c, 's, prepared_calls) action" where
  "prepare_calls X H C S ch idx plan =
     guarded (chain_id_of ch) ''block''
       (if \<not> plan_has_calls idx plan then act_pure (Inr \<lparr>pcl_plan = plan, pcl_results = []\<rparr>)
        else
          act_bind (load_block C S ch (bp_block_number plan)) (\<lambda>blk.
          act_pure (res_bind (block_calls X H S idx plan blk) (\<lambda>results.
          Inr \<lparr>pcl_plan = plan, pcl_results = results\<rparr>))))"

section \<open>The events of a window\<close>

definition finish_prepared ::
  "externs \<Rightarrow> hash_order \<Rightarrow> monitor_index \<Rightarrow> prepared_calls \<Rightarrow> source_log list \<Rightarrow> prepared_block result" where
  "finish_prepared X H idx prepared logs =
     (let plan = pcl_plan prepared in
      res_bind (decode_events X H (bp_block_number plan) idx (bp_monitor_indices plan) logs) (\<lambda>events.
      res_bind (traverse (\<lambda>i. ok_or (anyhow ''block plan references unknown monitor'') (index_get_monitor idx i))
                  (bp_monitor_indices plan)) (\<lambda>ms.
      Inr \<lparr>pb_block_number = bp_block_number plan, pb_monitor_indices = bp_monitor_indices plan,
           pb_monitors = ms, pb_results = pcl_results prepared @ map ResultEvent events\<rparr>)))"

text \<open>The loop that checks the logs of the query and groups them by block.\<close>

fun group_logs ::
  "block_range \<Rightarrow> source_log list \<Rightarrow> (block_number \<times> source_log list) list
     \<Rightarrow> (block_number \<times> source_log list) list result" where
  "group_logs rng [] by_block = Inr by_block"
| "group_logs rng (log # logs) by_block =
     (if sl_removed log then Inl (anyhow ''removed log returned for finalized block range'')
      else
        res_bind (ok_or (anyhow ''log is missing block number'') (sl_block_number log)) (\<lambda>b.
        if \<not> in_range rng b then Inl (anyhow ''log block number is outside the requested range'')
        else group_logs rng logs (entry_push b log by_block)))"

fun prepare_all ::
  "externs \<Rightarrow> hash_order \<Rightarrow> 'c block_cache_ops \<Rightarrow> block_source \<Rightarrow> chain \<Rightarrow> monitor_index \<Rightarrow> block_plan list
     \<Rightarrow> ('c, 's) world \<Rightarrow> prepared_calls result list \<times> ('c, 's) world" where
  "prepare_all X H C S ch idx [] w = ([], w)"
| "prepare_all X H C S ch idx (plan # plans) w =
     (let (r, w1) = prepare_calls X H C S ch idx plan w;
          (rs, w2) = prepare_all X H C S ch idx plans w1 in
      (r # rs, w2))"

fun attach_logs ::
  "externs \<Rightarrow> hash_order \<Rightarrow> monitor_index \<Rightarrow> prepared_calls result list \<Rightarrow> (block_number \<times> source_log list) list
     \<Rightarrow> prepared_block result list" where
  "attach_logs X H idx [] logs = []"
| "attach_logs X H idx (Inl e # rs) logs = Inl e # attach_logs X H idx rs logs"
| "attach_logs X H idx (Inr prepared # rs) logs =
     (let b = bp_block_number (pcl_plan prepared) in
      finish_prepared X H idx prepared (entry_get logs b)
        # attach_logs X H idx rs (filter (\<lambda>(k, _). k \<noteq> b) logs))"

definition prepare_event_window ::
  "externs \<Rightarrow> hash_order \<Rightarrow> 'c block_cache_ops \<Rightarrow> block_source \<Rightarrow> chain \<Rightarrow> monitor_index \<Rightarrow> block_plan list
     \<Rightarrow> log_query \<Rightarrow> ('c, 's, prepared_block result list) action" where
  "prepare_event_window X H C S ch idx plans query = (\<lambda>w.
     (let (calls, w1) = prepare_all X H C S ch idx plans w in
      (res_bind (bs_fetch_logs S query) (\<lambda>logs.
       res_bind (group_logs (lq_range query) logs []) (\<lambda>by_block.
       Inr (attach_logs X H idx calls by_block))), w1)))"

section \<open>Windows partition the plan\<close>

definition consecutive :: "block_plan \<Rightarrow> block_plan \<Rightarrow> bool" where
  "consecutive p q = (unat (bp_block_number q) = Suc (unat (bp_block_number p)))"

definition window_ok :: "nat \<Rightarrow> block_plan list \<Rightarrow> bool" where
  "window_ok max_blocks window =
     (window \<noteq> [] \<and> length window \<le> max_blocks
      \<and> (\<forall>i. Suc i < length window \<longrightarrow> consecutive (window ! i) (window ! Suc i)))"

text \<open>Two neighbouring windows cannot be one: the first is full, or a block is missing between.\<close>

definition windows_maximal :: "nat \<Rightarrow> block_plan list list \<Rightarrow> bool" where
  "windows_maximal max_blocks ws =
     (\<forall>i. Suc i < length ws \<longrightarrow>
        length (ws ! i) = max_blocks \<or> \<not> consecutive (last (ws ! i)) (hd (ws ! Suc i)))"

lemma checked_add_one: "checked_add a 1 = Some b \<longleftrightarrow> unat b = Suc (unat a)"
  by (simp add: u64_simps)

lemma window_extends_iff:
  "window \<noteq> [] \<Longrightarrow> window_extends n window p \<longleftrightarrow> length window < n \<and> consecutive (last window) p"
  by (cases window) (simp_all add: window_extends_def consecutive_def checked_add_one)

lemma nth_is_last: "Suc i = length xs \<Longrightarrow> xs ! i = last xs"
  by (cases xs rule: rev_cases) auto

lemma window_ok_snoc:
  assumes "window_ok n window" and "length window < n" and "consecutive (last window) p"
  shows "window_ok n (window @ [p])"
  using assms by (auto simp: window_ok_def nth_append nth_is_last less_Suc_eq)

lemma windows_maximal_snoc:
  assumes "windows_maximal n ws" and "ws \<noteq> [] \<Longrightarrow> length (last ws) = n \<or> \<not> consecutive (last (last ws)) (hd w)"
  shows "windows_maximal n (ws @ [w])"
  using assms
  by (cases "ws = []") (auto simp: windows_maximal_def nth_append nth_is_last less_Suc_eq split: if_splits)

lemma windows_maximal_extend:
  assumes "windows_maximal n (ws @ [w])" and "w \<noteq> []"
  shows "windows_maximal n (ws @ [w @ [p]])"
  unfolding windows_maximal_def
proof (intro allI impI)
  fix i assume i: "Suc i < length (ws @ [w @ [p]])"
  then have "length ((ws @ [w]) ! i) = n \<or> \<not> consecutive (last ((ws @ [w]) ! i)) (hd ((ws @ [w]) ! Suc i))"
    using assms(1) by (simp add: windows_maximal_def)
  then show "length ((ws @ [w @ [p]]) ! i) = n
      \<or> \<not> consecutive (last ((ws @ [w @ [p]]) ! i)) (hd ((ws @ [w @ [p]]) ! Suc i))"
    using i assms(2) by (auto simp: nth_append less_Suc_eq hd_append split: if_splits)
qed

lemma plan_windows_loop_spec:
  assumes "0 < n" and "\<forall>w \<in> set ws. window_ok n w" and "windows_maximal n ws"
  shows "concat (plan_windows_loop n ws plans) = concat ws @ plans
    \<and> (\<forall>w \<in> set (plan_windows_loop n ws plans). window_ok n w)
    \<and> windows_maximal n (plan_windows_loop n ws plans)"
  using assms(2,3)
proof (induction plans arbitrary: ws)
  case (Cons p plans)
  show ?case
  proof (cases "ws \<noteq> [] \<and> window_extends n (last ws) p")
    case True
    then obtain pre w where ws: "ws = pre @ [w]" by (metis append_butlast_last_id)
    with Cons.prems have w: "window_ok n w" "w \<noteq> []" by (auto simp: window_ok_def)
    with True ws have "length w < n" "consecutive (last w) p" by (auto simp: window_extends_iff)
    with window_ok_snoc [OF w(1)] windows_maximal_extend [of n pre w p] Cons.prems ws w
    have "\<forall>w \<in> set (pre @ [w @ [p]]). window_ok n w" "windows_maximal n (pre @ [w @ [p]])" by auto
    from Cons.IH [OF this] True ws show ?thesis by simp
  next
    case False
    have "window_ok n [p]" using assms(1) by (simp add: window_ok_def)
    moreover have "length (last ws) = n \<or> \<not> consecutive (last (last ws)) p" if "ws \<noteq> []"
    proof -
      have "window_ok n (last ws)" using Cons.prems(1) that by simp
      with False that show ?thesis by (auto simp: window_ok_def window_extends_iff)
    qed
    ultimately have "\<forall>w \<in> set (ws @ [[p]]). window_ok n w" "windows_maximal n (ws @ [[p]])"
      using Cons.prems windows_maximal_snoc [of n ws "[p]"] by auto
    note rest = Cons.IH [OF this]
    have "plan_windows_loop n ws (p # plans) = plan_windows_loop n (ws @ [[p]]) plans"
      using False by (simp only: plan_windows_loop.simps if_False)
    with rest show ?thesis by (simp del: plan_windows_loop.simps)
  qed
qed simp

end
