(* ===== verification/Prepared_Results.thy ===== *)
theory Prepared_Results
  imports Preparation
begin

text \<open>
  What a prepared block holds, against the chain's data. A \<open>chain_data\<close> is the finalized chain a
  source serves; a faithful source may fail, but what it answers is that data. Then the results
  of a prepared block are those the data dictates for the planned monitors, whether the block
  came from the cache or the source.
\<close>

section \<open>The finalized chain\<close>

record chain_data =
  cd_block :: "block_number \<Rightarrow> source_block"
  cd_succeeded :: "b256 \<Rightarrow> bool"
  cd_logs :: "block_number \<Rightarrow> source_log list"

definition log_position_of :: "source_log \<Rightarrow> log_position" where
  "log_position_of log =
     \<lparr>lp_transaction_hash = (case sl_transaction_hash log of None \<Rightarrow> 0 | Some h \<Rightarrow> h),
      lp_log_index = (case sl_log_index log of None \<Rightarrow> 0 | Some i \<Rightarrow> i)\<rparr>"

definition chain_data_ok :: "chain_data \<Rightarrow> bool" where
  "chain_data_ok D =
     (\<forall>b. sb_number (cd_block D b) = b
        \<and> (\<forall>log \<in> set (cd_logs D b). log_positioned log b (log_position_of log)))"

definition targeted :: "log_query \<Rightarrow> source_log \<Rightarrow> bool" where
  "targeted q log = (case log_target_of log of None \<Rightarrow> False | Some t \<Rightarrow> t \<in> set (lq_targets q))"

definition faithful_source :: "block_source \<Rightarrow> chain_data \<Rightarrow> bool" where
  "faithful_source S D =
     ((\<forall>b blk. bs_fetch_block S b = Inr blk \<longrightarrow> blk = cd_block D b)
      \<and> (\<forall>b hs outs. bs_fetch_execution_outcomes S b hs = Inr outs \<longrightarrow>
           outs = map (\<lambda>h. \<lparr>eo_transaction_hash = h, eo_succeeded = cd_succeeded D h\<rparr>) hs)
      \<and> (\<forall>q logs. bs_fetch_logs S q = Inr logs \<longrightarrow>
           (\<forall>log \<in> set logs. \<exists>b. in_range (lq_range q) b \<and> log \<in> set (cd_logs D b))
         \<and> (\<forall>b. in_range (lq_range q) b \<longrightarrow>
              mset (filter (\<lambda>log. sl_block_number log = Some b) logs)
                = mset (filter (targeted q) (cd_logs D b)))))"

lemma faithful_sourceD:
  assumes "faithful_source S D"
  shows "bs_fetch_block S b = Inr blk \<Longrightarrow> blk = cd_block D b"
    and "bs_fetch_execution_outcomes S b hs = Inr outs \<Longrightarrow>
      outs = map (\<lambda>h. \<lparr>eo_transaction_hash = h, eo_succeeded = cd_succeeded D h\<rparr>) hs"
    and "bs_fetch_logs S q = Inr logs \<Longrightarrow> log \<in> set logs \<Longrightarrow> \<exists>b. in_range (lq_range q) b \<and> log \<in> set (cd_logs D b)"
    and "bs_fetch_logs S q = Inr logs \<Longrightarrow> in_range (lq_range q) b \<Longrightarrow>
      mset (filter (\<lambda>log. sl_block_number log = Some b) logs) = mset (filter (targeted q) (cd_logs D b))"
  using assms unfolding faithful_source_def by blast+

text \<open>The results the chain dictates for the planned monitors of a block.\<close>

definition chain_calls :: "externs \<Rightarrow> chain_data \<Rightarrow> monitor list \<Rightarrow> nat list \<Rightarrow> block_number \<Rightarrow> decoded_call list" where
  "chain_calls X D ms planned b =
     concat (map (\<lambda>tx. if cd_succeeded D (bt_hash tx) then reference_calls X ms b planned tx else [])
       (sb_transactions (cd_block D b)))"

definition chain_events :: "externs \<Rightarrow> chain_data \<Rightarrow> monitor list \<Rightarrow> nat list \<Rightarrow> block_number \<Rightarrow> decoded_event list" where
  "chain_events X D ms planned b =
     concat (map (\<lambda>log. reference_events X ms b planned log (log_position_of log)) (cd_logs D b))"

definition block_results :: "externs \<Rightarrow> chain_data \<Rightarrow> monitor list \<Rightarrow> nat list \<Rightarrow> block_number \<Rightarrow> decoded_result list" where
  "block_results X D ms planned b =
     map ResultCall (chain_calls X D ms planned b) @ map ResultEvent (chain_events X D ms planned b)"

text \<open>The standing assumptions on the data of a poll.\<close>

definition poll_ok :: "externs \<Rightarrow> hash_order \<Rightarrow> monitor list \<Rightarrow> monitor_index \<Rightarrow> block_source \<Rightarrow> chain_data \<Rightarrow> bool" where
  "poll_ok X H all idx S D =
     (monitor_index_new X all = Inr idx \<and> (\<forall>m \<in> set all. monitor_ok X m)
      \<and> type_text_laws X \<and> abi_decode_laws X \<and> hash_order_ok H
      \<and> faithful_source S D \<and> chain_data_ok D)"

lemma poll_okD:
  assumes "poll_ok X H all idx S D"
  shows "monitor_index_new X all = Inr idx" "\<forall>m \<in> set all. monitor_ok X m" "type_text_laws X"
    "abi_decode_laws X" "hash_order_ok H" "faithful_source S D" "chain_data_ok D"
  using assms by (simp_all add: poll_ok_def)

section \<open>Calls\<close>

lemma concat_map_filter_empty:
  "(\<And>x. x \<in> set xs \<Longrightarrow> \<not> P x \<Longrightarrow> f x = []) \<Longrightarrow> concat (map f (filter P xs)) = concat (map f xs)"
  by (induction xs) auto

lemma map_nth_upt: "map (\<lambda>i. f (xs ! i)) [0 ..< length xs] = map f xs"
  by (rule nth_equalityI) auto

lemma block_calls_reference:
  assumes ok: "poll_ok X H all idx S D" and sorted: "sorted_wrt (<) (bp_monitor_indices plan)"
    and res: "block_calls X H S idx plan (cd_block D (bp_block_number plan)) = Inr rs"
  shows "mset rs = mset (map ResultCall (chain_calls X D (mi_monitors idx) (bp_monitor_indices plan) (bp_block_number plan)))"
proof -
  let ?b = "bp_block_number plan" and ?is = "bp_monitor_indices plan"
  let ?blk = "cd_block D ?b" and ?ms = "mi_monitors idx"
  let ?txs = "sb_transactions ?blk"
  let ?cand = "call_candidates idx plan ?blk"
  let ?out = "\<lambda>ti. \<lparr>eo_transaction_hash = bt_hash (?txs ! ti), eo_succeeded = cd_succeeded D (bt_hash (?txs ! ti))\<rparr>"
  let ?ref = "\<lambda>ti. if cd_succeeded D (bt_hash (?txs ! ti)) then reference_calls X ?ms ?b ?is (?txs ! ti) else []"
  note D = poll_okD [OF ok]
  have num: "sb_number ?blk = ?b" using D(7) by (simp add: chain_data_ok_def)
  from res obtain outs calls where outs: "candidate_outcomes S ?b (map (\<lambda>ti. bt_hash (?txs ! ti)) ?cand) = Inr outs"
    and calls: "decode_calls X H ?blk idx ?is ?cand outs = Inr calls" "rs = map ResultCall calls"
    by (auto simp: block_calls_def Let_def res_simps)
  have outs': "outs = map ?out ?cand"
  proof (cases "?cand = []")
    case True
    with outs show ?thesis by (simp add: candidate_outcomes_def)
  next
    case False
    with outs have "bs_fetch_execution_outcomes S ?b (map (\<lambda>ti. bt_hash (?txs ! ti)) ?cand) = Inr outs"
      by (simp add: candidate_outcomes_def)
    from faithful_sourceD(2) [OF D(6) this] show ?thesis by (simp add: comp_def)
  qed
  have zip: "zip ?cand outs = map (\<lambda>ti. (ti, ?out ti)) ?cand"
    unfolding outs' by (simp add: zip_map2 zip_same_conv_map)
  have valid: "\<forall>(ti, out) \<in> set (zip ?cand outs). ti < length ?txs \<and> eo_transaction_hash out = bt_hash (?txs ! ti)"
    unfolding zip by (auto simp: call_candidates_def)
  from calls(1) have "decode_call_list X H idx ?blk ?is (zip ?cand outs) = Inr calls"
    by (simp add: decode_calls_def outs')
  with decode_call_list_reference [OF D(1,3,4,5,2) sorted valid]
  have "mset calls = mset (concat (map (\<lambda>(ti, out). if eo_succeeded out
        then reference_calls X ?ms (sb_number ?blk) ?is (?txs ! ti) else []) (zip ?cand outs)))"
    by auto
  then have "mset calls = mset (concat (map ?ref ?cand))" unfolding zip num by (simp add: comp_def)
  also have "concat (map ?ref ?cand) = concat (map ?ref [0 ..< length ?txs])"
    unfolding call_candidates_def
    by (rule concat_map_filter_empty)
      (auto simp: Let_def intro!: no_call_no_reference [OF D(1) sorted] split: option.splits)
  also have "map ?ref [0 ..< length ?txs]
      = map (\<lambda>tx. if cd_succeeded D (bt_hash tx) then reference_calls X ?ms ?b ?is tx else []) ?txs"
    by (rule map_nth_upt)
  finally show ?thesis by (simp add: calls(2) chain_calls_def)
qed

lemma no_call_monitors:
  assumes "\<not> plan_has_calls idx plan"
  shows "chain_calls X D (mi_monitors idx) (bp_monitor_indices plan) b = []"
proof -
  have "reference_calls X (mi_monitors idx) b (bp_monitor_indices plan) tx
      = List.map_filter (\<lambda>i. None) (bp_monitor_indices plan)" for tx
    unfolding reference_calls_def
  proof (rule map_filter_cong2)
    fix i assume "i \<in> set (bp_monitor_indices plan)"
    with assms show "(if i < length (mi_monitors idx) \<and> needs_block (mi_monitors idx ! i) b
        then call_match X (mi_monitors idx ! i) b tx else None) = None"
      by (auto simp: plan_has_calls_def list_ex_iff call_match_def index_get_monitor_def slice_get_def
          split: target.splits)
  qed
  then have "reference_calls X (mi_monitors idx) b (bp_monitor_indices plan) = (\<lambda>tx. [])"
    by (simp add: fun_eq_iff List.map_filter_def)
  then show ?thesis by (auto simp: chain_calls_def)
qed

section \<open>Events\<close>

lemma query_targets_spec:
  assumes "query_targets idx is ts = Inr ts'" and "sorted_wrt (<) ts"
  shows "(\<forall>i \<in> set is. i < length (mi_monitors idx))
    \<and> set ts' = set ts \<union> {LogTarget (et_address t) (et_topic0 t) | i t. i \<in> set is \<and> mon_target (mi_monitors idx ! i) = EventT t}
    \<and> sorted_wrt (<) ts'"
  using assms
proof (induction idx "is" ts arbitrary: ts' rule: query_targets.induct)
  case (2 idx i "is" ts)
  from "2.prems"(1) have i: "i < length (mi_monitors idx)" "index_get_monitor idx i = Some (mi_monitors idx ! i)"
    by (auto simp: index_get_monitor_def res_simps slice_get_def split: if_splits)
  show ?case
  proof (cases "mon_target (mi_monitors idx ! i)")
    case (CallT t)
    with "2.prems" i "2.IH" [of "mi_monitors idx ! i" ts'] show ?thesis by auto
  next
    case (EventT t)
    with "2.prems" i "2.IH" [of "mi_monitors idx ! i" ts'] sorted_ordered_insert [of ts "LogTarget (et_address t) (et_topic0 t)"]
    show ?thesis by auto
  qed
qed auto

lemma reference_events_untargeted:
  assumes "\<And>i t. i \<in> set planned \<Longrightarrow> i < length ms \<Longrightarrow> mon_target (ms ! i) = EventT t \<Longrightarrow>
      log_target_of log \<noteq> Some (LogTarget (et_address t) (et_topic0 t))"
  shows "reference_events X ms b planned log pos = []"
proof -
  have "reference_events X ms b planned log pos = List.map_filter (\<lambda>i. None) planned"
    unfolding reference_events_def
  proof (rule map_filter_cong2)
    fix i assume "i \<in> set planned"
    with assms [of i] show "(if i < length ms \<and> needs_block (ms ! i) b then event_match X (ms ! i) b log pos else None) = None"
      by (auto simp: event_match_def log_target_of_def split: target.splits option.splits)
  qed
  then show ?thesis by (simp add: List.map_filter_def)
qed

lemma finish_prepared_reference:
  assumes ok: "poll_ok X H all idx S D" and sorted: "sorted_wrt (<) (bp_monitor_indices (pcl_plan pc))"
    and logs: "\<forall>log \<in> set logs. log_positioned log (bp_block_number (pcl_plan pc)) (log_position_of log)"
    and fin: "finish_prepared X H idx pc logs = Inr pb"
  shows "pb_block_number pb = bp_block_number (pcl_plan pc)"
    and "pb_monitor_indices pb = bp_monitor_indices (pcl_plan pc)"
    and "\<forall>i \<in> set (bp_monitor_indices (pcl_plan pc)). i < length (mi_monitors idx)"
    and "pb_monitors pb = map (\<lambda>i. mi_monitors idx ! i) (bp_monitor_indices (pcl_plan pc))"
    and "mset (pb_results pb) = mset (pcl_results pc) + mset (map ResultEvent (concat (map (\<lambda>log.
           reference_events X (mi_monitors idx) (bp_block_number (pcl_plan pc)) (bp_monitor_indices (pcl_plan pc))
             log (log_position_of log)) logs)))"
proof -
  let ?plan = "pcl_plan pc"
  note D = poll_okD [OF ok]
  from fin obtain es ms where es: "decode_events X H (bp_block_number ?plan) idx (bp_monitor_indices ?plan) logs = Inr es"
    and ms: "traverse (\<lambda>i. ok_or (anyhow ''block plan references unknown monitor'') (index_get_monitor idx i))
      (bp_monitor_indices ?plan) = Inr ms"
    and pb: "pb = \<lparr>pb_block_number = bp_block_number ?plan, pb_monitor_indices = bp_monitor_indices ?plan,
           pb_monitors = ms, pb_results = pcl_results pc @ map ResultEvent es\<rparr>"
    by (auto simp: finish_prepared_def Let_def res_simps)
  show "pb_block_number pb = bp_block_number ?plan" "pb_monitor_indices pb = bp_monitor_indices ?plan"
    by (simp_all add: pb)
  from ms have all2: "list_all2 (\<lambda>i m. i < length (mi_monitors idx) \<and> m = mi_monitors idx ! i) (bp_monitor_indices ?plan) ms"
    unfolding traverse_Inr by (rule list_all2_mono) (auto simp: res_simps index_get_monitor_def)
  then show "\<forall>i \<in> set (bp_monitor_indices ?plan). i < length (mi_monitors idx)"
    "pb_monitors pb = map (\<lambda>i. mi_monitors idx ! i) (bp_monitor_indices ?plan)"
    by (auto simp: pb list_all2_conv_all_nth in_set_conv_nth intro: nth_equalityI)
  have "list_all2 (\<lambda>log pos. log_positioned log (bp_block_number ?plan) pos) logs (map log_position_of logs)"
    using logs by (auto simp: list_all2_conv_all_nth)
  from decode_events_reference [OF D(1,3,4,5,2) sorted this] es
  have "mset es = mset (concat (map (\<lambda>log. reference_events X (mi_monitors idx) (bp_block_number ?plan)
      (bp_monitor_indices ?plan) log (log_position_of log)) logs))"
    by (auto simp: zip_map2 zip_same_conv_map comp_def)
  then show "mset (pb_results pb) = mset (pcl_results pc) + mset (map ResultEvent (concat (map (\<lambda>log.
           reference_events X (mi_monitors idx) (bp_block_number ?plan) (bp_monitor_indices ?plan)
             log (log_position_of log)) logs)))"
    by (simp add: pb)
qed

section \<open>Windows\<close>

lemma list_all2_mono_in:
  "list_all2 P xs ys \<Longrightarrow> (\<And>x y. x \<in> set xs \<Longrightarrow> P x y \<Longrightarrow> Q x y) \<Longrightarrow> list_all2 Q xs ys"
  by (auto simp: list_all2_conv_all_nth)

lemma ascending_bounds:
  "sorted_wrt (<) (map f ps) \<Longrightarrow> p \<in> set ps \<Longrightarrow> f (hd ps) \<le> f p \<and> f p \<le> (f (last ps) :: 'b::linorder)"
proof (induction ps)
  case (Cons q ps)
  then show ?case by (cases ps) (auto simp: less_imp_le intro: order.trans)
qed simp

definition prepared_ok :: "externs \<Rightarrow> chain_data \<Rightarrow> monitor_index \<Rightarrow> block_plan \<Rightarrow> prepared_block \<Rightarrow> bool" where
  "prepared_ok X D idx plan pb =
     (pb_block_number pb = bp_block_number plan \<and> pb_monitor_indices pb = bp_monitor_indices plan
      \<and> (\<forall>i \<in> set (bp_monitor_indices plan). i < length (mi_monitors idx))
      \<and> pb_monitors pb = map (\<lambda>i. mi_monitors idx ! i) (bp_monitor_indices plan)
      \<and> mset (pb_results pb)
          = mset (block_results X D (mi_monitors idx) (bp_monitor_indices plan) (bp_block_number plan)))"

lemma group_logs_spec:
  assumes "group_logs rng logs m = Inr m'" and "ordered_entries m"
  shows "ordered_entries m' \<and> entry_get m' b = entry_get m b @ filter (\<lambda>l. sl_block_number l = Some b) logs"
  using assms
proof (induction rng logs m rule: group_logs.induct)
  case (2 rng log logs m)
  from "2.prems"(1) obtain b' where b': "\<not> sl_removed log" "sl_block_number log = Some b'" "in_range rng b'"
    "group_logs rng logs (entry_push b' log m) = Inr m'"
    by (auto simp: res_simps split: if_splits)
  from "2.IH" [OF b'(1) _ _ b'(4) ordered_entry_push [OF "2.prems"(2)]] b'
  show ?case by (auto simp: entry_get_push [OF "2.prems"(2)])
qed simp

lemma entry_get_remove:
  "entry_get (filter (\<lambda>(k, _). k \<noteq> b) m) b' = (if b' = b then [] else entry_get m b')"
  by (induction m) (auto simp: entry_get_def)

text \<open>Each block of a window gets its own logs, whatever was taken out before it.\<close>

lemma attach_logs_spec:
  assumes "list_all2 (\<lambda>plan r. \<forall>pc. r = Inr pc \<longrightarrow> pcl_plan pc = plan) plans rs"
    and "distinct (map bp_block_number plans)"
  shows "attach_logs X H idx rs logs
    = map (\<lambda>r. res_bind r (\<lambda>pc. finish_prepared X H idx pc (entry_get logs (bp_block_number (pcl_plan pc))))) rs"
  using assms
proof (induction arbitrary: logs rule: list_all2_induct)
  case (Cons plan plans r rs)
  show ?case
  proof (cases r)
    case (Inl e)
    with Cons show ?thesis by simp
  next
    case (Inr pc)
    let ?b = "bp_block_number plan"
    have pc: "pcl_plan pc = plan" using Cons(1) Inr by simp
    have "finish_prepared X H idx pc2 (entry_get (filter (\<lambda>(k, _). k \<noteq> ?b) logs) (bp_block_number (pcl_plan pc2)))
        = finish_prepared X H idx pc2 (entry_get logs (bp_block_number (pcl_plan pc2)))"
      if "Inr pc2 \<in> set rs" for pc2
    proof -
      from Cons(2) that have "pcl_plan pc2 \<in> set plans"
        by (auto simp: list_all2_conv_all_nth in_set_conv_nth)
      with Cons.prems have "bp_block_number (pcl_plan pc2) \<noteq> ?b"
        by (metis distinct.simps(2) image_eqI list.set_map list.simps(9))
      then show ?thesis by (simp add: entry_get_remove)
    qed
    then have "map (\<lambda>r. res_bind r (\<lambda>pc. finish_prepared X H idx pc
          (entry_get (filter (\<lambda>(k, _). k \<noteq> ?b) logs) (bp_block_number (pcl_plan pc))))) rs
        = map (\<lambda>r. res_bind r (\<lambda>pc. finish_prepared X H idx pc (entry_get logs (bp_block_number (pcl_plan pc))))) rs"
      by (intro map_cong refl) (auto simp: res_bind_def split: sum.split)
    with Cons Inr pc show ?thesis by (simp add: Let_def)
  qed
qed simp

lemma window_query_targets:
  assumes "window_query plans idx = Inr r" and "p \<in> set plans"
  shows "\<exists>ts. query_targets idx (concat (map bp_monitor_indices plans)) [] = Inr ts
    \<and> (\<forall>i t. i \<in> set (bp_monitor_indices p) \<longrightarrow> mon_target (mi_monitors idx ! i) = EventT t \<longrightarrow>
         LogTarget (et_address t) (et_topic0 t) \<in> set ts)
    \<and> (case r of None \<Rightarrow> ts = []
       | Some q \<Rightarrow> set (lq_targets q) = set ts
           \<and> lq_range q = \<lparr>br_start = bp_block_number (hd plans), br_end = bp_block_number (last plans)\<rparr>)"
proof -
  from assms(2) obtain p0 ps where plans: "plans = p0 # ps" by (cases plans) auto
  with assms(1) obtain ts where ts: "query_targets idx (concat (map bp_monitor_indices plans)) [] = Inr ts"
    "if ts = [] then r = None else (\<exists>rng. block_range_new (bp_block_number p0) (bp_block_number (last plans)) = Some rng
       \<and> r = Some (log_query_new rng ts))"
    by (auto simp: window_query_def res_simps split: if_splits)
  from query_targets_spec [OF ts(1)] have
    "set ts = {LogTarget (et_address t) (et_topic0 t) | i t. i \<in> set (concat (map bp_monitor_indices plans))
       \<and> mon_target (mi_monitors idx ! i) = EventT t}" by simp
  with assms(2) have cover: "\<forall>i t. i \<in> set (bp_monitor_indices p) \<longrightarrow> mon_target (mi_monitors idx ! i) = EventT t \<longrightarrow>
         LogTarget (et_address t) (et_topic0 t) \<in> set ts" by fastforce
  show ?thesis
  proof (cases "ts = []")
    case True
    with ts cover show ?thesis by (auto split: option.split)
  next
    case False
    with ts obtain rng where "block_range_new (bp_block_number p0) (bp_block_number (last plans)) = Some rng"
      "r = Some (log_query_new rng ts)" by auto
    with ts(1) cover log_query_new_targets [of rng ts] plans show ?thesis
      by (auto simp: res_simps log_query_new_def)
  qed
qed

lemma chain_events_targeted:
  assumes "\<forall>i t. i \<in> set planned \<longrightarrow> mon_target (ms ! i) = EventT t \<longrightarrow> LogTarget (et_address t) (et_topic0 t) \<in> ts"
  shows "concat (map (\<lambda>log. reference_events X ms b planned log (log_position_of log))
      (filter (\<lambda>log. case log_target_of log of None \<Rightarrow> False | Some t \<Rightarrow> t \<in> ts) (cd_logs D b)))
    = chain_events X D ms planned b"
  unfolding chain_events_def
proof (rule concat_map_filter_empty)
  fix log assume "\<not> (case log_target_of log of None \<Rightarrow> False | Some t \<Rightarrow> t \<in> ts)"
  with assms show "reference_events X ms b planned log (log_position_of log) = []"
    by (intro reference_events_untargeted) (auto split: option.splits)
qed

lemma finish_without_logs:
  assumes ok: "poll_ok X H all idx S D" and sorted: "sorted_wrt (<) (bp_monitor_indices plan)"
    and query: "window_query plans idx = Inr None" and plan: "plan \<in> set plans"
    and pc: "pcl_plan pc = plan" "mset (pcl_results pc) = mset (map ResultCall
        (chain_calls X D (mi_monitors idx) (bp_monitor_indices plan) (bp_block_number plan)))"
    and fin: "finish_prepared X H idx pc [] = Inr pb"
  shows "prepared_ok X D idx plan pb"
proof -
  from window_query_targets [OF query plan]
  have none: "\<forall>i t. i \<in> set (bp_monitor_indices plan) \<longrightarrow> mon_target (mi_monitors idx ! i) = EventT t \<longrightarrow>
      LogTarget (et_address t) (et_topic0 t) \<in> {}" by auto
  have "filter (\<lambda>log. case log_target_of log of None \<Rightarrow> False | Some t \<Rightarrow> t \<in> {}) (cd_logs D (bp_block_number plan)) = []"
    by (auto simp: filter_empty_conv split: option.splits)
  with chain_events_targeted [OF none, of X "bp_block_number plan" D]
  have "chain_events X D (mi_monitors idx) (bp_monitor_indices plan) (bp_block_number plan) = []" by simp
  with finish_prepared_reference [OF ok _ _ fin] sorted pc show ?thesis
    by (simp add: prepared_ok_def block_results_def)
qed

lemma finish_with_logs:
  assumes ok: "poll_ok X H all idx S D" and sorted: "sorted_wrt (<) (bp_monitor_indices plan)"
    and query: "window_query plans idx = Inr (Some q)" and plan: "plan \<in> set plans"
    and range: "in_range (lq_range q) (bp_block_number plan)"
    and fetch: "bs_fetch_logs S q = Inr logs"
    and pc: "pcl_plan pc = plan" "mset (pcl_results pc) = mset (map ResultCall
        (chain_calls X D (mi_monitors idx) (bp_monitor_indices plan) (bp_block_number plan)))"
    and fin: "finish_prepared X H idx pc (filter (\<lambda>l. sl_block_number l = Some (bp_block_number plan)) logs) = Inr pb"
  shows "prepared_ok X D idx plan pb"
proof -
  let ?b = "bp_block_number plan" and ?ms = "mi_monitors idx"
  let ?logs = "filter (\<lambda>l. sl_block_number l = Some ?b) logs"
  let ?ev = "\<lambda>log. reference_events X ?ms ?b (bp_monitor_indices plan) log (log_position_of log)"
  note D = poll_okD [OF ok]
  have pos: "\<forall>log \<in> set ?logs. log_positioned log ?b (log_position_of log)"
  proof
    fix log assume log: "log \<in> set ?logs"
    with faithful_sourceD(3) [OF D(6) fetch] obtain b where "log \<in> set (cd_logs D b)" by auto
    with D(7) have "log_positioned log b (log_position_of log)" by (simp add: chain_data_ok_def)
    with log show "log_positioned log ?b (log_position_of log)" by (simp add: log_positioned_def)
  qed
  from window_query_targets [OF query plan]
  have targets: "\<forall>i t. i \<in> set (bp_monitor_indices plan) \<longrightarrow> mon_target (?ms ! i) = EventT t \<longrightarrow>
      LogTarget (et_address t) (et_topic0 t) \<in> set (lq_targets q)" by auto
  have "mset (concat (map ?ev ?logs)) = mset (concat (map ?ev (filter (targeted q) (cd_logs D ?b))))"
    by (rule mset_concat_map_cong) (rule faithful_sourceD(4) [OF D(6) fetch range])
  also have "concat (map ?ev (filter (targeted q) (cd_logs D ?b)))
      = chain_events X D ?ms (bp_monitor_indices plan) ?b"
    using chain_events_targeted [OF targets, of X ?b D] by (simp add: targeted_def [abs_def])
  finally have ev: "mset (concat (map ?ev ?logs)) = mset (chain_events X D ?ms (bp_monitor_indices plan) ?b)" .
  then have "mset (map ResultEvent (concat (map ?ev ?logs)))
      = mset (map ResultEvent (chain_events X D ?ms (bp_monitor_indices plan) ?b))"
    by (simp only: mset_map)
  with finish_prepared_reference [OF ok _ _ fin] sorted pos pc show ?thesis
    by (simp add: prepared_ok_def block_results_def del: map_concat mset_map)
qed

section \<open>Effects of preparing a block\<close>

text \<open>A preparation only touches the cache and the telemetry trace, and balances its gauge.\<close>

definition same_but_cache :: "('c, 's) world \<Rightarrow> ('c, 's) world \<Rightarrow> bool" where
  "same_but_cache w w' =
     (w_storage w' = w_storage w \<and> w_sink w' = w_sink w \<and> w_cancel w' = w_cancel w
      \<and> (\<forall>c stage. in_flight c stage (w_telemetry w') = in_flight c stage (w_telemetry w)))"

lemma same_but_cache_refl [simp]: "same_but_cache w w"
  by (simp add: same_but_cache_def)

lemma same_but_cache_trans: "same_but_cache w w1 \<Longrightarrow> same_but_cache w1 w2 \<Longrightarrow> same_but_cache w w2"
  by (simp add: same_but_cache_def)

lemma record_event_simps [simp]:
  "w_cache (record_event e w) = w_cache w" "w_storage (record_event e w) = w_storage w"
  "w_sink (record_event e w) = w_sink w" "w_cancel (record_event e w) = w_cancel w"
  "w_telemetry (record_event e w) = w_telemetry w @ [e]"
  by (simp_all add: record_event_def)

lemma guarded_same_but_cache:
  assumes "\<And>w r w'. m w = (r, w') \<Longrightarrow> same_but_cache w w'" and "guarded c stage m w = (r, w')"
  shows "same_but_cache w w'"
proof -
  from assms(2) obtain w1 where m: "m (record_event (in_flight_enter c stage) w) = (r, w1)"
    and w': "w' = record_event (in_flight_leave c stage) w1"
    by (auto simp: guarded_def split: prod.splits)
  from assms(1) [OF m] show ?thesis
    by (auto simp: w' same_but_cache_def in_flight_enter_def in_flight_leave_def)
qed

lemma guarded_cache:
  assumes "\<And>w r w'. P (w_cache w) \<Longrightarrow> m w = (r, w') \<Longrightarrow> P (w_cache w')"
    and "guarded c stage m w = (r, w')" and "P (w_cache w)"
  shows "P (w_cache w')"
  using assms(2) assms(1) [of "record_event (in_flight_enter c stage) w"] assms(3)
  by (auto simp: guarded_def split: prod.splits)

lemma load_block_same: "load_block C S ch b w = (r, w') \<Longrightarrow> same_but_cache w w'"
  by (auto simp: load_block_def same_but_cache_def Let_def split: prod.splits option.splits sum.splits)

lemma prepare_calls_same: "prepare_calls X H C S ch idx plan w = (r, w') \<Longrightarrow> same_but_cache w w'"
  unfolding prepare_calls_def
  by (rule guarded_same_but_cache [rotated], assumption)
    (auto simp: act_bind_def act_pure_def split: prod.splits sum.splits if_splits dest: load_block_same)

lemma prepare_all_same: "prepare_all X H C S ch idx plans w = (rs, w') \<Longrightarrow> same_but_cache w w'"
proof (induction plans arbitrary: w rs)
  case (Cons plan plans)
  then obtain r w1 rs1 where "prepare_calls X H C S ch idx plan w = (r, w1)"
    "prepare_all X H C S ch idx plans w1 = (rs1, w')" by (auto split: prod.splits)
  with Cons.IH prepare_calls_same show ?case by (metis same_but_cache_trans)
qed simp

section \<open>Preparing calls and windows through a cache\<close>

context block_cache_port
begin

lemma load_block_faithful:
  assumes "faithful_source S D" and "chain_data_ok D" and "coherent ch (cd_block D) (w_cache w)"
    and "load_block C S ch b w = (r, w')"
  shows "coherent ch (cd_block D) (w_cache w')" and "r = Inr blk \<Longrightarrow> blk = cd_block D b"
proof -
  obtain c1 hit where get: "cache_get C (w_cache w) ch b = (c1, hit)" by fastforce
  note c1 = coherent_get [OF assms(3) get]
  have "coherent ch (cd_block D) (w_cache w') \<and> (\<forall>blk. r = Inr blk \<longrightarrow> blk = cd_block D b)"
  proof (cases hit)
    case None
    show ?thesis
    proof (cases "bs_fetch_block S b")
      case (Inl e)
      with assms(4) get None c1 show ?thesis by (auto simp: load_block_def Let_def)
    next
      case (Inr fetched)
      have f: "fetched = cd_block D b" by (rule faithful_sourceD(1) [OF assms(1) Inr])
      moreover have "sb_number fetched = b" using assms(2) f by (simp add: chain_data_ok_def)
      ultimately have "coherent ch (cd_block D) (cache_put C c1 ch fetched)"
        using c1 by (intro coherent_put) auto
      with assms(4) get None Inr f show ?thesis by (auto simp: load_block_def Let_def)
    qed
  next
    case (Some blk)
    with assms(4) get c1 show ?thesis by (auto simp: load_block_def)
  qed
  then show "coherent ch (cd_block D) (w_cache w')" and "r = Inr blk \<Longrightarrow> blk = cd_block D b" by blast+
qed

lemma prepare_calls_coherent:
  assumes "faithful_source S D" and "chain_data_ok D" and "coherent ch (cd_block D) (w_cache w)"
    and "prepare_calls X H C S ch idx plan w = (r, w')"
  shows "coherent ch (cd_block D) (w_cache w')"
proof (rule guarded_cache [where P = "coherent ch (cd_block D)", OF _ assms(4) [unfolded prepare_calls_def] assms(3)])
  fix w1 r1 w2
  assume "coherent ch (cd_block D) (w_cache w1)"
    "(if \<not> plan_has_calls idx plan then act_pure (Inr \<lparr>pcl_plan = plan, pcl_results = []\<rparr>)
        else act_bind (load_block C S ch (bp_block_number plan)) (\<lambda>blk.
          act_pure (res_bind (block_calls X H S idx plan blk) (\<lambda>results.
          Inr \<lparr>pcl_plan = plan, pcl_results = results\<rparr>)))) w1 = (r1, w2)"
  then show "coherent ch (cd_block D) (w_cache w2)"
    using load_block_faithful(1) [OF assms(1,2), of ch w1 "bp_block_number plan"]
    by (auto simp: act_bind_def act_pure_def split: prod.splits sum.splits if_splits)
qed

lemma prepare_calls_reference:
  assumes ok: "poll_ok X H all idx S D" and sorted: "sorted_wrt (<) (bp_monitor_indices plan)"
    and coh: "coherent ch (cd_block D) (w_cache w)"
    and prep: "prepare_calls X H C S ch idx plan w = (Inr pc, w')"
  shows "pcl_plan pc = plan \<and> mset (pcl_results pc)
    = mset (map ResultCall (chain_calls X D (mi_monitors idx) (bp_monitor_indices plan) (bp_block_number plan)))"
proof (cases "plan_has_calls idx plan")
  case False
  with prep no_call_monitors [OF False] show ?thesis
    by (auto simp: prepare_calls_def guarded_def act_pure_def)
next
  case True
  let ?w = "record_event (in_flight_enter (chain_id_of ch) ''block'') w"
  obtain rb w1 where load: "load_block C S ch (bp_block_number plan) ?w = (rb, w1)" by fastforce
  from prep True load obtain blk rs where blk: "rb = Inr blk" "block_calls X H S idx plan blk = Inr rs"
    "pc = \<lparr>pcl_plan = plan, pcl_results = rs\<rparr>"
    by (cases rb) (auto simp: prepare_calls_def guarded_def act_bind_def act_pure_def res_simps)
  have "coherent ch (cd_block D) (w_cache ?w)" using coh by simp
  from load_block_faithful(2) [OF poll_okD(6) [OF ok] poll_okD(7) [OF ok] this load] blk(1)
  have "blk = cd_block D (bp_block_number plan)" by simp
  with block_calls_reference [OF ok sorted] blk show ?thesis by simp
qed

lemma prepare_all_reference:
  assumes ok: "poll_ok X H all idx S D" and coh: "coherent ch (cd_block D) (w_cache w)"
    and sorted: "\<forall>p \<in> set plans. sorted_wrt (<) (bp_monitor_indices p)"
    and prep: "prepare_all X H C S ch idx plans w = (rs, w')"
  shows "coherent ch (cd_block D) (w_cache w')
    \<and> list_all2 (\<lambda>plan r. \<forall>pc. r = Inr pc \<longrightarrow> pcl_plan pc = plan \<and> mset (pcl_results pc)
        = mset (map ResultCall (chain_calls X D (mi_monitors idx) (bp_monitor_indices plan) (bp_block_number plan))))
      plans rs"
  using coh sorted prep
proof (induction plans arbitrary: w rs)
  case (Cons plan plans)
  from Cons.prems(3) obtain r w1 rs1 where step: "prepare_calls X H C S ch idx plan w = (r, w1)"
    "prepare_all X H C S ch idx plans w1 = (rs1, w')" "rs = r # rs1" by (auto split: prod.splits)
  note coh1 = prepare_calls_coherent [OF poll_okD(6) [OF ok] poll_okD(7) [OF ok] Cons.prems(1) step(1)]
  from Cons.IH [OF coh1 _ step(2)] Cons.prems(2) have rest: "coherent ch (cd_block D) (w_cache w')
    \<and> list_all2 (\<lambda>plan r. \<forall>pc. r = Inr pc \<longrightarrow> pcl_plan pc = plan \<and> mset (pcl_results pc)
        = mset (map ResultCall (chain_calls X D (mi_monitors idx) (bp_monitor_indices plan) (bp_block_number plan))))
      plans rs1" by simp
  have "\<forall>pc. r = Inr pc \<longrightarrow> pcl_plan pc = plan \<and> mset (pcl_results pc)
        = mset (map ResultCall (chain_calls X D (mi_monitors idx) (bp_monitor_indices plan) (bp_block_number plan)))"
    using prepare_calls_reference [OF ok _ Cons.prems(1)] step(1) Cons.prems(2) by auto
  with rest step(3) show ?case by simp
qed simp

lemma prepare_event_window_reference:
  assumes ok: "poll_ok X H all idx S D" and coh: "coherent ch (cd_block D) (w_cache w)"
    and sorted: "\<forall>p \<in> set plans. sorted_wrt (<) (bp_monitor_indices p)"
    and asc: "sorted_wrt (<) (map bp_block_number plans)"
    and query: "window_query plans idx = Inr (Some q)"
    and prep: "prepare_event_window X H C S ch idx plans q w = (r, w')"
  shows "coherent ch (cd_block D) (w_cache w') \<and> same_but_cache w w'
    \<and> (\<forall>rs. r = Inr rs \<longrightarrow> list_all2 (\<lambda>plan r. \<forall>pb. r = Inr pb \<longrightarrow> prepared_ok X D idx plan pb) plans rs)"
proof -
  from prep obtain calls where calls: "prepare_all X H C S ch idx plans w = (calls, w')"
    and r: "r = res_bind (bs_fetch_logs S q) (\<lambda>logs. res_bind (group_logs (lq_range q) logs []) (\<lambda>by_block.
       Inr (attach_logs X H idx calls by_block)))"
    by (auto simp: prepare_event_window_def split: prod.splits)
  note spec = prepare_all_reference [OF ok coh sorted calls]
  have "list_all2 (\<lambda>plan r. \<forall>pb. r = Inr pb \<longrightarrow> prepared_ok X D idx plan pb) plans rs" if "r = Inr rs" for rs
  proof -
    have "res_bind (bs_fetch_logs S q) (\<lambda>logs. res_bind (group_logs (lq_range q) logs []) (\<lambda>by_block.
       Inr (attach_logs X H idx calls by_block))) = Inr rs" using r that by simp
    then obtain logs by_block where logs: "bs_fetch_logs S q = Inr logs"
      "group_logs (lq_range q) logs [] = Inr by_block" "rs = attach_logs X H idx calls by_block"
      by (auto simp: res_bind_Inr)
    have get: "entry_get by_block b = filter (\<lambda>l. sl_block_number l = Some b) logs" for b
      using group_logs_spec [OF logs(2) ordered_entries_Nil] by simp
    have "distinct (map bp_block_number plans)" using asc by (simp add: strict_sorted_iff)
    moreover have "list_all2 (\<lambda>plan r. \<forall>pc. r = Inr pc \<longrightarrow> pcl_plan pc = plan) plans calls"
      by (rule list_all2_mono [OF conjunct2 [OF spec]]) simp
    ultimately have rs: "rs = map (\<lambda>r. res_bind r (\<lambda>pc. finish_prepared X H idx pc
        (filter (\<lambda>l. sl_block_number l = Some (bp_block_number (pcl_plan pc))) logs))) calls"
      using attach_logs_spec logs(3) get by simp
    show ?thesis
      unfolding rs list_all2_map2
    proof (rule list_all2_mono_in [OF conjunct2 [OF spec]])
      fix plan and c :: "prepared_calls result"
      assume plan: "plan \<in> set plans"
        and c: "\<forall>pc. c = Inr pc \<longrightarrow> pcl_plan pc = plan \<and> mset (pcl_results pc)
        = mset (map ResultCall (chain_calls X D (mi_monitors idx) (bp_monitor_indices plan) (bp_block_number plan)))"
      have rng: "in_range (lq_range q) (bp_block_number plan)"
        using window_query_targets [OF query plan] ascending_bounds [OF asc plan] by (auto simp: in_range_def)
      show "\<forall>pb. res_bind c (\<lambda>pc. finish_prepared X H idx pc
          (filter (\<lambda>l. sl_block_number l = Some (bp_block_number (pcl_plan pc))) logs)) = Inr pb
            \<longrightarrow> prepared_ok X D idx plan pb"
        using c finish_with_logs [OF ok _ query plan rng logs(1)] sorted plan by (auto simp: res_simps)
    qed
  qed
  with spec prepare_all_same [OF calls] show ?thesis by blast
qed

end

end
