(* ===== verification/Status.thy ===== *)
theory Status
  imports Ports
begin

text \<open>
  \<open>parseon-core/src/status.rs\<close>: the status snapshot of a chain worker, the public form of its
  errors, and the runtime registry. A \<open>ChainStatus\<close> is a shared cell: the registry and the
  worker hold the same one, so the cells live in a store and a status is its address.
\<close>

section \<open>Error texts\<close>

text \<open>\<open>Display\<close> of one cause, and the \<open>{:#}\<close> form of a whole error.\<close>

fun cause_text :: "cause \<Rightarrow> string" where
  "cause_text (Message s) = s"
| "cause_text BlockSourceRequest = ''block source request failed''"
| "cause_text (InvalidCommand s) = s"
| "cause_text InvalidMonitorId = ''monitor id must be positive''"
| "cause_text (AbiParse s) = ''failed to parse signature: '' @ s"
| "cause_text (AbiType s) = ''invalid solidity type: '' @ s"
| "cause_text (AbiDecode s) = ''decode error: '' @ s"
| "cause_text (FilterFailure path s) = path @ '': '' @ s"
| "cause_text (Panic s) = s"
| "cause_text (Transport response s) = s"
| "cause_text (MissingBlock b) = ''block receipts response missing for block '' @ show_u64 b"
| "cause_text (MissingTransaction h) = ''block receipts response is missing transaction '' @ h"
| "cause_text (Backend s) = s"
| "cause_text (Driver labels code s) = s"

fun error_chain_text :: "error \<Rightarrow> string" where
  "error_chain_text [] = []"
| "error_chain_text [c] = cause_text c"
| "error_chain_text (c # cs) = cause_text c @ '': '' @ error_chain_text cs"

definition error_text :: "error \<Rightarrow> string" where
  "error_text e = (case e of [] \<Rightarrow> [] | c # _ \<Rightarrow> cause_text c)"

definition safe_error_message :: "error \<Rightarrow> string" where
  "safe_error_message e =
     (if list_ex (\<lambda>c. c = BlockSourceRequest) e then ''block source request failed'' else error_chain_text e)"

section \<open>Snapshots\<close>

datatype worker_state = Starting | Running | Degraded | DisabledState

record chain_status_snapshot =
  cs_chain_id :: chain_id
  cs_enabled :: bool
  cs_finalized_head :: "block_number option"
  cs_worker_state :: worker_state
  cs_last_successful_poll_at :: "int option"
  cs_last_error :: "string option"

definition status_starting :: "chain_id \<Rightarrow> block_number option \<Rightarrow> chain_status_snapshot" where
  "status_starting c head =
     \<lparr>cs_chain_id = c, cs_enabled = True, cs_finalized_head = head, cs_worker_state = Starting,
      cs_last_successful_poll_at = None, cs_last_error = None\<rparr>"

definition status_disabled :: "chain_id \<Rightarrow> chain_status_snapshot" where
  "status_disabled c =
     \<lparr>cs_chain_id = c, cs_enabled = False, cs_finalized_head = None, cs_worker_state = DisabledState,
      cs_last_successful_poll_at = None, cs_last_error = None\<rparr>"

definition status_degraded :: "chain_id \<Rightarrow> string \<Rightarrow> chain_status_snapshot" where
  "status_degraded c message =
     \<lparr>cs_chain_id = c, cs_enabled = True, cs_finalized_head = None, cs_worker_state = Degraded,
      cs_last_successful_poll_at = None, cs_last_error = Some message\<rparr>"

text \<open>\<open>now\<close> is the wall clock the code reads.\<close>

definition record_success :: "int \<Rightarrow> block_number \<Rightarrow> chain_status_snapshot \<Rightarrow> chain_status_snapshot" where
  "record_success now head prev =
     \<lparr>cs_chain_id = cs_chain_id prev, cs_enabled = cs_enabled prev, cs_finalized_head = Some head,
      cs_worker_state = Running, cs_last_successful_poll_at = Some now, cs_last_error = None\<rparr>"

definition record_error :: "error \<Rightarrow> chain_status_snapshot \<Rightarrow> string \<times> chain_status_snapshot" where
  "record_error e prev =
     (let message = safe_error_message e in
      (message,
       \<lparr>cs_chain_id = cs_chain_id prev, cs_enabled = cs_enabled prev, cs_finalized_head = cs_finalized_head prev,
        cs_worker_state = Degraded, cs_last_successful_poll_at = cs_last_successful_poll_at prev,
        cs_last_error = Some message\<rparr>))"

section \<open>The registry of statuses\<close>

text \<open>
  The store of status cells and the map from chain ids, in ascending order, to cells.
\<close>

record status_registry =
  sr_cells :: "chain_status_snapshot list"
  sr_statuses :: "(chain_id \<times> nat) list"

definition empty_registry :: status_registry where
  "empty_registry = \<lparr>sr_cells = [], sr_statuses = []\<rparr>"

fun map_insert :: "'k::linorder \<Rightarrow> 'v \<Rightarrow> ('k \<times> 'v) list \<Rightarrow> ('k \<times> 'v) list" where
  "map_insert k v [] = [(k, v)]"
| "map_insert k v ((k', v') # m) =
     (if k < k' then (k, v) # (k', v') # m
      else if k = k' then (k, v) # m
      else (k', v') # map_insert k v m)"

text \<open>A new \<open>ChainStatus\<close> is a fresh cell.\<close>

definition new_status :: "chain_status_snapshot \<Rightarrow> status_registry \<Rightarrow> nat \<times> status_registry" where
  "new_status s r = (length (sr_cells r), r\<lparr>sr_cells := sr_cells r @ [s]\<rparr>)"

definition status_replace :: "nat \<Rightarrow> status_registry \<Rightarrow> status_registry" where
  "status_replace cell r =
     r\<lparr>sr_statuses := map_insert (cs_chain_id (sr_cells r ! cell)) cell (sr_statuses r)\<rparr>"

definition status_remove :: "chain_id \<Rightarrow> status_registry \<Rightarrow> status_registry" where
  "status_remove c r = r\<lparr>sr_statuses := filter (\<lambda>(k, _). k \<noteq> c) (sr_statuses r)\<rparr>"

definition status_snapshots :: "status_registry \<Rightarrow> chain_status_snapshot list" where
  "status_snapshots r = map (\<lambda>(_, cell). sr_cells r ! cell) (sr_statuses r)"

text \<open>A worker updates its own cell.\<close>

definition update_cell ::
  "nat \<Rightarrow> (chain_status_snapshot \<Rightarrow> chain_status_snapshot) \<Rightarrow> status_registry \<Rightarrow> status_registry" where
  "update_cell cell f r = r\<lparr>sr_cells := (sr_cells r)[cell := f (sr_cells r ! cell)]\<rparr>"

section \<open>The registry stays ordered and well keyed\<close>

definition registry_ok :: "status_registry \<Rightarrow> bool" where
  "registry_ok r =
     (sorted_wrt (<) (map fst (sr_statuses r))
      \<and> (\<forall>(c, cell) \<in> set (sr_statuses r). cell < length (sr_cells r) \<and> cs_chain_id (sr_cells r ! cell) = c))"

definition status_of :: "status_registry \<Rightarrow> chain_id \<Rightarrow> chain_status_snapshot option" where
  "status_of r c = map_option (\<lambda>cell. sr_cells r ! cell) (map_of (sr_statuses r) c)"

lemma fst_map_insert: "fst ` set (map_insert k v m) = insert k (fst ` set m)"
  by (induction k v m rule: map_insert.induct) auto

lemma set_map_insert: "set (map_insert k v m) \<subseteq> insert (k, v) (set m)"
  by (induction k v m rule: map_insert.induct) auto

lemma sorted_map_insert: "sorted_wrt (<) (map fst m) \<Longrightarrow> sorted_wrt (<) (map fst (map_insert k v m))"
proof (induction k v m rule: map_insert.induct)
  case (2 k v k' v' m)
  have "\<forall>x \<in> set (map fst (map_insert k v m)). k' < x" if "k' < k"
    using 2(2) that fst_map_insert [of k v m] by (metis insertE list.set_map list.simps(9) fst_conv sorted_wrt.simps(2))
  with 2 show ?case by auto
qed simp

lemma map_of_map_insert:
  "sorted_wrt (<) (map fst m) \<Longrightarrow> map_of (map_insert k v m) k' = (if k' = k then Some v else map_of m k')"
proof (induction k v m rule: map_insert.induct)
  case (2 k v k2 v2 m)
  then have "map_of m k = None" if "k < k2" using that by (force simp: map_of_eq_None_iff)
  with 2 show ?case by auto
qed simp

lemma new_status_ok: "registry_ok r \<Longrightarrow> new_status s r = (cell, r') \<Longrightarrow>
    registry_ok r' \<and> sr_statuses r' = sr_statuses r \<and> cell < length (sr_cells r') \<and> sr_cells r' ! cell = s
    \<and> (\<forall>i < length (sr_cells r). sr_cells r' ! i = sr_cells r ! i)"
  by (fastforce simp: new_status_def registry_ok_def nth_append)

lemma status_replace_ok:
  "registry_ok r \<Longrightarrow> cell < length (sr_cells r) \<Longrightarrow> registry_ok (status_replace cell r)"
  using set_map_insert [of "cs_chain_id (sr_cells r ! cell)" cell "sr_statuses r"]
  by (fastforce simp: registry_ok_def status_replace_def sorted_map_insert)

lemma status_of_replace:
  "registry_ok r \<Longrightarrow> status_of (status_replace cell r) c
     = (if c = cs_chain_id (sr_cells r ! cell) then Some (sr_cells r ! cell) else status_of r c)"
  by (simp add: status_of_def status_replace_def registry_ok_def map_of_map_insert)

lemma status_remove_ok: "registry_ok r \<Longrightarrow> registry_ok (status_remove c r)"
  by (auto simp: registry_ok_def status_remove_def sorted_wrt_map intro: sorted_wrt_filter)

lemma status_of_remove: "status_of (status_remove c r) c' = (if c' = c then None else status_of r c')"
proof -
  have "map_of (filter (\<lambda>(k, _). k \<noteq> c) m) c' = (if c' = c then None else map_of m c')" for m :: "(chain_id \<times> nat) list"
    by (induction m) auto
  then show ?thesis by (simp add: status_of_def status_remove_def)
qed

lemma update_cell_ok:
  assumes "registry_ok r" and "cs_chain_id (f (sr_cells r ! cell)) = cs_chain_id (sr_cells r ! cell)"
  shows "registry_ok (update_cell cell f r)"
proof -
  have "cs_chain_id ((sr_cells r)[cell := f (sr_cells r ! cell)] ! i) = cs_chain_id (sr_cells r ! i)"
    if "i < length (sr_cells r)" for i
    using that assms(2) by (cases "i = cell") simp_all
  with assms(1) show ?thesis by (fastforce simp: registry_ok_def update_cell_def)
qed

text \<open>
  No registered secret can leak: when any cause is a source request, the public message is the
  fixed text.
\<close>

lemma safe_error_message_scrubbed:
  "BlockSourceRequest \<in> set e \<Longrightarrow> safe_error_message e = ''block source request failed''"
  by (auto simp: safe_error_message_def list_ex_iff)

lemma record_error_keeps_head:
  "record_error e prev = (message, next) \<Longrightarrow>
     cs_finalized_head next = cs_finalized_head prev \<and> cs_worker_state next = Degraded
     \<and> cs_last_error next = Some message \<and> cs_last_successful_poll_at next = cs_last_successful_poll_at prev"
  by (auto simp: record_error_def Let_def)

end
