(* ===== verification/Worker.thy ===== *)
theory Worker
  imports Prepared_Results Status
begin

text \<open>
  \<open>parseon-core/src/worker/commit.rs\<close> and \<open>mod.rs\<close>: the atomic commit of one prepared block, one
  poll, and the loop that polls until it is cancelled. Every look at the cancellation token is a
  \<open>checkpoint\<close>; the in-memory cursors \<open>progress\<close> are threaded through.
\<close>

section \<open>The context of a poll\<close>

record worker_config =
  wc_chain :: chain
  wc_batch_size :: u64
  wc_block_concurrency :: nat
  wc_poll_interval :: nat

text \<open>
  \<open>PollContext\<close>, with the storage-write semaphore as whether it is open (\<open>acquire\<close> fails only on
  a closed one).
\<close>

record ('c, 's) poll_context =
  pc_storage :: "'s index_storage"
  pc_source :: block_source
  pc_cache :: "'c block_cache_ops"
  pc_writes_open :: bool
  pc_sink_enabled :: bool

record poll_result =
  pr_finalized_head :: block_number
  pr_decoded :: nat

datatype poll_outcome = Completed poll_result | Cancelled

record source_status =
  ss_chain_id :: u64
  ss_finalized_head :: block_number

definition probe_source :: "block_source \<Rightarrow> source_status result" where
  "probe_source S =
     res_bind (bs_chain_id S) (\<lambda>id.
     res_bind
       (map_err (\<lambda>e. anyhow (''RPC does not support the required finalized block tag: '' @ error_chain_text e))
         (bs_finalized_head S)) (\<lambda>head.
     Inr \<lparr>ss_chain_id = id, ss_finalized_head = head\<rparr>))"

text \<open>The biased \<open>select!\<close> on \<open>cancel.cancelled()\<close>, and \<open>is_cancelled()\<close>.\<close>

definition checkpoint :: "('c, 's) world \<Rightarrow> bool \<times> ('c, 's) world" where
  "checkpoint w =
     (case w_cancel w of
        None \<Rightarrow> (False, w)
      | Some 0 \<Rightarrow> (True, w)
      | Some (Suc n) \<Rightarrow> (False, w\<lparr>w_cancel := Some n\<rparr>))"

section \<open>Committing a block (\<open>commit.rs\<close>)\<close>

type_synonym progress = "block_number option list"

datatype commit_outcome = Committed nat progress | CommitCancelled

definition is_call :: "decoded_result \<Rightarrow> bool" where
  "is_call r = (case r of ResultCall _ \<Rightarrow> True | ResultEvent _ \<Rightarrow> False)"

definition commit_of :: "chain \<Rightarrow> prepared_block \<Rightarrow> block_commit" where
  "commit_of ch pb =
     \<lparr>bc_chain = ch, bc_block_number = pb_block_number pb, bc_monitors = pb_monitors pb,
      bc_results = pb_results pb\<rparr>"

text \<open>The submission after a successful commit: a batch that cannot be encoded is only logged.\<close>

definition submit_batch ::
  "externs \<Rightarrow> ('c, 's) poll_context \<Rightarrow> block_commit \<Rightarrow> ('c, 's) world \<Rightarrow> ('c, 's) world" where
  "submit_batch X ctx c w =
     (if pc_sink_enabled ctx then
        (case sink_batch_new X (bc_chain c) (bc_block_number c) (bc_monitors c) (bc_results c) of
           Inr (Some batch) \<Rightarrow> w\<lparr>w_sink := w_sink w @ [batch]\<rparr>
         | _ \<Rightarrow> w)
      else w)"

fun advance_progress :: "block_number \<Rightarrow> nat list \<Rightarrow> progress \<Rightarrow> progress result" where
  "advance_progress b [] progress = Inr progress"
| "advance_progress b (i # is) progress =
     (if i < length progress then advance_progress b is (progress[i := Some b])
      else Inl (anyhow ''block plan references unknown monitor''))"

definition commit_prepared ::
  "externs \<Rightarrow> chain \<Rightarrow> ('c, 's) poll_context \<Rightarrow> prepared_block \<Rightarrow> progress \<Rightarrow> ('c, 's, commit_outcome) action" where
  "commit_prepared X ch ctx pb progress = (\<lambda>w.
     (let calls = length (filter is_call (pb_results pb));
          events = length (pb_results pb) - calls;
          commit = commit_of ch pb;
          (stop, w1) = checkpoint w in
      if stop then (Inr CommitCancelled, w1)
      else if \<not> pc_writes_open ctx then (Inl [Backend ''semaphore closed''], w1)
      else
        (let w2 = record_event (in_flight_enter (chain_id_of ch) ''storage'') w1;
             (r, s) = is_commit_block (pc_storage ctx) (w_storage w2) commit;
             w3 = record_event (in_flight_leave (chain_id_of ch) ''storage'') (w2\<lparr>w_storage := s\<rparr>) in
         (case r of
            Inl e \<Rightarrow> (Inl e, record_event (RecordCommit (chain_id_of ch) calls events ''error'') w3)
          | Inr _ \<Rightarrow>
              (let w4 = submit_batch X ctx commit
                          (record_event (RecordCommit (chain_id_of ch) calls events ''success'') w3) in
               (res_bind (advance_progress (pb_block_number pb) (pb_monitor_indices pb) progress) (\<lambda>progress'.
                Inr (Committed (length (bc_results commit)) progress')), w4))))))"

section \<open>One poll (\<open>run_once\<close>)\<close>

datatype loop_state = Going progress nat | Stopped

text \<open>The loop over the prepared blocks of an event window.\<close>

fun commit_window ::
  "externs \<Rightarrow> chain \<Rightarrow> ('c, 's) poll_context \<Rightarrow> prepared_block result list \<Rightarrow> progress \<Rightarrow> nat
     \<Rightarrow> ('c, 's, loop_state) action" where
  "commit_window X ch ctx [] progress decoded w = (Inr (Going progress decoded), w)"
| "commit_window X ch ctx (p # ps) progress decoded w =
     (case p of
        Inl e \<Rightarrow> (Inl e, w)
      | Inr pb \<Rightarrow>
          (case commit_prepared X ch ctx pb progress w of
             (Inl e, w1) \<Rightarrow> (Inl e, w1)
           | (Inr CommitCancelled, w1) \<Rightarrow> (Inr Stopped, w1)
           | (Inr (Committed n progress'), w1) \<Rightarrow>
               commit_window X ch ctx ps progress' (decoded + n) w1))"

text \<open>The stream of a window without events; the end of the stream is one more look.\<close>

fun commit_stream ::
  "externs \<Rightarrow> hash_order \<Rightarrow> chain \<Rightarrow> ('c, 's) poll_context \<Rightarrow> monitor_index \<Rightarrow> block_plan list \<Rightarrow> progress \<Rightarrow> nat
     \<Rightarrow> ('c, 's, loop_state) action" where
  "commit_stream X H ch ctx idx [] progress decoded w =
     (let (stop, w1) = checkpoint w in (Inr (if stop then Stopped else Going progress decoded), w1))"
| "commit_stream X H ch ctx idx (plan # plans) progress decoded w =
     (let (stop, w1) = checkpoint w in
      if stop then (Inr Stopped, w1)
      else
        (let (r, w2) = prepare_calls X H (pc_cache ctx) (pc_source ctx) ch idx plan w1 in
         (case res_bind r (\<lambda>prepared. finish_prepared X H idx prepared []) of
            Inl e \<Rightarrow> (Inl e, w2)
          | Inr pb \<Rightarrow>
              (case commit_prepared X ch ctx pb progress w2 of
                 (Inl e, w3) \<Rightarrow> (Inl e, w3)
               | (Inr CommitCancelled, w3) \<Rightarrow> (Inr Stopped, w3)
               | (Inr (Committed n progress'), w3) \<Rightarrow>
                   commit_stream X H ch ctx idx plans progress' (decoded + n) w3))))"

definition run_window ::
  "externs \<Rightarrow> hash_order \<Rightarrow> chain \<Rightarrow> ('c, 's) poll_context \<Rightarrow> monitor_index \<Rightarrow> block_plan list \<Rightarrow> progress \<Rightarrow> nat
     \<Rightarrow> ('c, 's, loop_state) action" where
  "run_window X H ch ctx idx window progress decoded w =
     (case window_query window idx of
        Inl e \<Rightarrow> (Inl e, w)
      | Inr None \<Rightarrow> commit_stream X H ch ctx idx window progress decoded w
      | Inr (Some query) \<Rightarrow>
          (let (stop, w1) = checkpoint w in
           if stop then (Inr Stopped, w1)
           else
             (case prepare_event_window X H (pc_cache ctx) (pc_source ctx) ch idx window query w1 of
                (Inl e, w2) \<Rightarrow> (Inl e, w2)
              | (Inr prepared, w2) \<Rightarrow> commit_window X ch ctx prepared progress decoded w2)))"

fun run_windows ::
  "externs \<Rightarrow> hash_order \<Rightarrow> chain \<Rightarrow> ('c, 's) poll_context \<Rightarrow> monitor_index \<Rightarrow> block_plan list list \<Rightarrow> progress \<Rightarrow> nat
     \<Rightarrow> ('c, 's, loop_state) action" where
  "run_windows X H ch ctx idx [] progress decoded w = (Inr (Going progress decoded), w)"
| "run_windows X H ch ctx idx (window # windows) progress decoded w =
     (case run_window X H ch ctx idx window progress decoded w of
        (Inl e, w1) \<Rightarrow> (Inl e, w1)
      | (Inr Stopped, w1) \<Rightarrow> (Inr Stopped, w1)
      | (Inr (Going progress' decoded'), w1) \<Rightarrow>
          run_windows X H ch ctx idx windows progress' decoded' w1)"

text \<open>The lag of one monitor, and the smallest block still wanted.\<close>

definition monitor_lag :: "block_number \<Rightarrow> monitor \<Rightarrow> block_number option \<Rightarrow> block_number" where
  "monitor_lag finalized_head m c =
     (let target = min (case mon_end_block m of None \<Rightarrow> finalized_head | Some e \<Rightarrow> e) finalized_head in
      (case c of
         Some b \<Rightarrow> saturating_sub target b
       | None \<Rightarrow>
           if mon_start_block m \<le> target then saturating_add (saturating_sub target (mon_start_block m)) 1
           else 0))"

definition progress_next :: "monitor list \<Rightarrow> progress \<Rightarrow> block_number list" where
  "progress_next ms progress = map (\<lambda>(m, c). cursor_next (Cursor c) (mon_start_block m)) (zip ms progress)"

definition worker_lag :: "block_number \<Rightarrow> monitor list \<Rightarrow> progress \<Rightarrow> block_number" where
  "worker_lag finalized_head ms progress =
     foldl max 0 (map (\<lambda>(m, c). monitor_lag finalized_head m c) (zip ms progress))"

text \<open>The tail of \<open>run_once\<close> once all windows are committed.\<close>

definition finish_poll ::
  "chain \<Rightarrow> ('c, 's) poll_context \<Rightarrow> monitor list \<Rightarrow> block_number \<Rightarrow> progress \<Rightarrow> nat \<Rightarrow> ('c, 's) world
     \<Rightarrow> poll_outcome \<times> ('c, 's) world" where
  "finish_poll ch ctx active finalized_head progress decoded w =
     (let w1 = (case progress_next active progress of
                  [] \<Rightarrow> w
                | n # ns \<Rightarrow> w\<lparr>w_cache := cache_evict_before (pc_cache ctx) (w_cache w) ch (foldl min n ns)\<rparr>);
          w2 = record_event (SetWorkerLag (chain_id_of ch) (worker_lag finalized_head active progress)) w1 in
      (Completed \<lparr>pr_finalized_head = finalized_head, pr_decoded = decoded\<rparr>, w2))"

definition run_once ::
  "externs \<Rightarrow> hash_order \<Rightarrow> worker_config \<Rightarrow> ('c, 's) poll_context \<Rightarrow> ('c, 's, poll_outcome) action" where
  "run_once X H cfg ctx w =
     (let (stop, w1) = checkpoint w in
      if stop then (Inr Cancelled, w1)
      else
        (case bs_finalized_head (pc_source ctx) of
           Inl e \<Rightarrow> (Inl e, w1)
         | Inr finalized_head \<Rightarrow>
             (let (stop, w2) = checkpoint w1 in
              if stop then (Inr Cancelled, w2)
              else
                (case is_load_monitors (pc_storage ctx) (w_storage w2) (wc_chain cfg) of
                   Inl e \<Rightarrow> (Inl e, w2)
                 | Inr monitors \<Rightarrow>
                     (case monitor_index_new X monitors of
                        Inl e \<Rightarrow> (Inl e, w2)
                      | Inr idx \<Rightarrow>
                          if mi_monitors idx = [] then
                            (let (stop, w3) = checkpoint w2 in
                             if stop then (Inr Cancelled, w3)
                             else
                               (Inr (Completed \<lparr>pr_finalized_head = finalized_head, pr_decoded = 0\<rparr>),
                                record_event (SetWorkerLag (chain_id_of (wc_chain cfg)) 0) w3))
                          else
                            (let plans = plan_blocks (mi_monitors idx) finalized_head (wc_batch_size cfg);
                                 progress = map (\<lambda>m. cursor_block (mon_cursor m)) (mi_monitors idx) in
                             (case run_windows X H (wc_chain cfg) ctx idx
                                     (plan_windows plans (wc_batch_size cfg)) progress 0 w2 of
                                (Inl e, w3) \<Rightarrow> (Inl e, w3)
                              | (Inr Stopped, w3) \<Rightarrow> (Inr Cancelled, w3)
                              | (Inr (Going progress' decoded), w3) \<Rightarrow>
                                  (let (r, w4) = finish_poll (wc_chain cfg) ctx (mi_monitors idx) finalized_head
                                                   progress' decoded w3 in
                                   (Inr r, w4)))))))))"

section \<open>The worker loop (\<open>run\<close>)\<close>

text \<open>
  The \<open>k\<close>-th poll sees its own context, since the source answers differently over time, and its
  own clock. The loop may run for ever; its value is then \<open>None\<close>.
\<close>

definition poll_status ::
  "int \<Rightarrow> poll_outcome result \<Rightarrow> chain_status_snapshot \<Rightarrow> chain_status_snapshot option" where
  "poll_status now r status =
     (case r of
        Inr (Completed p) \<Rightarrow> Some (record_success now (pr_finalized_head p) status)
      | Inr Cancelled \<Rightarrow> None
      | Inl e \<Rightarrow> Some (snd (record_error e status)))"

text \<open>One turn of the loop: whether it breaks, the status and the world.\<close>

definition worker_turn ::
  "externs \<Rightarrow> hash_order \<Rightarrow> worker_config \<Rightarrow> ('c, 's) poll_context \<Rightarrow> int \<Rightarrow> chain_status_snapshot
     \<Rightarrow> ('c, 's) world \<Rightarrow> bool \<times> chain_status_snapshot \<times> ('c, 's) world" where
  "worker_turn X H cfg ctx now status w =
     (let (stop, w1) = checkpoint w in
      if stop then (True, status, w1)
      else
        (let (r, w2) = run_once X H cfg ctx w1 in
         (case poll_status now r status of
            None \<Rightarrow> (True, status, w2)
          | Some status' \<Rightarrow> (let (stop, w3) = checkpoint w2 in (stop, status', w3)))))"

partial_function (option) worker_run ::
  "externs \<Rightarrow> hash_order \<Rightarrow> worker_config \<Rightarrow> (nat \<Rightarrow> ('c, 's) poll_context) \<Rightarrow> (nat \<Rightarrow> int) \<Rightarrow> nat
     \<Rightarrow> chain_status_snapshot \<Rightarrow> ('c, 's) world \<Rightarrow> (chain_status_snapshot \<times> ('c, 's) world) option" where
  "worker_run X H cfg ctxs clock k status w =
     (let t = worker_turn X H cfg (ctxs k) (clock k) status w in
      if fst t then Some (snd t)
      else worker_run X H cfg ctxs clock (Suc k) (fst (snd t)) (snd (snd t)))"

end
