(* ===== verification/Supervisor.thy ===== *)
theory Supervisor
  imports Worker
begin

text \<open>
  \<open>parseon-core/src/supervisor.rs\<close>: the live worker set. The control mutex makes every operation
  on the control plane one step; a spawned worker is a task of the task table, with its own
  status cell, and stopping it cancels and awaits it. A step relation interleaves the operations
  of the handle with the status updates of the running workers.
\<close>

section \<open>State\<close>

record task =
  tk_chain :: chain
  tk_status :: nat
  tk_cancelled :: bool
  tk_running :: bool

record worker_runtime =
  wr_task :: nat
  wr_rpc_url :: url
  wr_source :: block_source

record control_plane =
  cp_closed :: bool
  cp_workers :: "(chain_id \<times> worker_runtime) list"

record supervisor =
  sv_control :: control_plane
  sv_statuses :: status_registry
  sv_tasks :: "task list"

type_synonym source_factory = "url \<Rightarrow> block_source result"

definition supervisor_init :: supervisor where
  "supervisor_init =
     \<lparr>sv_control = \<lparr>cp_closed = False, cp_workers = []\<rparr>, sv_statuses = empty_registry, sv_tasks = []\<rparr>"

section \<open>Operations\<close>

definition remove_worker :: "chain_id \<Rightarrow> supervisor \<Rightarrow> supervisor" where
  "remove_worker c s =
     s\<lparr>sv_control := (sv_control s)\<lparr>cp_workers := filter (\<lambda>(k, _). k \<noteq> c) (cp_workers (sv_control s))\<rparr>\<rparr>"

definition insert_worker :: "chain_id \<Rightarrow> worker_runtime \<Rightarrow> supervisor \<Rightarrow> supervisor" where
  "insert_worker c rt s =
     s\<lparr>sv_control := (sv_control s)\<lparr>cp_workers :=
         (c, rt) # filter (\<lambda>(k, _). k \<noteq> c) (cp_workers (sv_control s))\<rparr>\<rparr>"

text \<open>\<open>stop_worker\<close>: cancel the token, await the task.\<close>

definition stop_worker :: "worker_runtime \<Rightarrow> supervisor \<Rightarrow> supervisor" where
  "stop_worker rt s =
     s\<lparr>sv_tasks := (sv_tasks s)[wr_task rt := (sv_tasks s ! wr_task rt)\<lparr>tk_cancelled := True, tk_running := False\<rparr>]\<rparr>"

text \<open>\<open>statuses.replace(ChainStatus::..)\<close> with a fresh status.\<close>

definition put_status :: "chain_status_snapshot \<Rightarrow> supervisor \<Rightarrow> nat \<times> supervisor" where
  "put_status snapshot s =
     (let (cell, r) = new_status snapshot (sv_statuses s) in
      (cell, s\<lparr>sv_statuses := status_replace cell r\<rparr>))"

definition prepare_source :: "source_factory \<Rightarrow> registered_chain \<Rightarrow> string + (block_source \<times> block_number)" where
  "prepare_source factory registered =
     res_bind (map_err (\<lambda>_. ''RPC endpoint configuration is invalid'') (factory (rc_rpc_url registered))) (\<lambda>source.
     res_bind (map_err (\<lambda>_. ''RPC endpoint validation failed'') (probe_source source)) (\<lambda>probe.
     if ss_chain_id probe \<noteq> chain_id_of (rc_chain registered)
     then Inl ''RPC endpoint returned a different chain ID''
     else Inr (source, ss_finalized_head probe)))"

definition start_worker :: "source_factory \<Rightarrow> registered_chain \<Rightarrow> supervisor \<Rightarrow> supervisor" where
  "start_worker factory registered s =
     (let ch = rc_chain registered in
      (case prepare_source factory registered of
         Inl message \<Rightarrow> snd (put_status (status_degraded (chain_id_of ch) message) s)
       | Inr (source, head) \<Rightarrow>
           (let (cell, s1) = put_status (status_starting (chain_id_of ch) (Some head)) s;
                t = length (sv_tasks s1);
                s2 = s1\<lparr>sv_tasks := sv_tasks s1 @
                       [\<lparr>tk_chain = ch, tk_status = cell, tk_cancelled = False, tk_running = True\<rparr>]\<rparr> in
            insert_worker (chain_id_of ch) \<lparr>wr_task = t, wr_rpc_url = rc_rpc_url registered, wr_source = source\<rparr> s2)))"

definition apply_registration :: "source_factory \<Rightarrow> registered_chain \<Rightarrow> supervisor \<Rightarrow> supervisor" where
  "apply_registration factory registered s =
     (if cp_closed (sv_control s) then s
      else
        (let c = chain_id_of (rc_chain registered) in
         (case (rc_enabled registered, map_of (cp_workers (sv_control s)) c) of
            (True, Some rt) \<Rightarrow>
              if wr_rpc_url rt = rc_rpc_url registered then s
              else
                (case bs_set_rpc_url (wr_source rt) (rc_rpc_url registered) of
                   Inr _ \<Rightarrow> insert_worker c (rt\<lparr>wr_rpc_url := rc_rpc_url registered\<rparr>) s
                 | Inl _ \<Rightarrow> start_worker factory registered (stop_worker rt (remove_worker c s)))
          | (True, None) \<Rightarrow> start_worker factory registered s
          | (False, Some rt) \<Rightarrow> snd (put_status (status_disabled c) (stop_worker rt (remove_worker c s)))
          | (False, None) \<Rightarrow> snd (put_status (status_disabled c) s))))"

definition retire :: "chain_id \<Rightarrow> supervisor \<Rightarrow> supervisor" where
  "retire c s =
     (let s1 = (case map_of (cp_workers (sv_control s)) c of
                  None \<Rightarrow> s | Some rt \<Rightarrow> stop_worker rt (remove_worker c s)) in
      s1\<lparr>sv_statuses := status_remove c (sv_statuses s1)\<rparr>)"

definition shutdown_workers :: "(chain_id \<times> worker_runtime) list \<Rightarrow> supervisor \<Rightarrow> supervisor" where
  "shutdown_workers workers s = foldl (\<lambda>s (_, rt). stop_worker rt s) s workers"

definition shutdown :: "supervisor \<Rightarrow> supervisor" where
  "shutdown s =
     (let workers = cp_workers (sv_control s) in
      shutdown_workers workers (s\<lparr>sv_control := \<lparr>cp_closed = True, cp_workers = []\<rparr>\<rparr>))"

text \<open>
  \<open>reconcile\<close> applies the startup registry until it is cancelled; \<open>cancelled k\<close> tells whether the
  token is found cancelled before the \<open>k\<close>-th registration. \<open>Supervisor::run\<close> reconciles, waits
  for the token and shuts down.
\<close>

fun reconcile :: "(nat \<Rightarrow> source_factory) \<Rightarrow> (nat \<Rightarrow> bool) \<Rightarrow> nat \<Rightarrow> registered_chain list \<Rightarrow> supervisor \<Rightarrow> supervisor" where
  "reconcile factories cancelled k [] s = s"
| "reconcile factories cancelled k (r # rs) s =
     (if cancelled k then s
      else reconcile factories cancelled (Suc k) rs (apply_registration (factories k) r s))"

text \<open>What a running worker does to its status: \<open>poll_status\<close> of \<open>worker::run\<close>.\<close>

definition worker_tick :: "nat \<Rightarrow> int \<Rightarrow> poll_outcome result \<Rightarrow> supervisor \<Rightarrow> supervisor" where
  "worker_tick t now r s =
     (let cell = tk_status (sv_tasks s ! t) in
      (case poll_status now r (sr_cells (sv_statuses s) ! cell) of
         None \<Rightarrow> s
       | Some snapshot \<Rightarrow> s\<lparr>sv_statuses := update_cell cell (\<lambda>_. snapshot) (sv_statuses s)\<rparr>))"

section \<open>Steps and reachable states\<close>

inductive supervisor_step :: "supervisor \<Rightarrow> supervisor \<Rightarrow> bool" where
  step_apply: "supervisor_step s (apply_registration factory registered s)"
| step_retire: "supervisor_step s (retire c s)"
| step_shutdown: "supervisor_step s (shutdown s)"
| step_tick: "t < length (sv_tasks s) \<Longrightarrow> tk_running (sv_tasks s ! t) \<Longrightarrow> supervisor_step s (worker_tick t now r s)"

inductive supervisor_reachable :: "supervisor \<Rightarrow> bool" where
  reach_init: "supervisor_reachable supervisor_init"
| reach_step: "supervisor_reachable s \<Longrightarrow> supervisor_step s s' \<Longrightarrow> supervisor_reachable s'"

section \<open>The invariant\<close>

text \<open>
  The workers map has one entry per chain, whose task runs and owns the chain's registered
  status, which says enabled; every running task is the worker of its chain; a closed control
  plane has no workers.
\<close>

definition worker_entry_ok :: "supervisor \<Rightarrow> chain_id \<Rightarrow> worker_runtime \<Rightarrow> bool" where
  "worker_entry_ok s c rt =
     (wr_task rt < length (sv_tasks s)
      \<and> tk_running (sv_tasks s ! wr_task rt) \<and> \<not> tk_cancelled (sv_tasks s ! wr_task rt)
      \<and> chain_id_of (tk_chain (sv_tasks s ! wr_task rt)) = c
      \<and> map_of (sr_statuses (sv_statuses s)) c = Some (tk_status (sv_tasks s ! wr_task rt))
      \<and> cs_enabled (sr_cells (sv_statuses s) ! tk_status (sv_tasks s ! wr_task rt)))"

definition supervisor_ok :: "supervisor \<Rightarrow> bool" where
  "supervisor_ok s =
     (registry_ok (sv_statuses s)
      \<and> distinct (map fst (cp_workers (sv_control s)))
      \<and> (\<forall>(c, rt) \<in> set (cp_workers (sv_control s)). worker_entry_ok s c rt)
      \<and> (\<forall>t < length (sv_tasks s). tk_running (sv_tasks s ! t) \<longrightarrow>
           (\<exists>(c, rt) \<in> set (cp_workers (sv_control s)). wr_task rt = t))
      \<and> (cp_closed (sv_control s) \<longrightarrow> cp_workers (sv_control s) = []))"

definition worker_of :: "supervisor \<Rightarrow> chain_id \<Rightarrow> worker_runtime option" where
  "worker_of s c = map_of (cp_workers (sv_control s)) c"

lemma supervisor_okD:
  assumes "supervisor_ok s"
  shows "registry_ok (sv_statuses s)" "distinct (map fst (cp_workers (sv_control s)))"
    and "(c, rt) \<in> set (cp_workers (sv_control s)) \<Longrightarrow> worker_entry_ok s c rt"
    and "t < length (sv_tasks s) \<Longrightarrow> tk_running (sv_tasks s ! t) \<Longrightarrow>
      \<exists>c rt. (c, rt) \<in> set (cp_workers (sv_control s)) \<and> wr_task rt = t"
    and "cp_closed (sv_control s) \<Longrightarrow> cp_workers (sv_control s) = []"
  using assms unfolding supervisor_ok_def by blast+

lemma supervisor_okI:
  assumes "registry_ok (sv_statuses s)" "distinct (map fst (cp_workers (sv_control s)))"
    and "\<And>c rt. (c, rt) \<in> set (cp_workers (sv_control s)) \<Longrightarrow> worker_entry_ok s c rt"
    and "\<And>t. t < length (sv_tasks s) \<Longrightarrow> tk_running (sv_tasks s ! t) \<Longrightarrow>
      \<exists>c rt. (c, rt) \<in> set (cp_workers (sv_control s)) \<and> wr_task rt = t"
    and "cp_closed (sv_control s) \<Longrightarrow> cp_workers (sv_control s) = []"
  shows "supervisor_ok s"
  using assms unfolding supervisor_ok_def by blast

lemma distinct_filter_key: "distinct (map fst m) \<Longrightarrow> distinct (map fst (filter (\<lambda>(k, _). k \<noteq> c) m))"
  by (induction m) auto

lemma map_of_filter_neq: "map_of (filter (\<lambda>(k, _). k \<noteq> c) m) c' = (if c' = c then None else map_of m c')"
  by (induction m) auto

lemma worker_task_unique:
  assumes "supervisor_ok s" and "(c, rt) \<in> set (cp_workers (sv_control s))"
    and "(c', rt') \<in> set (cp_workers (sv_control s))" and "wr_task rt = wr_task rt'"
  shows "c = c'"
  using supervisor_okD(3) [OF assms(1,2)] supervisor_okD(3) [OF assms(1,3)] assms(4)
  by (simp add: worker_entry_ok_def)

lemma stop_removed_ok:
  assumes ok: "supervisor_ok s" and rt: "worker_of s c = Some rt"
  shows "supervisor_ok (stop_worker rt (remove_worker c s))"
    and "worker_of (stop_worker rt (remove_worker c s)) c' = (if c' = c then None else worker_of s c')"
    and "cp_closed (sv_control (stop_worker rt (remove_worker c s))) = cp_closed (sv_control s)"
    and "sv_statuses (stop_worker rt (remove_worker c s)) = sv_statuses s"
proof -
  let ?s = "stop_worker rt (remove_worker c s)"
  from rt have mem: "(c, rt) \<in> set (cp_workers (sv_control s))"
    unfolding worker_of_def by (rule map_of_SomeD)
  have workers: "cp_workers (sv_control ?s) = filter (\<lambda>(k, _). k \<noteq> c) (cp_workers (sv_control s))"
    by (simp add: stop_worker_def remove_worker_def)
  have tasks: "sv_tasks ?s = (sv_tasks s)[wr_task rt := (sv_tasks s ! wr_task rt)\<lparr>tk_cancelled := True, tk_running := False\<rparr>]"
    by (simp add: stop_worker_def remove_worker_def)
  show same: "sv_statuses ?s = sv_statuses s" by (simp add: stop_worker_def remove_worker_def)
  show "worker_of ?s c' = (if c' = c then None else worker_of s c')"
    by (simp add: worker_of_def workers map_of_filter_neq)
  show closed: "cp_closed (sv_control ?s) = cp_closed (sv_control s)"
    by (simp add: stop_worker_def remove_worker_def)
  show "supervisor_ok ?s"
  proof (rule supervisor_okI)
    show "registry_ok (sv_statuses ?s)" using supervisor_okD(1) [OF ok] by (simp add: same)
    show "distinct (map fst (cp_workers (sv_control ?s)))"
      unfolding workers by (rule distinct_filter_key [OF supervisor_okD(2) [OF ok]])
    show "worker_entry_ok ?s c2 rt2" if "(c2, rt2) \<in> set (cp_workers (sv_control ?s))" for c2 rt2
    proof -
      from that have m2: "(c2, rt2) \<in> set (cp_workers (sv_control s))" "c2 \<noteq> c" by (auto simp: workers)
      then have "wr_task rt2 \<noteq> wr_task rt" using worker_task_unique [OF ok m2(1) mem] by blast
      with supervisor_okD(3) [OF ok m2(1)] show ?thesis by (simp add: worker_entry_ok_def tasks same)
    qed
    show "\<exists>c2 rt2. (c2, rt2) \<in> set (cp_workers (sv_control ?s)) \<and> wr_task rt2 = t"
      if "t < length (sv_tasks ?s)" "tk_running (sv_tasks ?s ! t)" for t
    proof -
      have "wr_task rt < length (sv_tasks s)"
        using supervisor_okD(3) [OF ok mem] by (simp add: worker_entry_ok_def)
      with that have "t \<noteq> wr_task rt" "t < length (sv_tasks s)" "tk_running (sv_tasks s ! t)"
        by (auto simp: tasks nth_list_update split: if_splits)
      with supervisor_okD(4) [OF ok] obtain c2 rt2 where
        m2: "(c2, rt2) \<in> set (cp_workers (sv_control s))" "wr_task rt2 = t" by blast
      with \<open>t \<noteq> wr_task rt\<close> have "rt2 \<noteq> rt" by auto
      with m2(1) mem supervisor_okD(2) [OF ok] have "c2 \<noteq> c" by (auto dest: eq_key_imp_eq_value)
      with m2 show ?thesis by (auto simp: workers)
    qed
    show "cp_workers (sv_control ?s) = []" if "cp_closed (sv_control ?s)"
      using supervisor_okD(5) [OF ok] that by (simp add: closed workers)
  qed
qed

lemma put_status_facts:
  assumes ok: "supervisor_ok s" and put: "put_status snap s = (cell, s')"
    and none: "worker_of s (cs_chain_id snap) = None"
  shows "supervisor_ok s'" and "sv_control s' = sv_control s" and "sv_tasks s' = sv_tasks s"
    and "map_of (sr_statuses (sv_statuses s')) (cs_chain_id snap) = Some cell"
    and "cell < length (sr_cells (sv_statuses s'))" and "sr_cells (sv_statuses s') ! cell = snap"
    and "status_of (sv_statuses s') c = (if c = cs_chain_id snap then Some snap else status_of (sv_statuses s) c)"
proof -
  note reg = supervisor_okD(1) [OF ok]
  obtain r where new: "new_status snap (sv_statuses s) = (cell, r)" and s': "s' = s\<lparr>sv_statuses := status_replace cell r\<rparr>"
    using put by (auto simp: put_status_def split: prod.splits)
  note fresh = new_status_ok [OF reg new]
  have chain: "cs_chain_id (sr_cells r ! cell) = cs_chain_id snap" using fresh by simp
  have sorted: "sorted_wrt (<) (map fst (sr_statuses r))" using fresh unfolding registry_ok_def by blast
  have statuses: "map_of (sr_statuses (sv_statuses s')) k = (if k = cs_chain_id snap then Some cell else map_of (sr_statuses (sv_statuses s)) k)" for k
    using fresh map_of_map_insert [OF sorted, of "cs_chain_id snap" cell k] by (simp add: s' status_replace_def chain)
  have cells: "sr_cells (sv_statuses s') = sr_cells r" by (simp add: s' status_replace_def)
  show "sv_control s' = sv_control s" "sv_tasks s' = sv_tasks s" by (simp_all add: s')
  show "map_of (sr_statuses (sv_statuses s')) (cs_chain_id snap) = Some cell" by (simp add: statuses)
  show "cell < length (sr_cells (sv_statuses s'))" "sr_cells (sv_statuses s') ! cell = snap"
    using fresh by (simp_all add: cells)
  have old: "sr_cells r ! i = sr_cells (sv_statuses s) ! i" if "map_of (sr_statuses (sv_statuses s)) k = Some i" for k i
  proof -
    have "(k, i) \<in> set (sr_statuses (sv_statuses s))" using that by (rule map_of_SomeD)
    then have "i < length (sr_cells (sv_statuses s))" using reg by (auto simp: registry_ok_def)
    with fresh show ?thesis by blast
  qed
  show "status_of (sv_statuses s') c = (if c = cs_chain_id snap then Some snap else status_of (sv_statuses s) c)"
    using fresh old by (cases "map_of (sr_statuses (sv_statuses s)) c") (auto simp: status_of_def statuses cells)
  have reg': "registry_ok (sv_statuses s')"
    using status_replace_ok [of r cell] fresh by (simp add: s')
  have entry: "worker_entry_ok s' c2 rt2" if m: "(c2, rt2) \<in> set (cp_workers (sv_control s))" for c2 rt2
  proof -
    from none m have "c2 \<noteq> cs_chain_id snap" by (auto simp: worker_of_def map_of_eq_None_iff rev_image_eqI)
    with supervisor_okD(3) [OF ok m] show ?thesis
      using old [of c2] statuses [of c2] cells \<open>sv_tasks s' = sv_tasks s\<close>
      by (simp add: worker_entry_ok_def)
  qed
  show "supervisor_ok s'"
    using supervisor_okD [OF ok] reg' entry by (intro supervisor_okI) (auto simp: s')
qed

lemma start_worker_ok:
  assumes ok: "supervisor_ok s" and live: "\<not> cp_closed (sv_control s)"
    and none: "worker_of s (chain_id_of (rc_chain registered)) = None"
  shows "supervisor_ok (start_worker factory registered s)"
    and "worker_of (start_worker factory registered s) c
      = (if c = chain_id_of (rc_chain registered) then
           (case prepare_source factory registered of
              Inl _ \<Rightarrow> None
            | Inr (source, head) \<Rightarrow> Some \<lparr>wr_task = length (sv_tasks s), wr_rpc_url = rc_rpc_url registered, wr_source = source\<rparr>)
         else worker_of s c)"
    and "\<not> cp_closed (sv_control (start_worker factory registered s))"
proof -
  let ?c = "chain_id_of (rc_chain registered)" and ?s = "start_worker factory registered s"
  have "supervisor_ok ?s \<and> worker_of ?s c
      = (if c = ?c then
           (case prepare_source factory registered of
              Inl _ \<Rightarrow> None
            | Inr (source, head) \<Rightarrow> Some \<lparr>wr_task = length (sv_tasks s), wr_rpc_url = rc_rpc_url registered, wr_source = source\<rparr>)
         else worker_of s c) \<and> \<not> cp_closed (sv_control ?s)"
  proof (cases "prepare_source factory registered")
    case (Inl message)
    obtain cell s1 where put: "put_status (status_degraded ?c message) s = (cell, s1)" by fastforce
    have "worker_of s (cs_chain_id (status_degraded ?c message)) = None" using none by (simp add: status_degraded_def)
    note f = put_status_facts [OF ok put this]
    have "?s = s1" using Inl put by (simp add: start_worker_def Let_def)
    with f none live Inl show ?thesis by (simp add: worker_of_def)
  next
    case (Inr sh)
    obtain source head where sh: "sh = (source, head)" by fastforce
    obtain cell s1 where put: "put_status (status_starting ?c (Some head)) s = (cell, s1)" by fastforce
    have "worker_of s (cs_chain_id (status_starting ?c (Some head))) = None" using none by (simp add: status_starting_def)
    note f = put_status_facts [OF ok put this]
    let ?rt = "\<lparr>wr_task = length (sv_tasks s1), wr_rpc_url = rc_rpc_url registered, wr_source = source\<rparr>"
    let ?task = "\<lparr>tk_chain = rc_chain registered, tk_status = cell, tk_cancelled = False, tk_running = True\<rparr>"
    have s: "?s = insert_worker ?c ?rt (s1\<lparr>sv_tasks := sv_tasks s1 @ [?task]\<rparr>)"
      using Inr sh put by (simp add: start_worker_def Let_def)
    have none1: "?c \<notin> fst ` set (cp_workers (sv_control s1))"
      using none f(2) by (simp add: worker_of_def map_of_eq_None_iff)
    then have flt: "filter (\<lambda>(k, _). k \<noteq> ?c) (cp_workers (sv_control s1)) = cp_workers (sv_control s1)"
      by (auto simp: filter_id_conv rev_image_eqI)
    then have workers: "cp_workers (sv_control ?s) = (?c, ?rt) # cp_workers (sv_control s1)"
      by (simp add: s insert_worker_def)
    have tasks: "sv_tasks ?s = sv_tasks s1 @ [?task]" and reg: "sv_statuses ?s = sv_statuses s1"
      and closed: "cp_closed (sv_control ?s) = cp_closed (sv_control s)"
      by (simp_all add: s insert_worker_def f(2))
    have "supervisor_ok ?s"
    proof (rule supervisor_okI)
      show "registry_ok (sv_statuses ?s)" using supervisor_okD(1) [OF f(1)] by (simp add: reg)
      show "distinct (map fst (cp_workers (sv_control ?s)))"
        using none1 supervisor_okD(2) [OF f(1)] by (simp add: workers)
      show "worker_entry_ok ?s c2 rt2" if "(c2, rt2) \<in> set (cp_workers (sv_control ?s))" for c2 rt2
      proof (cases "(c2, rt2) = (?c, ?rt)")
        case True
        with f(4,6) show ?thesis by (simp add: worker_entry_ok_def tasks reg status_starting_def)
      next
        case False
        with that have "(c2, rt2) \<in> set (cp_workers (sv_control s1))" by (auto simp: workers)
        from supervisor_okD(3) [OF f(1) this] show ?thesis
          by (simp add: worker_entry_ok_def tasks reg nth_append)
      qed
      show "\<exists>c2 rt2. (c2, rt2) \<in> set (cp_workers (sv_control ?s)) \<and> wr_task rt2 = t"
        if "t < length (sv_tasks ?s)" "tk_running (sv_tasks ?s ! t)" for t
      proof (cases "t = length (sv_tasks s1)")
        case True
        then show ?thesis by (auto simp: workers intro!: exI [of _ ?c] exI [of _ ?rt])
      next
        case False
        with that have "t < length (sv_tasks s1)" "tk_running (sv_tasks s1 ! t)" by (auto simp: tasks nth_append)
        from supervisor_okD(4) [OF f(1) this] show ?thesis by (auto simp: workers)
      qed
      show "cp_workers (sv_control ?s) = []" if "cp_closed (sv_control ?s)" using that live by (simp add: closed)
    qed
    moreover have "worker_of ?s c = (if c = ?c then Some ?rt else worker_of s c)"
      using workers f(2) by (simp add: worker_of_def)
    ultimately show ?thesis using Inr sh f(3) live closed by simp
  qed
  then show "supervisor_ok ?s" and "worker_of ?s c
      = (if c = ?c then
           (case prepare_source factory registered of
              Inl _ \<Rightarrow> None
            | Inr (source, head) \<Rightarrow> Some \<lparr>wr_task = length (sv_tasks s), wr_rpc_url = rc_rpc_url registered, wr_source = source\<rparr>)
         else worker_of s c)" and "\<not> cp_closed (sv_control ?s)"
    by blast+
qed

section \<open>Operations keep the invariant\<close>

lemma rotate_worker_ok:
  assumes ok: "supervisor_ok s" and rt: "worker_of s c = Some rt"
  shows "supervisor_ok (insert_worker c (rt\<lparr>wr_rpc_url := url\<rparr>) s)"
proof -
  let ?s = "insert_worker c (rt\<lparr>wr_rpc_url := url\<rparr>) s"
  from rt have mem: "(c, rt) \<in> set (cp_workers (sv_control s))"
    unfolding worker_of_def by (rule map_of_SomeD)
  have workers: "cp_workers (sv_control ?s)
      = (c, rt\<lparr>wr_rpc_url := url\<rparr>) # filter (\<lambda>(k, _). k \<noteq> c) (cp_workers (sv_control s))"
    by (simp add: insert_worker_def)
  have same: "sv_tasks ?s = sv_tasks s" "sv_statuses ?s = sv_statuses s"
    "cp_closed (sv_control ?s) = cp_closed (sv_control s)" by (simp_all add: insert_worker_def)
  show ?thesis
  proof (rule supervisor_okI)
    show "registry_ok (sv_statuses ?s)" using supervisor_okD(1) [OF ok] by (simp add: same)
    show "distinct (map fst (cp_workers (sv_control ?s)))"
      using distinct_filter_key [OF supervisor_okD(2) [OF ok], of c] by (auto simp: workers)
    show "worker_entry_ok ?s c2 rt2" if "(c2, rt2) \<in> set (cp_workers (sv_control ?s))" for c2 rt2
      using that supervisor_okD(3) [OF ok] mem by (auto simp: workers worker_entry_ok_def same)
    show "\<exists>c2 rt2. (c2, rt2) \<in> set (cp_workers (sv_control ?s)) \<and> wr_task rt2 = t"
      if "t < length (sv_tasks ?s)" "tk_running (sv_tasks ?s ! t)" for t
    proof -
      have "t < length (sv_tasks s)" "tk_running (sv_tasks s ! t)" using that by (simp_all only: same)
      from supervisor_okD(4) [OF ok this] obtain c2 rt2 where
        m2: "(c2, rt2) \<in> set (cp_workers (sv_control s))" "wr_task rt2 = t" by blast
      show ?thesis
      proof (cases "c2 = c")
        case True
        with m2 mem supervisor_okD(2) [OF ok] have "rt2 = rt" by (auto dest: eq_key_imp_eq_value)
        with m2 show ?thesis by (auto simp: workers intro!: exI [of _ c] exI [of _ "rt\<lparr>wr_rpc_url := url\<rparr>"])
      next
        case False
        with m2 show ?thesis by (auto simp: workers)
      qed
    qed
    show "cp_workers (sv_control ?s) = []" if "cp_closed (sv_control ?s)"
      using supervisor_okD(5) [OF ok] that mem by (simp add: same)
  qed
qed

lemma apply_registration_ok:
  assumes ok: "supervisor_ok s"
  shows "supervisor_ok (apply_registration factory registered s)"
proof (cases "cp_closed (sv_control s)")
  case True
  with ok show ?thesis by (simp add: apply_registration_def)
next
  case False
  let ?c = "chain_id_of (rc_chain registered)"
  have put: "supervisor_ok (snd (put_status snap s'))"
    if "supervisor_ok s'" "worker_of s' (cs_chain_id snap) = None" for snap s'
  proof -
    obtain cell s2 where p: "put_status snap s' = (cell, s2)" by fastforce
    from put_status_facts(1) [OF that(1) p that(2)] p show ?thesis by simp
  qed
  have key: "cs_chain_id (status_disabled ?c) = ?c" by (simp add: status_disabled_def)
  show ?thesis
  proof (cases "worker_of s ?c")
    case None
    with False put [OF ok, of "status_disabled ?c"] start_worker_ok(1) [OF ok False None, of factory] key
    show ?thesis by (auto simp: apply_registration_def Let_def worker_of_def [symmetric] split: bool.split)
  next
    case (Some rt)
    note stop = stop_removed_ok [OF ok Some]
    have "supervisor_ok (start_worker factory registered (stop_worker rt (remove_worker ?c s)))"
      using stop False by (intro start_worker_ok(1)) auto
    moreover have "supervisor_ok (snd (put_status (status_disabled ?c) (stop_worker rt (remove_worker ?c s))))"
      using stop key by (intro put) auto
    ultimately show ?thesis
      using False Some ok rotate_worker_ok [OF ok Some]
      by (auto simp: apply_registration_def Let_def worker_of_def [symmetric] split: bool.split sum.split)
  qed
qed

lemma retire_ok:
  assumes ok: "supervisor_ok s"
  shows "supervisor_ok (retire c s)" and "worker_of (retire c s) c = None"
    and "status_of (sv_statuses (retire c s)) c = None"
proof -
  let ?s1 = "case worker_of s c of None \<Rightarrow> s | Some rt \<Rightarrow> stop_worker rt (remove_worker c s)"
  have s1: "supervisor_ok ?s1" "worker_of ?s1 c = None"
    using ok stop_removed_ok(1,2) [OF ok] by (auto split: option.split)
  have ret: "retire c s = ?s1\<lparr>sv_statuses := status_remove c (sv_statuses ?s1)\<rparr>"
    by (simp add: retire_def Let_def worker_of_def)
  show "worker_of (retire c s) c = None" using s1(2) by (simp add: ret worker_of_def)
  show "status_of (sv_statuses (retire c s)) c = None" by (simp add: ret status_of_remove)
  show "supervisor_ok (retire c s)"
  proof (rule supervisor_okI)
    show "registry_ok (sv_statuses (retire c s))"
      using status_remove_ok [OF supervisor_okD(1) [OF s1(1)]] by (simp add: ret)
    show "worker_entry_ok (retire c s) c2 rt2" if "(c2, rt2) \<in> set (cp_workers (sv_control (retire c s)))" for c2 rt2
    proof -
      from that have m: "(c2, rt2) \<in> set (cp_workers (sv_control ?s1))" by (simp add: ret)
      with s1(2) have "c2 \<noteq> c" by (auto simp: worker_of_def map_of_eq_None_iff rev_image_eqI)
      with supervisor_okD(3) [OF s1(1) m] show ?thesis
        by (simp add: worker_entry_ok_def ret status_remove_def map_of_filter_neq)
    qed
  qed (use supervisor_okD(2,4,5) [OF s1(1)] in \<open>auto simp: ret\<close>)
qed

lemma shutdown_workers_tasks:
  "sv_control (shutdown_workers ws s) = sv_control s \<and> sv_statuses (shutdown_workers ws s) = sv_statuses s
   \<and> length (sv_tasks (shutdown_workers ws s)) = length (sv_tasks s)
   \<and> (\<forall>t < length (sv_tasks s). tk_running (sv_tasks (shutdown_workers ws s) ! t) \<longrightarrow>
        tk_running (sv_tasks s ! t) \<and> t \<notin> wr_task ` snd ` set ws)"
proof (induction ws arbitrary: s)
  case (Cons w ws)
  obtain c rt where w: "w = (c, rt)" by fastforce
  have "shutdown_workers (w # ws) s = shutdown_workers ws (stop_worker rt s)"
    by (simp add: shutdown_workers_def w)
  moreover have "tk_running (sv_tasks (stop_worker rt s) ! t) \<longrightarrow> tk_running (sv_tasks s ! t) \<and> t \<noteq> wr_task rt"
    if "t < length (sv_tasks s)" for t
    using that by (cases "t = wr_task rt") (simp_all add: stop_worker_def)
  moreover have "sv_control (stop_worker rt s) = sv_control s" "sv_statuses (stop_worker rt s) = sv_statuses s"
    "length (sv_tasks (stop_worker rt s)) = length (sv_tasks s)" by (simp_all add: stop_worker_def)
  ultimately show ?case using Cons.IH [of "stop_worker rt s"] w by auto
qed (simp add: shutdown_workers_def)

lemma shutdown_ok:
  assumes ok: "supervisor_ok s"
  shows "supervisor_ok (shutdown s)" and "cp_closed (sv_control (shutdown s))"
    and "t < length (sv_tasks (shutdown s)) \<Longrightarrow> \<not> tk_running (sv_tasks (shutdown s) ! t)"
proof -
  let ?ws = "cp_workers (sv_control s)"
  let ?s0 = "s\<lparr>sv_control := \<lparr>cp_closed = True, cp_workers = []\<rparr>\<rparr>"
  note f = shutdown_workers_tasks [of ?ws ?s0]
  have sh: "shutdown s = shutdown_workers ?ws ?s0" by (simp add: shutdown_def Let_def)
  have stopped: "\<not> tk_running (sv_tasks (shutdown s) ! t)" if "t < length (sv_tasks (shutdown s))" for t
  proof
    assume run: "tk_running (sv_tasks (shutdown s) ! t)"
    with f that have "tk_running (sv_tasks s ! t)" "t < length (sv_tasks s)" "t \<notin> wr_task ` snd ` set ?ws"
      by (auto simp: sh)
    with supervisor_okD(4) [OF ok] show False by force
  qed
  then show "t < length (sv_tasks (shutdown s)) \<Longrightarrow> \<not> tk_running (sv_tasks (shutdown s) ! t)" .
  show "cp_closed (sv_control (shutdown s))" using f by (simp add: sh)
  show "supervisor_ok (shutdown s)"
    using f supervisor_okD(1) [OF ok] stopped by (intro supervisor_okI) (auto simp: sh)
qed

lemma poll_status_keeps:
  "poll_status now r prev = Some next \<Longrightarrow>
     cs_chain_id next = cs_chain_id prev \<and> cs_enabled next = cs_enabled prev"
  by (auto simp: poll_status_def record_success_def record_error_def Let_def split: sum.splits poll_outcome.splits)

lemma worker_tick_ok:
  assumes ok: "supervisor_ok s"
  shows "supervisor_ok (worker_tick t now r s)" and "sv_control (worker_tick t now r s) = sv_control s"
    and "sv_tasks (worker_tick t now r s) = sv_tasks s"
proof -
  let ?cell = "tk_status (sv_tasks s ! t)" and ?s = "worker_tick t now r s"
  have "supervisor_ok ?s \<and> sv_control ?s = sv_control s \<and> sv_tasks ?s = sv_tasks s"
  proof (cases "poll_status now r (sr_cells (sv_statuses s) ! ?cell)")
    case None
    with ok show ?thesis by (simp add: worker_tick_def Let_def)
  next
    case (Some snap)
    note keeps = poll_status_keeps [OF Some]
    have s': "?s = s\<lparr>sv_statuses := update_cell ?cell (\<lambda>_. snap) (sv_statuses s)\<rparr>"
      using Some by (simp add: worker_tick_def Let_def)
    have enabled: "cs_enabled (sr_cells (update_cell ?cell (\<lambda>_. snap) (sv_statuses s)) ! i)
        = cs_enabled (sr_cells (sv_statuses s) ! i)" if "i < length (sr_cells (sv_statuses s))" for i
      using that keeps by (cases "i = ?cell") (simp_all add: update_cell_def)
    have "worker_entry_ok ?s c rt" if m: "(c, rt) \<in> set (cp_workers (sv_control s))" for c rt
    proof -
      note e = supervisor_okD(3) [OF ok m]
      then have "(c, tk_status (sv_tasks s ! wr_task rt)) \<in> set (sr_statuses (sv_statuses s))"
        by (auto simp: worker_entry_ok_def dest: map_of_SomeD)
      with supervisor_okD(1) [OF ok] have "tk_status (sv_tasks s ! wr_task rt) < length (sr_cells (sv_statuses s))"
        by (auto simp: registry_ok_def)
      with e enabled show ?thesis by (simp add: worker_entry_ok_def s' update_cell_def)
    qed
    moreover have "registry_ok (update_cell ?cell (\<lambda>_. snap) (sv_statuses s))"
      using keeps by (intro update_cell_ok [OF supervisor_okD(1) [OF ok]]) simp
    ultimately have "supervisor_ok ?s"
      using supervisor_okD(2,4,5) [OF ok] by (intro supervisor_okI) (auto simp: s')
    then show ?thesis by (simp add: s')
  qed
  then show "supervisor_ok ?s" "sv_control ?s = sv_control s" "sv_tasks ?s = sv_tasks s" by blast+
qed

inductive_cases supervisor_stepE: "supervisor_step s s'"

lemma supervisor_step_ok: "supervisor_step s s' \<Longrightarrow> supervisor_ok s \<Longrightarrow> supervisor_ok s'"
  by (erule supervisor_stepE)
    (auto simp: apply_registration_ok retire_ok(1) shutdown_ok(1) worker_tick_ok(1))

lemma supervisor_init_ok: "supervisor_ok supervisor_init"
  by (simp add: supervisor_ok_def supervisor_init_def empty_registry_def registry_ok_def)

lemma supervisor_reachable_ok: "supervisor_reachable s \<Longrightarrow> supervisor_ok s"
  by (induction rule: supervisor_reachable.induct) (auto simp: supervisor_init_ok supervisor_step_ok)

section \<open>What one registration achieves\<close>

lemma apply_registration_workers:
  assumes ok: "supervisor_ok s" and live: "\<not> cp_closed (sv_control s)"
  shows "c \<noteq> chain_id_of (rc_chain registered) \<Longrightarrow>
      worker_of (apply_registration factory registered s) c = worker_of s c"
    and "\<not> rc_enabled registered \<Longrightarrow>
      worker_of (apply_registration factory registered s) (chain_id_of (rc_chain registered)) = None
      \<and> status_of (sv_statuses (apply_registration factory registered s)) (chain_id_of (rc_chain registered))
          = Some (status_disabled (chain_id_of (rc_chain registered)))"
    and "rc_enabled registered \<Longrightarrow>
      (case worker_of (apply_registration factory registered s) (chain_id_of (rc_chain registered)) of
         None \<Rightarrow> \<exists>message. prepare_source factory registered = Inl message
       | Some rt \<Rightarrow> wr_rpc_url rt = rc_rpc_url registered)"
proof -
  let ?c = "chain_id_of (rc_chain registered)" and ?s = "apply_registration factory registered s"
  have put: "worker_of (snd (put_status (status_disabled ?c) s')) c2 = worker_of s' c2
      \<and> status_of (sv_statuses (snd (put_status (status_disabled ?c) s'))) ?c = Some (status_disabled ?c)"
    if "supervisor_ok s'" "worker_of s' ?c = None" for s' c2
  proof -
    have key: "cs_chain_id (status_disabled ?c) = ?c" by (simp add: status_disabled_def)
    obtain cell s2 where p: "put_status (status_disabled ?c) s' = (cell, s2)" by fastforce
    from put_status_facts [OF that(1) p] that(2) key p show ?thesis by (simp add: worker_of_def)
  qed
  have start: "worker_of (start_worker factory registered s') c2
      = (if c2 = ?c then
           (case prepare_source factory registered of
              Inl _ \<Rightarrow> None
            | Inr (source, head) \<Rightarrow> Some \<lparr>wr_task = length (sv_tasks s'), wr_rpc_url = rc_rpc_url registered, wr_source = source\<rparr>)
         else worker_of s' c2)"
    if "supervisor_ok s'" "\<not> cp_closed (sv_control s')" "worker_of s' ?c = None" for s' c2
    by (rule start_worker_ok(2) [OF that])
  have all: "(c \<noteq> ?c \<longrightarrow> worker_of ?s c = worker_of s c)
      \<and> (\<not> rc_enabled registered \<longrightarrow> worker_of ?s ?c = None
           \<and> status_of (sv_statuses ?s) ?c = Some (status_disabled ?c))
      \<and> (rc_enabled registered \<longrightarrow>
           (case worker_of ?s ?c of None \<Rightarrow> \<exists>message. prepare_source factory registered = Inl message
            | Some rt \<Rightarrow> wr_rpc_url rt = rc_rpc_url registered))"
  proof (cases "worker_of s ?c")
    case None
    then have "?s = (if rc_enabled registered then start_worker factory registered s
        else snd (put_status (status_disabled ?c) s))"
      using live by (simp add: apply_registration_def Let_def worker_of_def)
    with put [OF ok None] start [OF ok live None] None show ?thesis
      by (auto split: sum.split prod.split)
  next
    case (Some rt)
    let ?stop = "stop_worker rt (remove_worker ?c s)"
    note stop = stop_removed_ok [OF ok Some]
    have eq: "?s = (if rc_enabled registered then
          (if wr_rpc_url rt = rc_rpc_url registered then s
           else (case bs_set_rpc_url (wr_source rt) (rc_rpc_url registered) of
                   Inr _ \<Rightarrow> insert_worker ?c (rt\<lparr>wr_rpc_url := rc_rpc_url registered\<rparr>) s
                 | Inl _ \<Rightarrow> start_worker factory registered ?stop))
        else snd (put_status (status_disabled ?c) ?stop))"
      using live Some by (simp add: apply_registration_def Let_def worker_of_def)
    have none: "worker_of ?stop ?c = None" using stop(2) by simp
    have live': "\<not> cp_closed (sv_control ?stop)" using stop(3) live by simp
    have rot: "worker_of (insert_worker ?c rt' s) c2 = (if c2 = ?c then Some rt' else worker_of s c2)" for rt' c2
      by (simp add: insert_worker_def worker_of_def map_of_filter_neq)
    show ?thesis
      unfolding eq using put [OF stop(1) none] start [OF stop(1) live' none] stop(2) Some rot
      by (auto split: sum.split prod.split)
  qed
  then show "c \<noteq> ?c \<Longrightarrow> worker_of ?s c = worker_of s c"
    and "\<not> rc_enabled registered \<Longrightarrow> worker_of ?s ?c = None \<and> status_of (sv_statuses ?s) ?c = Some (status_disabled ?c)"
    and "rc_enabled registered \<Longrightarrow> (case worker_of ?s ?c of
         None \<Rightarrow> \<exists>message. prepare_source factory registered = Inl message
       | Some rt \<Rightarrow> wr_rpc_url rt = rc_rpc_url registered)"
    by blast+
qed

end
