(* ===== verification/Services.thy ===== *)
theory Services
  imports Supervisor
begin

text \<open>
  \<open>parseon-core/src/commands.rs\<close>, \<open>views.rs\<close> and \<open>services.rs\<close>: the use cases of the HTTP API over
  the storage repositories, the source factory and the supervisor. A repository is the record of
  its methods over a storage state; the chain service threads that state and the supervisor's.
\<close>

section \<open>Commands\<close>

record create_chain_command =
  cc_rpc_url :: url
  cc_enabled :: bool

record update_chain_command =
  uc_rpc_url :: "url option"
  uc_enabled :: "bool option"

record create_monitor_command =
  cm_chain_id :: chain_id
  cm_address :: address
  cm_signature :: string
  cm_start_block :: "block_number option"
  cm_end_block :: "block_number option"
  cm_filter :: "filter_expression option"

record preview_filter_command =
  pv_signature :: string
  pv_filter :: filter_expression
  pv_sample :: filter_sample

text \<open>\<open>value.clamp(1, 200) as u16\<close>.\<close>

datatype page_limit = PageLimit (page_limit_get: "16 word")

definition page_limit_new :: "u64 \<Rightarrow> page_limit" where
  "page_limit_new v = PageLimit (ucast (if v < 1 then 1 else if 200 < v then 200 else v))"

record result_query =
  rq_limit :: page_limit
  rq_offset :: u64

section \<open>Views\<close>

record chain_view =
  cv_chain_id :: chain_id
  cv_enabled :: bool
  cv_created_at :: int
  cv_updated_at :: int

definition chain_view_of :: "chain_record \<Rightarrow> chain_view" where
  "chain_view_of r =
     \<lparr>cv_chain_id = chain_id_of (cr_chain r), cv_enabled = cr_enabled r,
      cv_created_at = cr_created_at r, cv_updated_at = cr_updated_at r\<rparr>"

record monitor_view =
  mv_id :: monitor_id
  mv_chain_id :: chain_id
  mv_address :: address
  mv_kind :: monitor_kind
  mv_selector :: "selector option"
  mv_topic0 :: "b256 option"
  mv_param_schema :: "abi_param list"
  mv_start_block :: block_number
  mv_end_block :: "block_number option"
  mv_cursor :: "block_number option"
  mv_completed :: bool
  mv_enabled :: bool
  mv_filter :: "filter_expression option"
  mv_created_at :: int
  mv_updated_at :: int

definition monitor_view_of :: "monitor_record \<Rightarrow> monitor_view" where
  "monitor_view_of r =
     (let (addr, kind, sel, topic, schema) =
            (case mr_target r of
               CallT t \<Rightarrow> (ct_address t, KindCall, Some (ct_selector t), None, ct_inputs t)
             | EventT t \<Rightarrow> (et_address t, KindEvent, None, Some (et_topic0 t), et_params t)) in
      \<lparr>mv_id = mr_id r, mv_chain_id = chain_id_of (mr_chain r), mv_address = addr, mv_kind = kind,
       mv_selector = sel, mv_topic0 = topic, mv_param_schema = schema,
       mv_start_block = mr_start_block r, mv_end_block = mr_end_block r, mv_cursor = mr_cursor r,
       mv_completed = mr_completed r, mv_enabled = mr_enabled r,
       mv_filter = map_option fd_expression (mr_filter r),
       mv_created_at = mr_created_at r, mv_updated_at = mr_updated_at r\<rparr>)"

datatype monitor_result_view =
    ViewCall b256 block_number json
  | ViewEvent b256 u64 block_number json

fun result_view_of :: "result_record \<Rightarrow> monitor_result_view" where
  "result_view_of (RecordCall h b ps) = ViewCall h b ps"
| "result_view_of (RecordEvent h i b ps) = ViewEvent h i b ps"

section \<open>Repositories\<close>

record 's repository =
  rp_list_registered_chains :: "'s \<Rightarrow> registered_chain list result"
  rp_create_chain :: "'s \<Rightarrow> new_chain \<Rightarrow> chain_record result \<times> 's"
  rp_list_chains :: "'s \<Rightarrow> chain_record list result"
  rp_get_chain :: "'s \<Rightarrow> chain \<Rightarrow> chain_record result"
  rp_update_chain :: "'s \<Rightarrow> chain \<Rightarrow> chain_update \<Rightarrow> chain_record result \<times> 's"
  rp_delete_chain :: "'s \<Rightarrow> chain \<Rightarrow> unit result \<times> 's"
  rp_count_monitors :: "'s \<Rightarrow> nat result"
  rp_create_monitor :: "'s \<Rightarrow> new_monitor \<Rightarrow> monitor_record result \<times> 's"
  rp_list_monitors :: "'s \<Rightarrow> chain option \<Rightarrow> monitor_record list result"
  rp_get_monitor :: "'s \<Rightarrow> monitor_id \<Rightarrow> monitor_record result"
  rp_set_monitor_enabled :: "'s \<Rightarrow> monitor_id \<Rightarrow> bool \<Rightarrow> monitor_record result \<times> 's"
  rp_delete_monitor :: "'s \<Rightarrow> monitor_id \<Rightarrow> unit result \<times> 's"
  rp_query_results :: "'s \<Rightarrow> monitor_record \<Rightarrow> result_query \<Rightarrow> result_record list result"

definition invalid :: "string \<Rightarrow> error" where
  "invalid message = [InvalidCommand message]"

section \<open>The chain service\<close>

text \<open>The storage and the supervisor a service acts on.\<close>

record 's app =
  ap_storage :: 's
  ap_supervisor :: supervisor

definition validate_source :: "source_factory \<Rightarrow> url \<Rightarrow> chain option \<Rightarrow> chain result" where
  "validate_source sources rpc_url expected =
     res_bind (map_err (\<lambda>_. invalid ''RPC endpoint configuration is invalid'') (sources rpc_url)) (\<lambda>source.
     res_bind (map_err (\<lambda>_. invalid ''RPC endpoint validation failed'') (probe_source source)) (\<lambda>probe.
     let ch = Chain (ss_chain_id probe) in
     if (case expected of None \<Rightarrow> False | Some e \<Rightarrow> e \<noteq> ch)
     then Inl (invalid ''RPC endpoint returned a different chain ID'')
     else Inr ch))"

definition registered_of :: "chain_record \<Rightarrow> registered_chain" where
  "registered_of r = \<lparr>rc_chain = cr_chain r, rc_rpc_url = cr_rpc_url r, rc_enabled = cr_enabled r\<rparr>"

text \<open>
  The tail every persisted change shares: on success the registration is applied to the
  supervisor, whose own factory is \<open>factory\<close>.
\<close>

definition apply_persisted ::
  "source_factory \<Rightarrow> string \<Rightarrow> chain_record result \<times> 's \<Rightarrow> 's app \<Rightarrow> chain_view result \<times> 's app" where
  "apply_persisted factory message rs app =
     (case rs of
        (Inl e, s) \<Rightarrow> (context_error message (Inl e), app\<lparr>ap_storage := s\<rparr>)
      | (Inr r, s) \<Rightarrow>
          (Inr (chain_view_of r),
           app\<lparr>ap_storage := s, ap_supervisor := apply_registration factory (registered_of r) (ap_supervisor app)\<rparr>))"

definition chain_create ::
  "'s repository \<Rightarrow> source_factory \<Rightarrow> source_factory \<Rightarrow> create_chain_command \<Rightarrow> 's app \<Rightarrow> chain_view result \<times> 's app" where
  "chain_create R sources factory cmd app =
     (case validate_source sources (cc_rpc_url cmd) None of
        Inl e \<Rightarrow> (Inl e, app)
      | Inr ch \<Rightarrow>
          apply_persisted factory ''create chain''
            (rp_create_chain R (ap_storage app)
               \<lparr>nc_chain = ch, nc_rpc_url = cc_rpc_url cmd, nc_enabled = cc_enabled cmd\<rparr>) app)"

definition chain_list :: "'s repository \<Rightarrow> 's app \<Rightarrow> chain_view list result" where
  "chain_list R app =
     res_bind (context_error ''list chains'' (rp_list_chains R (ap_storage app))) (\<lambda>rs. Inr (map chain_view_of rs))"

definition chain_get :: "'s repository \<Rightarrow> chain_id \<Rightarrow> 's app \<Rightarrow> chain_view result" where
  "chain_get R c app =
     res_bind (context_error ''get chain'' (rp_get_chain R (ap_storage app) (Chain c))) (\<lambda>r. Inr (chain_view_of r))"

definition chain_update_service ::
  "'s repository \<Rightarrow> source_factory \<Rightarrow> source_factory \<Rightarrow> chain_id \<Rightarrow> update_chain_command \<Rightarrow> 's app
     \<Rightarrow> chain_view result \<times> 's app" where
  "chain_update_service R sources factory c cmd app =
     (if uc_rpc_url cmd = None \<and> uc_enabled cmd = None then
        (Inl (invalid ''at least one of rpc_url or enabled is required''), app)
      else
        (let ch = Chain c;
             checked =
               res_bind (context_error ''get chain before update'' (rp_get_chain R (ap_storage app) ch)) (\<lambda>_.
               res_bind (traverse_option (\<lambda>u. validate_source sources u (Some ch)) (uc_rpc_url cmd)) (\<lambda>_.
               context_error ''get chain before update'' (rp_get_chain R (ap_storage app) ch))) in
         (case checked of
            Inl e \<Rightarrow> (Inl e, app)
          | Inr _ \<Rightarrow>
              apply_persisted factory ''update chain''
                (rp_update_chain R (ap_storage app) ch
                   \<lparr>cu_rpc_url = uc_rpc_url cmd, cu_enabled = uc_enabled cmd\<rparr>) app)))"

definition chain_delete :: "'s repository \<Rightarrow> chain_id \<Rightarrow> 's app \<Rightarrow> unit result \<times> 's app" where
  "chain_delete R c app =
     (let sup = retire c (ap_supervisor app);
          (r, s) = rp_delete_chain R (ap_storage app) (Chain c) in
      (context_error ''delete chain'' r, app\<lparr>ap_storage := s, ap_supervisor := sup\<rparr>))"

section \<open>The monitor service\<close>

definition validate_range :: "u64 \<Rightarrow> u64 option \<Rightarrow> unit result" where
  "validate_range s e =
     (if (case e of None \<Rightarrow> False | Some fin \<Rightarrow> fin < s)
      then Inl (invalid ''end_block must be greater than or equal to start_block'')
      else Inr ())"

definition target_of_spec :: "address \<Rightarrow> target_spec \<Rightarrow> target" where
  "target_of_spec addr spec =
     (case spec of
        SpecCall m \<Rightarrow> CallT \<lparr>ct_address = addr, ct_selector = ms_selector m, ct_inputs = ms_params m\<rparr>
      | SpecEvent e \<Rightarrow> EventT \<lparr>et_address = addr, et_topic0 = es_topic0 e, et_params = es_params e\<rparr>)"

definition monitor_start_block ::
  "source_factory \<Rightarrow> chain_record \<Rightarrow> block_number option \<Rightarrow> block_number result" where
  "monitor_start_block sources registered start =
     (case start of
        Some b \<Rightarrow> Inr b
      | None \<Rightarrow>
          res_bind (context_error ''connect monitor chain block source'' (sources (cr_rpc_url registered))) (\<lambda>source.
          context_error ''fetch monitor chain finalized head'' (bs_finalized_head source)))"

text \<open>Everything \<open>create\<close> checks before it stores the monitor.\<close>

definition new_monitor_of ::
  "externs \<Rightarrow> 's repository \<Rightarrow> source_factory \<Rightarrow> create_monitor_command \<Rightarrow> 's \<Rightarrow> new_monitor result" where
  "new_monitor_of X R sources cmd s =
     (let ch = Chain (cm_chain_id cmd) in
      res_bind (context_error ''get monitor chain'' (rp_get_chain R s ch)) (\<lambda>registered.
      res_bind (monitor_start_block sources registered (cm_start_block cmd)) (\<lambda>start_block.
      res_bind (validate_range start_block (cm_end_block cmd)) (\<lambda>_.
      res_bind (map_err (\<lambda>e. invalid (error_text e)) (parse_target_signature X (cm_signature cmd))) (\<lambda>spec.
      let t = target_of_spec (cm_address cmd) spec in
      res_bind (map_err (\<lambda>e. invalid (error_text e))
                  (traverse_option (\<lambda>expression. res_bind (prepare X expression t) (\<lambda>v. Inr (fst v)))
                     (cm_filter cmd))) (\<lambda>flt.
      Inr \<lparr>nm_chain = ch, nm_target = t, nm_start_block = start_block,
           nm_end_block = cm_end_block cmd, nm_filter = flt\<rparr>))))))"

definition monitor_create ::
  "externs \<Rightarrow> 's repository \<Rightarrow> source_factory \<Rightarrow> create_monitor_command \<Rightarrow> 's \<Rightarrow> monitor_view result \<times> 's" where
  "monitor_create X R sources cmd s =
     (case new_monitor_of X R sources cmd s of
        Inl e \<Rightarrow> (Inl e, s)
      | Inr nm \<Rightarrow>
          (let (r, s1) = rp_create_monitor R s nm in
           (res_bind (context_error ''create monitor'' r) (\<lambda>m. Inr (monitor_view_of m)), s1)))"

definition monitor_count :: "'s repository \<Rightarrow> 's \<Rightarrow> nat result" where
  "monitor_count R s = context_error ''count monitors'' (rp_count_monitors R s)"

definition monitor_list :: "'s repository \<Rightarrow> chain_id option \<Rightarrow> 's \<Rightarrow> monitor_view list result" where
  "monitor_list R c s =
     res_bind (context_error ''list monitors'' (rp_list_monitors R s (map_option Chain c))) (\<lambda>ms.
     Inr (map monitor_view_of ms))"

definition monitor_get :: "'s repository \<Rightarrow> monitor_id \<Rightarrow> 's \<Rightarrow> monitor_view result" where
  "monitor_get R i s =
     res_bind (context_error ''get monitor'' (rp_get_monitor R s i)) (\<lambda>m. Inr (monitor_view_of m))"

definition monitor_set_enabled :: "'s repository \<Rightarrow> monitor_id \<Rightarrow> bool \<Rightarrow> 's \<Rightarrow> monitor_view result \<times> 's" where
  "monitor_set_enabled R i enabled s =
     (let (r, s1) = rp_set_monitor_enabled R s i enabled in
      (res_bind (context_error ''set monitor enabled state'' r) (\<lambda>m. Inr (monitor_view_of m)), s1))"

definition monitor_delete :: "'s repository \<Rightarrow> monitor_id \<Rightarrow> 's \<Rightarrow> unit result \<times> 's" where
  "monitor_delete R i s =
     (let (r, s1) = rp_delete_monitor R s i in (context_error ''delete monitor'' r, s1))"

definition monitor_results :: "'s repository \<Rightarrow> monitor_id \<Rightarrow> result_query \<Rightarrow> 's \<Rightarrow> monitor_result_view list result" where
  "monitor_results R i q s =
     res_bind (context_error ''get monitor for result query'' (rp_get_monitor R s i)) (\<lambda>m.
     res_bind (context_error ''query monitor results'' (rp_query_results R s m q)) (\<lambda>rs.
     Inr (map result_view_of rs)))"

section \<open>Filter preview\<close>

definition preview_filter :: "externs \<Rightarrow> preview_filter_command \<Rightarrow> filter_preview result" where
  "preview_filter X cmd =
     (let addr = (case pv_sample cmd of SampleCall _ _ _ to _ \<Rightarrow> to | SampleEvent _ _ emitter _ _ \<Rightarrow> emitter) in
      res_bind (map_err (\<lambda>e. invalid (error_text e)) (parse_target_signature X (pv_signature cmd))) (\<lambda>spec.
      map_err (\<lambda>e. invalid (error_text e)) (preview X (target_of_spec addr spec) (pv_filter cmd) (pv_sample cmd))))"

section \<open>What is stored is well formed\<close>

lemma unat_ucast_16: "unat x \<le> 200 \<Longrightarrow> unat (ucast (x :: u64) :: 16 word) = unat x"
  by (simp add: unsigned_ucast_eq unsigned_take_bit_eq take_bit_nat_eq_self)

lemma page_limit_exact:
  "1 \<le> v \<Longrightarrow> v \<le> 200 \<Longrightarrow> unat (page_limit_get (page_limit_new v)) = unat v"
  by (auto simp: page_limit_new_def word_le_nat_alt word_less_nat_alt intro: unat_ucast_16)

lemma page_limit_bounds: "1 \<le> unat (page_limit_get (page_limit_new v)) \<and> unat (page_limit_get (page_limit_new v)) \<le> 200"
proof (cases "1 \<le> v \<and> v \<le> 200")
  case True
  then show ?thesis using page_limit_exact [of v] by (simp add: word_le_nat_alt)
next
  case False
  then show ?thesis by (auto simp: page_limit_new_def not_le not_less)
qed

lemma validate_range_Inr [res_simps]:
  "validate_range s e = Inr u \<longleftrightarrow> (case e of None \<Rightarrow> True | Some fin \<Rightarrow> s \<le> fin)"
  by (auto simp: validate_range_def not_less split: option.splits)

lemma target_of_spec_ok: "target_spec_ok spec \<Longrightarrow> schema_ok (target_params (target_of_spec addr spec))"
  by (auto simp: target_spec_ok_def target_of_spec_def target_params_def split: target_spec.splits)

lemma parse_target_signature_ok: "parse_target_signature X s = Inr spec \<Longrightarrow> target_spec_ok spec"
  by (cases "abi_item_parse X s"; cases "projr (abi_item_parse X s)")
    (auto simp: parse_target_signature_def res_bind_Inr map_err_Inr method_spec_of_ok event_spec_ok)

lemma prepare_facts:
  assumes "prepare X e t = Inr (d, f)"
  shows "\<exists>v. compile_expression X e t ''/filter'' = Inr v \<and> d = \<lparr>fd_version = FILTER_VERSION, fd_expression = fst v\<rparr>
    \<and> f = FilterExpr (snd v) \<and> validate_limits X e = Inr ()"
  using assms by (auto simp: prepare_def res_simps)

text \<open>A prepared filter loads again, as the same compiled filter.\<close>

lemma prepare_compile_definition:
  assumes laws: "value_text_laws X" and prep: "prepare X e t = Inr (d, f)"
    and fits: "json_to_vec X (expression_json (fd_expression d)) = Inr bytes" "length bytes \<le> MAX_BYTES"
  shows "compile_definition X d t = Inr f"
proof -
  from prepare_facts [OF prep] obtain v where v: "compile_expression X e t ''/filter'' = Inr v"
    "d = \<lparr>fd_version = FILTER_VERSION, fd_expression = fst v\<rparr>" "f = FilterExpr (snd v)"
    "validate_limits X e = Inr ()" by blast
  from compile_expression_shape(1) [OF v(1)] v(4) fits v(2)
  have "validate_limits X (fst v) = Inr ()" by (auto simp: validate_limits_Inr)
  with compile_expression_canonical(1) [OF v(1) laws] v(2,3) show ?thesis
    by (simp add: compile_definition_def)
qed

lemma new_monitor_of_ok:
  assumes "new_monitor_of X R sources cmd s = Inr nm"
  shows "nm_chain nm = Chain (cm_chain_id cmd)"
    and "case nm_end_block nm of None \<Rightarrow> True | Some e \<Rightarrow> nm_start_block nm \<le> e"
    and "schema_ok (target_params (nm_target nm))"
    and "nm_filter nm = None \<longleftrightarrow> cm_filter cmd = None"
    and "cm_filter cmd = Some e \<Longrightarrow> \<exists>d f. nm_filter nm = Some d \<and> prepare X e (nm_target nm) = Inr (d, f)"
proof -
  from assms obtain spec start flt where nm: "validate_range start (cm_end_block cmd) = Inr ()"
    "parse_target_signature X (cm_signature cmd) = Inr spec"
    "traverse_option (\<lambda>expression. res_bind (prepare X expression (target_of_spec (cm_address cmd) spec)) (\<lambda>v. Inr (fst v)))
       (cm_filter cmd) = Inr flt"
    "nm = \<lparr>nm_chain = Chain (cm_chain_id cmd), nm_target = target_of_spec (cm_address cmd) spec,
           nm_start_block = start, nm_end_block = cm_end_block cmd, nm_filter = flt\<rparr>"
    by (auto simp: new_monitor_of_def Let_def res_bind_Inr map_err_Inr)
  show "nm_chain nm = Chain (cm_chain_id cmd)" by (simp add: nm(4))
  show "case nm_end_block nm of None \<Rightarrow> True | Some e \<Rightarrow> nm_start_block nm \<le> e"
    using nm(1) by (simp add: nm(4) validate_range_Inr split: option.splits)
  show "schema_ok (target_params (nm_target nm))"
    using target_of_spec_ok [OF parse_target_signature_ok [OF nm(2)]] by (simp add: nm(4))
  show "nm_filter nm = None \<longleftrightarrow> cm_filter cmd = None"
    using nm(3) by (auto simp: nm(4) res_simps)
  show "cm_filter cmd = Some e \<Longrightarrow> \<exists>d f. nm_filter nm = Some d \<and> prepare X e (nm_target nm) = Inr (d, f)"
    using nm(3) by (auto simp: nm(4) res_simps)
qed

section \<open>A preview evaluates what it compiled\<close>

lemma preview_matches_holds:
  assumes "preview X t e sample = Inr p"
  shows "\<exists>v ctx. compile_expression X e t ''/filter'' = Inr v \<and> fp_filter p = fst v
    \<and> context_conforms t ctx \<and> fp_matches p = holds X t ctx e"
proof -
  from assms obtain d f m where prep: "prepare X e t = Inr (d, f)" and p: "p = \<lparr>fp_filter = fd_expression d, fp_matches = m\<rparr>"
    and m: "(case (t, sample) of
          (CallT c, SampleCall block_number tx_hash from to params) \<Rightarrow>
            res_bind (decode_sample_params X (ct_inputs c) False params) (\<lambda>values.
            filter_evaluate f (CtxCall block_number tx_hash from to values))
        | (EventT ev, SampleEvent block_number tx_hash emitter log_index params) \<Rightarrow>
            res_bind (decode_sample_params X (et_params ev) True params) (\<lambda>values.
            filter_evaluate f (CtxEvent block_number tx_hash emitter log_index values))
        | _ \<Rightarrow> Inl (filter_error ''/sample/kind'' ''sample kind does not match signature'')) = Inr m"
    by (auto simp: preview_def res_bind_Inr)
  from prepare_facts [OF prep] obtain v where v: "compile_expression X e t ''/filter'' = Inr v"
    "d = \<lparr>fd_version = FILTER_VERSION, fd_expression = fst v\<rparr>" "f = FilterExpr (snd v)" by blast
  have "\<exists>ctx. context_conforms t ctx \<and> filter_evaluate f ctx = Inr m"
  proof (cases t)
    case (CallT c)
    with m obtain b h fr to ps vs where "sample = SampleCall b h fr to ps"
      "decode_sample_params X (ct_inputs c) False ps = Inr vs" "filter_evaluate f (CtxCall b h fr to vs) = Inr m"
      by (cases sample) (auto simp: res_bind_Inr)
    with CallT decode_sample_params_conform show ?thesis
      by (intro exI [of _ "CtxCall b h fr to vs"]) (auto simp: context_conforms_def)
  next
    case (EventT ev)
    with m obtain b h em i ps vs where "sample = SampleEvent b h em i ps"
      "decode_sample_params X (et_params ev) True ps = Inr vs" "filter_evaluate f (CtxEvent b h em i vs) = Inr m"
      by (cases sample) (auto simp: res_bind_Inr)
    with EventT decode_sample_params_conform show ?thesis
      by (intro exI [of _ "CtxEvent b h em i vs"]) (auto simp: context_conforms_def)
  qed
  then obtain ctx where ctx: "context_conforms t ctx" "filter_evaluate f ctx = Inr m" by blast
  from compile_expression_holds(1) [OF v(1) ctx(1)] ctx(2) v(3) have "m = holds X t ctx e"
    by (simp add: filter_evaluate_def)
  with v p ctx(1) show ?thesis by auto
qed

end
