(* ===== verification/Worker_Correct.thy ===== *)
theory Worker_Correct
  imports Worker
begin

text \<open>
  What a poll does to storage: the blocks it commits are a prefix of the plan, in order and
  without a gap, each with exactly the results the finalized chain dictates, however the poll
  ends (completed, cancelled or failed). The gauges of in-flight work balance, and the cache stays
  coherent. The lemmas are proved for any cache that keeps the block-cache contract.
\<close>

section \<open>Committed prefixes\<close>

inductive commit_run :: "'s index_storage \<Rightarrow> 's \<Rightarrow> block_commit list \<Rightarrow> 's \<Rightarrow> bool" for st where
  run_nil: "commit_run st s [] s"
| run_cons: "is_commit_block st s c = (Inr (), s1) \<Longrightarrow> commit_run st s1 cs s2 \<Longrightarrow> commit_run st s (c # cs) s2"

inductive_simps commit_run_Nil [simp]: "commit_run st s [] s'"
inductive_simps commit_run_Cons: "commit_run st s (c # cs) s'"

lemma commit_run_append: "commit_run st s cs s1 \<Longrightarrow> commit_run st s1 ds s2 \<Longrightarrow> commit_run st s (cs @ ds) s2"
  by (induction rule: commit_run.induct) (auto intro: commit_run.intros)

definition commit_matches ::
  "externs \<Rightarrow> chain_data \<Rightarrow> monitor list \<Rightarrow> chain \<Rightarrow> block_plan \<Rightarrow> block_commit \<Rightarrow> bool" where
  "commit_matches X D ms ch plan c =
     (bc_chain c = ch \<and> bc_block_number c = bp_block_number plan
      \<and> bc_monitors c = map (\<lambda>i. ms ! i) (bp_monitor_indices plan)
      \<and> mset (bc_results c) = mset (block_results X D ms (bp_monitor_indices plan) (bp_block_number plan)))"

definition plan_progress :: "block_plan \<Rightarrow> progress \<Rightarrow> progress" where
  "plan_progress plan progress =
     foldl (\<lambda>pr i. pr[i := Some (bp_block_number plan)]) progress (bp_monitor_indices plan)"

definition plans_progress :: "block_plan list \<Rightarrow> progress \<Rightarrow> progress" where
  "plans_progress plans progress = foldl (\<lambda>pr p. plan_progress p pr) progress plans"

text \<open>After the blocks \<open>cs\<close>, storage refused the commit of the next block of the plan.\<close>

definition commit_failed ::
  "externs \<Rightarrow> chain_data \<Rightarrow> monitor list \<Rightarrow> chain \<Rightarrow> 's index_storage \<Rightarrow> block_plan list
     \<Rightarrow> 's \<Rightarrow> block_commit list \<Rightarrow> error \<Rightarrow> 's \<Rightarrow> bool" where
  "commit_failed X D ms ch st plans s cs e s' =
     (length cs < length plans
      \<and> (\<exists>s1 c. commit_run st s cs s1 \<and> commit_matches X D ms ch (plans ! length cs) c
           \<and> is_commit_block st s1 c = (Inl e, s')))"

text \<open>
  \<open>commits_ok \<dots> plans pr n s r s'\<close>: from storage \<open>s\<close>, a prefix of \<open>plans\<close> was committed, leaving
  \<open>s'\<close>; all of them when the loop goes on.
\<close>

definition commits_ok ::
  "externs \<Rightarrow> chain_data \<Rightarrow> monitor list \<Rightarrow> chain \<Rightarrow> 's index_storage \<Rightarrow> block_plan list \<Rightarrow> progress \<Rightarrow> nat
     \<Rightarrow> 's \<Rightarrow> loop_state result \<Rightarrow> 's \<Rightarrow> bool" where
  "commits_ok X D ms ch st plans pr n s r s' =
     (\<exists>cs. length cs \<le> length plans \<and> list_all2 (commit_matches X D ms ch) (take (length cs) plans) cs
        \<and> (case r of
             Inr (Going pr' n') \<Rightarrow>
               commit_run st s cs s' \<and> length cs = length plans \<and> pr' = plans_progress plans pr
               \<and> n' = n + sum_list (map (\<lambda>c. length (bc_results c)) cs)
           | Inr Stopped \<Rightarrow> commit_run st s cs s'
           | Inl e \<Rightarrow> commit_run st s cs s' \<or> commit_failed X D ms ch st plans s cs e s'))"

lemma commits_ok_Nil: "commits_ok X D ms ch st [] pr n s (Inr (Going pr n)) s"
  by (auto simp: commits_ok_def plans_progress_def)

lemma commits_ok_Stopped: "commits_ok X D ms ch st plans pr n s (Inr Stopped) s"
  by (auto simp: commits_ok_def intro!: exI [of _ "[]"])

lemma commits_ok_Inl: "commits_ok X D ms ch st plans pr n s (Inl e) s"
  by (auto simp: commits_ok_def intro!: exI [of _ "[]"])

lemma commits_ok_failed:
  "commit_matches X D ms ch plan c \<Longrightarrow> is_commit_block st s c = (Inl e, s') \<Longrightarrow>
     commits_ok X D ms ch st (plan # plans) pr n s (Inl e) s'"
  by (auto simp: commits_ok_def commit_failed_def intro!: exI [of _ "[]"])

lemma commit_failed_prefix:
  "commit_failed X D ms ch st ps s cs e s' \<Longrightarrow> commit_failed X D ms ch st (ps @ qs) s cs e s'"
  by (auto simp: commit_failed_def nth_append)

lemma commit_failed_suffix:
  assumes "commit_run st s cs s1" and "length cs = length ps" and "commit_failed X D ms ch st qs s1 ds e s'"
  shows "commit_failed X D ms ch st (ps @ qs) s (cs @ ds) e s'"
  using assms(2,3) commit_run_append [OF assms(1)] by (auto simp: commit_failed_def nth_append)

lemma commits_ok_one:
  assumes "commit_matches X D ms ch plan c" and "is_commit_block st s c = (Inr (), s')"
  shows "commits_ok X D ms ch st [plan] pr n s (Inr (Going (plan_progress plan pr) (n + length (bc_results c)))) s'"
  using assms
  by (auto simp: commits_ok_def plans_progress_def intro!: exI [of _ "[c]"] commit_run.intros)

lemma commits_ok_short:
  assumes "commits_ok X D ms ch st ps pr n s r s'" and "\<And>pr' n'. r \<noteq> Inr (Going pr' n')"
  shows "commits_ok X D ms ch st (ps @ qs) pr n s r s'"
proof -
  from assms(1) obtain cs where cs: "length cs \<le> length ps"
    "list_all2 (commit_matches X D ms ch) (take (length cs) ps) cs"
    "case r of Inr (Going pr' n') \<Rightarrow>
        commit_run st s cs s' \<and> length cs = length ps \<and> pr' = plans_progress ps pr
        \<and> n' = n + sum_list (map (\<lambda>c. length (bc_results c)) cs)
      | Inr Stopped \<Rightarrow> commit_run st s cs s'
      | Inl e \<Rightarrow> commit_run st s cs s' \<or> commit_failed X D ms ch st ps s cs e s'"
    unfolding commits_ok_def by blast
  with assms(2) show ?thesis
    unfolding commits_ok_def
    by (intro exI [of _ cs]) (auto intro: commit_failed_prefix split: sum.splits loop_state.splits)
qed

lemma commits_ok_append:
  assumes "commits_ok X D ms ch st ps pr n s (Inr (Going pr1 n1)) s1"
    and "commits_ok X D ms ch st qs pr1 n1 s1 r s'"
  shows "commits_ok X D ms ch st (ps @ qs) pr n s r s'"
proof -
  from assms(1) obtain cs where cs: "length cs = length ps" "list_all2 (commit_matches X D ms ch) ps cs"
    "commit_run st s cs s1" "pr1 = plans_progress ps pr" "n1 = n + sum_list (map (\<lambda>c. length (bc_results c)) cs)"
    by (auto simp: commits_ok_def)
  from assms(2) obtain ds where ds: "length ds \<le> length qs"
    "list_all2 (commit_matches X D ms ch) (take (length ds) qs) ds"
    "case r of Inr (Going pr' n') \<Rightarrow>
        commit_run st s1 ds s' \<and> length ds = length qs \<and> pr' = plans_progress qs pr1
        \<and> n' = n1 + sum_list (map (\<lambda>c. length (bc_results c)) ds)
      | Inr Stopped \<Rightarrow> commit_run st s1 ds s'
      | Inl e \<Rightarrow> commit_run st s1 ds s' \<or> commit_failed X D ms ch st qs s1 ds e s'"
    unfolding commits_ok_def by blast
  have "list_all2 (commit_matches X D ms ch) (take (length (cs @ ds)) (ps @ qs)) (cs @ ds)"
    using cs(1,2) ds(2) by (simp add: list_all2_appendI)
  moreover have "case r of Inr (Going pr' n') \<Rightarrow>
        commit_run st s (cs @ ds) s' \<and> length (cs @ ds) = length (ps @ qs) \<and> pr' = plans_progress (ps @ qs) pr
        \<and> n' = n + sum_list (map (\<lambda>c. length (bc_results c)) (cs @ ds))
      | Inr Stopped \<Rightarrow> commit_run st s (cs @ ds) s'
      | Inl e \<Rightarrow> commit_run st s (cs @ ds) s' \<or> commit_failed X D ms ch st (ps @ qs) s (cs @ ds) e s'"
    using ds(3) cs commit_run_append [OF cs(3)] commit_failed_suffix [OF cs(3,1)]
    by (auto simp: plans_progress_def split: sum.splits loop_state.splits)
  ultimately show ?thesis
    using cs(1) ds(1) unfolding commits_ok_def by (intro exI [of _ "cs @ ds"]) auto
qed

section \<open>One commit\<close>

lemma length_plan_progress [simp]: "length (plan_progress plan pr) = length pr"
proof -
  have "length (foldl (\<lambda>pr i. pr[i := b]) pr is) = length pr" for b and "is" and pr :: progress
    by (induction "is" arbitrary: pr) auto
  then show ?thesis by (simp add: plan_progress_def)
qed

lemma advance_progress_total:
  "\<forall>i \<in> set is. i < length pr \<Longrightarrow> advance_progress b is pr = Inr (foldl (\<lambda>pr i. pr[i := Some b]) pr is)"
  by (induction b "is" pr rule: advance_progress.induct) auto

definition balanced :: "('c, 's) world \<Rightarrow> ('c, 's) world \<Rightarrow> bool" where
  "balanced w w' = (\<forall>c stage. in_flight c stage (w_telemetry w') = in_flight c stage (w_telemetry w))"

lemma balanced_trans: "balanced w w1 \<Longrightarrow> balanced w1 w2 \<Longrightarrow> balanced w w2"
  by (simp add: balanced_def)

lemma balanced_refl [simp]: "balanced w w"
  by (simp add: balanced_def)

lemma same_but_cacheD:
  "same_but_cache w w' \<Longrightarrow> w_storage w' = w_storage w"
  "same_but_cache w w' \<Longrightarrow> balanced w w'"
  by (simp_all add: same_but_cache_def balanced_def)

lemma checkpoint_same:
  "checkpoint w = (stop, w1) \<Longrightarrow> w_cache w1 = w_cache w \<and> w_storage w1 = w_storage w
     \<and> w_telemetry w1 = w_telemetry w \<and> w_sink w1 = w_sink w"
  by (auto simp: checkpoint_def split: option.splits nat.splits)

lemma submit_batch_same [simp]:
  "w_cache (submit_batch X ctx c w) = w_cache w" "w_storage (submit_batch X ctx c w) = w_storage w"
  "w_telemetry (submit_batch X ctx c w) = w_telemetry w" "w_cancel (submit_batch X ctx c w) = w_cancel w"
  by (simp_all add: submit_batch_def split: sum.split option.split)

lemma commit_prepared_cases:
  assumes "commit_prepared X ch ctx pb pr w = (r, w')"
    and "\<forall>i \<in> set (pb_monitor_indices pb). i < length pr"
  shows "w_cache w' = w_cache w \<and> balanced w w'
    \<and> (case r of
         Inl e \<Rightarrow> w_storage w' = w_storage w
           \<or> is_commit_block (pc_storage ctx) (w_storage w) (commit_of ch pb) = (Inl e, w_storage w')
       | Inr CommitCancelled \<Rightarrow> w_storage w' = w_storage w
       | Inr (Committed n pr') \<Rightarrow>
           is_commit_block (pc_storage ctx) (w_storage w) (commit_of ch pb) = (Inr (), w_storage w')
           \<and> n = length (pb_results pb)
           \<and> pr' = foldl (\<lambda>pr i. pr[i := Some (pb_block_number pb)]) pr (pb_monitor_indices pb))"
proof -
  obtain stop w1 where chk: "checkpoint w = (stop, w1)" by fastforce
  note same = checkpoint_same [OF chk]
  obtain cr s where commit: "is_commit_block (pc_storage ctx) (w_storage w) (commit_of ch pb) = (cr, s)" by fastforce
  show ?thesis
  proof (cases "stop \<or> \<not> pc_writes_open ctx")
    case True
    with assms(1) chk same show ?thesis by (auto simp: commit_prepared_def balanced_def Let_def split: if_splits)
  next
    case False
    show ?thesis
    proof (cases cr)
      case (Inl e)
      with False assms(1) chk same commit show ?thesis
        by (auto simp: commit_prepared_def Let_def balanced_def in_flight_enter_def in_flight_leave_def)
    next
      case (Inr u)
      with False assms chk same commit advance_progress_total [of "pb_monitor_indices pb" pr "pb_block_number pb"]
      show ?thesis
        by (auto simp: commit_prepared_def Let_def balanced_def in_flight_enter_def in_flight_leave_def commit_of_def)
    qed
  qed
qed

lemma commit_of_matches:
  "prepared_ok X D idx plan pb \<Longrightarrow> commit_matches X D (mi_monitors idx) ch plan (commit_of ch pb)"
  by (simp add: prepared_ok_def commit_matches_def commit_of_def)

lemma commit_prepared_ok:
  assumes "prepared_ok X D idx plan pb" and "length pr = length (mi_monitors idx)"
    and "commit_prepared X ch ctx pb pr w = (r, w')"
  shows "w_cache w' = w_cache w" and "balanced w w'"
    and "r = Inl e \<Longrightarrow> commits_ok X D (mi_monitors idx) ch (pc_storage ctx) (plan # plans) pr n (w_storage w) (Inl e) (w_storage w')"
    and "r = Inr CommitCancelled \<Longrightarrow> w_storage w' = w_storage w"
    and "r = Inr (Committed k pr') \<Longrightarrow> pr' = plan_progress plan pr
      \<and> commits_ok X D (mi_monitors idx) ch (pc_storage ctx) [plan] pr n (w_storage w) (Inr (Going pr' (n + k))) (w_storage w')"
proof -
  have "\<forall>i \<in> set (pb_monitor_indices pb). i < length pr"
    using assms(1,2) by (simp add: prepared_ok_def)
  note cases = commit_prepared_cases [OF assms(3) this]
  show "w_cache w' = w_cache w" and "balanced w w'" using cases by blast+
  show "commits_ok X D (mi_monitors idx) ch (pc_storage ctx) (plan # plans) pr n (w_storage w) (Inl e) (w_storage w')" if "r = Inl e"
    using cases that commits_ok_failed [OF commit_of_matches [OF assms(1)]] by (auto simp: commits_ok_Inl)
  show "w_storage w' = w_storage w" if "r = Inr CommitCancelled" using cases that by simp
  assume "r = Inr (Committed k pr')"
  with cases have c: "is_commit_block (pc_storage ctx) (w_storage w) (commit_of ch pb) = (Inr (), w_storage w')"
    "k = length (pb_results pb)" "pr' = foldl (\<lambda>pr i. pr[i := Some (pb_block_number pb)]) pr (pb_monitor_indices pb)"
    by auto
  have pr: "pr' = plan_progress plan pr" using c(3) assms(1) by (simp add: plan_progress_def prepared_ok_def)
  have "k = length (bc_results (commit_of ch pb))" using c(2) by (simp add: commit_of_def)
  with commits_ok_one [OF commit_of_matches [OF assms(1), of ch] c(1)] pr
  show "pr' = plan_progress plan pr
      \<and> commits_ok X D (mi_monitors idx) ch (pc_storage ctx) [plan] pr n (w_storage w) (Inr (Going pr' (n + k))) (w_storage w')"
    by simp
qed

section \<open>Windows\<close>

lemma length_plans_progress [simp]: "length (plans_progress plans pr) = length pr"
  by (induction plans arbitrary: pr) (simp_all add: plans_progress_def)

lemma commits_ok_length:
  "commits_ok X D ms ch st plans pr n s (Inr (Going pr' n')) s' \<Longrightarrow> length pr' = length pr"
  by (auto simp: commits_ok_def)

lemma commit_window_ok:
  assumes "list_all2 (\<lambda>plan r. \<forall>pb. r = Inr pb \<longrightarrow> prepared_ok X D idx plan pb) plans rs"
    and "length pr = length (mi_monitors idx)" and "commit_window X ch ctx rs pr n w = (r, w')"
  shows "w_cache w' = w_cache w \<and> balanced w w'
    \<and> commits_ok X D (mi_monitors idx) ch (pc_storage ctx) plans pr n (w_storage w) r (w_storage w')"
  using assms
proof (induction arbitrary: pr n w rule: list_all2_induct)
  case Nil
  then show ?case by (auto simp: commits_ok_Nil)
next
  case (Cons plan plans p ps)
  show ?case
  proof (cases p)
    case (Inl e)
    with Cons.prems show ?thesis by (auto simp: commits_ok_Inl)
  next
    case (Inr pb)
    with Cons(1) have pb: "prepared_ok X D idx plan pb" by simp
    obtain cr w1 where c: "commit_prepared X ch ctx pb pr w = (cr, w1)" by fastforce
    note ok = commit_prepared_ok [OF pb Cons.prems(1) c]
    consider (fail) e where "cr = Inl e" | (stop) "cr = Inr CommitCancelled"
      | (go) k pr1 where "cr = Inr (Committed k pr1)"
      by (metis commit_outcome.exhaust sum.exhaust)
    then show ?thesis
    proof cases
      case (fail e)
      with Cons.prems(2) Inr c have "r = Inl e" "w' = w1" by auto
      with ok(1,2) ok(3) [OF fail] show ?thesis by simp
    next
      case stop
      with Cons.prems(2) Inr c have "r = Inr Stopped" "w' = w1" by auto
      with ok(1,2) ok(4) [OF stop] show ?thesis by (simp add: commits_ok_Stopped)
    next
      case (go k pr1)
      with Cons.prems(2) Inr c have rest: "commit_window X ch ctx ps pr1 (n + k) w1 = (r, w')" by simp
      note one = ok(5) [OF go, of n]
      have "length pr1 = length (mi_monitors idx)" using one Cons.prems(1) by simp
      note IH = Cons.IH [OF this rest]
      have "commits_ok X D (mi_monitors idx) ch (pc_storage ctx) ([plan] @ plans) pr n (w_storage w) r (w_storage w')"
        by (rule commits_ok_append [OF conjunct2 [OF one] conjunct2 [OF conjunct2 [OF IH]]])
      with IH ok(1,2) show ?thesis by (auto intro: balanced_trans)
    qed
  qed
qed

context block_cache_port
begin

text \<open>The stream of a window without event targets.\<close>

lemma commit_stream_ok:
  assumes ok: "poll_ok X H all idx (pc_source ctx) D" and port: "pc_cache ctx = C"
    and query: "window_query window idx = Inr None" and sub: "set plans \<subseteq> set window"
    and sorted: "\<forall>p \<in> set plans. sorted_wrt (<) (bp_monitor_indices p)"
    and len: "length pr = length (mi_monitors idx)" and coh: "coherent ch (cd_block D) (w_cache w)"
    and run: "commit_stream X H ch ctx idx plans pr n w = (r, w')"
  shows "coherent ch (cd_block D) (w_cache w') \<and> balanced w w'
    \<and> commits_ok X D (mi_monitors idx) ch (pc_storage ctx) plans pr n (w_storage w) r (w_storage w')"
  using sub sorted len coh run
proof (induction plans arbitrary: pr n w)
  case Nil
  then show ?case
    by (auto simp: commits_ok_Nil commits_ok_Stopped balanced_def split: prod.splits dest!: checkpoint_same)
next
  case (Cons plan plans)
  obtain stop w1 where chk: "checkpoint w = (stop, w1)" by fastforce
  note same = checkpoint_same [OF chk]
  show ?case
  proof (cases stop)
    case True
    with Cons.prems(5) chk have "r = Inr Stopped" "w' = w1" by auto
    with same Cons.prems(4) show ?thesis by (simp add: commits_ok_Stopped balanced_def)
  next
    case False
    obtain rp w2 where prep: "prepare_calls X H C (pc_source ctx) ch idx plan w1 = (rp, w2)" by fastforce
    have coh1: "coherent ch (cd_block D) (w_cache w1)" using Cons.prems(4) same by simp
    have coh2: "coherent ch (cd_block D) (w_cache w2)"
      by (rule prepare_calls_coherent [OF poll_okD(6) [OF ok] poll_okD(7) [OF ok] coh1 prep])
    have st2: "w_storage w2 = w_storage w" "balanced w w2"
      using same_but_cacheD [OF prepare_calls_same [OF prep]] same by (auto simp: balanced_def)
    show ?thesis
    proof (cases "res_bind rp (\<lambda>prepared. finish_prepared X H idx prepared [])")
      case (Inl e)
      with Cons.prems(5) chk False prep port have "r = Inl e" "w' = w2" by auto
      with st2 coh2 show ?thesis by (simp add: commits_ok_Inl)
    next
      case (Inr pb)
      then obtain pc where pc: "rp = Inr pc" "finish_prepared X H idx pc [] = Inr pb" by (auto simp: res_simps)
      have srt: "sorted_wrt (<) (bp_monitor_indices plan)" and plan: "plan \<in> set window"
        using Cons.prems(1,2) by auto
      from prepare_calls_reference [OF ok srt coh1] prep pc(1)
      have "pcl_plan pc = plan" "mset (pcl_results pc) = mset (map ResultCall
          (chain_calls X D (mi_monitors idx) (bp_monitor_indices plan) (bp_block_number plan)))" by auto
      from finish_without_logs [OF ok srt query plan this pc(2)] have pb: "prepared_ok X D idx plan pb" .
      obtain cr w3 where c: "commit_prepared X ch ctx pb pr w2 = (cr, w3)" by fastforce
      note one = commit_prepared_ok [OF pb Cons.prems(3) c]
      consider (fail) e where "cr = Inl e" | (stop) "cr = Inr CommitCancelled"
        | (go) k pr1 where "cr = Inr (Committed k pr1)"
        by (metis commit_outcome.exhaust sum.exhaust)
      then show ?thesis
      proof cases
        case (fail e)
        with Cons.prems(5) chk False prep port Inr c have "r = Inl e" "w' = w3" by auto
        with one(1,2) one(3) [OF fail] st2 coh2 show ?thesis by (auto intro: balanced_trans)
      next
        case stop
        with Cons.prems(5) chk False prep port Inr c have "r = Inr Stopped" "w' = w3" by auto
        with one(1,2) one(4) [OF stop] st2 coh2 show ?thesis by (auto simp: commits_ok_Stopped intro: balanced_trans)
      next
        case (go k pr1)
        with Cons.prems(5) chk False prep port Inr c
        have rest: "commit_stream X H ch ctx idx plans pr1 (n + k) w3 = (r, w')" by simp
        note here = one(5) [OF go, of n]
        have "length pr1 = length (mi_monitors idx)" using here Cons.prems(3) by simp
        from Cons.IH [OF _ _ this _ rest] Cons.prems(1,2) one(1) coh2
        have IH: "coherent ch (cd_block D) (w_cache w')" "balanced w3 w'"
          "commits_ok X D (mi_monitors idx) ch (pc_storage ctx) plans pr1 (n + k) (w_storage w3) r (w_storage w')"
          by auto
        from commits_ok_append [OF conjunct2 [OF here] IH(3)] st2(1)
        have "commits_ok X D (mi_monitors idx) ch (pc_storage ctx) (plan # plans) pr n (w_storage w) r (w_storage w')"
          by simp
        moreover have "balanced w w'" using st2(2) one(2) IH(2) balanced_trans by blast
        ultimately show ?thesis using IH(1) by blast
      qed
    qed
  qed
qed

lemma run_window_ok:
  assumes ok: "poll_ok X H all idx (pc_source ctx) D" and port: "pc_cache ctx = C"
    and sorted: "\<forall>p \<in> set window. sorted_wrt (<) (bp_monitor_indices p)"
    and asc: "sorted_wrt (<) (map bp_block_number window)"
    and len: "length pr = length (mi_monitors idx)" and coh: "coherent ch (cd_block D) (w_cache w)"
    and run: "run_window X H ch ctx idx window pr n w = (r, w')"
  shows "coherent ch (cd_block D) (w_cache w') \<and> balanced w w'
    \<and> commits_ok X D (mi_monitors idx) ch (pc_storage ctx) window pr n (w_storage w) r (w_storage w')"
proof (cases "window_query window idx")
  case (Inl e)
  with run coh show ?thesis by (auto simp: run_window_def commits_ok_Inl)
next
  case (Inr mq)
  show ?thesis
  proof (cases mq)
    case None
    with run Inr have "commit_stream X H ch ctx idx window pr n w = (r, w')" by (simp add: run_window_def)
    from commit_stream_ok [OF ok port _ _ sorted len coh this] Inr None show ?thesis by simp
  next
    case (Some q)
    obtain stop w1 where chk: "checkpoint w = (stop, w1)" by fastforce
    note same = checkpoint_same [OF chk]
    have coh1: "coherent ch (cd_block D) (w_cache w1)" using coh same by simp
    obtain rp w2 where prep: "prepare_event_window X H C (pc_source ctx) ch idx window q w1 = (rp, w2)" by fastforce
    have query: "window_query window idx = Inr (Some q)" using Inr Some by simp
    note win = prepare_event_window_reference [OF ok coh1 sorted asc query prep]
    show ?thesis
    proof (cases stop)
      case True
      with run query chk have "r = Inr Stopped" "w' = w1" by (auto simp: run_window_def)
      with same coh1 show ?thesis by (simp add: commits_ok_Stopped balanced_def)
    next
      case False
      have st2: "w_storage w2 = w_storage w" "balanced w w2"
        using same_but_cacheD [of w1 w2] win same by (auto simp: balanced_def)
      show ?thesis
      proof (cases rp)
        case (Inl e)
        with run query chk False prep port have "r = Inl e" "w' = w2" by (auto simp: run_window_def)
        with st2 win show ?thesis by (simp add: commits_ok_Inl)
      next
        case (Inr rs)
        with run query chk False prep port have rest: "commit_window X ch ctx rs pr n w2 = (r, w')"
          by (simp add: run_window_def)
        have "list_all2 (\<lambda>plan r. \<forall>pb. r = Inr pb \<longrightarrow> prepared_ok X D idx plan pb) window rs"
          using win Inr by blast
        from commit_window_ok [OF this len rest] st2 win show ?thesis by (auto intro: balanced_trans)
      qed
    qed
  qed
qed

lemma run_windows_ok:
  assumes ok: "poll_ok X H all idx (pc_source ctx) D" and port: "pc_cache ctx = C"
    and sorted: "\<forall>p \<in> set (concat windows). sorted_wrt (<) (bp_monitor_indices p)"
    and asc: "\<forall>w \<in> set windows. sorted_wrt (<) (map bp_block_number w)"
    and len: "length pr = length (mi_monitors idx)" and coh: "coherent ch (cd_block D) (w_cache w)"
    and run: "run_windows X H ch ctx idx windows pr n w = (r, w')"
  shows "coherent ch (cd_block D) (w_cache w') \<and> balanced w w'
    \<and> commits_ok X D (mi_monitors idx) ch (pc_storage ctx) (concat windows) pr n (w_storage w) r (w_storage w')"
  using sorted asc len coh run
proof (induction windows arbitrary: pr n w)
  case Nil
  then show ?case by (auto simp: commits_ok_Nil)
next
  case (Cons window windows)
  obtain r1 w1 where one: "run_window X H ch ctx idx window pr n w = (r1, w1)" by fastforce
  have "\<forall>p \<in> set window. sorted_wrt (<) (bp_monitor_indices p)" "sorted_wrt (<) (map bp_block_number window)"
    using Cons.prems(1,2) by auto
  note here = run_window_ok [OF ok port this Cons.prems(3,4) one]
  consider (fail) e where "r1 = Inl e" | (stop) "r1 = Inr Stopped" | (go) pr1 n1 where "r1 = Inr (Going pr1 n1)"
    by (metis loop_state.exhaust sum.exhaust)
  then show ?case
  proof cases
    case (fail e)
    with Cons.prems(5) one have "r = Inl e" "w' = w1" by auto
    with here fail commits_ok_short [of X D "mi_monitors idx" ch "pc_storage ctx" window pr n "w_storage w" "Inl e" "w_storage w1" "concat windows"]
    show ?thesis by simp
  next
    case stop
    with Cons.prems(5) one have "r = Inr Stopped" "w' = w1" by auto
    with here stop commits_ok_short [of X D "mi_monitors idx" ch "pc_storage ctx" window pr n "w_storage w" "Inr Stopped" "w_storage w1" "concat windows"]
    show ?thesis by simp
  next
    case (go pr1 n1)
    with Cons.prems(5) one have rest: "run_windows X H ch ctx idx windows pr1 n1 w1 = (r, w')" by simp
    have "length pr1 = length (mi_monitors idx)"
      using here go Cons.prems(3) by (auto dest!: commits_ok_length)
    from Cons.IH [OF _ _ this _ rest] Cons.prems(1,2) here
    have IH: "coherent ch (cd_block D) (w_cache w')" "balanced w1 w'"
      "commits_ok X D (mi_monitors idx) ch (pc_storage ctx) (concat windows) pr1 n1 (w_storage w1) r (w_storage w')"
      by auto
    have "commits_ok X D (mi_monitors idx) ch (pc_storage ctx) (window @ concat windows) pr n (w_storage w) r (w_storage w')"
      using commits_ok_append [OF _ IH(3)] here go by blast
    with here IH(1,2) show ?thesis by (auto intro: balanced_trans)
  qed
qed

end

end
