(* ===== verification/Memory_Cache.thy ===== *)
theory Memory_Cache
  imports Cache_Contract
begin

text \<open>
  \<open>parseon-memory-cache/src/lib.rs\<close>: the in-memory block cache, and the disabled one the
  factory gives for capacity zero. The \<open>moka\<close> cache behind it may drop entries when it is full;
  which keys it drops is the parameter \<open>policy\<close>, a function of the capacity and the entries.
\<close>

record memory_block_cache =
  mc_max_capacity :: nat
  mc_entries :: "(cache_key \<times> source_block) list"

type_synonym eviction_policy = "nat \<Rightarrow> (cache_key \<times> source_block) list \<Rightarrow> cache_key set"

definition memory_cache_new :: "nat \<Rightarrow> memory_block_cache" where
  "memory_cache_new capacity = \<lparr>mc_max_capacity = min capacity (2 ^ 64 - 1), mc_entries = []\<rparr>"

definition memory_get :: "memory_block_cache \<Rightarrow> chain \<Rightarrow> block_number \<Rightarrow> source_block option" where
  "memory_get c ch b = map_of (mc_entries c) (chain_id_of ch, b)"

definition memory_put :: "eviction_policy \<Rightarrow> memory_block_cache \<Rightarrow> chain \<Rightarrow> source_block \<Rightarrow> memory_block_cache" where
  "memory_put policy c ch blk =
     (let key = (chain_id_of ch, sb_number blk);
          entries = (key, blk) # filter (\<lambda>(k, _). k \<noteq> key) (mc_entries c) in
      c\<lparr>mc_entries := filter (\<lambda>(k, _). k \<notin> policy (mc_max_capacity c) entries) entries\<rparr>)"

definition memory_evict_before :: "memory_block_cache \<Rightarrow> chain \<Rightarrow> block_number \<Rightarrow> memory_block_cache" where
  "memory_evict_before c ch n =
     c\<lparr>mc_entries := filter (\<lambda>(k, _). \<not> (fst k = chain_id_of ch \<and> snd k < n)) (mc_entries c)\<rparr>"

datatype created_cache = Memory memory_block_cache | Disabled

definition cache_factory_create :: "nat \<Rightarrow> created_cache" where
  "cache_factory_create capacity =
     (if capacity = 0 then Disabled else Memory (memory_cache_new capacity))"

definition created_cache_ops :: "eviction_policy \<Rightarrow> created_cache block_cache_ops" where
  "created_cache_ops policy =
     \<lparr>cache_get = (\<lambda>c ch b. (c, case c of Memory m \<Rightarrow> memory_get m ch b | Disabled \<Rightarrow> None)),
      cache_put = (\<lambda>c ch blk. case c of Memory m \<Rightarrow> Memory (memory_put policy m ch blk) | Disabled \<Rightarrow> Disabled),
      cache_evict_before = (\<lambda>c ch n. case c of Memory m \<Rightarrow> Memory (memory_evict_before m ch n) | Disabled \<Rightarrow> Disabled)\<rparr>"

definition created_cache_view :: "created_cache \<Rightarrow> cache_key \<Rightarrow> source_block option" where
  "created_cache_view c k = (case c of Memory m \<Rightarrow> map_of (mc_entries m) k | Disabled \<Rightarrow> None)"

lemma map_of_filter_key:
  "map_of (filter (\<lambda>(k, _). P k) es) k = (if P k then map_of es k else None)"
  by (induction es) auto

lemma memory_put_lookup:
  "map_of (mc_entries (memory_put policy m ch blk)) k = Some blk' \<Longrightarrow>
     if k = (chain_id_of ch, sb_number blk) then blk' = blk else map_of (mc_entries m) k = Some blk'"
proof -
  let ?key = "(chain_id_of ch, sb_number blk)"
  let ?es = "(?key, blk) # filter (\<lambda>(k, _). k \<noteq> ?key) (mc_entries m)"
  assume "map_of (mc_entries (memory_put policy m ch blk)) k = Some blk'"
  moreover have "mc_entries (memory_put policy m ch blk)
      = filter (\<lambda>(k, _). k \<notin> policy (mc_max_capacity m) ?es) ?es"
    unfolding memory_put_def Let_def by simp
  ultimately have "map_of ?es k = Some blk'"
    by (simp only: map_of_filter_key option.distinct split: if_split_asm)
  then show ?thesis by (auto simp: map_of_filter_key split: if_splits)
qed

lemma memory_evict_lookup:
  "map_of (mc_entries (memory_evict_before m ch n)) k
     = (if fst k = chain_id_of ch \<and> snd k < n then None else map_of (mc_entries m) k)"
  by (simp add: memory_evict_before_def map_of_filter_key)

interpretation created: block_cache_port "created_cache_ops policy" created_cache_view for policy
proof unfold_locales
  fix c ch b
  show "snd (cache_get (created_cache_ops policy) c ch b) = created_cache_view c (chain_id_of ch, b)"
    by (simp add: created_cache_ops_def created_cache_view_def memory_get_def split: created_cache.split)
next
  fix c ch b k blk
  assume "created_cache_view (fst (cache_get (created_cache_ops policy) c ch b)) k = Some blk"
  then show "created_cache_view c k = Some blk" by (simp add: created_cache_ops_def)
next
  fix c ch k blk blk'
  assume "created_cache_view (cache_put (created_cache_ops policy) c ch blk) k = Some blk'"
  then show "(k = (chain_id_of ch, sb_number blk) \<and> blk' = blk)
      \<or> (k \<noteq> (chain_id_of ch, sb_number blk) \<and> created_cache_view c k = Some blk')"
    by (cases c) (auto simp: created_cache_ops_def created_cache_view_def split: if_splits
        dest!: memory_put_lookup)
next
  fix c ch n k blk
  assume "created_cache_view (cache_evict_before (created_cache_ops policy) c ch n) k = Some blk"
  then show "created_cache_view c k = Some blk \<and> \<not> (fst k = chain_id_of ch \<and> snd k < n)"
    by (cases c) (auto simp: created_cache_ops_def created_cache_view_def memory_evict_lookup split: if_splits)
next
  fix c ch n k blk
  assume "created_cache_view c k = Some blk" "\<not> (fst k = chain_id_of ch \<and> snd k < n)"
  then show "created_cache_view (cache_evict_before (created_cache_ops policy) c ch n) k = Some blk"
    by (cases c) (auto simp: created_cache_ops_def created_cache_view_def memory_evict_lookup)
qed

text \<open>
  Without pressure the cache is exact: a policy that drops nothing keeps every put.
\<close>

lemma put_get_kept:
  assumes "cache_factory_create capacity = Memory m0" and "policy = (\<lambda>_ _. {})"
  shows "snd (cache_get (created_cache_ops policy)
      (cache_put (created_cache_ops policy) (Memory m) ch blk) ch (sb_number blk)) = Some blk"
  using assms by (simp add: created_cache_ops_def memory_get_def memory_put_def Let_def)

end
