(* ===== verification/Worker_Poll.thy ===== *)
theory Worker_Poll
  imports Worker_Correct Memory_Cache
begin

text \<open>
  Whole polls: what \<open>run_once\<close> commits, for any cache that keeps the block-cache contract. The
  interpretation \<open>created\<close> gives the result for the caches the program creates.
\<close>

section \<open>A poll\<close>

definition poll_commits ::
  "externs \<Rightarrow> chain_data \<Rightarrow> monitor list \<Rightarrow> chain \<Rightarrow> 's index_storage \<Rightarrow> block_plan list \<Rightarrow> block_number
     \<Rightarrow> 's \<Rightarrow> poll_outcome result \<Rightarrow> 's \<Rightarrow> bool" where
  "poll_commits X D ms ch st plans head s r s' =
     (\<exists>cs. length cs \<le> length plans \<and> list_all2 (commit_matches X D ms ch) (take (length cs) plans) cs
        \<and> (case r of
             Inr (Completed p) \<Rightarrow>
               commit_run st s cs s' \<and> length cs = length plans \<and> pr_finalized_head p = head
               \<and> pr_decoded p = sum_list (map (\<lambda>c. length (bc_results c)) cs)
           | Inr Cancelled \<Rightarrow> commit_run st s cs s'
           | Inl e \<Rightarrow> commit_run st s cs s' \<or> commit_failed X D ms ch st plans s cs e s'))"

lemma poll_commits_none:
  "poll_commits X D ms ch st plans head s (Inr Cancelled) s"
  "poll_commits X D ms ch st plans head s (Inl e) s"
  "poll_commits X D ms ch st [] head s (Inr (Completed \<lparr>pr_finalized_head = head, pr_decoded = 0\<rparr>)) s"
  by (auto simp: poll_commits_def intro!: exI [of _ "[]"])

lemma poll_commits_going:
  "commits_ok X D ms ch st plans pr 0 s (Inr (Going pr' n)) s' \<Longrightarrow>
     poll_commits X D ms ch st plans head s
       (Inr (Completed \<lparr>pr_finalized_head = head, pr_decoded = n\<rparr>)) s'"
  by (auto simp: commits_ok_def poll_commits_def)

lemma poll_commits_Stopped:
  "commits_ok X D ms ch st plans pr n s (Inr Stopped) s' \<Longrightarrow> poll_commits X D ms ch st plans head s (Inr Cancelled) s'"
  by (auto simp: commits_ok_def poll_commits_def)

lemma poll_commits_Inl:
  "commits_ok X D ms ch st plans pr n s (Inl e) s' \<Longrightarrow> poll_commits X D ms ch st plans head s (Inl e) s'"
  by (auto simp: commits_ok_def poll_commits_def)

lemma plan_blocks_Nil [simp]: "plan_blocks [] head batch = []"
  by (simp add: plan_blocks_def)

lemma plan_blocks_window_facts:
  assumes "batch \<noteq> 0"
  shows "concat (plan_windows (plan_blocks ms head batch) batch) = plan_blocks ms head batch"
    and "\<forall>p \<in> set (plan_blocks ms head batch). sorted_wrt (<) (bp_monitor_indices p)"
    and "\<forall>w \<in> set (plan_windows (plan_blocks ms head batch) batch). sorted_wrt (<) (map bp_block_number w)"
proof -
  have "0 < unat batch" using assms by (simp add: unat_gt_0)
  then show concat: "concat (plan_windows (plan_blocks ms head batch) batch) = plan_blocks ms head batch"
    using plan_windows_loop_spec [of "unat batch" "[]" "plan_blocks ms head batch"]
    by (simp add: plan_windows_def windows_maximal_def)
  show "\<forall>p \<in> set (plan_blocks ms head batch). sorted_wrt (<) (bp_monitor_indices p)"
  proof
    fix p assume "p \<in> set (plan_blocks ms head batch)"
    then have "bp_monitor_indices p = planned_for ms head batch (bp_block_number p)"
      by (simp add: set_plan_blocks [OF assms])
    then show "sorted_wrt (<) (bp_monitor_indices p)" by (simp only: sorted_planned_for)
  qed
  show "\<forall>w \<in> set (plan_windows (plan_blocks ms head batch) batch). sorted_wrt (<) (map bp_block_number w)"
  proof
    fix w assume "w \<in> set (plan_windows (plan_blocks ms head batch) batch)"
    then obtain us vs where "plan_windows (plan_blocks ms head batch) batch = us @ w # vs"
      by (auto simp: in_set_conv_decomp)
    then have "plan_blocks ms head batch = concat us @ w @ concat vs" using concat by simp
    with plan_blocks_ascending [OF assms, of ms head] show "sorted_wrt (<) (map bp_block_number w)"
      by (auto simp: sorted_wrt_append)
  qed
qed

context block_cache_port
begin

lemma finish_poll_ok:
  assumes "coherent ch truth (w_cache w)" and "pc_cache ctx = C"
    and "finish_poll ch ctx ms head pr n w = (o', w')"
  shows "coherent ch truth (w_cache w') \<and> balanced w w' \<and> w_storage w' = w_storage w
    \<and> o' = Completed \<lparr>pr_finalized_head = head, pr_decoded = n\<rparr>"
  using assms coherent_evict
  by (auto simp: finish_poll_def Let_def balanced_def split: list.splits)

lemma run_once_ok:
  assumes ok: "poll_ok X H all idx (pc_source ctx) D" and port: "pc_cache ctx = C"
    and batch: "wc_batch_size cfg \<noteq> 0"
    and head: "bs_finalized_head (pc_source ctx) = Inr head"
    and load: "is_load_monitors (pc_storage ctx) (w_storage w) (wc_chain cfg) = Inr all"
    and coh: "coherent (wc_chain cfg) (cd_block D) (w_cache w)"
    and run: "run_once X H cfg ctx w = (r, w')"
  shows "coherent (wc_chain cfg) (cd_block D) (w_cache w') \<and> balanced w w'
    \<and> poll_commits X D (mi_monitors idx) (wc_chain cfg) (pc_storage ctx)
        (plan_blocks (mi_monitors idx) head (wc_batch_size cfg)) head (w_storage w) r (w_storage w')"
proof -
  let ?ch = "wc_chain cfg" and ?ms = "mi_monitors idx" and ?st = "pc_storage ctx"
  let ?plans = "plan_blocks ?ms head (wc_batch_size cfg)"
  let ?pr = "map (\<lambda>m. cursor_block (mon_cursor m)) ?ms"
  note new = poll_okD(1) [OF ok]
  obtain s1 w1 where c1: "checkpoint w = (s1, w1)" by fastforce
  obtain s2 w2 where c2: "checkpoint w1 = (s2, w2)" by fastforce
  note same = checkpoint_same [OF c1] checkpoint_same [OF c2]
  have coh2: "coherent ?ch (cd_block D) (w_cache w2)" using coh same by simp
  have load2: "is_load_monitors ?st (w_storage w2) ?ch = Inr all" using load same by simp
  have bal2: "balanced w w2" using same by (simp add: balanced_def)
  show ?thesis
  proof (cases "s1 \<or> s2")
    case True
    with run c1 c2 head have "r = Inr Cancelled" "w' = w1 \<or> w' = w2"
      by (auto simp: run_once_def split: if_splits)
    with same coh show ?thesis by (auto simp: poll_commits_none balanced_def)
  next
    case False
    show ?thesis
    proof (cases "?ms = []")
      case True
      obtain s3 w3 where c3: "checkpoint w2 = (s3, w3)" by fastforce
      note same3 = checkpoint_same [OF c3]
      have "(r = Inr Cancelled \<and> w' = w3) \<or>
          (r = Inr (Completed \<lparr>pr_finalized_head = head, pr_decoded = 0\<rparr>)
            \<and> w' = record_event (SetWorkerLag (chain_id_of ?ch) 0) w3)"
        using run c1 c2 c3 head load2 new False True by (auto simp: run_once_def split: if_splits)
      with same same3 coh True show ?thesis by (auto simp: poll_commits_none balanced_def)
    next
      case ms: False
      obtain lr w3 where loop: "run_windows X H ?ch ctx idx (plan_windows ?plans (wc_batch_size cfg)) ?pr 0 w2 = (lr, w3)"
        by fastforce
      note facts = plan_blocks_window_facts [OF batch, of ?ms head]
      have "\<forall>p \<in> set (concat (plan_windows ?plans (wc_batch_size cfg))). sorted_wrt (<) (bp_monitor_indices p)"
        unfolding facts(1) by (rule facts(2))
      from run_windows_ok [OF ok port this facts(3) _ coh2 loop]
      have win: "coherent ?ch (cd_block D) (w_cache w3)" "balanced w2 w3"
        "commits_ok X D ?ms ?ch ?st ?plans ?pr 0 (w_storage w) lr (w_storage w3)"
        using same by (simp_all add: facts(1))
      consider (fail) e where "lr = Inl e" | (stop) "lr = Inr Stopped" | (go) pr1 n1 where "lr = Inr (Going pr1 n1)"
        by (metis loop_state.exhaust sum.exhaust)
      then show ?thesis
      proof cases
        case (fail e)
        with run c1 c2 head load2 new False ms loop have "r = Inl e" "w' = w3"
          by (auto simp: run_once_def Let_def)
        with win bal2 fail poll_commits_Inl show ?thesis by (auto intro: balanced_trans)
      next
        case stop
        with run c1 c2 head load2 new False ms loop have "r = Inr Cancelled" "w' = w3"
          by (auto simp: run_once_def Let_def)
        with win bal2 stop poll_commits_Stopped show ?thesis by (auto intro: balanced_trans)
      next
        case (go pr1 n1)
        obtain o4 w4 where fin: "finish_poll ?ch ctx ?ms head pr1 n1 w3 = (o4, w4)" by fastforce
        with run c1 c2 head load2 new False ms loop go have r: "r = Inr o4" "w' = w4"
          by (auto simp: run_once_def Let_def)
        note f = finish_poll_ok [OF win(1) port fin]
        have "poll_commits X D ?ms ?ch ?st ?plans head (w_storage w) r (w_storage w')"
          using poll_commits_going [of X D ?ms ?ch ?st ?plans ?pr "w_storage w" pr1 n1 "w_storage w3" head] win(3) go r f
          by simp
        with f r win(2) bal2 show ?thesis by (auto intro: balanced_trans)
      qed
    qed
  qed
qed

end

end
