(* ===== verification/Worker_Loop.thy ===== *)
theory Worker_Loop
  imports Worker_Poll
begin

text \<open>
  The quantities a poll leaves behind (in-memory cursors, eviction bound, lag gauge), and the
  termination of the worker loop under cancellation.
\<close>

section \<open>In-memory cursors\<close>

lemma plan_progress_nth:
  "i < length pr \<Longrightarrow> plan_progress plan pr ! i
     = (if i \<in> set (bp_monitor_indices plan) then Some (bp_block_number plan) else pr ! i)"
proof -
  have "i < length pr \<Longrightarrow> foldl (\<lambda>pr i. pr[i := b]) pr is ! i = (if i \<in> set is then b else pr ! i)"
    for b :: "block_number option" and "is" and pr :: progress
    by (induction "is" arbitrary: pr) (auto simp: nth_list_update)
  then show "i < length pr \<Longrightarrow> ?thesis" by (simp add: plan_progress_def)
qed

lemma plans_progress_nth:
  assumes "i < length pr"
  shows "plans_progress plans pr ! i
    = (case rev (filter (\<lambda>p. i \<in> set (bp_monitor_indices p)) plans) of
         [] \<Rightarrow> pr ! i | p # _ \<Rightarrow> Some (bp_block_number p))"
proof (induction plans rule: rev_induct)
  case (snoc plan plans)
  have "plans_progress (plans @ [plan]) pr = plan_progress plan (plans_progress plans pr)"
    by (simp add: plans_progress_def)
  with snoc plan_progress_nth [of i "plans_progress plans pr" plan] assms show ?case by simp
qed (simp add: plans_progress_def)

text \<open>After all plans, a monitor that wanted blocks is at the last of them.\<close>

lemma wants_plan_to:
  assumes "batch \<noteq> 0"
  shows "wants m head batch b \<longleftrightarrow> next_block m \<le> b \<and> b \<le> plan_to m head batch"
  using in_plan_range [OF assms, of b m head] by simp

lemma progress_after_plan:
  assumes batch: "batch \<noteq> 0" and i: "i < length ms"
  shows "plans_progress (plan_blocks ms head batch) (map (\<lambda>m. cursor_block (mon_cursor m)) ms) ! i
    = (if next_block (ms ! i) \<le> plan_to (ms ! i) head batch then Some (plan_to (ms ! i) head batch)
       else cursor_block (mon_cursor (ms ! i)))"
proof -
  let ?m = "ms ! i" and ?plans = "plan_blocks ms head batch"
  let ?mine = "filter (\<lambda>p. i \<in> set (bp_monitor_indices p)) ?plans"
  have member: "p \<in> set ?mine \<Longrightarrow> wants ?m head batch (bp_block_number p)" for p
    by (auto simp: set_plan_blocks [OF batch])
  show ?thesis
  proof (cases "next_block ?m \<le> plan_to ?m head batch")
    case False
    then have "?mine = []" using member wants_plan_to [OF batch, of ?m head] by (cases ?mine) force+
    with i False show ?thesis by (simp add: plans_progress_nth)
  next
    case True
    let ?p = "\<lparr>bp_block_number = plan_to ?m head batch, bp_monitor_indices = planned_for ms head batch (plan_to ?m head batch)\<rparr>"
    have w: "wants ?m head batch (plan_to ?m head batch)" using True wants_plan_to [OF batch] by blast
    have p: "?p \<in> set ?mine" using plan_blocks_planned [OF batch i w] i w by simp
    then have "rev ?mine \<noteq> []" by (metis empty_iff empty_set rev_is_Nil_conv)
    then obtain q qs where q: "rev ?mine = q # qs" by (meson list.exhaust)
    then have mine: "?mine = rev qs @ [q]" by (metis rev_eq_Cons_iff)
    have "sorted_wrt (<) (map bp_block_number ?mine)"
      using plan_blocks_ascending [OF batch, of ms head] by (simp add: sorted_wrt_map sorted_wrt_filter)
    then have "\<forall>x \<in> set ?mine. bp_block_number x \<le> bp_block_number q"
      unfolding mine by (auto simp: sorted_wrt_append less_imp_le)
    with p have "plan_to ?m head batch \<le> bp_block_number q" by fastforce
    moreover have "q \<in> set ?mine" unfolding mine by simp
    then have "bp_block_number q \<le> plan_to ?m head batch"
      using member wants_plan_to [OF batch] by blast
    ultimately have "bp_block_number q = plan_to ?m head batch" by simp
    with q i True show ?thesis by (simp add: plans_progress_nth)
  qed
qed

section \<open>Eviction keeps what is still wanted\<close>

lemma foldl_min_le: "foldl min (n :: 'a::linorder) ns \<le> n \<and> (\<forall>x \<in> set ns. foldl min n ns \<le> x)"
proof (induction ns arbitrary: n)
  case (Cons x ns)
  from Cons.IH [of "min n x"] show ?case by auto
qed simp

text \<open>\<open>b\<close> is not below the next block of some active monitor.\<close>

lemma finish_poll_keeps_wanted:
  assumes "finish_poll ch ctx ms head pr n w = (o', w')" and "pc_cache ctx = created_cache_ops policy"
    and "i < length ms" and "length pr = length ms"
    and "cursor_next (Cursor (pr ! i)) (mon_start_block (ms ! i)) \<le> b"
  shows "snd (cache_get (pc_cache ctx) (w_cache w') ch' b) = snd (cache_get (pc_cache ctx) (w_cache w) ch' b)"
proof -
  have mem: "cursor_next (Cursor (pr ! i)) (mon_start_block (ms ! i)) \<in> set (progress_next ms pr)"
    using assms(3,4) by (force simp: progress_next_def in_set_conv_nth)
  then obtain n0 ns where ns: "progress_next ms pr = n0 # ns" by (cases "progress_next ms pr") auto
  with mem have "foldl min n0 ns \<le> cursor_next (Cursor (pr ! i)) (mon_start_block (ms ! i))"
    using foldl_min_le [of n0 ns] by auto
  with assms(5) have "\<not> b < foldl min n0 ns" by auto
  moreover have "w_cache w' = cache_evict_before (created_cache_ops policy) (w_cache w) ch (foldl min n0 ns)"
    using assms(1,2) ns by (auto simp: finish_poll_def Let_def)
  ultimately show ?thesis
    using created.get_after_evict [of policy "w_cache w" ch "foldl min n0 ns" ch' b] by (auto simp: assms(2))
qed

section \<open>The lag counts the blocks left\<close>

definition blocks_left :: "block_number \<Rightarrow> monitor \<Rightarrow> block_number option \<Rightarrow> nat set" where
  "blocks_left head m c =
     {b. (case c of None \<Rightarrow> unat (mon_start_block m) \<le> b | Some b0 \<Rightarrow> unat b0 < b)
       \<and> b \<le> unat head \<and> (case mon_end_block m of None \<Rightarrow> True | Some e \<Rightarrow> b \<le> unat e)}"

lemma unat_min: "unat (min a (b :: u64)) = min (unat a) (unat b)"
  by (auto simp: min_def word_le_nat_alt)

lemma monitor_lag_counts:
  "unat (monitor_lag head m c) = min (card (blocks_left head m c)) 18446744073709551615"
proof -
  let ?t = "min (case mon_end_block m of None \<Rightarrow> head | Some e \<Rightarrow> e) head"
  have t: "unat ?t = (case mon_end_block m of None \<Rightarrow> unat head | Some e \<Rightarrow> min (unat e) (unat head))"
    by (auto simp: unat_min split: option.split)
  have left: "blocks_left head m c
      = (case c of None \<Rightarrow> {unat (mon_start_block m) .. unat ?t} | Some b0 \<Rightarrow> {unat b0 <.. unat ?t})"
    by (auto simp: blocks_left_def t split: option.splits)
  show ?thesis
  proof (cases c)
    case None
    show ?thesis
    proof (cases "mon_start_block m \<le> ?t")
      case True
      then have "unat (mon_start_block m) \<le> unat ?t" by (simp add: word_le_nat_alt)
      with True None show ?thesis
        unfolding left by (simp add: monitor_lag_def Let_def u64_simps Suc_diff_le)
    next
      case False
      then have "unat ?t < unat (mon_start_block m)" by (simp add: word_le_nat_alt not_le)
      moreover have "monitor_lag head m None = 0" using False by (simp only: monitor_lag_def Let_def option.simps if_False)
      ultimately show ?thesis using None unfolding left by simp
    qed
  next
    case (Some b0)
    have "unat ?t - unat b0 \<le> 18446744073709551615" using unat_lt_64 [of ?t] by linarith
    with Some show ?thesis unfolding left by (simp add: monitor_lag_def Let_def u64_simps)
  qed
qed

lemma foldl_max_spec: "foldl max (a :: 'a::linorder) xs = Max (insert a (set xs))"
proof (induction xs arbitrary: a)
  case (Cons x xs)
  show ?case
  proof (cases "set xs = {}")
    case True
    then show ?thesis by (simp add: max_def)
  next
    case False
    then show ?thesis using Cons.IH [of "max a x"] by (simp add: max.assoc)
  qed
qed simp

section \<open>Cancellation ends the loop\<close>

text \<open>The live looks left never grow.\<close>

definition cancel_le :: "('c, 's) world \<Rightarrow> ('c, 's) world \<Rightarrow> bool" where
  "cancel_le w w' =
     (case w_cancel w of None \<Rightarrow> w_cancel w' = None | Some n \<Rightarrow> (\<exists>n' \<le> n. w_cancel w' = Some n'))"

lemma cancel_le_same: "w_cancel w' = w_cancel w \<Longrightarrow> cancel_le w w'"
  by (simp add: cancel_le_def split: option.split)

lemma cancel_le_trans: "cancel_le w w1 \<Longrightarrow> cancel_le w1 w2 \<Longrightarrow> cancel_le w w2"
  by (fastforce simp: cancel_le_def split: option.splits)

lemma checkpoint_cancel_le: "checkpoint w = (stop, w1) \<Longrightarrow> cancel_le w w1"
  by (auto simp: checkpoint_def cancel_le_def split: option.splits nat.splits)

lemma checkpoint_decreases:
  "checkpoint w = (False, w1) \<Longrightarrow> w_cancel w = Some n \<Longrightarrow> \<exists>m < n. w_cancel w1 = Some m"
  by (auto simp: checkpoint_def split: nat.splits)

lemma commit_prepared_cancel_le: "commit_prepared X ch ctx pb pr w = (r, w') \<Longrightarrow> cancel_le w w'"
  by (auto simp: commit_prepared_def Let_def split: prod.splits if_splits sum.splits
      dest!: checkpoint_cancel_le) (auto simp: cancel_le_def split: option.splits)

lemma prepare_calls_cancel_le: "prepare_calls X H C S ch idx plan w = (r, w') \<Longrightarrow> cancel_le w w'"
  using prepare_calls_same [of X H C S ch idx plan w r w'] by (simp add: cancel_le_same same_but_cache_def)

lemma prepare_event_window_cancel_le:
  "prepare_event_window X H C S ch idx plans q w = (r, w') \<Longrightarrow> cancel_le w w'"
  using prepare_all_same [of X H C S ch idx plans w _ w']
  by (auto simp: prepare_event_window_def same_but_cache_def intro: cancel_le_same split: prod.splits)

lemma commit_window_cancel_le: "commit_window X ch ctx ps pr n w = (r, w') \<Longrightarrow> cancel_le w w'"
proof (induction ps arbitrary: pr n w)
  case Nil
  then show ?case by (auto intro: cancel_le_same)
next
  case (Cons p ps)
  show ?case
  proof (cases p)
    case (Inl e)
    with Cons.prems show ?thesis by (auto intro: cancel_le_same)
  next
    case (Inr pb)
    obtain cr w1 where c: "commit_prepared X ch ctx pb pr w = (cr, w1)" by fastforce
    with Cons Inr commit_prepared_cancel_le [OF c] show ?thesis
      by (auto split: sum.splits commit_outcome.splits intro: cancel_le_trans)
  qed
qed

lemma commit_stream_cancel_le: "commit_stream X H ch ctx idx plans pr n w = (r, w') \<Longrightarrow> cancel_le w w'"
proof (induction plans arbitrary: pr n w)
  case Nil
  then show ?case by (auto split: prod.splits dest!: checkpoint_cancel_le)
next
  case (Cons plan plans)
  obtain stop w1 where chk: "checkpoint w = (stop, w1)" by fastforce
  obtain rp w2 where prep: "prepare_calls X H (pc_cache ctx) (pc_source ctx) ch idx plan w1 = (rp, w2)" by fastforce
  have le2: "cancel_le w w2"
    using checkpoint_cancel_le [OF chk] prepare_calls_cancel_le [OF prep] cancel_le_trans by blast
  show ?case
  proof (cases stop)
    case True
    with Cons.prems chk checkpoint_cancel_le [OF chk] show ?thesis by auto
  next
    case False
    show ?thesis
    proof (cases "res_bind rp (\<lambda>prepared. finish_prepared X H idx prepared [])")
      case (Inl e)
      with Cons.prems chk False prep le2 show ?thesis by auto
    next
      case (Inr pb)
      obtain cr w3 where c: "commit_prepared X ch ctx pb pr w2 = (cr, w3)" by fastforce
      have le3: "cancel_le w w3" using le2 commit_prepared_cancel_le [OF c] cancel_le_trans by blast
      with Cons Inr chk False prep c show ?thesis
        by (auto split: sum.splits commit_outcome.splits intro: cancel_le_trans)
    qed
  qed
qed

lemma run_window_cancel_le: "run_window X H ch ctx idx window pr n w = (r, w') \<Longrightarrow> cancel_le w w'"
  by (auto simp: run_window_def Let_def split: sum.splits option.splits prod.splits if_splits
      dest!: checkpoint_cancel_le prepare_event_window_cancel_le commit_window_cancel_le commit_stream_cancel_le
      intro: cancel_le_same cancel_le_trans)

lemma run_windows_cancel_le: "run_windows X H ch ctx idx windows pr n w = (r, w') \<Longrightarrow> cancel_le w w'"
proof (induction windows arbitrary: pr n w)
  case Nil
  then show ?case by (auto intro: cancel_le_same)
next
  case (Cons window windows)
  obtain r1 w1 where one: "run_window X H ch ctx idx window pr n w = (r1, w1)" by fastforce
  with Cons run_window_cancel_le [OF one] show ?case
    by (auto split: sum.splits loop_state.splits intro: cancel_le_trans)
qed

lemma finish_poll_cancel_le: "finish_poll ch ctx ms head pr n w = (o', w') \<Longrightarrow> cancel_le w w'"
  by (auto simp: finish_poll_def Let_def intro!: cancel_le_same split: list.splits)

lemma run_once_cancel_le: "run_once X H cfg ctx w = (r, w') \<Longrightarrow> cancel_le w w'"
proof -
  assume run: "run_once X H cfg ctx w = (r, w')"
  obtain s1 w1 where c1: "checkpoint w = (s1, w1)" by fastforce
  obtain s2 w2 where c2: "checkpoint w1 = (s2, w2)" by fastforce
  obtain s3 w3 where c3: "checkpoint w2 = (s3, w3)" by fastforce
  have le: "cancel_le w w1" "cancel_le w w2" "cancel_le w w3"
    using c1 c2 c3 checkpoint_cancel_le cancel_le_trans by metis+
  have tail: "cancel_le w w4" if "run_windows X H ch ctx idx ws pr n w2 = (lr, w4)" for ch idx ws pr n lr w4
    using run_windows_cancel_le [OF that] le(2) cancel_le_trans by blast
  have "cancel_le w w5" if "run_windows X H ch ctx idx ws pr n w2 = (lr, w4)"
    "finish_poll ch ctx ms head pr' n' w4 = (o', w5)" for ch idx ws pr n lr w4 ms head pr' n' o' w5
    using tail [OF that(1)] finish_poll_cancel_le [OF that(2)] cancel_le_trans by blast
  with run c1 c2 c3 le tail show ?thesis
    by (auto simp: run_once_def Let_def cancel_le_def split: if_splits sum.splits prod.splits loop_state.splits option.splits)
qed

lemma worker_turn_decreases:
  assumes "worker_turn X H cfg ctx now status w = (False, status', w')" and "w_cancel w = Some n"
  shows "\<exists>m < n. w_cancel w' = Some m"
proof -
  from assms(1) obtain w1 r w2 where turn: "checkpoint w = (False, w1)" "run_once X H cfg ctx w1 = (r, w2)"
    "checkpoint w2 = (False, w')"
    by (auto simp: worker_turn_def split: prod.splits if_splits option.splits)
  from checkpoint_decreases [OF turn(1) assms(2)] obtain m where m: "m < n" "w_cancel w1 = Some m" by blast
  have "cancel_le w1 w'"
    using run_once_cancel_le [OF turn(2)] checkpoint_cancel_le [OF turn(3)] cancel_le_trans by blast
  with m show ?thesis by (auto simp: cancel_le_def)
qed

lemma worker_run_returns:
  assumes "w_cancel w = Some n"
  shows "\<exists>status' w'. worker_run X H cfg ctxs clock k status w = Some (status', w')"
  using assms
proof (induction n arbitrary: k status w rule: less_induct)
  case (less n)
  obtain stop s1 w1 where turn: "worker_turn X H cfg (ctxs k) (clock k) status w = (stop, s1, w1)"
    by (metis prod.exhaust)
  show ?case
  proof (cases stop)
    case True
    with turn show ?thesis by (subst worker_run.simps) simp
  next
    case False
    with turn have "worker_turn X H cfg (ctxs k) (clock k) status w = (False, s1, w1)" by simp
    from worker_turn_decreases [OF this less.prems] obtain m where "m < n" "w_cancel w1 = Some m" by blast
    from less.IH [OF this] turn False show ?thesis by (subst worker_run.simps) simp
  qed
qed

end
