(* ===== verification/Reference_Externals.thy ===== *)
theory Reference_Externals
  imports Services Worker_Loop
begin

text \<open>
  A concrete record of third-party functions, which satisfies every law the properties name as a
  hypothesis: Solidity type names, decimal and hexadecimal texts, and the 32-byte words of
  static ABI data. It models no code of the repository; the witnesses of the properties evaluate
  on it.
\<close>

section \<open>Type names\<close>

fun ref_ty_display :: "dyn_sol_type \<Rightarrow> string" where
  "ref_ty_display TBool = ''bool''"
| "ref_ty_display (TInt n) = ''int'' @ show_nat n"
| "ref_ty_display (TUint n) = ''uint'' @ show_nat n"
| "ref_ty_display (TFixedBytes n) = ''bytes'' @ show_nat n"
| "ref_ty_display TAddress = ''address''"
| "ref_ty_display TFunction = ''function''"
| "ref_ty_display TBytes = ''bytes''"
| "ref_ty_display TString = ''string''"
| "ref_ty_display (TTuple ts) = ''tuple''"
| "ref_ty_display (TComposite s) = s"

definition ref_ty_from_str :: "string \<Rightarrow> string + dyn_sol_type" where
  "ref_ty_from_str s =
     (if s = ''bool'' then Inr TBool
      else if s = ''address'' then Inr TAddress
      else if s = ''function'' then Inr TFunction
      else if s = ''bytes'' then Inr TBytes
      else if s = ''string'' then Inr TString
      else
        (case (strip_prefix ''uint'' s, strip_prefix ''int'' s, strip_prefix ''bytes'' s) of
           (Some d, _, _) \<Rightarrow> Inr (TUint (digits_value d))
         | (None, Some d, _) \<Rightarrow> Inr (TInt (digits_value d))
         | (None, None, Some d) \<Rightarrow> Inr (TFixedBytes (digits_value d))
         | _ \<Rightarrow> Inl ''unknown type''))"

lemma ref_type_text: "scalar_type ty \<Longrightarrow> ref_ty_from_str (ref_ty_display ty) = Inr ty"
  by (cases ty) (simp_all add: ref_ty_from_str_def strip_prefix_def scalar_type_def)

section \<open>Decimal texts\<close>

definition ref_int_of_text :: "string \<Rightarrow> int option" where
  "ref_int_of_text s =
     (case strip_prefix ''-'' s of
        Some d \<Rightarrow> if decimal_text d then Some (- int (digits_value d)) else None
      | None \<Rightarrow> if decimal_text s then Some (int (digits_value s)) else None)"

lemma decimal_text_show_nat [simp]: "decimal_text (show_nat n)"
  by (auto simp: decimal_text_def show_nat_digits)

lemma strip_minus_show_nat [simp]: "strip_prefix ''-'' (show_nat n) = None"
proof -
  have "hd (show_nat n) \<noteq> CHR ''-''"
    using show_nat_digits [of "hd (show_nat n)" n] digit_not_minus by simp
  then show ?thesis by (cases "show_nat n") (auto simp: strip_prefix_def)
qed

lemma strip_minus_Cons [simp]: "strip_prefix ''-'' (CHR ''-'' # s) = Some s"
  by (simp add: strip_prefix_def)

lemma ref_int_of_text_show_int [simp]: "ref_int_of_text (show_int i) = Some i"
  by (auto simp: ref_int_of_text_def show_int_def)

lemma signed_decimal_text_show_int [simp]: "signed_decimal_text (show_int i)"
  by (auto simp: signed_decimal_text_def show_int_def)

section \<open>Hexadecimal texts\<close>

definition hex_char :: "nat \<Rightarrow> char" where
  "hex_char n = char_of (if n < 10 then 48 + n else 87 + n)"

definition hex_value :: "char \<Rightarrow> nat option" where
  "hex_value c =
     (let n = (of_char c :: nat) in
      if 48 \<le> n \<and> n \<le> 57 then Some (n - 48)
      else if 97 \<le> n \<and> n \<le> 102 then Some (n - 87)
      else None)"

lemma hex_value_char [simp]: "n < 16 \<Longrightarrow> hex_value (hex_char n) = Some n"
  by (auto simp: hex_value_def hex_char_def Let_def)

lemma hexdigit_hex_char [simp]: "n < 16 \<Longrightarrow> is_ascii_hexdigit (hex_char n)"
  by (auto simp: is_ascii_hexdigit_def is_ascii_digit_def hex_char_def)

fun ref_hex_encode :: "bytes \<Rightarrow> string" where
  "ref_hex_encode [] = []"
| "ref_hex_encode (b # bs) = hex_char (unat b div 16) # hex_char (unat b mod 16) # ref_hex_encode bs"

fun ref_hex_decode :: "string \<Rightarrow> string + bytes" where
  "ref_hex_decode [] = Inr []"
| "ref_hex_decode [c] = Inl ''odd number of digits''"
| "ref_hex_decode (c # d # s) =
     (case (hex_value c, hex_value d, ref_hex_decode s) of
        (Some h, Some l, Inr bs) \<Rightarrow> Inr (word_of_nat (16 * h + l) # bs)
      | _ \<Rightarrow> Inl ''invalid character'')"

lemma unat_u8_div: "unat (b :: u8) div 16 < 16"
proof -
  have "unat b < 256" using unsigned_less [of b] by simp
  then show ?thesis by simp
qed

lemma ref_hex_decode_encode [simp]: "ref_hex_decode (ref_hex_encode bs) = Inr bs"
  by (induction bs) (simp_all add: unat_u8_div)

lemma length_ref_hex_encode [simp]: "length (ref_hex_encode bs) = 2 * length bs"
  by (induction bs) simp_all

lemma hex_text_ref_hex_encode [simp]: "hex_text (ref_hex_encode bs)"
  by (induction bs) (simp_all add: hex_text_def unat_u8_div)

lemma inj_ref_hex_encode: "inj ref_hex_encode"
  by (metis injI ref_hex_decode_encode sum.inject(2))

text \<open>A fixed-size word as \<open>0x\<close> and its hexadecimal bytes.\<close>

definition ref_word_display :: "nat \<Rightarrow> 'a::len word \<Rightarrow> string" where
  "ref_word_display n w = ''0x'' @ ref_hex_encode (be_bytes n w)"

definition ref_word_from_str :: "nat \<Rightarrow> string \<Rightarrow> string + 'a::len word" where
  "ref_word_from_str n s =
     (case strip_prefix ''0x'' s of
        None \<Rightarrow> Inl ''missing prefix''
      | Some h \<Rightarrow>
          (case ref_hex_decode h of
             Inl e \<Rightarrow> Inl e
           | Inr bs \<Rightarrow> if length bs = n then Inr (of_be_bytes bs) else Inl ''invalid length''))"

lemma ref_word_from_display:
  "LENGTH('a) = 8 * n \<Longrightarrow> ref_word_from_str n (ref_word_display n (w :: 'a::len word)) = Inr w"
  by (simp add: ref_word_from_str_def ref_word_display_def strip_prefix_append [of "''0x''", simplified])

lemma ref_address_from_display: "ref_word_from_str 20 (ref_word_display 20 (a :: address)) = Inr a"
  by (rule ref_word_from_display) simp

section \<open>ABI words\<close>

text \<open>The value of one 32-byte word, for the static scalar types; the others are refused.\<close>

definition ref_decode_word :: "dyn_sol_type \<Rightarrow> 256 word \<Rightarrow> string + dyn_sol_value" where
  "ref_decode_word ty w =
     (case ty of
        TBool \<Rightarrow> Inr (VBool (w \<noteq> 0))
      | TInt n \<Rightarrow> Inr (VInt w n)
      | TUint n \<Rightarrow> Inr (VUint w n)
      | TFixedBytes n \<Rightarrow> if n \<le> 32 then Inr (VFixedBytes w n) else Inl ''bytes type is too wide''
      | TAddress \<Rightarrow> Inr (VAddress (ucast w))
      | _ \<Rightarrow> Inl ''type has a dynamic encoding'')"

lemma ref_decode_word_type: "ref_decode_word ty w = Inr v \<Longrightarrow> sol_value_has_type ty v"
  by (cases ty) (auto simp: ref_decode_word_def split: if_splits)

fun ref_decode_words :: "dyn_sol_type list \<Rightarrow> bytes \<Rightarrow> string + dyn_sol_value list" where
  "ref_decode_words [] data = Inr []"
| "ref_decode_words (ty # tys) data =
     (if length data < 32 then Inl ''data is too short''
      else
        (case (ref_decode_word ty (of_be_bytes (take 32 data)), ref_decode_words tys (drop 32 data)) of
           (Inr v, Inr vs) \<Rightarrow> Inr (v # vs)
         | (Inl e, _) \<Rightarrow> Inl e
         | (_, Inl e) \<Rightarrow> Inl e))"

lemma ref_decode_words_types: "ref_decode_words tys data = Inr vs \<Longrightarrow> list_all2 sol_value_has_type tys vs"
  by (induction tys data arbitrary: vs rule: ref_decode_words.induct)
    (auto simp: ref_decode_word_type split: if_splits sum.splits)

definition ref_abi_decode_params :: "dyn_sol_type \<Rightarrow> bytes \<Rightarrow> string + dyn_sol_value" where
  "ref_abi_decode_params ty data =
     (case ty of
        TTuple tys \<Rightarrow> (case ref_decode_words tys data of Inl e \<Rightarrow> Inl e | Inr vs \<Rightarrow> Inr (VTuple vs))
      | _ \<Rightarrow> Inl ''not a parameter tuple'')"

fun ref_decode_topics :: "dyn_sol_type list \<Rightarrow> b256 list \<Rightarrow> string + dyn_sol_value list" where
  "ref_decode_topics [] topics = Inr []"
| "ref_decode_topics (ty # tys) topics =
     (case topics of
        [] \<Rightarrow> Inl ''topic is missing''
      | t # ts \<Rightarrow>
          (case (ref_decode_word (topic_type ty) t, ref_decode_topics tys ts) of
             (Inr v, Inr vs) \<Rightarrow> Inr (v # vs)
           | (Inl e, _) \<Rightarrow> Inl e
           | (_, Inl e) \<Rightarrow> Inl e))"

lemma ref_decode_topics_types:
  "ref_decode_topics tys topics = Inr vs \<Longrightarrow> list_all2 sol_value_has_type (map topic_type tys) vs"
  by (induction tys topics arbitrary: vs rule: ref_decode_topics.induct)
    (auto simp: ref_decode_word_type split: list.splits sum.splits)

definition ref_dyn_sol_event_new ::
  "b256 option \<Rightarrow> dyn_sol_type list \<Rightarrow> dyn_sol_type \<Rightarrow> dyn_sol_event option" where
  "ref_dyn_sol_event_new t0 indexed body =
     (if length indexed \<le> 3 then Some (DynSolEvent t0 indexed body) else None)"

definition ref_decode_log_parts ::
  "dyn_sol_event \<Rightarrow> b256 list \<Rightarrow> bytes \<Rightarrow> string + (dyn_sol_value list \<times> dyn_sol_value list)" where
  "ref_decode_log_parts ev topics data =
     (if (case ev_topic0 ev of None \<Rightarrow> False | Some t0 \<Rightarrow> slice_get topics 0 \<noteq> Some t0) then Inl ''topic mismatch''
      else
        (case (ref_decode_topics (ev_indexed ev) (case ev_topic0 ev of None \<Rightarrow> topics | Some _ \<Rightarrow> drop 1 topics),
               case ev_body ev of TTuple tys \<Rightarrow> ref_decode_words tys data | _ \<Rightarrow> Inl ''not a tuple'') of
           (Inr is, Inr bs) \<Rightarrow> Inr (is, bs)
         | (Inl e, _) \<Rightarrow> Inl e
         | (_, Inl e) \<Rightarrow> Inl e))"

section \<open>Coercions, signatures and JSON\<close>

definition ref_coerce_str :: "dyn_sol_type \<Rightarrow> string \<Rightarrow> string + dyn_sol_value" where
  "ref_coerce_str ty s =
     (case ty of
        TBool \<Rightarrow> if s = ''true'' then Inr (VBool True) else if s = ''false'' then Inr (VBool False) else Inl ''not a bool''
      | TUint bits \<Rightarrow>
          if decimal_text s \<and> bits \<le> 256 \<and> digits_value s < 2 ^ bits
          then Inr (VUint (word_of_nat (digits_value s)) bits) else Inl ''not a number''
      | TInt bits \<Rightarrow>
          (case ref_int_of_text s of
             None \<Rightarrow> Inl ''not a number''
           | Some i \<Rightarrow>
               if 1 \<le> bits \<and> bits \<le> 256 \<and> - (2 ^ (bits - 1)) \<le> i \<and> i < 2 ^ (bits - 1)
               then Inr (VInt (word_of_int i) bits) else Inl ''out of range'')
      | TAddress \<Rightarrow> (case ref_word_from_str 20 s of Inl e \<Rightarrow> Inl e | Inr a \<Rightarrow> Inr (VAddress a))
      | TString \<Rightarrow> Inr (VString s)
      | _ \<Rightarrow> Inl ''not a literal'')"

definition ref_item :: "string \<Rightarrow> string + abi_item" where
  "ref_item s =
     (if s = ''function transfer(address to, uint256 amount)'' then
        Inr (ItemFunction \<lparr>jf_inputs =
               [\<lparr>ja_name = ''to'', ja_ty = ''address'', ja_indexed = False\<rparr>,
                \<lparr>ja_name = ''amount'', ja_ty = ''uint256'', ja_indexed = False\<rparr>], jf_selector = 0xa9059cbb\<rparr>)
      else if s = ''event Ping(uint256 indexed id, address who)'' then
        Inr (ItemEvent \<lparr>je_inputs =
               [\<lparr>ja_name = ''id'', ja_ty = ''uint256'', ja_indexed = True\<rparr>,
                \<lparr>ja_name = ''who'', ja_ty = ''address'', ja_indexed = False\<rparr>], je_anonymous = False, je_selector = 7\<rparr>)
      else if s = ''constructor()'' then Inr ItemOther
      else Inl ''unexpected token'')"

fun ref_json_text :: "json \<Rightarrow> string" and ref_fields_text :: "(string \<times> json) list \<Rightarrow> string" where
  "ref_json_text JNull = ''null''"
| "ref_json_text (JBool b) = (if b then ''true'' else ''false'')"
| "ref_json_text (JNumber s) = s"
| "ref_json_text (JString s) = CHR 0x22 # s @ [CHR 0x22]"
| "ref_json_text (JArray vs) = ''['' @ concat (map (\<lambda>v. ref_json_text v @ '','') vs) @ '']''"
| "ref_json_text (JObject fs) = ''{'' @ ref_fields_text fs @ ''}''"
| "ref_fields_text [] = []"
| "ref_fields_text ((k, v) # fs) = CHR 0x22 # k @ [CHR 0x22] @ '':'' @ ref_json_text v @ '','' @ ref_fields_text fs"

definition ref_externs :: externs where
  "ref_externs =
     \<lparr>ty_display = ref_ty_display, ty_from_str = ref_ty_from_str,
      resolve_type = (\<lambda>p. ref_ty_from_str (ja_ty p)), abi_item_parse = ref_item,
      abi_decode_params = ref_abi_decode_params, dyn_sol_event_new = ref_dyn_sol_event_new,
      decode_log_parts = ref_decode_log_parts, coerce_str = ref_coerce_str,
      u256_display = (\<lambda>w. show_nat (unat w)), i256_display = (\<lambda>w. show_int (sint w)),
      address_display = ref_word_display 20, address_from_str = ref_word_from_str 20,
      b256_display = ref_word_display 32, b256_from_str = ref_word_from_str 32,
      selector_display = ref_word_display 4, selector_from_str = ref_word_from_str 4,
      hex_encode = ref_hex_encode, hex_decode = ref_hex_decode,
      json_to_vec = (\<lambda>j. Inr (map of_char (ref_json_text j)))\<rparr>"

section \<open>The laws hold\<close>

lemma ref_type_text_laws: "type_text_laws ref_externs"
  by (simp add: type_text_laws_def ref_externs_def ref_type_text)

lemma ref_abi_decode_laws: "abi_decode_laws ref_externs"
  unfolding abi_decode_laws_def
  by (auto simp: ref_externs_def ref_abi_decode_params_def ref_dyn_sol_event_new_def ref_decode_log_parts_def
      ref_decode_words_types ref_decode_topics_types split: sum.splits if_splits option.splits)

lemma ref_display_inj:
  "inj (ref_word_display 20 :: address \<Rightarrow> string)" "inj (\<lambda>w :: u256. show_nat (unat w))"
  "inj (\<lambda>w :: i256. show_int (sint w))"
proof -
  show "inj (ref_word_display 20 :: address \<Rightarrow> string)"
    by (metis injI ref_address_from_display sum.inject(2))
  show "inj (\<lambda>w :: u256. show_nat (unat w))" by (rule injI) (simp add: word_unat_eq_iff)
  show "inj (\<lambda>w :: i256. show_int (sint w))" 
  proof (rule injI)
    fix a b :: i256 assume "show_int (sint a) = show_int (sint b)"
    then have "sint a = sint b" by simp
    then have "(word_of_int (sint a) :: i256) = word_of_int (sint b)" by (rule arg_cong)
    then show "a = b" by simp
  qed
qed

lemma ref_display_laws: "display_laws ref_externs"
  using ref_display_inj inj_ref_hex_encode by (simp add: display_laws_def ref_externs_def)

lemma ref_coerce_uint:
  assumes "ref_coerce_str (TUint bits) s = Inr v"
  shows "\<exists>w n. v = VUint w n \<and> decimal_text (show_nat (unat w)) \<and> ref_coerce_str (TUint bits) (show_nat (unat w)) = Inr v"
proof -
  from assms have v: "v = VUint (word_of_nat (digits_value s)) bits" "bits \<le> 256" "digits_value s < 2 ^ bits"
    by (auto simp: ref_coerce_str_def split: if_splits)
  have "(2 :: nat) ^ bits \<le> 2 ^ 256" by (rule power_increasing) (use v(2) in simp_all)
  with v(3) have "digits_value s < 2 ^ LENGTH(256)" by (simp only: len_num1 len_num0 len_bit0 len_bit1) simp
  then have "unat (word_of_nat (digits_value s) :: u256) = digits_value s"
    by (simp add: unat_of_nat take_bit_nat_eq_self del: len_bit0)
  with v show ?thesis by (auto simp: ref_coerce_str_def)
qed

lemma ref_coerce_int:
  assumes "ref_coerce_str (TInt bits) s = Inr v"
  shows "\<exists>w n. v = VInt w n \<and> signed_decimal_text (show_int (sint w)) \<and> ref_coerce_str (TInt bits) (show_int (sint w)) = Inr v"
proof -
  from assms obtain i where v: "v = VInt (word_of_int i) bits" "1 \<le> bits" "bits \<le> 256"
    "- (2 ^ (bits - 1)) \<le> i" "i < 2 ^ (bits - 1)"
    by (auto simp: ref_coerce_str_def split: if_splits option.splits)
  have le: "(2 :: int) ^ (bits - 1) \<le> 2 ^ 255" by (rule power_increasing) (use v(3) in simp_all)
  have "sint (word_of_int i :: i256) = i"
    using le v(4,5) by (simp add: signed_take_bit_int_eq_self sint_sbintrunc')
  with v show ?thesis by (auto simp: ref_coerce_str_def)
qed

lemma ref_value_text_laws: "value_text_laws ref_externs"
proof -
  have "\<exists>h. ref_word_display 20 (a :: address) = ''0x'' @ h \<and> length h = 40 \<and> hex_text h
      \<and> ref_word_from_str 20 (ref_word_display 20 a) = Inr a" for a
    using ref_address_from_display [of a] by (auto simp: ref_word_display_def)
  then show ?thesis
    unfolding value_text_laws_def using ref_coerce_uint ref_coerce_int by (auto simp: ref_externs_def)
qed

lemmas ref_laws = ref_type_text_laws ref_abi_decode_laws ref_value_text_laws ref_display_laws

end
