(* ===== verification/Reference_Scenario.thy ===== *)
theory Reference_Scenario
  imports Reference_Externals
begin

text \<open>
  A small chain, its source and storage, and two monitors, on which the witnesses evaluate: block
  5 has one transaction calling the watched contract and one watched log. It models no code of
  the repository.
\<close>

definition ex_amount :: abi_param where
  "ex_amount = \<lparr>param_name = ''amount'', param_ty = TUint 256, param_indexed = False\<rparr>"

definition ex_ident :: abi_param where
  "ex_ident = \<lparr>param_name = ''id'', param_ty = TUint 256, param_indexed = True\<rparr>"

definition ex_call_target :: call_target where
  "ex_call_target = \<lparr>ct_address = 17, ct_selector = 0x01020304, ct_inputs = [ex_amount]\<rparr>"

definition ex_event_target :: event_target where
  "ex_event_target = \<lparr>et_address = 34, et_topic0 = 7, et_params = [ex_ident]\<rparr>"

definition ex_call_monitor :: monitor where
  "ex_call_monitor =
     \<lparr>mon_id = MonitorId 1, mon_chain = Chain 1, mon_target = CallT ex_call_target, mon_start_block = 4,
      mon_end_block = None, mon_cursor = Cursor None, mon_completed = False, mon_enabled = True,
      mon_filter = FilterAll\<rparr>"

definition ex_event_monitor :: monitor where
  "ex_event_monitor =
     \<lparr>mon_id = MonitorId 2, mon_chain = Chain 1, mon_target = EventT ex_event_target, mon_start_block = 2,
      mon_end_block = Some 5, mon_cursor = Cursor (Some 4), mon_completed = False, mon_enabled = True,
      mon_filter = FilterAll\<rparr>"

definition ex_monitors :: "monitor list" where
  "ex_monitors = [ex_call_monitor, ex_event_monitor]"

definition ex_tx :: block_transaction where
  "ex_tx = \<lparr>bt_hash = 99, bt_from = 50, bt_to = 17, bt_input = [1, 2, 3, 4] @ be_bytes 32 (42 :: u256)\<rparr>"

definition ex_log :: source_log where
  "ex_log =
     \<lparr>sl_block_number = Some 5, sl_transaction_hash = Some 99, sl_log_index = Some 0, sl_address = 34,
      sl_topics = [7, 8], sl_data = [], sl_removed = False\<rparr>"

definition ex_chain :: chain_data where
  "ex_chain =
     \<lparr>cd_block = (\<lambda>b. \<lparr>sb_number = b, sb_transactions = if b = 5 then [ex_tx] else []\<rparr>),
      cd_succeeded = (\<lambda>h. True), cd_logs = (\<lambda>b. if b = 5 then [ex_log] else [])\<rparr>"

definition ex_source :: block_source where
  "ex_source =
     \<lparr>bs_chain_id = Inr 1, bs_finalized_head = Inr 6, bs_fetch_block = (\<lambda>b. Inr (cd_block ex_chain b)),
      bs_fetch_execution_outcomes =
        (\<lambda>b hs. Inr (map (\<lambda>h. \<lparr>eo_transaction_hash = h, eo_succeeded = True\<rparr>) hs)),
      bs_fetch_logs = (\<lambda>q. Inr (if in_range (lq_range q) 5 then filter (targeted q) [ex_log] else [])),
      bs_set_rpc_url = (\<lambda>u. Inr ())\<rparr>"

text \<open>A storage that keeps every commit in a list.\<close>

definition ex_storage :: "block_commit list index_storage" where
  "ex_storage = \<lparr>is_load_monitors = (\<lambda>s ch. Inr ex_monitors), is_commit_block = (\<lambda>s c. (Inr (), s @ [c]))\<rparr>"

definition ex_order :: hash_order where
  "ex_order = \<lparr>ho_calls = rev, ho_events = rev\<rparr>"

definition ex_index :: monitor_index where
  "ex_index = projr (monitor_index_new ref_externs ex_monitors)"

definition ex_policy :: eviction_policy where
  "ex_policy = (\<lambda>capacity entries. {})"

definition ex_context :: "(created_cache, block_commit list) poll_context" where
  "ex_context =
     \<lparr>pc_storage = ex_storage, pc_source = ex_source, pc_cache = created_cache_ops ex_policy,
      pc_writes_open = True, pc_sink_enabled = True\<rparr>"

definition ex_config :: worker_config where
  "ex_config = \<lparr>wc_chain = Chain 1, wc_batch_size = 10, wc_block_concurrency = 4, wc_poll_interval = 1000\<rparr>"

definition ex_world :: "(created_cache, block_commit list) world" where
  "ex_world =
     \<lparr>w_cache = cache_factory_create 8, w_storage = [], w_telemetry = [], w_sink = [], w_cancel = None\<rparr>"

lemmas ex_defs = ex_amount_def ex_ident_def ex_call_target_def ex_event_target_def ex_call_monitor_def
  ex_event_monitor_def ex_monitors_def ex_tx_def ex_log_def ex_chain_def ex_source_def ex_storage_def
  ex_order_def ex_policy_def ex_context_def ex_config_def ex_world_def

lemma ex_active [simp]: "active_monitors ex_monitors = ex_monitors"
  by (simp add: active_monitors_def ex_monitors_def ex_call_monitor_def ex_event_monitor_def)

lemma ex_event_decoder:
  "event_decoder_new ref_externs (et_params ex_event_target) 7
     = Inr \<lparr>edec_event = DynSolEvent (Some 7) [TUint 256] (TTuple []), edec_indexed = [True]\<rparr>"
  by (simp add: event_decoder_new_def ex_event_target_def ex_ident_def ref_externs_def ref_dyn_sol_event_new_def)

lemma ex_index: "monitor_index_new ref_externs ex_monitors = Inr ex_index"
proof -
  have "\<exists>idx. monitor_index_new ref_externs ex_monitors = Inr idx"
    using ex_event_decoder
    by (simp add: monitor_index_new_def ex_monitors_def active_monitors_def ex_call_monitor_def ex_event_monitor_def
        index_monitor_def Let_def entry_groups_def ex_event_target_def)
  then show ?thesis by (auto simp: ex_index_def)
qed

lemma ex_index_monitors [simp]: "mi_monitors ex_index = ex_monitors"
  using monitor_index_new_ok(2) [OF ex_index] by simp

lemma ex_monitors_ok: "\<forall>m \<in> set ex_monitors. monitor_ok ref_externs m"
  by (simp add: ex_defs monitor_ok_def schema_ok_def target_params_def filter_compiled_def scalar_type_def)

lemma ex_order_ok: "hash_order_ok ex_order"
  by (simp add: hash_order_ok_def ex_order_def)

lemma ex_faithful: "faithful_source ex_source ex_chain"
  by (auto simp: faithful_source_def ex_source_def ex_chain_def ex_log_def)

lemma ex_chain_ok: "chain_data_ok ex_chain"
  by (simp add: chain_data_ok_def ex_chain_def ex_log_def log_positioned_def log_position_of_def)

lemma ex_poll_ok: "poll_ok ref_externs ex_order ex_monitors ex_index ex_source ex_chain"
  using ex_index ex_monitors_ok ex_order_ok ex_faithful ex_chain_ok ref_laws by (simp add: poll_ok_def)


section \<open>Decoded parameters\<close>

lemma ex_event_params:
  "event_decode ref_externs \<lparr>edec_event = DynSolEvent (Some 7) [TUint 256] (TTuple []), edec_indexed = [True]\<rparr> [7, 8] []
     = Inr [DUint 8]"
  by (simp add: event_decode_def ref_externs_def ref_decode_log_parts_def slice_get_def topic_type_def
      ref_decode_word_def decode_value_def)

section \<open>A filter\<close>

definition ex_comparison :: comparison where
  "ex_comparison = \<lparr>cmp_field = ''params.amount'', cmp_op = OpGt, cmp_value = JString ''10''\<rparr>"

definition ex_filter :: filter_expression where
  "ex_filter = FNot (FCompare ex_comparison)"

definition ex_compiled :: compiled_expression where
  "ex_compiled = CNot (CCompare (ParameterField 0) OpGt (FVUint 10))"

definition ex_definition :: filter_definition where
  "ex_definition =
     \<lparr>fd_version = FILTER_VERSION, fd_expression = FNot (FCompare (ex_comparison\<lparr>cmp_value := JString (show_nat 10)\<rparr>))\<rparr>"

definition ex_call_context :: filter_context where
  "ex_call_context = CtxCall 5 99 50 17 [DUint 42]"

lemma ex_call_conforms: "context_conforms (CallT ex_call_target) ex_call_context"
  by (simp add: context_conforms_def ex_call_context_def ex_call_target_def ex_amount_def params_conform_def wire_type_def)

lemma show_ten: "length (show_nat 10) = 2"
  by (simp add: show_nat.simps)

lemma ex_json:
  "json_to_vec ref_externs (expression_json (fd_expression ex_definition))
     = Inr (map of_char (ref_json_text (expression_json (fd_expression ex_definition))))"
  by (simp add: ref_externs_def)

lemma ex_json_length: "length (ref_json_text (expression_json (fd_expression ex_definition))) \<le> MAX_BYTES"
  by (simp add: ex_definition_def ex_comparison_def show_ten op_name_def MAX_BYTES_def)

lemma ex_prepared: "prepare ref_externs ex_filter (CallT ex_call_target) = Inr (ex_definition, FilterExpr ex_compiled)"
proof -
  have "validate_limits ref_externs ex_filter = Inr ()"
    by (simp add: validate_limits_Inr ex_filter_def ex_comparison_def ref_externs_def op_name_def
        MAX_BYTES_def MAX_NODES_def MAX_DEPTH_def)
  moreover have "compile_expression ref_externs ex_filter (CallT ex_call_target) ''/filter''
      = Inr (fd_expression ex_definition, ex_compiled)"
    by (simp add: ex_filter_def ex_comparison_def ex_definition_def ex_compiled_def ex_call_target_def ex_amount_def
        compile_comparison_def resolve_field_def is_event_target_def strip_prefix_def target_params_def
        value_type_def op_ordered_def integer_type_def parse_value_def parse_uint_def json_string_def
        is_ascii_digit_def ref_externs_def ref_coerce_str_def decimal_text_def digits_value_def)
  ultimately show ?thesis by (simp add: prepare_def ex_definition_def)
qed

end
