(* ===== verification/Decoding_Properties.thy ===== *)
theory Decoding_Properties
  imports Reference_Scenario
begin

text \<open>
  The properties of the ABI layer, the filter engine, the monitor index and the block planner,
  each with a witness on the data of \<open>Reference_Scenario\<close>.
\<close>

text \<open>
  C8. Decoding calls through the layout-grouped index is decoding every monitor on its own: for
  any list of candidate transactions with their execution outcomes, \<open>decode_call_list\<close> succeeds
  and yields, as a multiset, what each planned monitor that still needs the block matches,
  filtered by its own compiled filter, over the transactions that succeeded.
\<close>

theorem call_decoding_equals_reference:
  assumes "monitor_index_new X all = Inr idx" and "\<forall>m \<in> set all. monitor_ok X m"
    and "type_text_laws X" and "abi_decode_laws X" and "hash_order_ok H"
    and "sorted_wrt (<) planned"
    and "\<forall>(ti, out) \<in> set pairs. ti < length (sb_transactions block)
      \<and> eo_transaction_hash out = bt_hash (sb_transactions block ! ti)"
  shows "\<exists>cs. decode_call_list X H idx block planned pairs = Inr cs
    \<and> mset cs = mset (concat (map (\<lambda>(ti, out). if eo_succeeded out
        then reference_calls X (mi_monitors idx) (sb_number block) planned (sb_transactions block ! ti)
        else []) pairs))"
  by (rule decode_call_list_reference [OF assms(1,3,4,5,2,6,7)])

lemma call_decoding_equals_reference_witness:
  "\<exists>cs. decode_call_list ref_externs ex_order ex_index (cd_block ex_chain 5) [0, 1]
      [(0, \<lparr>eo_transaction_hash = 99, eo_succeeded = True\<rparr>)] = Inr cs
    \<and> mset cs = mset (reference_calls ref_externs ex_monitors 5 [0, 1] ex_tx)"
proof -
  let ?pairs = "[(0 :: nat, \<lparr>eo_transaction_hash = 99 :: b256, eo_succeeded = True\<rparr>)]"
  have outs: "\<forall>(ti, out) \<in> set ?pairs. ti < length (sb_transactions (cd_block ex_chain 5))
      \<and> eo_transaction_hash out = bt_hash (sb_transactions (cd_block ex_chain 5) ! ti)"
    by (simp add: ex_chain_def ex_tx_def)
  have "sorted_wrt (<) [0, 1 :: nat]" by simp
  from call_decoding_equals_reference [OF ex_index ex_monitors_ok ref_laws(1,2) ex_order_ok this outs]
  show ?thesis by (simp add: ex_chain_def)
qed

text \<open>
  C9. Decoding events through the index is decoding every monitor on its own: for the logs of a
  block with their positions, \<open>decode_events\<close> succeeds and yields, as a multiset, the events of
  the planned monitors that still need the block, each log decoded with the monitor's own
  schema and filtered by its own filter.
\<close>

theorem event_decoding_equals_reference:
  assumes "monitor_index_new X all = Inr idx" and "\<forall>m \<in> set all. monitor_ok X m"
    and "type_text_laws X" and "abi_decode_laws X" and "hash_order_ok H"
    and "sorted_wrt (<) planned"
    and "list_all2 (\<lambda>log pos. log_positioned log block pos) logs poss"
  shows "\<exists>es. decode_events X H block idx planned logs = Inr es
    \<and> mset es = mset (concat (map (\<lambda>(log, pos).
        reference_events X (mi_monitors idx) block planned log pos) (zip logs poss)))"
  by (rule decode_events_reference [OF assms(1,3,4,5,2,6,7)])

lemma event_decoding_equals_reference_witness:
  "\<exists>es. decode_events ref_externs ex_order 5 ex_index [0, 1] [ex_log] = Inr es
    \<and> mset es = mset (reference_events ref_externs ex_monitors 5 [0, 1] ex_log
        \<lparr>lp_transaction_hash = 99, lp_log_index = 0\<rparr>)"
proof -
  have pos: "list_all2 (\<lambda>log pos. log_positioned log 5 pos) [ex_log] [\<lparr>lp_transaction_hash = 99, lp_log_index = 0\<rparr>]"
    by (simp add: ex_log_def log_positioned_def)
  have "sorted_wrt (<) [0, 1 :: nat]" by simp
  from event_decoding_equals_reference [OF ex_index ex_monitors_ok ref_laws(1,2) ex_order_ok this pos]
  show ?thesis by simp
qed

text \<open>
  C10. The block plan is exact: a block is in the plan, with the ascending indices of exactly the
  monitors that want it, if and only if some monitor wants it (after its cursor, finalized, in
  its range and within one batch of its next block).
\<close>

theorem plan_is_exact:
  assumes "batch_size \<noteq> 0"
  shows "p \<in> set (plan_blocks ms head batch_size) \<longleftrightarrow>
      (bp_monitor_indices p = filter (\<lambda>i. wants (ms ! i) head batch_size (bp_block_number p)) [0 ..< length ms]
       \<and> bp_monitor_indices p \<noteq> [])"
  using set_plan_blocks [OF assms] by (simp add: planned_for_def)

lemma plan_is_exact_witness:
  "\<lparr>bp_block_number = 5, bp_monitor_indices = [0, 1]\<rparr> \<in> set (plan_blocks ex_monitors 6 10)"
proof -
  have "(10 :: u64) \<noteq> 0" by simp
  from plan_is_exact [OF this, of "\<lparr>bp_block_number = 5, bp_monitor_indices = [0, 1]\<rparr>" ex_monitors 6]
  show ?thesis
    by (simp add: ex_monitors_def ex_call_monitor_def ex_event_monitor_def wants_def next_block_def cursor_next_def
        saturating_add_def)
qed

text \<open>The plan visits its blocks in strictly ascending order.\<close>

theorem plan_is_ascending:
  assumes "batch_size \<noteq> 0"
  shows "sorted_wrt (<) (map bp_block_number (plan_blocks ms head batch_size))"
  by (rule plan_blocks_ascending [OF assms])

lemma plan_is_ascending_witness: "sorted_wrt (<) (map bp_block_number (plan_blocks ex_monitors 6 10))"
  by (rule plan_is_ascending) simp

text \<open>
  C12. A compiled filter means what its expression says: on any context that conforms to the
  target's schema its evaluation never fails, short circuit and error branches included, and
  gives the classical truth value of the expression, where a comparison is that of the values
  read as integers (numbers) or as lists of codes in lexicographic order (text and bytes).
\<close>

theorem filter_meaning:
  assumes "prepare X e t = Inr (d, f)" and "context_conforms t ctx"
  shows "filter_evaluate f ctx = Inr (holds X t ctx e)"
  using prepare_facts [OF assms(1)] compile_expression_holds(1) [OF _ assms(2)]
  by (auto simp: filter_evaluate_def)

lemma filter_meaning_witness:
  "filter_evaluate (FilterExpr ex_compiled) ex_call_context
     = Inr (holds ref_externs (CallT ex_call_target) ex_call_context ex_filter)"
  by (rule filter_meaning [OF ex_prepared ex_call_conforms])



text \<open>
  C36. The resource limits are exact: an expression is admitted if and only if its JSON fits
  16 KiB, it has at most 128 nodes and depth 16, and every connective has 2 to 32 children.
\<close>

theorem filter_limits_exact:
  "validate_limits X e = Inr () \<longleftrightarrow>
     (\<exists>bytes. json_to_vec X (expression_json e) = Inr bytes \<and> length bytes \<le> MAX_BYTES)
     \<and> node_count e \<le> MAX_NODES \<and> height e \<le> MAX_DEPTH \<and> arity_ok e"
  by (rule validate_limits_Inr)

text \<open>
  C37. Calldata decodes to the schema: the values \<open>CallDecoder::decode\<close> returns are one per
  parameter, in order, each of the parameter's type (fixed bytes at their length).
\<close>

theorem call_params_typed:
  assumes "abi_decode_laws X" and "schema_ok ps" and "call_decode X (call_decoder_new ps) data = Inr ds"
  shows "params_conform False ps ds"
  by (rule call_decode_conform [OF assms])

lemma call_params_typed_witness: "params_conform False [ex_amount] [DUint 42]"
proof (rule call_params_typed)
  show "abi_decode_laws ref_externs" by (rule ref_abi_decode_laws)
  show "schema_ok [ex_amount]" by (simp add: schema_ok_def ex_amount_def scalar_type_def)
  show "call_decode ref_externs (call_decoder_new [ex_amount]) (be_bytes 32 (42 :: u256)) = Inr [DUint 42]"
    by (simp add: call_decode_def call_decoder_new_def ref_externs_def ref_abi_decode_params_def ex_amount_def
        ref_decode_word_def decode_value_def)
qed

text \<open>
  A log decodes to the schema in ABI order, whatever the interleaving of indexed and body
  parameters: one value per parameter, an indexed dynamic one as its 32-byte topic hash.
\<close>

theorem event_params_typed:
  assumes "abi_decode_laws X" and "schema_ok ps" and "decode_event X ps topic0 topics data = Inr ds"
  shows "params_conform True ps ds"
  using assms(3) event_decode_conform [OF assms(1,2)] by (auto simp: decode_event_def res_bind_Inr)

lemma event_params_typed_witness: "params_conform True [ex_ident] [DUint 8]"
proof (rule event_params_typed)
  show "abi_decode_laws ref_externs" by (rule ref_abi_decode_laws)
  show "schema_ok [ex_ident]" by (simp add: schema_ok_def ex_ident_def scalar_type_def)
  show "decode_event ref_externs [ex_ident] 7 [7, 8] [] = Inr [DUint 8]"
    using ex_event_decoder ex_event_params by (simp add: decode_event_def ex_event_target_def)
qed

text \<open>
  A parsed signature gives a usable schema: scalar parameters with distinct names, a call
  with at least one parameter and none indexed, an event with at most three indexed ones.
\<close>

theorem signature_schema:
  assumes "parse_target_signature X s = Inr spec"
  shows "target_spec_ok spec"
  by (rule parse_target_signature_ok [OF assms])

lemma signature_schema_witness:
  "target_spec_ok (SpecCall \<lparr>ms_selector = 0xa9059cbb, ms_params =
      [\<lparr>param_name = ''to'', param_ty = TAddress, param_indexed = False\<rparr>,
       \<lparr>param_name = ''amount'', param_ty = TUint 256, param_indexed = False\<rparr>]\<rparr>)"
proof (rule signature_schema)
  show "parse_target_signature ref_externs ''function transfer(address to, uint256 amount)''
      = Inr (SpecCall \<lparr>ms_selector = 0xa9059cbb, ms_params =
      [\<lparr>param_name = ''to'', param_ty = TAddress, param_indexed = False\<rparr>,
       \<lparr>param_name = ''amount'', param_ty = TUint 256, param_indexed = False\<rparr>]\<rparr>)"
    by (simp add: parse_target_signature_def ref_externs_def ref_item_def method_spec_of_def spec_param_name_def
        ref_ty_from_str_def strip_prefix_def abi_param_new_def ensure_supported_type_def digits_value_def Let_def)
qed

end
