(* ===== verification/Worker_Live.thy ===== *)
theory Worker_Live
  imports Worker_Loop
begin

text \<open>
  Polls that are not disturbed complete: when the source answers, storage accepts and nobody
  cancels, no branch of the preparation or the commit fails on well-formed monitors, so
  \<open>run_once\<close> ends in \<open>Completed\<close>. The error branches of the decoders, the index and the windows
  are shown to be unreachable from a well-formed poll.
\<close>

section \<open>A source that answers, a storage that accepts\<close>

definition source_answers :: "block_source \<Rightarrow> chain_data \<Rightarrow> bool" where
  "source_answers S D =
     (faithful_source S D
      \<and> (\<forall>b. bs_fetch_block S b \<in> range Inr)
      \<and> (\<forall>b hs. bs_fetch_execution_outcomes S b hs \<in> range Inr)
      \<and> (\<forall>q. bs_fetch_logs S q \<in> range Inr))"

definition storage_accepts :: "'s index_storage \<Rightarrow> bool" where
  "storage_accepts st = (\<forall>s c. fst (is_commit_block st s c) = Inr ())"

lemma source_answersD:
  assumes "source_answers S D"
  shows "faithful_source S D" "\<exists>blk. bs_fetch_block S b = Inr blk"
    "\<exists>outs. bs_fetch_execution_outcomes S b hs = Inr outs" "\<exists>logs. bs_fetch_logs S q = Inr logs"
  using assms unfolding source_answers_def by blast+

section \<open>Preparing a block never fails\<close>

lemma block_calls_total:
  assumes ok: "poll_ok X H all idx S D" and ans: "source_answers S D"
    and sorted: "sorted_wrt (<) (bp_monitor_indices plan)"
  shows "\<exists>rs. block_calls X H S idx plan (cd_block D (bp_block_number plan)) = Inr rs"
proof -
  let ?b = "bp_block_number plan" and ?blk = "cd_block D (bp_block_number plan)"
  let ?txs = "sb_transactions ?blk" and ?cand = "call_candidates idx plan (cd_block D (bp_block_number plan))"
  note D = poll_okD [OF ok]
  obtain outs where outs: "candidate_outcomes S ?b (map (\<lambda>ti. bt_hash (?txs ! ti)) ?cand) = Inr outs"
    using source_answersD(3) [OF ans] by (metis candidate_outcomes_def)
  have outs': "outs = map (\<lambda>ti. \<lparr>eo_transaction_hash = bt_hash (?txs ! ti), eo_succeeded = cd_succeeded D (bt_hash (?txs ! ti))\<rparr>) ?cand"
  proof (cases "?cand = []")
    case True
    with outs show ?thesis by (simp add: candidate_outcomes_def)
  next
    case False
    with outs have "bs_fetch_execution_outcomes S ?b (map (\<lambda>ti. bt_hash (?txs ! ti)) ?cand) = Inr outs"
      by (simp add: candidate_outcomes_def)
    from faithful_sourceD(2) [OF D(6) this] show ?thesis by (simp add: comp_def)
  qed
  have "\<forall>(ti, out) \<in> set (zip ?cand outs). ti < length ?txs \<and> eo_transaction_hash out = bt_hash (?txs ! ti)"
    unfolding outs' by (auto simp: zip_map2 zip_same_conv_map call_candidates_def)
  from decode_call_list_reference [OF D(1,3,4,5,2) sorted this]
  obtain cs where "decode_call_list X H idx ?blk (bp_monitor_indices plan) (zip ?cand outs) = Inr cs" by blast
  with outs outs' show ?thesis by (simp add: block_calls_def Let_def decode_calls_def)
qed

lemma finish_prepared_total:
  assumes ok: "poll_ok X H all idx S D" and sorted: "sorted_wrt (<) (bp_monitor_indices (pcl_plan pc))"
    and bound: "\<forall>i \<in> set (bp_monitor_indices (pcl_plan pc)). i < length (mi_monitors idx)"
    and logs: "\<forall>log \<in> set logs. log_positioned log (bp_block_number (pcl_plan pc)) (log_position_of log)"
  shows "\<exists>pb. finish_prepared X H idx pc logs = Inr pb"
proof -
  note D = poll_okD [OF ok]
  have "list_all2 (\<lambda>log pos. log_positioned log (bp_block_number (pcl_plan pc)) pos) logs (map log_position_of logs)"
    using logs by (auto simp: list_all2_conv_all_nth)
  from decode_events_reference [OF D(1,3,4,5,2) sorted this] obtain es where
    "decode_events X H (bp_block_number (pcl_plan pc)) idx (bp_monitor_indices (pcl_plan pc)) logs = Inr es" by blast
  moreover have "\<exists>ms. traverse (\<lambda>i. ok_or (anyhow ''block plan references unknown monitor'') (index_get_monitor idx i)) is = Inr ms"
    if "\<forall>i \<in> set is. i < length (mi_monitors idx)" for "is"
    using that by (induction "is") (auto simp: index_get_monitor_def slice_get_def)
  ultimately show ?thesis using bound by (force simp: finish_prepared_def Let_def)
qed

lemma group_logs_total:
  assumes "\<forall>log \<in> set logs. \<not> sl_removed log \<and> (\<exists>b. sl_block_number log = Some b \<and> in_range rng b)"
  shows "\<exists>m'. group_logs rng logs m = Inr m'"
  using assms by (induction logs arbitrary: m) auto

lemma query_targets_total:
  "\<forall>i \<in> set is. i < length (mi_monitors idx) \<Longrightarrow> \<exists>ts'. query_targets idx is ts = Inr ts'"
  by (induction "is" arbitrary: ts) (auto simp: index_get_monitor_def slice_get_def)

lemma window_query_total:
  assumes bound: "\<forall>p \<in> set plans. \<forall>i \<in> set (bp_monitor_indices p). i < length (mi_monitors idx)"
    and asc: "sorted_wrt (<) (map bp_block_number plans)"
  shows "\<exists>r. window_query plans idx = Inr r"
proof (cases plans)
  case (Cons p ps)
  have "\<forall>i \<in> set (concat (map bp_monitor_indices plans)). i < length (mi_monitors idx)" using bound by auto
  from query_targets_total [OF this] obtain ts where
    ts: "query_targets idx (concat (map bp_monitor_indices plans)) [] = Inr ts" by blast
  have "bp_block_number p \<le> bp_block_number (last plans)"
    using ascending_bounds [OF asc, of p] Cons by simp
  with ts Cons show ?thesis by (auto simp: window_query_def block_range_new_def)
qed (simp add: window_query_def)

context block_cache_port
begin

lemma prepare_calls_total:
  assumes ok: "poll_ok X H all idx S D" and ans: "source_answers S D"
    and sorted: "sorted_wrt (<) (bp_monitor_indices plan)" and coh: "coherent ch (cd_block D) (w_cache w)"
  shows "\<exists>pc. fst (prepare_calls X H C S ch idx plan w) = Inr pc"
proof (cases "plan_has_calls idx plan")
  case False
  then show ?thesis by (simp add: prepare_calls_def guarded_def act_pure_def split: prod.split)
next
  case True
  let ?w = "record_event (in_flight_enter (chain_id_of ch) ''block'') w"
  obtain rb w1 where load: "load_block C S ch (bp_block_number plan) ?w = (rb, w1)" by fastforce
  obtain fetched where fetched: "bs_fetch_block S (bp_block_number plan) = Inr fetched"
    using source_answersD(2) [OF ans] by blast
  obtain c1 hit where get: "cache_get C (w_cache ?w) ch (bp_block_number plan) = (c1, hit)" by fastforce
  have "\<exists>blk. rb = Inr blk"
    using load get fetched by (cases hit) (auto simp: load_block_def Let_def intro: sym)
  then obtain blk where blk: "rb = Inr blk" ..
  have "coherent ch (cd_block D) (w_cache ?w)" using coh by simp
  from load_block_faithful(2) [OF poll_okD(6) [OF ok] poll_okD(7) [OF ok] this load] blk
  have "blk = cd_block D (bp_block_number plan)" by simp
  moreover obtain rs where "block_calls X H S idx plan (cd_block D (bp_block_number plan)) = Inr rs"
    using block_calls_total [OF ok ans sorted] by blast
  ultimately show ?thesis
    using True load blk by (simp add: prepare_calls_def guarded_def act_bind_def act_pure_def)
qed

lemma prepare_all_total:
  assumes ok: "poll_ok X H all idx S D" and ans: "source_answers S D"
    and sorted: "\<forall>p \<in> set plans. sorted_wrt (<) (bp_monitor_indices p)"
    and coh: "coherent ch (cd_block D) (w_cache w)"
    and prep: "prepare_all X H C S ch idx plans w = (rs, w')"
  shows "list_all2 (\<lambda>plan r. \<exists>pc. r = Inr pc \<and> pcl_plan pc = plan) plans rs"
  using sorted coh prep
proof (induction plans arbitrary: w rs)
  case (Cons plan plans)
  from Cons.prems(3) obtain r w1 rs1 where step: "prepare_calls X H C S ch idx plan w = (r, w1)"
    "prepare_all X H C S ch idx plans w1 = (rs1, w')" "rs = r # rs1" by (auto split: prod.splits)
  have srt: "sorted_wrt (<) (bp_monitor_indices plan)" using Cons.prems(1) by simp
  obtain pc where pc: "r = Inr pc" using prepare_calls_total [OF ok ans srt Cons.prems(2)] step(1) by auto
  with prepare_calls_reference [OF ok srt Cons.prems(2)] step(1) have "pcl_plan pc = plan" by auto
  moreover have "coherent ch (cd_block D) (w_cache w1)"
    by (rule prepare_calls_coherent [OF poll_okD(6) [OF ok] poll_okD(7) [OF ok] Cons.prems(2) step(1)])
  ultimately show ?case using Cons.IH [OF _ _ step(2)] Cons.prems(1) pc step(3) by simp
qed simp


lemma prepare_event_window_total:
  assumes ok: "poll_ok X H all idx S D" and ans: "source_answers S D"
    and coh: "coherent ch (cd_block D) (w_cache w)"
    and sorted: "\<forall>p \<in> set plans. sorted_wrt (<) (bp_monitor_indices p)"
    and bound: "\<forall>p \<in> set plans. \<forall>i \<in> set (bp_monitor_indices p). i < length (mi_monitors idx)"
    and asc: "sorted_wrt (<) (map bp_block_number plans)"
    and query: "window_query plans idx = Inr (Some q)"
    and prep: "prepare_event_window X H C S ch idx plans q w = (r, w')"
  shows "\<exists>pbs. r = Inr (map Inr pbs)"
proof -
  note D = poll_okD [OF ok]
  obtain logs where logs: "bs_fetch_logs S q = Inr logs" using source_answersD(4) [OF ans] by blast
  have from_chain: "\<exists>b. in_range (lq_range q) b \<and> log_positioned log b (log_position_of log)" if "log \<in> set logs" for log
    using faithful_sourceD(3) [OF D(6) logs that] D(7) unfolding chain_data_ok_def by blast
  then have "\<forall>log \<in> set logs. \<not> sl_removed log \<and> (\<exists>b. sl_block_number log = Some b \<and> in_range (lq_range q) b)"
    by (force simp: log_positioned_def)
  from group_logs_total [OF this] obtain by_block where by_block: "group_logs (lq_range q) logs [] = Inr by_block" by blast
  have get: "entry_get by_block b = filter (\<lambda>l. sl_block_number l = Some b) logs" for b
    using group_logs_spec [OF by_block ordered_entries_Nil] by simp
  from prep obtain calls where calls: "prepare_all X H C S ch idx plans w = (calls, w')"
    and r: "r = Inr (attach_logs X H idx calls by_block)"
    by (auto simp: prepare_event_window_def logs by_block split: prod.splits)
  note all = prepare_all_total [OF ok ans sorted coh calls]
  have "list_all2 (\<lambda>plan r. \<forall>pc. r = Inr pc \<longrightarrow> pcl_plan pc = plan) plans calls"
    by (rule list_all2_mono [OF all]) auto
  moreover have "distinct (map bp_block_number plans)" using asc by (simp add: strict_sorted_iff)
  ultimately have attach: "attach_logs X H idx calls by_block = map (\<lambda>r. res_bind r (\<lambda>pc. finish_prepared X H idx pc
      (filter (\<lambda>l. sl_block_number l = Some (bp_block_number (pcl_plan pc))) logs))) calls"
    using attach_logs_spec get by simp
  have "\<exists>pb. res_bind c (\<lambda>pc. finish_prepared X H idx pc
      (filter (\<lambda>l. sl_block_number l = Some (bp_block_number (pcl_plan pc))) logs)) = Inr pb" if c: "c \<in> set calls" for c
  proof -
    from c obtain i where i: "i < length calls" "c = calls ! i" by (auto simp: in_set_conv_nth)
    with all obtain pc where "c = Inr pc" "pcl_plan pc = plans ! i" "i < length plans"
      by (auto simp: list_all2_conv_all_nth)
    then have pc: "c = Inr pc" "pcl_plan pc \<in> set plans" by simp_all
    let ?b = "bp_block_number (pcl_plan pc)"
    have "\<forall>log \<in> set (filter (\<lambda>l. sl_block_number l = Some ?b) logs). log_positioned log ?b (log_position_of log)"
      using from_chain by (force simp: log_positioned_def)
    from finish_prepared_total [OF ok _ _ this] sorted bound pc show ?thesis by simp
  qed
  then have "attach_logs X H idx calls by_block = map Inr (map (\<lambda>c. projr (res_bind c (\<lambda>pc. finish_prepared X H idx pc
      (filter (\<lambda>l. sl_block_number l = Some (bp_block_number (pcl_plan pc))) logs)))) calls)"
    unfolding attach map_map by (intro map_cong refl) force
  with r show ?thesis by blast
qed

end

section \<open>Committing never stops\<close>

definition going :: "loop_state result \<Rightarrow> bool" where
  "going r = (\<exists>pr n. r = Inr (Going pr n))"

lemma checkpoint_live: "w_cancel w = None \<Longrightarrow> checkpoint w = (False, w)"
  by (simp add: checkpoint_def)

lemma submit_batch_cancel [simp]: "w_cancel (submit_batch X ctx c w) = w_cancel w"
  by (simp add: submit_batch_def split: sum.split option.split)

lemma commit_prepared_live:
  assumes "w_cancel w = None" and "pc_writes_open ctx" and "storage_accepts (pc_storage ctx)"
    and "\<forall>i \<in> set (pb_monitor_indices pb). i < length pr"
    and "commit_prepared X ch ctx pb pr w = (r, w')"
  shows "\<exists>n pr'. r = Inr (Committed n pr') \<and> length pr' = length pr \<and> w_cancel w' = None"
proof -
  obtain s where commit: "is_commit_block (pc_storage ctx) (w_storage w) (commit_of ch pb) = (Inr (), s)"
    using assms(3) by (metis storage_accepts_def prod.collapse)
  have "length (foldl (\<lambda>pr i. pr[i := b]) pr is) = length pr" for b and "is" and pr :: progress
    by (induction "is" arbitrary: pr) auto
  with assms(1,2,4,5) commit advance_progress_total [of "pb_monitor_indices pb" pr "pb_block_number pb"] show ?thesis
    by (auto simp: commit_prepared_def Let_def checkpoint_live)
qed

lemma commit_window_live:
  assumes "w_cancel w = None" and "pc_writes_open ctx" and "storage_accepts (pc_storage ctx)"
    and "\<forall>pb \<in> set pbs. \<forall>i \<in> set (pb_monitor_indices pb). i < length pr"
    and "commit_window X ch ctx (map Inr pbs) pr n w = (r, w')"
  shows "\<exists>pr' n'. r = Inr (Going pr' n') \<and> length pr' = length pr \<and> w_cancel w' = None"
  using assms(1,4,5)
proof (induction pbs arbitrary: pr n w)
  case (Cons pb pbs)
  obtain cr w1 where c: "commit_prepared X ch ctx pb pr w = (cr, w1)" by fastforce
  from commit_prepared_live [OF Cons.prems(1) assms(2,3) _ c] Cons.prems(2) obtain k pr1 where
    one: "cr = Inr (Committed k pr1)" "length pr1 = length pr" "w_cancel w1 = None" by auto
  with c Cons.prems(3) have "commit_window X ch ctx (map Inr pbs) pr1 (n + k) w1 = (r, w')" by simp
  from Cons.IH [OF one(3) _ this] Cons.prems(2) one(2) show ?case by simp
qed auto

context block_cache_port
begin

lemma commit_stream_live:
  assumes ok: "poll_ok X H all idx (pc_source ctx) D" and ans: "source_answers (pc_source ctx) D"
    and port: "pc_cache ctx = C" and env: "pc_writes_open ctx" "storage_accepts (pc_storage ctx)"
    and query: "window_query window idx = Inr None"
    and sub: "set plans \<subseteq> set window" and sorted: "\<forall>p \<in> set plans. sorted_wrt (<) (bp_monitor_indices p)"
    and bound: "\<forall>p \<in> set plans. \<forall>i \<in> set (bp_monitor_indices p). i < length (mi_monitors idx)"
    and len: "length pr = length (mi_monitors idx)" and coh: "coherent ch (cd_block D) (w_cache w)"
    and live: "w_cancel w = None" and run: "commit_stream X H ch ctx idx plans pr n w = (r, w')"
  shows "\<exists>pr' n'. r = Inr (Going pr' n') \<and> length pr' = length pr \<and> w_cancel w' = None"
  using sub sorted bound len coh live run
proof (induction plans arbitrary: pr n w)
  case Nil
  then show ?case by (auto simp: checkpoint_live)
next
  case (Cons plan plans)
  have srt: "sorted_wrt (<) (bp_monitor_indices plan)" using Cons.prems(2) by simp
  obtain rp w2 where prep: "prepare_calls X H C (pc_source ctx) ch idx plan w = (rp, w2)" by fastforce
  obtain pc where pc: "rp = Inr pc" using prepare_calls_total [OF ok ans srt Cons.prems(5)] prep by auto
  with prepare_calls_reference [OF ok srt Cons.prems(5)] prep have plan: "pcl_plan pc = plan" by auto
  have coh2: "coherent ch (cd_block D) (w_cache w2)"
    by (rule prepare_calls_coherent [OF poll_okD(6) [OF ok] poll_okD(7) [OF ok] Cons.prems(5) prep])
  have live2: "w_cancel w2 = None" using prepare_calls_same [OF prep] Cons.prems(6) by (simp add: same_but_cache_def)
  obtain pb where fin: "finish_prepared X H idx pc [] = Inr pb"
    using finish_prepared_total [OF ok, of pc "[]"] srt Cons.prems(3) plan by auto
  have idxs: "pb_monitor_indices pb = bp_monitor_indices plan"
    using fin plan by (auto simp: finish_prepared_def Let_def res_simps)
  obtain cr w3 where c: "commit_prepared X ch ctx pb pr w2 = (cr, w3)" by fastforce
  have "\<forall>i \<in> set (pb_monitor_indices pb). i < length pr" using idxs Cons.prems(3,4) by simp
  from commit_prepared_live [OF live2 env this c] obtain k pr1 where
    one: "cr = Inr (Committed k pr1)" "length pr1 = length pr" "w_cancel w3 = None" by blast
  have "w_cache w3 = w_cache w2"
    using commit_prepared_cases [OF c \<open>\<forall>i \<in> set (pb_monitor_indices pb). i < length pr\<close>] by simp
  moreover have "commit_stream X H ch ctx idx plans pr1 (n + k) w3 = (r, w')"
    using Cons.prems(7) checkpoint_live [OF Cons.prems(6)] port prep pc fin c one(1) by simp
  ultimately show ?case
    using Cons.IH [of pr1 w3 "n + k"] Cons.prems(1,2,3,4) coh2 one(2,3) by simp
qed

lemma run_window_live:
  assumes ok: "poll_ok X H all idx (pc_source ctx) D" and ans: "source_answers (pc_source ctx) D"
    and port: "pc_cache ctx = C" and env: "pc_writes_open ctx" "storage_accepts (pc_storage ctx)"
    and sorted: "\<forall>p \<in> set window. sorted_wrt (<) (bp_monitor_indices p)"
    and bound: "\<forall>p \<in> set window. \<forall>i \<in> set (bp_monitor_indices p). i < length (mi_monitors idx)"
    and asc: "sorted_wrt (<) (map bp_block_number window)"
    and len: "length pr = length (mi_monitors idx)" and coh: "coherent ch (cd_block D) (w_cache w)"
    and live: "w_cancel w = None" and run: "run_window X H ch ctx idx window pr n w = (r, w')"
  shows "\<exists>pr' n'. r = Inr (Going pr' n') \<and> length pr' = length pr \<and> w_cancel w' = None"
proof -
  obtain mq where mq: "window_query window idx = Inr mq" using window_query_total [OF bound asc] by blast
  show ?thesis
  proof (cases mq)
    case None
    with mq run have "commit_stream X H ch ctx idx window pr n w = (r, w')" by (simp add: run_window_def)
    from commit_stream_live [OF ok ans port env _ _ sorted bound len coh live this] mq None show ?thesis by simp
  next
    case (Some q)
    with mq have query: "window_query window idx = Inr (Some q)" by simp
    obtain rp w2 where prep: "prepare_event_window X H C (pc_source ctx) ch idx window q w = (rp, w2)" by fastforce
    obtain pbs where pbs: "rp = Inr (map Inr pbs)"
      using prepare_event_window_total [OF ok ans coh sorted bound asc query prep] by blast
    note win = prepare_event_window_reference [OF ok coh sorted asc query prep]
    have "list_all2 (\<lambda>plan pb. prepared_ok X D idx plan pb) window pbs"
      using win pbs by (simp add: list_all2_map2)
    then have "list_all2 (\<lambda>plan pb. \<forall>i \<in> set (pb_monitor_indices pb). i < length pr) window pbs"
      unfolding len by (rule list_all2_mono) (simp add: prepared_ok_def)
    then have "\<forall>pb \<in> set pbs. \<forall>i \<in> set (pb_monitor_indices pb). i < length pr"
      by (simp add: list_all2_conv_all_nth all_set_conv_all_nth)
    moreover have "w_cancel w2 = None" using win live by (simp add: same_but_cache_def)
    moreover have "commit_window X ch ctx (map Inr pbs) pr n w2 = (r, w')"
      using run query checkpoint_live [OF live] port prep pbs by (simp add: run_window_def)
    ultimately show ?thesis using commit_window_live env by blast
  qed
qed

lemma run_windows_live:
  assumes ok: "poll_ok X H all idx (pc_source ctx) D" and ans: "source_answers (pc_source ctx) D"
    and port: "pc_cache ctx = C" and env: "pc_writes_open ctx" "storage_accepts (pc_storage ctx)"
    and sorted: "\<forall>p \<in> set (concat windows). sorted_wrt (<) (bp_monitor_indices p)"
    and bound: "\<forall>p \<in> set (concat windows). \<forall>i \<in> set (bp_monitor_indices p). i < length (mi_monitors idx)"
    and asc: "\<forall>w \<in> set windows. sorted_wrt (<) (map bp_block_number w)"
    and len: "length pr = length (mi_monitors idx)" and coh: "coherent ch (cd_block D) (w_cache w)"
    and live: "w_cancel w = None" and run: "run_windows X H ch ctx idx windows pr n w = (r, w')"
  shows "\<exists>pr' n'. r = Inr (Going pr' n') \<and> w_cancel w' = None"
  using sorted bound asc len coh live run
proof (induction windows arbitrary: pr n w)
  case (Cons window windows)
  obtain r1 w1 where one: "run_window X H ch ctx idx window pr n w = (r1, w1)" by fastforce
  have here: "\<forall>p \<in> set window. sorted_wrt (<) (bp_monitor_indices p)"
    "\<forall>p \<in> set window. \<forall>i \<in> set (bp_monitor_indices p). i < length (mi_monitors idx)"
    "sorted_wrt (<) (map bp_block_number window)" using Cons.prems(1,2,3) by auto
  from run_window_live [OF ok ans port env here Cons.prems(4,5,6) one] obtain pr1 n1 where
    r1: "r1 = Inr (Going pr1 n1)" "length pr1 = length pr" "w_cancel w1 = None" by blast
  have "coherent ch (cd_block D) (w_cache w1)"
    using run_window_ok [OF ok port here(1,3) Cons.prems(4,5) one] by blast
  moreover have "run_windows X H ch ctx idx windows pr1 n1 w1 = (r, w')" using Cons.prems(7) one r1(1) by simp
  moreover have "\<forall>p \<in> set (concat windows). sorted_wrt (<) (bp_monitor_indices p)"
    "\<forall>p \<in> set (concat windows). \<forall>i \<in> set (bp_monitor_indices p). i < length (mi_monitors idx)"
    "\<forall>w \<in> set windows. sorted_wrt (<) (map bp_block_number w)" using Cons.prems(1,2,3) by auto
  ultimately show ?case using Cons.IH [of pr1 w1 n1] Cons.prems(4) r1(2,3) by simp
qed auto

lemma run_once_live:
  assumes ok: "poll_ok X H all idx (pc_source ctx) D" and ans: "source_answers (pc_source ctx) D"
    and port: "pc_cache ctx = C" and env: "pc_writes_open ctx" "storage_accepts (pc_storage ctx)"
    and batch: "wc_batch_size cfg \<noteq> 0"
    and head: "bs_finalized_head (pc_source ctx) = Inr head"
    and load: "is_load_monitors (pc_storage ctx) (w_storage w) (wc_chain cfg) = Inr all"
    and coh: "coherent (wc_chain cfg) (cd_block D) (w_cache w)" and live: "w_cancel w = None"
  shows "\<exists>p w'. run_once X H cfg ctx w = (Inr (Completed p), w')"
proof (cases "mi_monitors idx = []")
  case True
  with head load live poll_okD(1) [OF ok] show ?thesis by (simp add: run_once_def checkpoint_live)
next
  case False
  let ?ms = "mi_monitors idx" and ?pr = "map (\<lambda>m. cursor_block (mon_cursor m)) (mi_monitors idx)"
  let ?plans = "plan_blocks ?ms head (wc_batch_size cfg)"
  let ?windows = "plan_windows ?plans (wc_batch_size cfg)"
  note facts = plan_blocks_window_facts [OF batch, of ?ms head]
  obtain lr w3 where loop: "run_windows X H (wc_chain cfg) ctx idx ?windows ?pr 0 w = (lr, w3)" by fastforce
  have sorted: "\<forall>p \<in> set (concat ?windows). sorted_wrt (<) (bp_monitor_indices p)"
    unfolding facts(1) by (rule facts(2))
  have bound: "\<forall>p \<in> set (concat ?windows). \<forall>i \<in> set (bp_monitor_indices p). i < length ?ms"
    unfolding facts(1) by (auto simp: set_plan_blocks [OF batch])
  have "length ?pr = length ?ms" by simp
  from run_windows_live [OF ok ans port env sorted bound facts(3) this coh live loop]
  obtain pr1 n1 where "lr = Inr (Going pr1 n1)" by blast
  with head load live poll_okD(1) [OF ok] False loop show ?thesis
    by (auto simp: run_once_def checkpoint_live Let_def finish_poll_def)
qed

text \<open>The cursors a poll leaves in memory.\<close>

lemma run_windows_progress:
  assumes ok: "poll_ok X H all idx (pc_source ctx) D" and port: "pc_cache ctx = C" and batch: "batch \<noteq> 0"
    and coh: "coherent ch (cd_block D) (w_cache w)"
    and run: "run_windows X H ch ctx idx (plan_windows (plan_blocks (mi_monitors idx) head batch) batch)
      (map (\<lambda>m. cursor_block (mon_cursor m)) (mi_monitors idx)) 0 w = (Inr (Going pr n), w')"
    and i: "i < length (mi_monitors idx)"
  shows "pr ! i = (if next_block (mi_monitors idx ! i) \<le> plan_to (mi_monitors idx ! i) head batch
    then Some (plan_to (mi_monitors idx ! i) head batch)
    else cursor_block (mon_cursor (mi_monitors idx ! i)))"
proof -
  let ?ms = "mi_monitors idx" and ?plans = "plan_blocks (mi_monitors idx) head batch"
  note facts = plan_blocks_window_facts [OF batch, of ?ms head]
  have sorted: "\<forall>p \<in> set (concat (plan_windows ?plans batch)). sorted_wrt (<) (bp_monitor_indices p)"
    unfolding facts(1) by (rule facts(2))
  have "length (map (\<lambda>m. cursor_block (mon_cursor m)) ?ms) = length ?ms" by simp
  from run_windows_ok [OF ok port sorted facts(3) this coh run]
  have "pr = plans_progress ?plans (map (\<lambda>m. cursor_block (mon_cursor m)) ?ms)"
    by (auto simp: commits_ok_def facts(1))
  with progress_after_plan [OF batch i] show ?thesis by simp
qed

end

end
