(* ===== verification/Worker_Properties.thy ===== *)
theory Worker_Properties
  imports Reference_Scenario Worker_Live
begin

text \<open>
  The properties of the indexing loop: what a poll commits, how it splits the plan into windows,
  what it keeps in the cache, what its gauges say and when the loop ends.
\<close>

lemma created_cache_coherent: "created.coherent ch truth (cache_factory_create capacity)"
  by (simp add: created.coherent_def cache_factory_create_def created_cache_view_def memory_cache_new_def)

lemmas ex_poll_facts = ex_context_def ex_config_def ex_world_def ex_storage_def ex_source_def

lemma ex_poll:
  shows "poll_ok ref_externs ex_order ex_monitors ex_index (pc_source ex_context) ex_chain"
    and "pc_cache ex_context = created_cache_ops ex_policy" and "wc_batch_size ex_config \<noteq> 0"
    and "bs_finalized_head (pc_source ex_context) = Inr 6"
    and "is_load_monitors (pc_storage ex_context) (w_storage ex_world) (wc_chain ex_config) = Inr ex_monitors"
    and "created.coherent (wc_chain ex_config) (cd_block ex_chain) (w_cache ex_world)"
  using ex_poll_ok created_cache_coherent by (simp_all add: ex_poll_facts)

text \<open>
  C3. One poll commits the truth. Against a source that may fail but never answers anything but
  the finalized chain, and with any of the program's caches in any coherent state, \<open>run_once\<close>
  commits a prefix of the block plan, in ascending order and without a gap, each block with its
  monitors and exactly the results the chain dictates. A completed poll committed the whole
  plan and counted its results; a cancelled one a prefix; a failed one a prefix, after which
  storage refused the very next block or nothing more was tried.
\<close>

theorem poll_commits_the_truth:
  assumes "poll_ok X H all idx (pc_source ctx) D" and "pc_cache ctx = created_cache_ops policy"
    and "wc_batch_size cfg \<noteq> 0" and "bs_finalized_head (pc_source ctx) = Inr head"
    and "is_load_monitors (pc_storage ctx) (w_storage w) (wc_chain cfg) = Inr all"
    and "created.coherent (wc_chain cfg) (cd_block D) (w_cache w)"
    and "run_once X H cfg ctx w = (r, w')"
  shows "poll_commits X D (mi_monitors idx) (wc_chain cfg) (pc_storage ctx)
    (plan_blocks (mi_monitors idx) head (wc_batch_size cfg)) head (w_storage w) r (w_storage w')"
  using created.run_once_ok [OF assms] by blast

lemma poll_commits_the_truth_witness:
  "poll_commits ref_externs ex_chain ex_monitors (Chain 1) ex_storage (plan_blocks ex_monitors 6 10) 6 []
     (fst (run_once ref_externs ex_order ex_config ex_context ex_world))
     (w_storage (snd (run_once ref_externs ex_order ex_config ex_context ex_world)))"
  using poll_commits_the_truth [OF ex_poll prod.collapse [symmetric]] by (simp add: ex_poll_facts)

text \<open>
  C14. The event windows partition the plan: in order and without loss, each window is a run of
  consecutive block numbers of at most the batch size, and no two neighbours could be merged.
\<close>

theorem windows_partition_plan:
  assumes "batch_size \<noteq> 0"
  shows "concat (plan_windows plans batch_size) = plans
    \<and> (\<forall>w \<in> set (plan_windows plans batch_size). window_ok (unat batch_size) w)
    \<and> windows_maximal (unat batch_size) (plan_windows plans batch_size)"
proof -
  have "0 < unat batch_size" using assms by (simp add: unat_gt_0)
  then show ?thesis
    using plan_windows_loop_spec [of "unat batch_size" "[]" plans] by (simp add: plan_windows_def windows_maximal_def)
qed

lemma windows_partition_plan_witness:
  "list_all (window_ok 10) (plan_windows (plan_blocks ex_monitors 6 10) 10)"
proof -
  have "(10 :: u64) \<noteq> 0" by simp
  from windows_partition_plan [OF this, of "plan_blocks ex_monitors 6 10"] show ?thesis by (simp add: list_all_iff)
qed

lemma ex_answers: "source_answers ex_source ex_chain"
  using ex_faithful by (simp add: source_answers_def ex_source_def)

lemma ex_accepts: "storage_accepts (pc_storage ex_context)"
  by (simp add: storage_accepts_def ex_context_def ex_storage_def)



text \<open>
  The log query of a window is exact: it spans the window's first to last block and asks
  for the address and topic of every event monitor planned in the window, each once, in order,
  and for nothing else; without such a monitor there is no query.
\<close>

theorem window_query_exact:
  assumes "window_query plans idx = Inr r" and "plans \<noteq> []"
  shows "(case r of
       None \<Rightarrow> \<forall>p \<in> set plans. \<forall>i \<in> set (bp_monitor_indices p). \<forall>t. mon_target (mi_monitors idx ! i) \<noteq> EventT t
     | Some q \<Rightarrow>
         lq_range q = \<lparr>br_start = bp_block_number (hd plans), br_end = bp_block_number (last plans)\<rparr>
         \<and> sorted_wrt (<) (lq_targets q)
         \<and> set (lq_targets q) = {LogTarget (et_address t) (et_topic0 t) | i t.
              (\<exists>p \<in> set plans. i \<in> set (bp_monitor_indices p)) \<and> mon_target (mi_monitors idx ! i) = EventT t})"
proof -
  obtain ts where ts: "query_targets idx (concat (map bp_monitor_indices plans)) [] = Inr ts"
    "r = None \<longrightarrow> ts = []"
    "\<forall>q. r = Some q \<longrightarrow> set (lq_targets q) = set ts \<and> q = log_query_new (lq_range q) ts
       \<and> lq_range q = \<lparr>br_start = bp_block_number (hd plans), br_end = bp_block_number (last plans)\<rparr>"
    using assms by (cases plans) (auto simp: window_query_def res_simps log_query_new_def split: if_splits)
  have set: "set ts = {LogTarget (et_address t) (et_topic0 t) | i t.
      (\<exists>p \<in> set plans. i \<in> set (bp_monitor_indices p)) \<and> mon_target (mi_monitors idx ! i) = EventT t}"
    using query_targets_spec [OF ts(1)] by auto
  show ?thesis
  proof (cases r)
    case None
    with ts(2) set show ?thesis by auto
  next
    case (Some q)
    then have q: "q = log_query_new (lq_range q) ts" "set (lq_targets q) = set ts"
      "lq_range q = \<lparr>br_start = bp_block_number (hd plans), br_end = bp_block_number (last plans)\<rparr>"
      using ts(3) by blast+
    have "sorted_wrt (<) (lq_targets q)" using log_query_new_targets [of "lq_range q" ts] q(1) by metis
    with Some q(2,3) set show ?thesis by simp
  qed
qed

lemma window_query_exact_witness:
  "\<exists>q. window_query [\<lparr>bp_block_number = 5, bp_monitor_indices = [0, 1]\<rparr>] ex_index = Inr (Some q)
     \<and> sorted_wrt (<) (lq_targets q)"
proof -
  let ?plans = "[\<lparr>bp_block_number = 5, bp_monitor_indices = [0, 1]\<rparr>]"
  have q: "window_query ?plans ex_index
      = Inr (Some (log_query_new \<lparr>br_start = 5, br_end = 5\<rparr> [LogTarget 34 7]))"
    by (simp add: window_query_def index_get_monitor_def slice_get_def ex_monitors_def ex_call_monitor_def
        ex_event_monitor_def ex_event_target_def block_range_new_def)
  show ?thesis by (intro exI conjI, rule q) (use window_query_exact [OF q] in simp)
qed

text \<open>
  C16. The worker loop ends once it is cancelled: with a token that is found cancelled after any
  number of looks, \<open>worker_run\<close> returns, whatever the source, the storage and the clock do.
\<close>

theorem worker_stops_when_cancelled:
  assumes "w_cancel w = Some n"
  shows "\<exists>status' w'. worker_run X H cfg ctxs clock k status w = Some (status', w')"
  by (rule worker_run_returns [OF assms])

lemma worker_stops_when_cancelled_witness:
  "\<exists>status' w'. worker_run ref_externs ex_order ex_config (\<lambda>k. ex_context) (\<lambda>k. 0) 0 (status_starting 1 None)
     (ex_world\<lparr>w_cancel := Some 1000\<rparr>) = Some (status', w')"
  by (rule worker_stops_when_cancelled [of _ 1000]) simp

text \<open>
  Eviction is exact: after \<open>evict_before\<close> of a chain the cache gives nothing below the
  bound for that chain, and what it gave before for every other key.
\<close>

theorem cache_eviction_exact:
  "snd (cache_get (created_cache_ops policy) (cache_evict_before (created_cache_ops policy) c ch n) ch' b)
     = (if ch' = ch \<and> b < n then None else snd (cache_get (created_cache_ops policy) c ch' b))"
  by (rule created.get_after_evict)

text \<open>
  The eviction at the end of a poll keeps what is still wanted: a block that is not below
  the next block of some active monitor is in the cache after it if it was before.
\<close>

theorem poll_eviction_keeps_wanted:
  assumes "finish_poll ch ctx ms head pr n w = (o', w')" and "pc_cache ctx = created_cache_ops policy"
    and "i < length ms" and "length pr = length ms"
    and "cursor_next (Cursor (pr ! i)) (mon_start_block (ms ! i)) \<le> b"
  shows "snd (cache_get (pc_cache ctx) (w_cache w') ch' b) = snd (cache_get (pc_cache ctx) (w_cache w) ch' b)"
  by (rule finish_poll_keeps_wanted [OF assms])

lemma poll_eviction_keeps_wanted_witness:
  "snd (cache_get (pc_cache ex_context)
       (w_cache (snd (finish_poll (Chain 1) ex_context ex_monitors 6 [Some 6, Some 5] 2 ex_world))) (Chain 1) 7)
     = snd (cache_get (pc_cache ex_context) (w_cache ex_world) (Chain 1) 7)"
  by (rule poll_eviction_keeps_wanted [OF prod.collapse [symmetric] ex_poll(2), of 0])
    (simp_all add: ex_monitors_def cursor_next_def saturating_add_def)

text \<open>
  The lag of a monitor is the number of finalized blocks it still has to index, capped at
  the largest \<open>u64\<close>: it neither wraps nor goes below zero for any cursor, start or end block.
\<close>

theorem lag_counts_blocks:
  "unat (monitor_lag head m c) = min (card (blocks_left head m c)) 18446744073709551615"
  by (rule monitor_lag_counts)

text \<open>
  The in-flight gauges balance: however a poll ends, every chain and stage reads after it
  what it read before, and the cache is still coherent with the chain.
\<close>

theorem poll_balances_gauges:
  assumes "poll_ok X H all idx (pc_source ctx) D" and "pc_cache ctx = created_cache_ops policy"
    and "wc_batch_size cfg \<noteq> 0" and "bs_finalized_head (pc_source ctx) = Inr head"
    and "is_load_monitors (pc_storage ctx) (w_storage w) (wc_chain cfg) = Inr all"
    and "created.coherent (wc_chain cfg) (cd_block D) (w_cache w)"
    and "run_once X H cfg ctx w = (r, w')"
  shows "in_flight c stage (w_telemetry w') = in_flight c stage (w_telemetry w)
    \<and> created.coherent (wc_chain cfg) (cd_block D) (w_cache w')"
  using created.run_once_ok [OF assms] by (simp add: balanced_def)

lemma poll_balances_gauges_witness:
  "in_flight 1 ''storage'' (w_telemetry (snd (run_once ref_externs ex_order ex_config ex_context ex_world))) = 0"
  using poll_balances_gauges [OF ex_poll prod.collapse [symmetric], of 1 "''storage''"] by (simp add: ex_world_def)

text \<open>
  The in-memory cursors after the windows of a poll are those the plan asks for: a monitor
  with a block to index stands at the last block of its range, head and batch, every other one
  where storage had it; so the next poll continues exactly there.
\<close>

theorem cursors_after_poll:
  assumes "poll_ok X H all idx (pc_source ctx) D" and "pc_cache ctx = created_cache_ops policy"
    and "batch \<noteq> 0" and "created.coherent ch (cd_block D) (w_cache w)"
    and "run_windows X H ch ctx idx (plan_windows (plan_blocks (mi_monitors idx) head batch) batch)
      (map (\<lambda>m. cursor_block (mon_cursor m)) (mi_monitors idx)) 0 w = (Inr (Going pr n), w')"
    and "i < length (mi_monitors idx)"
  shows "pr ! i = (if next_block (mi_monitors idx ! i) \<le> plan_to (mi_monitors idx ! i) head batch
    then Some (plan_to (mi_monitors idx ! i) head batch)
    else cursor_block (mon_cursor (mi_monitors idx ! i)))"
  by (rule created.run_windows_progress [OF assms])

lemma cursors_after_poll_witness:
  "\<exists>pr n w'. run_windows ref_externs ex_order (Chain 1) ex_context ex_index
      (plan_windows (plan_blocks ex_monitors 6 10) 10) (map (\<lambda>m. cursor_block (mon_cursor m)) ex_monitors) 0 ex_world
      = (Inr (Going pr n), w') \<and> pr ! 1 = Some 5"
proof -
  let ?pr = "map (\<lambda>m. cursor_block (mon_cursor m)) ex_monitors"
  let ?windows = "plan_windows (plan_blocks ex_monitors 6 10) 10"
  have ten: "(10 :: u64) \<noteq> 0" by simp
  note facts = plan_blocks_window_facts [OF ten, of ex_monitors 6]
  have sorted: "\<forall>p \<in> set (concat ?windows). sorted_wrt (<) (bp_monitor_indices p)"
    unfolding facts(1) by (rule facts(2))
  have bound: "\<forall>p \<in> set (concat ?windows). \<forall>i \<in> set (bp_monitor_indices p). i < length (mi_monitors ex_index)"
    unfolding facts(1) by (auto simp: set_plan_blocks [OF ten])
  obtain lr w3 where loop: "run_windows ref_externs ex_order (Chain 1) ex_context ex_index ?windows ?pr 0 ex_world = (lr, w3)"
    by fastforce
  have len: "length ?pr = length (mi_monitors ex_index)" by simp
  have coh: "created.coherent (Chain 1) (cd_block ex_chain) (w_cache ex_world)"
    using ex_poll(6) by (simp add: ex_config_def)
  have "source_answers (pc_source ex_context) ex_chain" "pc_writes_open ex_context" "w_cancel ex_world = None"
    by (simp_all add: ex_answers ex_context_def ex_world_def)
  from created.run_windows_live [OF ex_poll(1) this(1) ex_poll(2) this(2) ex_accepts sorted bound facts(3) len coh this(3) loop]
  obtain pr n where going: "lr = Inr (Going pr n)" by blast
  have "pr ! 1 = Some 5"
    using cursors_after_poll [OF ex_poll(1,2) ten coh, of 6 pr n w3 1] loop going
    by (simp add: ex_monitors_def ex_event_monitor_def next_block_def plan_to_def cursor_next_def saturating_add_def)
  with loop going show ?thesis by blast
qed

end
