(* ===== verification/Service_Properties.thy ===== *)
theory Service_Properties
  imports Reference_Scenario
begin

text \<open>
  The properties of the supervisor, the status registry, the application services and the sink
  batches.
\<close>

section \<open>A running supervisor\<close>

definition ex_factory :: source_factory where
  "ex_factory = (\<lambda>u. Inr ex_source)"

definition ex_registered :: registered_chain where
  "ex_registered = \<lparr>rc_chain = Chain 1, rc_rpc_url = ''http://node'', rc_enabled = True\<rparr>"

definition ex_running :: supervisor where
  "ex_running = apply_registration ex_factory ex_registered supervisor_init"

lemma ex_running_reachable: "supervisor_reachable ex_running"
  unfolding ex_running_def by (rule reach_step [OF reach_init step_apply])

lemma ex_running_ok: "supervisor_ok ex_running"
  by (rule supervisor_reachable_ok [OF ex_running_reachable])

lemma ex_running_value:
  "worker_of ex_running 1 = Some \<lparr>wr_task = 0, wr_rpc_url = ''http://node'', wr_source = ex_source\<rparr>"
  "\<not> cp_closed (sv_control ex_running)"
  "sv_tasks ex_running = [\<lparr>tk_chain = Chain 1, tk_status = 0, tk_cancelled = False, tk_running = True\<rparr>]"
  by (simp_all add: ex_running_def apply_registration_def supervisor_init_def ex_registered_def start_worker_def
      prepare_source_def ex_factory_def probe_source_def ex_source_def put_status_def new_status_def
      status_replace_def empty_registry_def Let_def insert_worker_def worker_of_def)



text \<open>
  C20. Shutdown stops everything: after it no task of any worker runs and the control plane is
  closed, so that later registrations change nothing.
\<close>

theorem shutdown_stops_all:
  assumes "supervisor_ok s"
  shows "cp_closed (sv_control (shutdown s))
    \<and> \<not> list_ex tk_running (sv_tasks (shutdown s))
    \<and> apply_registration factory registered (shutdown s) = shutdown s"
  using shutdown_ok(2,3) [OF assms]
  by (auto simp: list_ex_iff in_set_conv_nth apply_registration_def)

lemma shutdown_stops_all_witness: "\<not> list_ex tk_running (sv_tasks (shutdown ex_running)) \<and> sv_tasks ex_running \<noteq> []"
  using shutdown_stops_all [OF ex_running_ok] by (simp add: ex_running_value)



text \<open>
  Retiring a chain removes its worker and its status, stops the worker's task before the
  call returns, and keeps the invariant.
\<close>

theorem retire_stops_worker:
  assumes "supervisor_ok s"
  shows "supervisor_ok (retire c s) \<and> worker_of (retire c s) c = None
    \<and> status_of (sv_statuses (retire c s)) c = None
    \<and> \<not> list_ex (\<lambda>t. tk_running t \<and> chain_id_of (tk_chain t) = c) (sv_tasks (retire c s))"
proof -
  have "\<not> (tk_running t \<and> chain_id_of (tk_chain t) = c)" if t: "t \<in> set (sv_tasks (retire c s))" for t
  proof
    assume run: "tk_running t \<and> chain_id_of (tk_chain t) = c"
    from t obtain i where i: "i < length (sv_tasks (retire c s))" "t = sv_tasks (retire c s) ! i"
      by (auto simp: in_set_conv_nth)
    have "\<exists>c2 rt. (c2, rt) \<in> set (cp_workers (sv_control (retire c s))) \<and> wr_task rt = i"
      using supervisor_okD(4) [OF retire_ok(1) [OF assms] i(1)] run by (simp add: i(2))
    then obtain c2 rt where rt: "(c2, rt) \<in> set (cp_workers (sv_control (retire c s)))" "wr_task rt = i" by blast
    from supervisor_okD(3) [OF retire_ok(1) [OF assms] rt(1)] rt(2) i(2) run have "c2 = c"
      by (simp add: worker_entry_ok_def)
    with rt(1) retire_ok(2) [OF assms, of c] show False
      by (auto simp: worker_of_def map_of_eq_None_iff rev_image_eqI)
  qed
  with retire_ok [OF assms] show ?thesis by (auto simp: list_ex_iff)
qed

lemma retire_stops_worker_witness: "worker_of (retire 1 ex_running) 1 = None \<and> worker_of ex_running 1 \<noteq> None"
  using retire_stops_worker [OF ex_running_ok, of 1] ex_running_value(1) by simp

section \<open>Results and batches\<close>

text \<open>
  C38. A batch can always be built for the results of a block whose monitors have distinct ids:
  none when there are no results, otherwise one entry per result, so no committed result is
  silently missing from the sink.
\<close>

theorem sink_batch_complete:
  assumes "distinct (map mon_id ms)" and "\<forall>r \<in> set results. result_of_monitors ms r"
  shows "\<exists>b. sink_batch_new X ch block ms results = Inr b
    \<and> (case b of None \<Rightarrow> results = []
       | Some batch \<Rightarrow> sk_block_number batch = block \<and> length (sk_results batch) = length results \<and> results \<noteq> [])"
  by (rule sink_batch_new_total [OF assms])

lemma sink_batch_complete_witness:
  "\<exists>b. sink_batch_new ref_externs (Chain 1) 5 ex_monitors [ResultCall (call_of ex_call_monitor 5 ex_tx [DUint 42])] = Inr b
     \<and> b \<noteq> None"
proof -
  let ?r = "ResultCall (call_of ex_call_monitor 5 ex_tx [DUint 42])"
  have "distinct (map mon_id ex_monitors)"
    by (simp add: ex_monitors_def ex_call_monitor_def ex_event_monitor_def)
  moreover have "\<forall>r \<in> set [?r]. result_of_monitors ex_monitors r"
    by (simp add: result_of_monitors_def ex_monitors_def ex_call_monitor_def call_of_def ex_call_target_def)
  ultimately show ?thesis
    using sink_batch_complete [of ex_monitors "[?r]" ref_externs "Chain 1" 5] by (auto split: option.splits)
qed

text \<open>
  C39. The stored JSON identifies the values: two decodings of the same schema with the same
  canonical parameters are the same values.
\<close>

theorem canonical_params_identify:
  assumes "display_laws X" and "schema_ok ps" and "params_conform ev ps vs" and "params_conform ev ps ws"
    and "canonical_params X ps vs = canonical_params X ps ws"
  shows "vs = ws"
  by (rule canonical_params_inject [OF assms])

lemma canonical_params_identify_witness: "[DUint (40 + 2)] = [DUint 42]"
proof (rule canonical_params_identify)
  show "display_laws ref_externs" by (rule ref_display_laws)
  show "schema_ok [ex_amount]" by (simp add: schema_ok_def ex_amount_def scalar_type_def)
  show "params_conform False [ex_amount] [DUint (40 + 2)]" "params_conform False [ex_amount] [DUint 42]"
    by (simp_all add: params_conform_def ex_amount_def wire_type_def)
  show "canonical_params ref_externs [ex_amount] [DUint (40 + 2)] = canonical_params ref_externs [ex_amount] [DUint 42]"
    by simp
qed

section \<open>Services\<close>

definition ex_record :: chain_record where
  "ex_record =
     \<lparr>cr_chain = Chain 1, cr_rpc_url = ''http://node'', cr_enabled = True, cr_created_at = 0, cr_updated_at = 0\<rparr>"

definition ex_repository :: "unit repository" where
  "ex_repository =
     \<lparr>rp_list_registered_chains = (\<lambda>s. Inr []), rp_create_chain = (\<lambda>s n. (Inr ex_record, s)),
      rp_list_chains = (\<lambda>s. Inr [ex_record]), rp_get_chain = (\<lambda>s c. Inr ex_record),
      rp_update_chain = (\<lambda>s c u. (Inr ex_record, s)), rp_delete_chain = (\<lambda>s c. (Inr (), s)),
      rp_count_monitors = (\<lambda>s. Inr 0), rp_create_monitor = (\<lambda>s n. (Inl [], s)),
      rp_list_monitors = (\<lambda>s c. Inr []), rp_get_monitor = (\<lambda>s i. Inl []),
      rp_set_monitor_enabled = (\<lambda>s i e. (Inl [], s)), rp_delete_monitor = (\<lambda>s i. (Inr (), s)),
      rp_query_results = (\<lambda>s m q. Inr [])\<rparr>"

definition ex_create :: create_monitor_command where
  "ex_create =
     \<lparr>cm_chain_id = 1, cm_address = 17, cm_signature = ''function transfer(address to, uint256 amount)'',
      cm_start_block = None, cm_end_block = Some 9, cm_filter = None\<rparr>"

definition ex_new_monitor :: new_monitor where
  "ex_new_monitor =
     \<lparr>nm_chain = Chain 1, nm_target = CallT \<lparr>ct_address = 17, ct_selector = 0xa9059cbb, ct_inputs =
        [\<lparr>param_name = ''to'', param_ty = TAddress, param_indexed = False\<rparr>,
         \<lparr>param_name = ''amount'', param_ty = TUint 256, param_indexed = False\<rparr>]\<rparr>,
      nm_start_block = 6, nm_end_block = Some 9, nm_filter = None\<rparr>"

text \<open>
  C40. A monitor that passes the service's checks is well formed: it belongs to the requested
  chain, its range is not empty, its schema is scalar with distinct names, and it has a filter
  exactly when one was requested, which then is the canonical form of what was requested.
\<close>

theorem new_monitor_checked:
  assumes "new_monitor_of X R sources cmd s = Inr nm"
  shows "nm_chain nm = Chain (cm_chain_id cmd)
    \<and> (case nm_end_block nm of None \<Rightarrow> True | Some e \<Rightarrow> nm_start_block nm \<le> e)
    \<and> schema_ok (target_params (nm_target nm))
    \<and> (case cm_filter cmd of
         None \<Rightarrow> nm_filter nm = None
       | Some e \<Rightarrow> \<exists>d f. nm_filter nm = Some d \<and> prepare X e (nm_target nm) = Inr (d, f))"
  using new_monitor_of_ok [OF assms] by (auto split: option.split)

lemma new_monitor_checked_witness: "schema_ok (target_params (nm_target ex_new_monitor))"
proof -
  have "new_monitor_of ref_externs ex_repository ex_factory ex_create () = Inr ex_new_monitor"
    by (simp add: new_monitor_of_def ex_repository_def ex_create_def ex_new_monitor_def monitor_start_block_def
        ex_factory_def ex_source_def validate_range_def parse_target_signature_def ref_externs_def ref_item_def
        method_spec_of_def spec_param_name_def ref_ty_from_str_def strip_prefix_def abi_param_new_def
        ensure_supported_type_def digits_value_def Let_def target_of_spec_def)
  from new_monitor_checked [OF this] show ?thesis by simp
qed

text \<open>
  A preview tells the truth: what \<open>preview\<close> reports is the classical value of the
  submitted expression on a context that has the sample's parameters in the target's types.
\<close>

theorem preview_tells_truth:
  assumes "preview X t e sample = Inr p"
  shows "\<exists>v ctx. compile_expression X e t ''/filter'' = Inr v \<and> fp_filter p = fst v
    \<and> context_conforms t ctx \<and> fp_matches p = holds X t ctx e"
  by (rule preview_matches_holds [OF assms])

lemma preview_tells_truth_witness:
  "\<exists>p v ctx. preview ref_externs (CallT ex_call_target) ex_filter (SampleCall 5 99 50 17 [(''amount'', JString ''42'')]) = Inr p
     \<and> compile_expression ref_externs ex_filter (CallT ex_call_target) ''/filter'' = Inr v
     \<and> context_conforms (CallT ex_call_target) ctx
     \<and> fp_matches p = holds ref_externs (CallT ex_call_target) ctx ex_filter"
proof -
  let ?sample = "SampleCall 5 99 50 17 [(''amount'', JString ''42'')]"
  have "decode_sample_params ref_externs (ct_inputs ex_call_target) False [(''amount'', JString ''42'')] = Inr [DUint 42]"
    by (simp add: decode_sample_params_def ex_call_target_def ex_amount_def value_type_def parse_value_def parse_uint_def
        json_string_def is_ascii_digit_def ref_externs_def ref_coerce_str_def decimal_text_def digits_value_def)
  then obtain p where p: "preview ref_externs (CallT ex_call_target) ex_filter ?sample = Inr p"
    using ex_prepared by (simp add: preview_def ex_call_target_def ex_compiled_def filter_evaluate_def resolve_value_def compare_def)
  from preview_tells_truth [OF p] p show ?thesis by blast
qed

text \<open>
  Endpoint details never reach the public status: when a poll fails with a block source
  request error anywhere in its chain of causes, the status of the chain becomes degraded with
  one fixed text, and keeps the last finalized head.
\<close>

theorem endpoint_errors_scrubbed:
  assumes "BlockSourceRequest \<in> set e" and "poll_status now (Inl e) prev = Some next_status"
  shows "cs_last_error next_status = Some ''block source request failed''
    \<and> cs_worker_state next_status = Degraded
    \<and> cs_finalized_head next_status = cs_finalized_head prev"
  using assms safe_error_message_scrubbed [OF assms(1)] by (auto simp: poll_status_def record_error_def Let_def)

lemma endpoint_errors_scrubbed_witness:
  "cs_last_error (snd (record_error [Message ''fetch logs'', BlockSourceRequest, Backend ''https://key@node''] (status_starting 1 None)))
     = Some ''block source request failed''"
proof -
  let ?e = "[Message ''fetch logs'', BlockSourceRequest, Backend ''https://key@node'']"
  have "BlockSourceRequest \<in> set ?e" by simp
  from endpoint_errors_scrubbed [OF this, of 0 "status_starting 1 None"] show ?thesis by (simp add: poll_status_def)
qed

text \<open>A page limit is between 1 and 200 for every requested value, and exact inside that range.\<close>

theorem page_limit_clamped:
  "unat (page_limit_get (page_limit_new v)) = max 1 (min 200 (unat v))"
proof (cases "1 \<le> v \<and> v \<le> 200")
  case True
  then show ?thesis using page_limit_exact [of v] by (simp add: word_le_nat_alt)
next
  case False
  then show ?thesis by (auto simp: page_limit_new_def not_le word_less_nat_alt)
qed

end
