(* ===== verification/Mongo_Documents.thy ===== *)
theory Mongo_Documents
  imports Services
begin

text \<open>
  \<open>parseon-mongodb/src/storage.rs\<close>, the stored rows: the documents of the three collections, the
  64-bit conversions at the border of the database, and the translations between rows and the
  core's monitors, records and results. A \<open>Collection\<close> of a serde type holds rows of that type.
\<close>

section \<open>64-bit columns\<close>

text \<open>A stored integer is signed: its largest value is \<open>i64::MAX\<close>.\<close>

definition to_i64 :: "u64 \<Rightarrow> string \<Rightarrow> i64 result" where
  "to_i64 v name =
     (if unat v \<le> 9223372036854775807 then Inr (uint v)
      else Inl (anyhow (name @ '' exceeds MongoDB integer range'')))"

definition from_i64 :: "i64 \<Rightarrow> string \<Rightarrow> u64 result" where
  "from_i64 v name = (if v < 0 then Inl (anyhow (name @ '' must not be negative'')) else Inr (word_of_int v))"

lemma to_i64_Inr [res_simps]:
  "to_i64 v name = Inr i \<longleftrightarrow> unat v \<le> 9223372036854775807 \<and> i = uint v"
  by (auto simp: to_i64_def)

lemma from_i64_uint [simp]: "from_i64 (uint v) name = Inr v"
  by (simp add: from_i64_def)

lemma word_of_int_positive: "0 < i \<Longrightarrow> i \<le> 9223372036854775807 \<Longrightarrow> (word_of_int i :: u64) \<noteq> 0"
proof
  assume "0 < i" "i \<le> 9223372036854775807" "(word_of_int i :: u64) = 0"
  then have "uint (word_of_int i :: u64) = 0" by simp
  with \<open>0 < i\<close> \<open>i \<le> 9223372036854775807\<close> show False by (simp only: uint_word_of_int) simp
qed

lemma from_i64_to_i64: "to_i64 v name = Inr i \<Longrightarrow> from_i64 i name' = Inr v"
  by (auto simp: res_simps)

section \<open>Rows\<close>

datatype bson =
    BsonString string
  | BsonBoolean bool
  | BsonBinary bytes
  | BsonOther string

type_synonym document = "(string \<times> bson) list"

text \<open>A \<open>DateTime\<close> is its milliseconds since the epoch.\<close>

record chain_document =
  cdoc_chain_id :: i64
  cdoc_rpc_url :: string
  cdoc_enabled :: bool
  cdoc_created_at :: int
  cdoc_updated_at :: int
  cdoc_monitor_revision :: i64

record stored_param =
  sp_name :: string
  sp_sol_type :: string
  sp_indexed :: bool

record monitor_document =
  mdoc_id :: i64
  mdoc_chain_id :: i64
  mdoc_address :: string
  mdoc_kind :: string
  mdoc_signature_hash :: string
  mdoc_param_schema :: "stored_param list"
  mdoc_start_block :: i64
  mdoc_end_block :: "i64 option"
  mdoc_cursor :: "i64 option"
  mdoc_completed :: bool
  mdoc_enabled :: bool
  mdoc_filter_ast :: "filter_expression option"
  mdoc_filter_version :: "int option"
  mdoc_created_at :: int
  mdoc_updated_at :: int

record result_row =
  rdoc_chain_id :: i64
  rdoc_monitor_id :: i64
  rdoc_kind :: string
  rdoc_tx_hash :: string
  rdoc_log_index :: "i64 option"
  rdoc_block_number :: i64
  rdoc_params :: document

section \<open>From rows to the core\<close>

text \<open>
  Parsing of hexadecimal text and of stored URLs and the range of \<open>chrono\<close>'s timestamps belong
  to other crates: the first is part of \<open>externs\<close>, the others are arguments.
\<close>

record row_readers =
  rr_url_parse :: "string \<Rightarrow> string + url"
  rr_from_timestamp_millis :: "int \<Rightarrow> int option"

definition foreign :: "string + 'a \<Rightarrow> 'a result" where
  "foreign r = map_err (\<lambda>e. [Backend e]) r"

definition chrono :: "row_readers \<Rightarrow> int \<Rightarrow> int result" where
  "chrono Y t = ok_or (anyhow ''invalid MongoDB timestamp'') (rr_from_timestamp_millis Y t)"

definition stored_abi_param :: "externs \<Rightarrow> stored_param \<Rightarrow> abi_param result" where
  "stored_abi_param X p =
     res_bind (parse_abi_type X (sp_sol_type p)) (\<lambda>ty.
     res_bind (abi_param_new X (sp_name p) ty) (\<lambda>param.
     Inr (with_indexed (sp_indexed p) param)))"

definition mongo_target :: "externs \<Rightarrow> monitor_document \<Rightarrow> target result" where
  "mongo_target X row =
     res_bind (foreign (address_from_str X (mdoc_address row))) (\<lambda>address.
     res_bind (traverse (stored_abi_param X) (mdoc_param_schema row)) (\<lambda>params.
     if mdoc_kind row = ''call'' then
       res_bind (foreign (selector_from_str X (mdoc_signature_hash row))) (\<lambda>sel.
       Inr (CallT \<lparr>ct_address = address, ct_selector = sel, ct_inputs = params\<rparr>))
     else if mdoc_kind row = ''event'' then
       res_bind (foreign (b256_from_str X (mdoc_signature_hash row))) (\<lambda>topic.
       Inr (EventT \<lparr>et_address = address, et_topic0 = topic, et_params = params\<rparr>))
     else Inl (anyhow (''invalid monitor kind '' @ mdoc_kind row))))"

definition incomplete_filter :: "monitor_document \<Rightarrow> error" where
  "incomplete_filter row = anyhow (''monitor '' @ show_int (mdoc_id row) @ '' has incomplete filter state'')"

definition mongo_filter :: "externs \<Rightarrow> monitor_document \<Rightarrow> target \<Rightarrow> monitor_filter result" where
  "mongo_filter X row t =
     (case (mdoc_filter_ast row, mdoc_filter_version row) of
        (None, None) \<Rightarrow> Inr FilterAll
      | (Some expression, Some version) \<Rightarrow>
          compile_definition X \<lparr>fd_version = version, fd_expression = expression\<rparr> t
      | _ \<Rightarrow> Inl (incomplete_filter row))"

definition mongo_monitor :: "externs \<Rightarrow> monitor_document \<Rightarrow> monitor result" where
  "mongo_monitor X row =
     res_bind (mongo_target X row) (\<lambda>t.
     res_bind (mongo_filter X row t) (\<lambda>flt.
     res_bind (from_i64 (mdoc_id row) ''monitor id'') (\<lambda>raw.
     res_bind (monitor_id_new raw) (\<lambda>i.
     res_bind (from_i64 (mdoc_chain_id row) ''chain id'') (\<lambda>c.
     res_bind (from_i64 (mdoc_start_block row) ''start block'') (\<lambda>s.
     res_bind (traverse_option (\<lambda>v. from_i64 v ''end block'') (mdoc_end_block row)) (\<lambda>e.
     res_bind (traverse_option (\<lambda>v. from_i64 v ''cursor'') (mdoc_cursor row)) (\<lambda>cur.
     Inr \<lparr>mon_id = i, mon_chain = Chain c, mon_target = t, mon_start_block = s, mon_end_block = e,
          mon_cursor = Cursor cur, mon_completed = mdoc_completed row,
          mon_enabled = mdoc_enabled row, mon_filter = flt\<rparr>))))))))"

definition mongo_chain_record :: "row_readers \<Rightarrow> chain_document \<Rightarrow> chain_record result" where
  "mongo_chain_record Y row =
     res_bind (from_i64 (cdoc_chain_id row) ''chain id'') (\<lambda>c.
     res_bind (foreign (rr_url_parse Y (cdoc_rpc_url row))) (\<lambda>u.
     res_bind (chrono Y (cdoc_created_at row)) (\<lambda>created.
     res_bind (chrono Y (cdoc_updated_at row)) (\<lambda>updated.
     Inr \<lparr>cr_chain = Chain c, cr_rpc_url = u, cr_enabled = cdoc_enabled row,
          cr_created_at = created, cr_updated_at = updated\<rparr>))))"

definition mongo_filter_definition :: "monitor_document \<Rightarrow> filter_definition option result" where
  "mongo_filter_definition row =
     (case (mdoc_filter_ast row, mdoc_filter_version row) of
        (None, None) \<Rightarrow> Inr None
      | (Some expression, Some version) \<Rightarrow> Inr (Some \<lparr>fd_version = version, fd_expression = expression\<rparr>)
      | _ \<Rightarrow> Inl (incomplete_filter row))"

definition mongo_monitor_record :: "externs \<Rightarrow> row_readers \<Rightarrow> monitor_document \<Rightarrow> monitor_record result" where
  "mongo_monitor_record X Y row =
     res_bind (mongo_filter_definition row) (\<lambda>flt.
     res_bind (from_i64 (mdoc_id row) ''monitor id'') (\<lambda>raw.
     res_bind (monitor_id_new raw) (\<lambda>i.
     res_bind (from_i64 (mdoc_chain_id row) ''chain id'') (\<lambda>c.
     res_bind (mongo_target X row) (\<lambda>t.
     res_bind (from_i64 (mdoc_start_block row) ''start block'') (\<lambda>s.
     res_bind (traverse_option (\<lambda>v. from_i64 v ''end block'') (mdoc_end_block row)) (\<lambda>e.
     res_bind (traverse_option (\<lambda>v. from_i64 v ''cursor'') (mdoc_cursor row)) (\<lambda>cur.
     res_bind (chrono Y (mdoc_created_at row)) (\<lambda>created.
     res_bind (chrono Y (mdoc_updated_at row)) (\<lambda>updated.
     Inr \<lparr>mr_id = i, mr_chain = Chain c, mr_target = t, mr_start_block = s, mr_end_block = e,
          mr_cursor = cur, mr_completed = mdoc_completed row, mr_enabled = mdoc_enabled row,
          mr_filter = flt, mr_created_at = created, mr_updated_at = updated\<rparr>))))))))))"

section \<open>From the core to rows\<close>

definition stored_param_of :: "externs \<Rightarrow> abi_param \<Rightarrow> stored_param" where
  "stored_param_of X p = \<lparr>sp_name = param_name p, sp_sol_type = sol_type X p, sp_indexed = param_indexed p\<rparr>"

text \<open>The row \<open>create_monitor\<close> prepares; its id is replaced by the counter's next value.\<close>

definition monitor_template :: "externs \<Rightarrow> int \<Rightarrow> new_monitor \<Rightarrow> monitor_document result" where
  "monitor_template X time nm =
     (let (address, kind, signature_hash, params) =
            (case nm_target nm of
               CallT t \<Rightarrow> (address_display X (ct_address t), ''call'', selector_display X (ct_selector t), ct_inputs t)
             | EventT t \<Rightarrow> (address_display X (et_address t), ''event'', b256_display X (et_topic0 t), et_params t)) in
      res_bind (to_i64 (chain_id_of (nm_chain nm)) ''chain id'') (\<lambda>c.
      res_bind (to_i64 (nm_start_block nm) ''start block'') (\<lambda>s.
      res_bind (traverse_option (\<lambda>v. to_i64 v ''end block'') (nm_end_block nm)) (\<lambda>e.
      Inr \<lparr>mdoc_id = 1, mdoc_chain_id = c, mdoc_address = address, mdoc_kind = kind,
           mdoc_signature_hash = signature_hash, mdoc_param_schema = map (stored_param_of X) params,
           mdoc_start_block = s, mdoc_end_block = e, mdoc_cursor = None, mdoc_completed = False,
           mdoc_enabled = True, mdoc_filter_ast = map_option fd_expression (nm_filter nm),
           mdoc_filter_version = map_option fd_version (nm_filter nm),
           mdoc_created_at = time, mdoc_updated_at = time\<rparr>))))"

definition bson_value :: "externs \<Rightarrow> decoded_value \<Rightarrow> bson" where
  "bson_value X v =
     (case v of
        DUint w \<Rightarrow> BsonString (u256_display X w)
      | DInt w \<Rightarrow> BsonString (i256_display X w)
      | DBool b \<Rightarrow> BsonBoolean b
      | DAddress a \<Rightarrow> BsonString (address_display X a)
      | DString s \<Rightarrow> BsonString s
      | DBytes b \<Rightarrow> BsonBinary b)"

definition bson_params :: "externs \<Rightarrow> abi_param list \<Rightarrow> decoded_value list \<Rightarrow> document result" where
  "bson_params X schema vs =
     res_bind (ensure (length schema = length vs) (anyhow ''parameter count mismatch'')) (\<lambda>_.
     Inr (collect_fields (map (\<lambda>(param, v). (param_name param, bson_value X v)) (zip schema vs))))"

fun bson_json :: "externs \<Rightarrow> bson \<Rightarrow> json result" where
  "bson_json X (BsonString s) = Inr (JString s)"
| "bson_json X (BsonBoolean b) = Inr (JBool b)"
| "bson_json X (BsonBinary b) = Inr (JString (''0x'' @ hex_encode X b))"
| "bson_json X (BsonOther s) = Inl (anyhow (''invalid stored parameter value '' @ s))"

definition bson_params_to_json :: "externs \<Rightarrow> document \<Rightarrow> json result" where
  "bson_params_to_json X doc =
     res_bind (traverse (\<lambda>(k, v). res_bind (bson_json X v) (\<lambda>j. Inr (k, j))) doc) (\<lambda>fs.
     Inr (JObject (collect_fields fs)))"

text \<open>The map from ids to monitors keeps the last monitor of an id.\<close>

definition locked_monitor :: "monitor list \<Rightarrow> monitor_id \<Rightarrow> monitor result" where
  "locked_monitor ms i =
     ok_or (anyhow (''monitor '' @ show_u64 (monitor_id_get i) @ '' was not locked''))
       (List.find (\<lambda>m. mon_id m = i) (rev ms))"

definition result_document :: "externs \<Rightarrow> i64 \<Rightarrow> monitor list \<Rightarrow> decoded_result \<Rightarrow> result_row result" where
  "result_document X chain_id ms result =
     (case result of
        ResultCall call \<Rightarrow>
          res_bind (locked_monitor ms (dc_monitor_id call)) (\<lambda>monitor.
          (case mon_target monitor of
             EventT _ \<Rightarrow> Inl (anyhow ''call result references event monitor'')
           | CallT t \<Rightarrow>
               res_bind (to_i64 (monitor_id_get (dc_monitor_id call)) ''monitor id'') (\<lambda>i.
               res_bind (to_i64 (dc_block_number call) ''block number'') (\<lambda>b.
               res_bind (bson_params X (ct_inputs t) (dc_params call)) (\<lambda>params.
               Inr \<lparr>rdoc_chain_id = chain_id, rdoc_monitor_id = i, rdoc_kind = ''call'',
                    rdoc_tx_hash = b256_display X (dc_transaction_hash call), rdoc_log_index = None,
                    rdoc_block_number = b, rdoc_params = params\<rparr>)))))
      | ResultEvent event \<Rightarrow>
          res_bind (locked_monitor ms (de_monitor_id event)) (\<lambda>monitor.
          (case mon_target monitor of
             CallT _ \<Rightarrow> Inl (anyhow ''event result references call monitor'')
           | EventT t \<Rightarrow>
               res_bind (to_i64 (monitor_id_get (de_monitor_id event)) ''monitor id'') (\<lambda>i.
               res_bind (to_i64 (de_log_index event) ''log index'') (\<lambda>l.
               res_bind (to_i64 (de_block_number event) ''block number'') (\<lambda>b.
               res_bind (bson_params X (et_params t) (de_params event)) (\<lambda>params.
               Inr \<lparr>rdoc_chain_id = chain_id, rdoc_monitor_id = i, rdoc_kind = ''event'',
                    rdoc_tx_hash = b256_display X (de_transaction_hash event), rdoc_log_index = Some l,
                    rdoc_block_number = b, rdoc_params = params\<rparr>)))))))"

text \<open>The loop body of \<open>query_results\<close>: one stored row as a result of the monitor's kind.\<close>

definition result_record_of :: "externs \<Rightarrow> string \<Rightarrow> result_row \<Rightarrow> result_record result" where
  "result_record_of X kind row =
     res_bind (foreign (b256_from_str X (rdoc_tx_hash row))) (\<lambda>tx_hash.
     res_bind (from_i64 (rdoc_block_number row) ''block number'') (\<lambda>b.
     res_bind (bson_params_to_json X (rdoc_params row)) (\<lambda>params.
     if kind = ''call'' then Inr (RecordCall tx_hash b params)
     else
       res_bind (ok_or (anyhow ''missing log index'') (rdoc_log_index row)) (\<lambda>raw.
       res_bind (from_i64 raw ''log index'') (\<lambda>l.
       Inr (RecordEvent tx_hash l b params))))))"

section \<open>Parameters are stored without loss\<close>

lemma fst_object_insert: "fst ` set (object_insert k v fs) = insert k (fst ` set fs)"
  by (induction k v fs rule: object_insert.induct) auto

lemma distinct_object_insert: "distinct (map fst fs) \<Longrightarrow> distinct (map fst (object_insert k v fs))"
  by (induction k v fs rule: object_insert.induct) (auto simp: fst_object_insert rev_image_eqI)

lemma distinct_collect_fields: "distinct (map fst (collect_fields kvs))"
proof -
  have "distinct (map fst fs) \<Longrightarrow> distinct (map fst (foldl (\<lambda>fs (k, v). object_insert k v fs) fs kvs))" for fs
    by (induction kvs arbitrary: fs) (auto simp: distinct_object_insert split: prod.splits)
  then show ?thesis by (simp add: collect_fields_def)
qed

lemma map_object_insert:
  "map (\<lambda>(k, v). (k, f v)) (object_insert k v fs) = object_insert k (f v) (map (\<lambda>(k, v). (k, f v)) fs)"
  by (induction k v fs rule: object_insert.induct) auto

lemma map_collect_fields:
  "map (\<lambda>(k, v). (k, f v)) (collect_fields kvs) = collect_fields (map (\<lambda>(k, v). (k, f v)) kvs)"
proof -
  have "map (\<lambda>(k, v). (k, f v)) (foldl (\<lambda>fs (k, v). object_insert k v fs) fs kvs)
      = foldl (\<lambda>fs (k, v). object_insert k v fs) (map (\<lambda>(k, v). (k, f v)) fs) (map (\<lambda>(k, v). (k, f v)) kvs)" for fs
    by (induction kvs arbitrary: fs) (auto simp: map_object_insert)
  then show ?thesis by (simp add: collect_fields_def)
qed

lemma set_collect_fields: "(k, v) \<in> set (collect_fields kvs) \<Longrightarrow> (k, v) \<in> set kvs"
proof -
  have ins: "(k, v) \<in> set (object_insert k' v' fs) \<Longrightarrow> (k, v) = (k', v') \<or> (k, v) \<in> set fs" for k' v' fs
    by (induction k' v' fs rule: object_insert.induct) (auto split: if_splits)
  have "(k, v) \<in> set (foldl (\<lambda>fs (k, v). object_insert k v fs) fs kvs) \<Longrightarrow> (k, v) \<in> set fs \<or> (k, v) \<in> set kvs" for fs
  proof (induction kvs arbitrary: fs)
    case (Cons kv kvs)
    obtain k' v' where kv: "kv = (k', v')" by fastforce
    with Cons show ?case using ins [of k' v' fs] by fastforce
  qed simp
  then show "(k, v) \<in> set (collect_fields kvs) \<Longrightarrow> (k, v) \<in> set kvs" by (fastforce simp: collect_fields_def)
qed

definition plain_json :: "externs \<Rightarrow> bson \<Rightarrow> json" where
  "plain_json X v = projr (bson_json X v)"

lemma bson_json_value: "bson_json X (bson_value X v) = Inr (canonical_value X v)"
  by (cases v) (simp_all add: bson_value_def canonical_value_def)

lemma bson_params_round_trip:
  assumes "bson_params X ps vs = Inr doc"
  shows "bson_params_to_json X doc = canonical_params X ps vs"
proof -
  let ?kvs = "map (\<lambda>(p, v). (param_name p, bson_value X v)) (zip ps vs)"
  have len: "length ps = length vs" and doc: "doc = collect_fields ?kvs"
    using assms by (auto simp: bson_params_def res_simps)
  have each: "res_bind (bson_json X v) (\<lambda>j. Inr (k, j)) = Inr (k, plain_json X v)" if "(k, v) \<in> set doc" for k v
    using set_collect_fields [of k v ?kvs] that by (auto simp: doc plain_json_def bson_json_value)
  have "traverse (\<lambda>(k, v). res_bind (bson_json X v) (\<lambda>j. Inr (k, j))) doc = Inr (map (\<lambda>(k, v). (k, plain_json X v)) doc)"
    by (rule traverse_map_Inr) (use each in auto)
  moreover have "collect_fields (map (\<lambda>(k, v). (k, plain_json X v)) doc) = map (\<lambda>(k, v). (k, plain_json X v)) doc"
  proof (rule collect_fields_distinct)
    have "map fst (map (\<lambda>(k, v). (k, plain_json X v)) doc) = map fst doc" by (induction doc) auto
    then show "distinct (map fst (map (\<lambda>(k, v). (k, plain_json X v)) doc))"
      using distinct_collect_fields [of ?kvs] by (simp only: doc)
  qed
  moreover have "map (\<lambda>(k, v). (k, plain_json X v)) doc
      = collect_fields (map (\<lambda>(p, v). (param_name p, canonical_value X v)) (zip ps vs))"
    unfolding doc map_collect_fields by (simp add: comp_def case_prod_unfold plain_json_def bson_json_value)
  ultimately show ?thesis
    by (simp add: bson_params_to_json_def canonical_params_def collect_object_def len)
qed

section \<open>Targets are stored without loss\<close>

text \<open>Hexadecimal texts of addresses, hashes and selectors parse back.\<close>

definition hash_text_laws :: "externs \<Rightarrow> bool" where
  "hash_text_laws X =
     ((\<forall>a. address_from_str X (address_display X a) = Inr a)
      \<and> (\<forall>h. b256_from_str X (b256_display X h) = Inr h)
      \<and> (\<forall>s. selector_from_str X (selector_display X s) = Inr s))"

lemma stored_abi_param_round_trip:
  assumes "type_text_laws X" and "scalar_type (param_ty p)"
  shows "stored_abi_param X (stored_param_of X p) = Inr p"
proof -
  have "ensure_supported_type X (param_ty p) = Inr ()"
    using assms(2) by (cases "param_ty p") (simp_all add: scalar_type_def ensure_supported_type_def)
  with assms show ?thesis
    by (simp add: stored_abi_param_def stored_param_of_def parse_abi_type_def sol_type_def type_text_laws_def
        abi_param_new_def with_indexed_def)
qed

lemma stored_schema_round_trip:
  assumes "type_text_laws X" and "\<forall>p \<in> set ps. scalar_type (param_ty p)"
  shows "traverse (stored_abi_param X) (map (stored_param_of X) ps) = Inr ps"
  using assms by (induction ps) (simp_all add: stored_abi_param_round_trip)

lemma monitor_template_fields:
  assumes "monitor_template X time nm = Inr row"
  shows "mdoc_chain_id row = uint (chain_id_of (nm_chain nm))" and "mdoc_start_block row = uint (nm_start_block nm)"
    and "mdoc_end_block row = map_option uint (nm_end_block nm)" and "mdoc_cursor row = None"
    and "\<not> mdoc_completed row" and "mdoc_enabled row"
    and "mdoc_filter_ast row = map_option fd_expression (nm_filter nm)"
    and "mdoc_filter_version row = map_option fd_version (nm_filter nm)"
    and "mdoc_created_at row = time" and "mdoc_updated_at row = time"
  using assms by (auto simp: monitor_template_def res_simps Let_def split: target.splits)

lemma monitor_template_target:
  assumes "type_text_laws X" and "hash_text_laws X" and "schema_ok (target_params (nm_target nm))"
    and row: "monitor_template X time nm = Inr row"
  shows "mongo_target X (row\<lparr>mdoc_id := i\<rparr>) = Inr (nm_target nm)"
proof (cases "nm_target nm")
  case (CallT t)
  with assms(3) have "traverse (stored_abi_param X) (map (stored_param_of X) (ct_inputs t)) = Inr (ct_inputs t)"
    by (intro stored_schema_round_trip [OF assms(1)]) (simp add: schema_ok_def target_params_def)
  with CallT row assms(2) show ?thesis
    by (auto simp: monitor_template_def mongo_target_def hash_text_laws_def foreign_def res_simps)
next
  case (EventT t)
  with assms(3) have "traverse (stored_abi_param X) (map (stored_param_of X) (et_params t)) = Inr (et_params t)"
    by (intro stored_schema_round_trip [OF assms(1)]) (simp add: schema_ok_def target_params_def)
  with EventT row assms(2) show ?thesis
    by (auto simp: monitor_template_def mongo_target_def hash_text_laws_def foreign_def res_simps)
qed

lemma from_i64_option [simp]: "traverse_option (\<lambda>v. from_i64 v name) (map_option uint e) = Inr (e :: u64 option)"
  by (cases e) simp_all

lemma stored_monitor_record:
  assumes "type_text_laws X" and "hash_text_laws X" and "schema_ok (target_params (nm_target nm))"
    and row: "monitor_template X time nm = Inr row"
    and "rr_from_timestamp_millis Y time = Some stamp" and "0 < i" and "i \<le> 9223372036854775807"
  shows "mongo_monitor_record X Y (row\<lparr>mdoc_id := i\<rparr>)
    = Inr \<lparr>mr_id = MonitorId (word_of_int i), mr_chain = nm_chain nm, mr_target = nm_target nm,
           mr_start_block = nm_start_block nm, mr_end_block = nm_end_block nm, mr_cursor = None,
           mr_completed = False, mr_enabled = True, mr_filter = nm_filter nm,
           mr_created_at = stamp, mr_updated_at = stamp\<rparr>"
proof -
  have "(word_of_int i :: u64) \<noteq> 0" by (rule word_of_int_positive [OF assms(6,7)])
  moreover have "mongo_filter_definition (row\<lparr>mdoc_id := i\<rparr>) = Inr (nm_filter nm)"
    by (cases "nm_filter nm") (simp_all add: mongo_filter_definition_def monitor_template_fields [OF row])
  ultimately show ?thesis
    using monitor_template_target [OF assms(1-4), of i] assms(5,6)
    by (simp add: mongo_monitor_record_def monitor_template_fields [OF row] from_i64_def [of i] monitor_id_new_def
        chrono_def)
qed

lemma stored_monitor_loads:
  assumes "type_text_laws X" and "hash_text_laws X" and "schema_ok (target_params (nm_target nm))"
    and row: "monitor_template X time nm = Inr row" and "0 < i" and "i \<le> 9223372036854775807"
    and flt: "case nm_filter nm of None \<Rightarrow> f = FilterAll | Some d \<Rightarrow> compile_definition X d (nm_target nm) = Inr f"
  shows "mongo_monitor X (row\<lparr>mdoc_id := i\<rparr>)
    = Inr \<lparr>mon_id = MonitorId (word_of_int i), mon_chain = nm_chain nm, mon_target = nm_target nm,
           mon_start_block = nm_start_block nm, mon_end_block = nm_end_block nm, mon_cursor = Cursor None,
           mon_completed = False, mon_enabled = True, mon_filter = f\<rparr>"
proof -
  have "(word_of_int i :: u64) \<noteq> 0" by (rule word_of_int_positive [OF assms(5,6)])
  moreover have "mongo_filter X (row\<lparr>mdoc_id := i\<rparr>) (nm_target nm) = Inr f"
  proof (cases "nm_filter nm")
    case (Some d)
    then show ?thesis
      using flt by (cases d) (simp add: mongo_filter_def monitor_template_fields [OF row])
  qed (use flt in \<open>simp add: mongo_filter_def monitor_template_fields [OF row]\<close>)
  ultimately show ?thesis
    using monitor_template_target [OF assms(1-4), of i] assms(5)
    by (simp add: mongo_monitor_def monitor_template_fields [OF row] from_i64_def [of i] monitor_id_new_def)
qed

end
