(* ===== verification/Mongo_Server.thy ===== *)
theory Mongo_Server
  imports Mongo_Documents
begin

text \<open>
  The border between \<open>parseon-mongodb/src/storage.rs\<close> and the MongoDB driver. The driver and the
  server behind it are the record \<open>mongo\<close> of the calls the adapter makes, over a state the caller
  threads; a query document is the predicate it selects rows by, an update document the function
  it applies. What the server promises is the locale \<open>mongo_server\<close>: it speaks of the committed
  database, the database an open transaction would leave, and the indexes that exist. The retry
  loop of \<open>transaction\<close> and the index list are translated here.
\<close>

section \<open>Indexes\<close>

text \<open>A partial filter expression is the value it asks of one field.\<close>

record index_model =
  ix_keys :: "(string \<times> int) list"
  ix_name :: string
  ix_unique :: bool
  ix_partial :: "(string \<times> string) option"

definition MONITOR_TARGET_LOOKUP_INDEX :: string where
  "MONITOR_TARGET_LOOKUP_INDEX = ''monitors_target_lookup''"

definition LEGACY_MONITOR_TARGET_INDEX :: string where
  "LEGACY_MONITOR_TARGET_INDEX = ''monitors_target''"

definition NAMESPACE_NOT_FOUND :: int where "NAMESPACE_NOT_FOUND = 26"
definition INDEX_NOT_FOUND :: int where "INDEX_NOT_FOUND = 27"

definition indexes :: "(string \<times> index_model) list" where
  "indexes =
     [(''chains'', \<lparr>ix_keys = [(''chain_id'', 1)], ix_name = ''chains_chain_id'', ix_unique = True, ix_partial = None\<rparr>),
      (''monitors'', \<lparr>ix_keys = [(''id'', 1)], ix_name = ''monitors_id'', ix_unique = True, ix_partial = None\<rparr>),
      (''monitors'', \<lparr>ix_keys = [(''chain_id'', 1), (''kind'', 1), (''address'', 1), (''signature_hash'', 1)],
         ix_name = MONITOR_TARGET_LOOKUP_INDEX, ix_unique = False, ix_partial = None\<rparr>),
      (''monitors'', \<lparr>ix_keys = [(''chain_id'', 1), (''id'', 1)], ix_name = ''monitors_chain_order'',
         ix_unique = False, ix_partial = None\<rparr>),
      (''results'', \<lparr>ix_keys = [(''monitor_id'', 1), (''tx_hash'', 1)], ix_name = ''results_call_identity'',
         ix_unique = True, ix_partial = Some (''kind'', ''call'')\<rparr>),
      (''results'', \<lparr>ix_keys = [(''monitor_id'', 1), (''tx_hash'', 1), (''log_index'', 1)],
         ix_name = ''results_event_identity'', ix_unique = True, ix_partial = Some (''kind'', ''event'')\<rparr>),
      (''results'', \<lparr>ix_keys = [(''monitor_id'', 1), (''block_number'', - 1), (''tx_hash'', - 1)],
         ix_name = ''results_call_order'', ix_unique = False, ix_partial = Some (''kind'', ''call'')\<rparr>),
      (''results'', \<lparr>ix_keys = [(''monitor_id'', 1), (''block_number'', - 1), (''log_index'', - 1)],
         ix_name = ''results_event_order'', ix_unique = False, ix_partial = Some (''kind'', ''event'')\<rparr>)]"

section \<open>The database and what a unique index demands of it\<close>

record mongo_db =
  db_chains :: "chain_document list"
  db_monitors :: "monitor_document list"
  db_results :: "result_row list"
  db_counters :: "(string \<times> i64) list"

datatype field = FInt i64 | FText string | FAbsent

text \<open>A row by the field names serde derives, as far as an index names them.\<close>

definition chain_field :: "chain_document \<Rightarrow> string \<Rightarrow> field" where
  "chain_field r k = (if k = ''chain_id'' then FInt (cdoc_chain_id r) else FAbsent)"

definition monitor_field :: "monitor_document \<Rightarrow> string \<Rightarrow> field" where
  "monitor_field r k =
     (if k = ''id'' then FInt (mdoc_id r) else if k = ''chain_id'' then FInt (mdoc_chain_id r)
      else if k = ''kind'' then FText (mdoc_kind r) else if k = ''address'' then FText (mdoc_address r)
      else if k = ''signature_hash'' then FText (mdoc_signature_hash r) else FAbsent)"

definition result_field :: "result_row \<Rightarrow> string \<Rightarrow> field" where
  "result_field r k =
     (if k = ''monitor_id'' then FInt (rdoc_monitor_id r) else if k = ''tx_hash'' then FText (rdoc_tx_hash r)
      else if k = ''log_index'' then (case rdoc_log_index r of None \<Rightarrow> FAbsent | Some l \<Rightarrow> FInt l)
      else if k = ''block_number'' then FInt (rdoc_block_number r)
      else if k = ''kind'' then FText (rdoc_kind r) else FAbsent)"

definition collection_rows :: "mongo_db \<Rightarrow> string \<Rightarrow> (string \<Rightarrow> field) list" where
  "collection_rows db c =
     (if c = ''chains'' then map chain_field (db_chains db)
      else if c = ''monitors'' then map monitor_field (db_monitors db)
      else if c = ''results'' then map result_field (db_results db) else [])"

definition index_covers :: "index_model \<Rightarrow> (string \<Rightarrow> field) \<Rightarrow> bool" where
  "index_covers ix row = (case ix_partial ix of None \<Rightarrow> True | Some (k, v) \<Rightarrow> row k = FText v)"

definition index_ok :: "mongo_db \<Rightarrow> string \<times> index_model \<Rightarrow> bool" where
  "index_ok db cix =
     (ix_unique (snd cix) \<longrightarrow>
      distinct (map (\<lambda>row. map (\<lambda>(k, _). row k) (ix_keys (snd cix)))
        (filter (index_covers (snd cix)) (collection_rows db (fst cix)))))"

definition unique_ok :: "(string \<times> index_model) list \<Rightarrow> mongo_db \<Rightarrow> bool" where
  "unique_ok ixs db = list_all (index_ok db) ixs"

section \<open>The driver\<close>

record ('d, 'r) collection =
  co_find :: "'d \<Rightarrow> ('r \<Rightarrow> bool) \<Rightarrow> ('r \<Rightarrow> 'r \<Rightarrow> bool) \<Rightarrow> nat \<Rightarrow> nat option \<Rightarrow> 'r list result"
  co_find_one :: "'d \<Rightarrow> ('r \<Rightarrow> bool) \<Rightarrow> 'r option result"
  co_count_documents :: "'d \<Rightarrow> ('r \<Rightarrow> bool) \<Rightarrow> nat result"
  co_insert_one :: "bool \<Rightarrow> 'r \<Rightarrow> 'd \<Rightarrow> unit result \<times> 'd"
  co_insert_many :: "bool \<Rightarrow> 'r list \<Rightarrow> 'd \<Rightarrow> unit result \<times> 'd"
  co_update_one :: "bool \<Rightarrow> ('r \<Rightarrow> bool) \<Rightarrow> ('r \<Rightarrow> 'r) \<Rightarrow> 'd \<Rightarrow> nat result \<times> 'd"
  co_update_many :: "bool \<Rightarrow> ('r \<Rightarrow> bool) \<Rightarrow> ('r \<Rightarrow> 'r) \<Rightarrow> 'd \<Rightarrow> nat result \<times> 'd"
  co_find_one_and_update :: "bool \<Rightarrow> ('r \<Rightarrow> bool) \<Rightarrow> ('r \<Rightarrow> 'r) \<Rightarrow> 'd \<Rightarrow> 'r option result \<times> 'd"
  co_delete_one :: "bool \<Rightarrow> ('r \<Rightarrow> bool) \<Rightarrow> 'd \<Rightarrow> nat result \<times> 'd"
  co_delete_many :: "bool \<Rightarrow> ('r \<Rightarrow> bool) \<Rightarrow> 'd \<Rightarrow> nat result \<times> 'd"

text \<open>
  The flag of a writing call says whether it runs in the session's transaction. Updating calls
  return the matched count or the row after the update. \<open>mg_bump_counter\<close> is the upserting
  \<open>find_one_and_update\<close> with \<open>$inc\<close> by one on the counter document of that id; its value is read
  by \<open>get_i64\<close>, which may fail on a foreign document.
\<close>

record 'd mongo =
  mg_hello :: "'d \<Rightarrow> document result"
  mg_drop_index :: "string \<Rightarrow> string \<Rightarrow> 'd \<Rightarrow> unit result \<times> 'd"
  mg_create_index :: "string \<Rightarrow> index_model \<Rightarrow> 'd \<Rightarrow> unit result \<times> 'd"
  mg_now :: "'d \<Rightarrow> int"
  mg_start_session :: "'d \<Rightarrow> unit result \<times> 'd"
  mg_start_transaction :: "'d \<Rightarrow> unit result \<times> 'd"
  mg_commit_transaction :: "'d \<Rightarrow> unit result \<times> 'd"
  mg_abort_transaction :: "'d \<Rightarrow> unit result \<times> 'd"
  mg_chains :: "('d, chain_document) collection"
  mg_monitors :: "('d, monitor_document) collection"
  mg_results :: "('d, result_row) collection"
  mg_bump_counter :: "bool \<Rightarrow> string \<Rightarrow> 'd \<Rightarrow> (string + i64) option result \<times> 'd"

section \<open>Connecting\<close>

definition contains_label :: "error \<Rightarrow> string \<Rightarrow> bool" where
  "contains_label e l =
     (case e of Driver labels code text # _ \<Rightarrow> l \<in> set labels | _ \<Rightarrow> False)"

definition transient :: "error \<Rightarrow> bool" where
  "transient e = contains_label e ''TransientTransactionError''"

definition missing_index :: "error \<Rightarrow> bool" where
  "missing_index e =
     (case e of Driver labels (Some code) text # _ \<Rightarrow> code = NAMESPACE_NOT_FOUND \<or> code = INDEX_NOT_FOUND
      | _ \<Rightarrow> False)"

definition supports_transactions :: "document \<Rightarrow> bool" where
  "supports_transactions hello =
     ((\<exists>s. map_of hello ''setName'' = Some (BsonString s)) \<or> map_of hello ''msg'' = Some (BsonString ''isdbgrid''))"

definition drop_legacy_monitor_target_index :: "'d mongo \<Rightarrow> 'd \<Rightarrow> unit result \<times> 'd" where
  "drop_legacy_monitor_target_index M d =
     (case mg_drop_index M ''monitors'' LEGACY_MONITOR_TARGET_INDEX d of
        (Inr _, d1) \<Rightarrow> (Inr (), d1)
      | (Inl e, d1) \<Rightarrow> if missing_index e then (Inr (), d1) else (Inl e, d1))"

fun create_each_index :: "'d mongo \<Rightarrow> (string \<times> index_model) list \<Rightarrow> 'd \<Rightarrow> unit result \<times> 'd" where
  "create_each_index M [] = io_lift (Inr ())"
| "create_each_index M ((c, ix) # ixs) = io_bind (mg_create_index M c ix) (\<lambda>_. create_each_index M ixs)"

definition create_indexes :: "'d mongo \<Rightarrow> 'd \<Rightarrow> unit result \<times> 'd" where
  "create_indexes M = io_bind (drop_legacy_monitor_target_index M) (\<lambda>_. create_each_index M indexes)"

text \<open>\<open>connect\<close>, after the driver has parsed the URL into a client.\<close>

definition mongo_connect :: "'d mongo \<Rightarrow> string \<Rightarrow> 'd \<Rightarrow> unit result \<times> 'd" where
  "mongo_connect M database =
     io_bind (io_lift (ensure (database \<noteq> []) (anyhow ''storage database must not be empty''))) (\<lambda>_.
     io_bind (\<lambda>d. (mg_hello M d, d)) (\<lambda>hello.
     io_bind (io_lift (ensure (supports_transactions hello)
                (anyhow ''MongoDB storage requires a replica set or sharded deployment''))) (\<lambda>_.
     create_indexes M)))"

section \<open>Transactions\<close>

text \<open>
  The inner loop retries a commit whose result is unknown. It ends with the commit
  (\<open>Inr True\<close>), with the demand to start over (\<open>Inr False\<close>), or with an error.
\<close>

partial_function (option) commit_loop :: "'d mongo \<Rightarrow> 'd \<Rightarrow> (bool result \<times> 'd) option" where
  "commit_loop M d =
     (case mg_commit_transaction M d of
        (Inr _, d1) \<Rightarrow> Some (Inr True, d1)
      | (Inl e, d1) \<Rightarrow>
          if contains_label e ''UnknownTransactionCommitResult'' then commit_loop M d1
          else if contains_label e ''TransientTransactionError'' then Some (Inr False, snd (mg_abort_transaction M d1))
          else Some (Inl e, d1))"

partial_function (option) transaction_loop ::
  "'d mongo \<Rightarrow> ('d \<Rightarrow> 'a result \<times> 'd) \<Rightarrow> 'd \<Rightarrow> ('a result \<times> 'd) option" where
  "transaction_loop M op d =
     (case mg_start_transaction M d of
        (Inl e, d1) \<Rightarrow> Some (Inl e, d1)
      | (Inr _, d1) \<Rightarrow>
          (case op d1 of
             (Inl e, d2) \<Rightarrow>
               if transient e then transaction_loop M op (snd (mg_abort_transaction M d2))
               else Some (Inl e, snd (mg_abort_transaction M d2))
           | (Inr v, d2) \<Rightarrow>
               Option.bind (commit_loop M d2) (\<lambda>od.
               (case od of
                  (Inl e, d3) \<Rightarrow> Some (Inl e, d3)
                | (Inr finished, d3) \<Rightarrow> if finished then Some (Inr v, d3) else transaction_loop M op d3))))"

definition transaction :: "'d mongo \<Rightarrow> ('d \<Rightarrow> 'a result \<times> 'd) \<Rightarrow> 'd \<Rightarrow> ('a result \<times> 'd) option" where
  "transaction M op d =
     (case mg_start_session M d of (Inl e, d1) \<Rightarrow> Some (Inl e, d1) | (Inr _, d1) \<Rightarrow> transaction_loop M op d1)"

end
