(* ===== verification/Mongo_Contract.thy ===== *)
theory Mongo_Contract
  imports Mongo_Server "HOL-Library.Multiset"
begin

text \<open>
  The interface \<open>mongo_server\<close>: what the MongoDB documentation promises of the calls the adapter
  makes, and what follows for a transaction. The view \<open>V\<close> reads off a driver state the committed
  database, the one the open transaction would leave, the one it started from, and the existing
  indexes. The process is the only writer of its database.
\<close>

section \<open>The laws of the calls\<close>

record 'd mongo_view =
  vw_committed :: "'d \<Rightarrow> mongo_db"
  vw_pending :: "'d \<Rightarrow> mongo_db option"
  vw_base :: "'d \<Rightarrow> mongo_db"
  vw_indexes :: "'d \<Rightarrow> (string \<times> index_model) list"

text \<open>
  A successful write applies \<open>f\<close>, returns \<open>val\<close> of the database before it and leaves every unique
  index satisfied. Inside a transaction only the pending database changes. A failed write outside
  of one has applied wholly or not at all.
\<close>

definition write_law ::
  "'d mongo_view \<Rightarrow> bool \<Rightarrow> (mongo_db \<Rightarrow> bool) \<Rightarrow> (mongo_db \<Rightarrow> mongo_db) \<Rightarrow> (mongo_db \<Rightarrow> 'n)
     \<Rightarrow> ('d \<Rightarrow> 'n result \<times> 'd) \<Rightarrow> bool" where
  "write_law V session ok f val call =
     (\<forall>d r d'. call d = (r, d') \<longrightarrow>
        vw_indexes V d' = vw_indexes V d
        \<and> (if session then
             \<forall>p. vw_pending V d = Some p \<longrightarrow>
               vw_committed V d' = vw_committed V d \<and> vw_base V d' = vw_base V d
               \<and> (case r of Inl e \<Rightarrow> vw_pending V d' \<noteq> None
                  | Inr n \<Rightarrow> ok p \<and> n = val p \<and> unique_ok (vw_indexes V d) (f p) \<and> vw_pending V d' = Some (f p))
           else
             (let db = vw_committed V d in
              case r of
                Inl e \<Rightarrow> vw_committed V d' = db \<or> (ok db \<and> unique_ok (vw_indexes V d) (f db) \<and> vw_committed V d' = f db)
              | Inr n \<Rightarrow> ok db \<and> n = val db \<and> unique_ok (vw_indexes V d) (f db) \<and> vw_committed V d' = f db)))"

fun update_first :: "('r \<Rightarrow> bool) \<Rightarrow> ('r \<Rightarrow> 'r) \<Rightarrow> 'r list \<Rightarrow> 'r list" where
  "update_first p g [] = []"
| "update_first p g (r # rs) = (if p r then g r # rs else r # update_first p g rs)"

fun delete_first :: "('r \<Rightarrow> bool) \<Rightarrow> 'r list \<Rightarrow> 'r list" where
  "delete_first p [] = []"
| "delete_first p (r # rs) = (if p r then rs else r # delete_first p rs)"

definition matched_one :: "('r \<Rightarrow> bool) \<Rightarrow> 'r list \<Rightarrow> nat" where
  "matched_one p rs = (if list_ex p rs then 1 else 0)"

text \<open>A query returns the page of some ordering of the matching rows.\<close>

definition page_of :: "nat \<Rightarrow> nat option \<Rightarrow> 'r list \<Rightarrow> 'r list" where
  "page_of skip limit rs = (case limit of None \<Rightarrow> drop skip rs | Some n \<Rightarrow> take n (drop skip rs))"

definition read_laws :: "'d mongo_view \<Rightarrow> (mongo_db \<Rightarrow> 'r list) \<Rightarrow> ('d, 'r) collection \<Rightarrow> bool" where
  "read_laws V rows C =
     ((\<forall>d p before skip limit rs. co_find C d p before skip limit = Inr rs \<longrightarrow>
         (\<exists>all. mset all = mset (filter p (rows (vw_committed V d)))
            \<and> sorted_wrt (\<lambda>a b. \<not> before b a) all \<and> rs = page_of skip limit all))
      \<and> (\<forall>d p r. co_find_one C d p = Inr r \<longrightarrow> r = List.find p (rows (vw_committed V d)))
      \<and> (\<forall>d p n. co_count_documents C d p = Inr n \<longrightarrow> n = length (filter p (rows (vw_committed V d)))))"

definition write_laws ::
  "'d mongo_view \<Rightarrow> (mongo_db \<Rightarrow> 'r list) \<Rightarrow> (('r list \<Rightarrow> 'r list) \<Rightarrow> mongo_db \<Rightarrow> mongo_db)
     \<Rightarrow> ('d, 'r) collection \<Rightarrow> bool" where
  "write_laws V rows upd C =
     (\<forall>s.
        (\<forall>r. write_law V s (\<lambda>_. True) (upd (\<lambda>rs. rs @ [r])) (\<lambda>_. ()) (co_insert_one C s r))
        \<and> (\<forall>new. write_law V s (\<lambda>_. True) (upd (\<lambda>rs. rs @ new)) (\<lambda>_. ()) (co_insert_many C s new))
        \<and> (\<forall>p g. write_law V s (\<lambda>_. True) (upd (update_first p g)) (\<lambda>db. matched_one p (rows db)) (co_update_one C s p g))
        \<and> (\<forall>p g. write_law V s (\<lambda>_. True) (upd (map (\<lambda>r. if p r then g r else r)))
             (\<lambda>db. length (filter p (rows db))) (co_update_many C s p g))
        \<and> (\<forall>p g. write_law V s (\<lambda>_. True) (upd (update_first p g)) (\<lambda>db. map_option g (List.find p (rows db)))
             (co_find_one_and_update C s p g))
        \<and> (\<forall>p. write_law V s (\<lambda>_. True) (upd (delete_first p)) (\<lambda>db. matched_one p (rows db)) (co_delete_one C s p))
        \<and> (\<forall>p. write_law V s (\<lambda>_. True) (upd (filter (\<lambda>r. \<not> p r))) (\<lambda>db. length (filter p (rows db)))
             (co_delete_many C s p)))"

definition counter_value :: "mongo_db \<Rightarrow> string \<Rightarrow> i64" where
  "counter_value db k = (case map_of (db_counters db) k of None \<Rightarrow> 0 | Some v \<Rightarrow> v)"

definition bump_counter :: "string \<Rightarrow> mongo_db \<Rightarrow> mongo_db" where
  "bump_counter k db = db\<lparr>db_counters := (k, counter_value db k + 1) # filter (\<lambda>kv. fst kv \<noteq> k) (db_counters db)\<rparr>"

lemma counter_value_bump [simp]: "counter_value (bump_counter k db) k = counter_value db k + 1"
  by (simp add: counter_value_def bump_counter_def)

lemma bump_counter_rows [simp]:
  "db_chains (bump_counter k db) = db_chains db" "db_monitors (bump_counter k db) = db_monitors db"
  "db_results (bump_counter k db) = db_results db"
  by (simp_all add: bump_counter_def)

section \<open>The interface\<close>

locale mongo_server =
  fixes M :: "'d mongo" and V :: "'d mongo_view"
  assumes chain_reads: "read_laws V db_chains (mg_chains M)"
    and chain_writes: "write_laws V db_chains db_chains_update (mg_chains M)"
    and monitor_reads: "read_laws V db_monitors (mg_monitors M)"
    and monitor_writes: "write_laws V db_monitors db_monitors_update (mg_monitors M)"
    and result_reads: "read_laws V db_results (mg_results M)"
    and result_writes: "write_laws V db_results db_results_update (mg_results M)"
    and counter_writes:
      "write_law V s (\<lambda>db. counter_value db k < 9223372036854775807) (bump_counter k)
         (\<lambda>db. Some (Inr (counter_value db k + 1))) (mg_bump_counter M s k)"
    and session_starts: "mg_start_session M d = (r, d') \<Longrightarrow>
      vw_committed V d' = vw_committed V d \<and> vw_indexes V d' = vw_indexes V d"
    and transaction_starts: "mg_start_transaction M d = (r, d') \<Longrightarrow>
      vw_committed V d' = vw_committed V d \<and> vw_indexes V d' = vw_indexes V d
      \<and> (\<forall>u. r = Inr u \<longrightarrow> vw_pending V d' = Some (vw_committed V d) \<and> vw_base V d' = vw_committed V d)"
    and aborts: "mg_abort_transaction M d = (r, d') \<Longrightarrow>
      vw_committed V d' = vw_committed V d \<and> vw_indexes V d' = vw_indexes V d"
    and commits: "mg_commit_transaction M d = (r, d') \<Longrightarrow> vw_pending V d = Some p \<Longrightarrow>
      vw_indexes V d' = vw_indexes V d
      \<and> (case r of
           Inr u \<Rightarrow> vw_committed V d' = p
         | Inl e \<Rightarrow>
             if contains_label e ''UnknownTransactionCommitResult'' then
               vw_committed V d' \<in> {vw_base V d, p} \<and> vw_pending V d' = Some p \<and> vw_base V d' = vw_base V d
             else vw_committed V d' = vw_base V d)"
    and drops_index: "mg_drop_index M c n d = (r, d') \<Longrightarrow>
      vw_committed V d' = vw_committed V d
      \<and> (vw_indexes V d' = vw_indexes V d \<or> vw_indexes V d' = filter (\<lambda>cix. \<not> (fst cix = c \<and> ix_name (snd cix) = n)) (vw_indexes V d))"
    and creates_index: "mg_create_index M c ix d = (r, d') \<Longrightarrow>
      vw_committed V d' = vw_committed V d
      \<and> set (vw_indexes V d) \<subseteq> set (vw_indexes V d') \<and> set (vw_indexes V d') \<subseteq> insert (c, ix) (set (vw_indexes V d))
      \<and> ((c, ix) \<in> set (vw_indexes V d') \<longrightarrow> (c, ix) \<in> set (vw_indexes V d) \<or> index_ok (vw_committed V d) (c, ix))
      \<and> (\<forall>u. r = Inr u \<longrightarrow> (c, ix) \<in> set (vw_indexes V d'))"

section \<open>Sequences of calls inside a transaction\<close>

text \<open>\<open>Q p v p'\<close>: with result \<open>v\<close> the pending database goes from \<open>p\<close> to \<open>p'\<close>.\<close>

definition session_op ::
  "'d mongo_view \<Rightarrow> (mongo_db \<Rightarrow> 'a \<Rightarrow> mongo_db \<Rightarrow> bool) \<Rightarrow> ('d \<Rightarrow> 'a result \<times> 'd) \<Rightarrow> bool" where
  "session_op V Q m =
     (\<forall>d r d' p. m d = (r, d') \<longrightarrow> vw_pending V d = Some p \<longrightarrow>
        vw_committed V d' = vw_committed V d \<and> vw_base V d' = vw_base V d \<and> vw_indexes V d' = vw_indexes V d
        \<and> (case r of Inl e \<Rightarrow> vw_pending V d' \<noteq> None
           | Inr v \<Rightarrow> \<exists>p'. vw_pending V d' = Some p' \<and> Q p v p'
               \<and> (unique_ok (vw_indexes V d) p \<longrightarrow> unique_ok (vw_indexes V d) p')))"

lemma session_write:
  "write_law V True ok f val call \<Longrightarrow> session_op V (\<lambda>p v p'. ok p \<and> v = val p \<and> p' = f p) call"
  unfolding write_law_def session_op_def by (fastforce split: sum.splits)

lemma session_lift: "session_op V (\<lambda>p v p'. r = Inr v \<and> p' = p) (io_lift r)"
  by (auto simp: session_op_def io_lift_def split: sum.split)

lemma session_bind:
  assumes "session_op V Q m" and "\<And>x. session_op V (R x) (f x)"
  shows "session_op V (\<lambda>p v p'. \<exists>x p1. Q p x p1 \<and> R x p1 v p') (io_bind m f)"
  unfolding session_op_def
proof (intro allI impI)
  fix d r d' p
  assume run: "io_bind m f d = (r, d')" and p: "vw_pending V d = Some p"
  obtain r1 d1 where m: "m d = (r1, d1)" by fastforce
  from assms(1) m p have first: "vw_committed V d1 = vw_committed V d" "vw_base V d1 = vw_base V d"
    "vw_indexes V d1 = vw_indexes V d"
    "case r1 of Inl e \<Rightarrow> vw_pending V d1 \<noteq> None
     | Inr v \<Rightarrow> \<exists>p'. vw_pending V d1 = Some p' \<and> Q p v p'
         \<and> (unique_ok (vw_indexes V d) p \<longrightarrow> unique_ok (vw_indexes V d) p')"
    by (auto simp: session_op_def)
  show "vw_committed V d' = vw_committed V d \<and> vw_base V d' = vw_base V d \<and> vw_indexes V d' = vw_indexes V d
    \<and> (case r of Inl e \<Rightarrow> vw_pending V d' \<noteq> None
       | Inr v \<Rightarrow> \<exists>p'. vw_pending V d' = Some p' \<and> (\<exists>x p1. Q p x p1 \<and> R x p1 v p')
           \<and> (unique_ok (vw_indexes V d) p \<longrightarrow> unique_ok (vw_indexes V d) p'))"
  proof (cases r1)
    case (Inl e)
    with run m first show ?thesis by (auto simp: io_bind_def)
  next
    case (Inr x)
    with run m have "f x d1 = (r, d')" by (simp add: io_bind_def)
    moreover from Inr first(4) obtain p1 where "vw_pending V d1 = Some p1" "Q p x p1"
      "unique_ok (vw_indexes V d) p \<longrightarrow> unique_ok (vw_indexes V d) p1" by auto
    ultimately show ?thesis
      using assms(2) [of x] first(1-3) unfolding session_op_def by (fastforce split: sum.splits)
  qed
qed

lemma session_weaken: "session_op V Q m \<Longrightarrow> (\<And>p v p'. Q p v p' \<Longrightarrow> R p v p') \<Longrightarrow> session_op V R m"
  unfolding session_op_def by (fastforce split: sum.splits)

section \<open>A transaction is atomic\<close>

context mongo_server begin

lemma commit_loop_outcome:
  assumes "commit_loop N d = Some (r, d')" and "N = M" and "vw_pending V d = Some p"
  shows "vw_indexes V d' = vw_indexes V d
    \<and> (case r of Inl e \<Rightarrow> vw_committed V d' = vw_base V d
       | Inr finished \<Rightarrow> vw_committed V d' = (if finished then p else vw_base V d))"
proof -
  define P where "P N d rd = (N = M \<longrightarrow> vw_pending V d = Some p \<longrightarrow>
      vw_indexes V (snd rd) = vw_indexes V d
      \<and> (case fst rd of Inl (e :: error) \<Rightarrow> vw_committed V (snd rd) = vw_base V d
         | Inr finished \<Rightarrow> vw_committed V (snd rd) = (if finished then p else vw_base V d)))" for N d rd
  have "P N d (r, d')"
  proof (rule commit_loop.raw_induct [OF _ assms(1), of P])
    fix loop :: "'d mongo \<Rightarrow> 'd \<Rightarrow> (bool result \<times> 'd) option" and N d rd
    assume IH: "\<And>N d rd. loop N d = Some rd \<Longrightarrow> P N d rd"
      and body: "(case mg_commit_transaction N d of
        (Inl e, d1) \<Rightarrow>
          if contains_label e ''UnknownTransactionCommitResult'' then loop N d1
          else if contains_label e ''TransientTransactionError'' then Some (Inr False, snd (mg_abort_transaction N d1))
          else Some (Inl e, d1)
      | (Inr x, d1) \<Rightarrow> Some (Inr True, d1)) = Some rd"
    show "P N d rd"
      unfolding P_def
    proof (intro impI)
      assume N: "N = M" and p: "vw_pending V d = Some p"
      obtain c d1 where c: "mg_commit_transaction M d = (c, d1)" by fastforce
      from commits [OF c p] have law: "vw_indexes V d1 = vw_indexes V d"
        "case c of Inr u \<Rightarrow> vw_committed V d1 = p
         | Inl e \<Rightarrow> if contains_label e ''UnknownTransactionCommitResult'' then
             vw_committed V d1 \<in> {vw_base V d, p} \<and> vw_pending V d1 = Some p \<and> vw_base V d1 = vw_base V d
           else vw_committed V d1 = vw_base V d" by blast+
      obtain a d2 where a: "mg_abort_transaction M d1 = (a, d2)" by fastforce
      show "vw_indexes V (snd rd) = vw_indexes V d
        \<and> (case fst rd of Inl (e :: error) \<Rightarrow> vw_committed V (snd rd) = vw_base V d
           | Inr finished \<Rightarrow> vw_committed V (snd rd) = (if finished then p else vw_base V d))"
      proof (cases c)
        case (Inr u)
        with body law N c show ?thesis by auto
      next
        case (Inl e)
        show ?thesis
        proof (cases "contains_label e ''UnknownTransactionCommitResult''")
          case True
          with body N c Inl have "loop M d1 = Some rd" by simp
          from IH [OF this] law True Inl N show ?thesis by (simp add: P_def split: sum.splits)
        next
          case False
          with body law N c Inl a aborts [OF a] show ?thesis by (auto split: if_splits)
        qed
      qed
    qed
  qed
  with assms show ?thesis by (simp add: P_def split: sum.splits)
qed

lemma transaction_loop_outcome:
  assumes op: "session_op V Q op" and "transaction_loop N o' d = Some (r, d')" and "N = M" and "o' = op"
  shows "vw_indexes V d' = vw_indexes V d
    \<and> (case r of Inl e \<Rightarrow> vw_committed V d' = vw_committed V d
       | Inr v \<Rightarrow> Q (vw_committed V d) v (vw_committed V d')
           \<and> (unique_ok (vw_indexes V d) (vw_committed V d) \<longrightarrow> unique_ok (vw_indexes V d) (vw_committed V d')))"
proof -
  define P where "P N o' d rd = (N = M \<longrightarrow> o' = op \<longrightarrow>
      vw_indexes V (snd rd) = vw_indexes V d
      \<and> (case fst rd of Inl (e :: error) \<Rightarrow> vw_committed V (snd rd) = vw_committed V d
         | Inr v \<Rightarrow> Q (vw_committed V d) v (vw_committed V (snd rd))
             \<and> (unique_ok (vw_indexes V d) (vw_committed V d) \<longrightarrow> unique_ok (vw_indexes V d) (vw_committed V (snd rd)))))"
    for N o' d rd
  have "P N o' d (r, d')"
  proof (rule transaction_loop.raw_induct [OF _ assms(2), of P])
    fix loop N o' d rd
    assume IH: "\<And>N o' d rd. loop N o' d = Some rd \<Longrightarrow> P N o' d rd"
      and body: "(case mg_start_transaction N d of
        (Inl e, d1) \<Rightarrow> Some (Inl e, d1)
      | (Inr u, d1) \<Rightarrow>
          (case o' d1 of
             (Inl e, d2) \<Rightarrow>
               if transient e then loop N o' (snd (mg_abort_transaction N d2))
               else Some (Inl e, snd (mg_abort_transaction N d2))
           | (Inr v, d2) \<Rightarrow>
               Option.bind (commit_loop N d2) (\<lambda>od.
               (case od of
                  (Inl e, d3) \<Rightarrow> Some (Inl e, d3)
                | (Inr finished, d3) \<Rightarrow> if finished then Some (Inr v, d3) else loop N o' d3)))) = Some rd"
    show "P N o' d rd"
      unfolding P_def
    proof (intro impI)
      assume N: "N = M" and o': "o' = op"
      let ?goal = "\<lambda>rd. vw_indexes V (snd rd) = vw_indexes V d
        \<and> (case fst rd of Inl (e :: error) \<Rightarrow> vw_committed V (snd rd) = vw_committed V d
           | Inr v \<Rightarrow> Q (vw_committed V d) v (vw_committed V (snd rd))
               \<and> (unique_ok (vw_indexes V d) (vw_committed V d) \<longrightarrow> unique_ok (vw_indexes V d) (vw_committed V (snd rd))))"
      have again: "loop N o' d4 = Some rd \<Longrightarrow> vw_committed V d4 = vw_committed V d
          \<Longrightarrow> vw_indexes V d4 = vw_indexes V d \<Longrightarrow> ?goal rd" for d4
        using IH [of N o' d4 rd] by (simp add: P_def N o' split: sum.splits)
      obtain s d1 where s: "mg_start_transaction M d = (s, d1)" by fastforce
      note started = transaction_starts [OF s]
      show "?goal rd"
      proof (cases s)
        case (Inl e)
        with body N s started show ?thesis by auto
      next
        case (Inr u)
        obtain q d2 where q: "op d1 = (q, d2)" by fastforce
        have p: "vw_pending V d1 = Some (vw_committed V d)" using started Inr by blast
        have same: "vw_committed V d1 = vw_committed V d" "vw_base V d1 = vw_committed V d" "vw_indexes V d1 = vw_indexes V d"
          using started Inr by blast+
        from op [unfolded session_op_def, rule_format, OF q p, unfolded same]
        have ran: "vw_committed V d2 = vw_committed V d" "vw_base V d2 = vw_committed V d"
          "vw_indexes V d2 = vw_indexes V d"
          "case q of Inl e \<Rightarrow> vw_pending V d2 \<noteq> None
           | Inr v \<Rightarrow> \<exists>p'. vw_pending V d2 = Some p' \<and> Q (vw_committed V d) v p'
               \<and> (unique_ok (vw_indexes V d) (vw_committed V d) \<longrightarrow> unique_ok (vw_indexes V d) p')"
          by blast+
        show ?thesis
        proof (cases q)
          case (Inl e)
          obtain a d3 where a: "mg_abort_transaction M d2 = (a, d3)" by fastforce
          from body s \<open>s = Inr u\<close> q Inl N o' a
          have "if transient e then loop N o' d3 = Some rd else Some (Inl e, d3) = Some rd" by (simp split: if_splits)
          with again aborts [OF a] ran show ?thesis by (auto split: if_splits)
        next
          case (Inr v)
          with ran(4) obtain p' where p': "vw_pending V d2 = Some p'" "Q (vw_committed V d) v p'"
            "unique_ok (vw_indexes V d) (vw_committed V d) \<longrightarrow> unique_ok (vw_indexes V d) p'" by auto
          from body s \<open>s = Inr u\<close> q Inr N o' obtain c d3 where c: "commit_loop M d2 = Some (c, d3)"
            and rest: "(case c of Inl e \<Rightarrow> Some (Inl e, d3)
              | Inr finished \<Rightarrow> if finished then Some (Inr v, d3) else loop N o' d3) = Some rd"
            by (cases "commit_loop M d2") (auto split: prod.splits)
          from commit_loop_outcome [OF c refl p'(1)] rest again ran p' show ?thesis
            by (auto split: sum.splits if_splits)
        qed
      qed
    qed
  qed
  with assms(3,4) show ?thesis by (simp add: P_def split: sum.splits)
qed

lemma transaction_outcome:
  assumes "session_op V Q op" and "transaction M op d = Some (r, d')"
  shows "vw_indexes V d' = vw_indexes V d
    \<and> (case r of Inl e \<Rightarrow> vw_committed V d' = vw_committed V d
       | Inr v \<Rightarrow> Q (vw_committed V d) v (vw_committed V d')
           \<and> (unique_ok (vw_indexes V d) (vw_committed V d) \<longrightarrow> unique_ok (vw_indexes V d) (vw_committed V d')))"
proof -
  obtain s d1 where s: "mg_start_session M d = (s, d1)" by fastforce
  show ?thesis
  proof (cases s)
    case (Inl e)
    with assms(2) s session_starts [OF s] show ?thesis by (auto simp: transaction_def)
  next
    case (Inr u)
    with assms(2) s have "transaction_loop M op d1 = Some (r, d')" by (simp add: transaction_def)
    from transaction_loop_outcome [OF assms(1) this refl refl] session_starts [OF s] show ?thesis
      by (simp split: sum.splits)
  qed
qed

end

section \<open>Termination of the retries\<close>

text \<open>
  The two labels ask the loops to try again. The deployment is patient with budget \<open>m\<close> when every
  such answer uses some of it up and no call adds to it: it does not ask for ever.
\<close>

definition asks_retry :: "error \<Rightarrow> bool" where
  "asks_retry e = (contains_label e ''TransientTransactionError'' \<or> contains_label e ''UnknownTransactionCommitResult'')"

definition patient_call :: "('d \<Rightarrow> nat) \<Rightarrow> ('d \<Rightarrow> 'a result \<times> 'd) \<Rightarrow> bool" where
  "patient_call m c =
     (\<forall>d r d'. c d = (r, d') \<longrightarrow> m d' \<le> m d \<and> (\<forall>e. r = Inl e \<longrightarrow> asks_retry e \<longrightarrow> m d' < m d))"

definition patient_collection :: "('d \<Rightarrow> nat) \<Rightarrow> ('d, 'r) collection \<Rightarrow> bool" where
  "patient_collection m C =
     ((\<forall>s r. patient_call m (co_insert_one C s r)) \<and> (\<forall>s rs. patient_call m (co_insert_many C s rs))
      \<and> (\<forall>s p g. patient_call m (co_update_one C s p g)) \<and> (\<forall>s p g. patient_call m (co_update_many C s p g))
      \<and> (\<forall>s p. patient_call m (co_delete_one C s p)) \<and> (\<forall>s p. patient_call m (co_delete_many C s p)))"

definition mongo_patient :: "'d mongo \<Rightarrow> ('d \<Rightarrow> nat) \<Rightarrow> bool" where
  "mongo_patient M m =
     (patient_call m (mg_start_session M) \<and> patient_call m (mg_start_transaction M)
      \<and> patient_call m (mg_commit_transaction M) \<and> patient_call m (mg_abort_transaction M)
      \<and> patient_collection m (mg_chains M) \<and> patient_collection m (mg_monitors M)
      \<and> patient_collection m (mg_results M) \<and> (\<forall>s k. patient_call m (mg_bump_counter M s k)))"

lemma patient_lift: "(\<And>e. r = Inl e \<Longrightarrow> \<not> asks_retry e) \<Longrightarrow> patient_call m (io_lift r)"
  by (auto simp: patient_call_def io_lift_def)

lemma patient_bind:
  assumes "patient_call m c" and "\<And>x. patient_call m (f x)"
  shows "patient_call m (io_bind c f)"
  unfolding patient_call_def
proof (intro allI impI)
  fix d r d' assume run: "io_bind c f d = (r, d')"
  obtain r1 d1 where c: "c d = (r1, d1)" by fastforce
  with assms(1) have first: "m d1 \<le> m d" "\<forall>e. r1 = Inl e \<longrightarrow> asks_retry e \<longrightarrow> m d1 < m d"
    by (auto simp: patient_call_def)
  show "m d' \<le> m d \<and> (\<forall>e. r = Inl e \<longrightarrow> asks_retry e \<longrightarrow> m d' < m d)"
  proof (cases r1)
    case (Inl e)
    with run c first show ?thesis by (auto simp: io_bind_def)
  next
    case (Inr x)
    with run c have "f x d1 = (r, d')" by (simp add: io_bind_def)
    with assms(2) [of x] first show ?thesis by (fastforce simp: patient_call_def)
  qed
qed

lemma not_retry_anyhow [simp]: "\<not> asks_retry (anyhow s)"
  by (simp add: asks_retry_def contains_label_def anyhow_def)

lemma commit_loop_returns:
  assumes "patient_call m (mg_commit_transaction M)" and "patient_call m (mg_abort_transaction M)"
  shows "\<exists>c d'. commit_loop M d = Some (c, d') \<and> m d' \<le> m d \<and> (c = Inr False \<longrightarrow> m d' < m d)"
proof (induction "m d" arbitrary: d rule: less_induct)
  case less
  obtain c d1 where c: "mg_commit_transaction M d = (c, d1)" by fastforce
  obtain a d2 where a: "mg_abort_transaction M d1 = (a, d2)" by fastforce
  from c assms(1) have le: "m d1 \<le> m d" "\<forall>e. c = Inl e \<longrightarrow> asks_retry e \<longrightarrow> m d1 < m d"
    by (auto simp: patient_call_def)
  from a assms(2) have "m d2 \<le> m d1" by (auto simp: patient_call_def)
  show ?case
  proof (cases c)
    case (Inr u)
    with c le show ?thesis by (subst commit_loop.simps) simp
  next
    case (Inl e)
    show ?thesis
    proof (cases "contains_label e ''UnknownTransactionCommitResult''")
      case True
      with Inl le have lt: "m d1 < m d" by (simp add: asks_retry_def)
      from less [OF lt] obtain c' d' where "commit_loop M d1 = Some (c', d')" "m d' \<le> m d1" by blast
      with c Inl True lt show ?thesis by (subst commit_loop.simps) simp
    next
      case False
      with c a Inl le \<open>m d2 \<le> m d1\<close> show ?thesis
        by (subst commit_loop.simps) (auto simp: asks_retry_def)
    qed
  qed
qed

lemma transaction_loop_returns:
  assumes "mongo_patient M m" and op: "patient_call m op"
  shows "\<exists>r d'. transaction_loop M op d = Some (r, d')"
proof (induction "m d" arbitrary: d rule: less_induct)
  case less
  have calls: "patient_call m (mg_start_transaction M)" "patient_call m (mg_commit_transaction M)"
    "patient_call m (mg_abort_transaction M)"
    using assms(1) by (simp_all add: mongo_patient_def)
  obtain s d1 where s: "mg_start_transaction M d = (s, d1)" by fastforce
  obtain q d2 where q: "op d1 = (q, d2)" by fastforce
  obtain a d3 where a: "mg_abort_transaction M d2 = (a, d3)" by fastforce
  from s calls(1) have "m d1 \<le> m d" by (auto simp: patient_call_def)
  moreover from q op have "m d2 \<le> m d1" "\<forall>e. q = Inl e \<longrightarrow> asks_retry e \<longrightarrow> m d2 < m d1"
    by (auto simp: patient_call_def)
  moreover from a calls(3) have "m d3 \<le> m d2" by (auto simp: patient_call_def)
  ultimately have le: "m d2 \<le> m d" "\<forall>e. q = Inl e \<longrightarrow> asks_retry e \<longrightarrow> m d3 < m d" by auto
  show ?case
  proof (cases s)
    case (Inl e)
    with s show ?thesis by (subst transaction_loop.simps) simp
  next
    case (Inr u)
    show ?thesis
    proof (cases q)
      case (Inl e)
      with s q a \<open>s = Inr u\<close> le less [of d3] show ?thesis
        by (subst transaction_loop.simps) (auto simp: transient_def asks_retry_def)
    next
      case (Inr v)
      from commit_loop_returns [OF calls(2,3), of d2] obtain c d4 where
        c: "commit_loop M d2 = Some (c, d4)" "m d4 \<le> m d2" "c = Inr False \<longrightarrow> m d4 < m d2" by blast
      have "c = Inr False \<longrightarrow> m d4 < m d" using le(1) c(3) by auto
      with s q c(1) \<open>s = Inr u\<close> Inr less [of d4] show ?thesis
        by (subst transaction_loop.simps) (auto split: sum.split)
    qed
  qed
qed

lemma transaction_returns:
  assumes "mongo_patient M m" and "patient_call m op"
  shows "\<exists>r d'. transaction M op d = Some (r, d')"
  using transaction_loop_returns [OF assms] by (auto simp: transaction_def split: prod.split sum.split)

end
