(* ===== verification/Mongo_Storage.thy ===== *)
theory Mongo_Storage
  imports Mongo_Contract
begin

text \<open>
  \<open>parseon-mongodb/src/storage.rs\<close>, the adapter: the four traits \<open>MongoStorage\<close> implements, one
  definition per method over the driver \<open>M\<close>. A method that runs a transaction returns an option,
  as the retry loop does; \<open>Mongo_Contract\<close> says when that is a value.
\<close>

section \<open>Index storage\<close>

definition by_monitor_id :: "monitor_document \<Rightarrow> monitor_document \<Rightarrow> bool" where
  "by_monitor_id a b = (mdoc_id a < mdoc_id b)"

definition by_chain_id :: "chain_document \<Rightarrow> chain_document \<Rightarrow> bool" where
  "by_chain_id a b = (cdoc_chain_id a < cdoc_chain_id b)"

definition mongo_load_monitors :: "externs \<Rightarrow> 'd mongo \<Rightarrow> 'd \<Rightarrow> chain \<Rightarrow> monitor list result" where
  "mongo_load_monitors X M d ch =
     res_bind (to_i64 (chain_id_of ch) ''chain id'') (\<lambda>c.
     res_bind (co_find (mg_monitors M) d (\<lambda>row. mdoc_chain_id row = c) by_monitor_id 0 None) (\<lambda>rows.
     res_bind (traverse (mongo_monitor X) rows) (\<lambda>ms.
     Inr (filter (\<lambda>m. mon_enabled m \<and> \<not> mon_completed m) ms))))"

text \<open>The \<open>$set\<close> stage: \<open>completed\<close> when there is an end block and the block reaches it.\<close>

definition commit_update :: "i64 \<Rightarrow> int \<Rightarrow> monitor_document \<Rightarrow> monitor_document" where
  "commit_update block_number time row =
     row\<lparr>mdoc_cursor := Some block_number,
         mdoc_completed := (case mdoc_end_block row of None \<Rightarrow> False | Some e \<Rightarrow> e \<le> block_number),
         mdoc_updated_at := time\<rparr>"

definition commit_operation ::
  "'d mongo \<Rightarrow> i64 \<Rightarrow> i64 \<Rightarrow> i64 list \<Rightarrow> result_row list \<Rightarrow> 'd \<Rightarrow> unit result \<times> 'd" where
  "commit_operation M chain_id block_number ids documents =
     io_bind (\<lambda>d. co_update_many (mg_monitors M) True
                (\<lambda>row. mdoc_id row \<in> set ids \<and> mdoc_chain_id row = chain_id)
                (commit_update block_number (mg_now M d)) d) (\<lambda>matched.
     io_bind (io_lift (ensure (matched = length ids)
                (anyhow (''monitor set changed before block '' @ show_int block_number @ '' could be committed'')))) (\<lambda>_.
     if documents = [] then io_lift (Inr ()) else co_insert_many (mg_results M) True documents))"

text \<open>What \<open>commit_block\<close> computes before the transaction.\<close>

definition commit_input :: "externs \<Rightarrow> block_commit \<Rightarrow> (i64 \<times> i64 \<times> i64 list \<times> result_row list) result" where
  "commit_input X c =
     res_bind (ensure (list_all (\<lambda>m. mon_chain m = bc_chain c) (bc_monitors c))
                (anyhow (''cross-chain monitor set rejected for chain '' @ show_u64 (chain_id_of (bc_chain c))))) (\<lambda>_.
     res_bind (to_i64 (chain_id_of (bc_chain c)) ''chain id'') (\<lambda>chain_id.
     res_bind (to_i64 (bc_block_number c) ''block number'') (\<lambda>block_number.
     res_bind (traverse (\<lambda>m. to_i64 (monitor_id_get (mon_id m)) ''monitor id'') (bc_monitors c)) (\<lambda>ids.
     res_bind (traverse (result_document X chain_id (bc_monitors c)) (bc_results c)) (\<lambda>documents.
     Inr (chain_id, block_number, remdups_adj (sort ids), documents))))))"

definition mongo_commit_block :: "externs \<Rightarrow> 'd mongo \<Rightarrow> block_commit \<Rightarrow> 'd \<Rightarrow> (unit result \<times> 'd) option" where
  "mongo_commit_block X M c d =
     (case commit_input X c of
        Inl e \<Rightarrow> Some (Inl e, d)
      | Inr (chain_id, block_number, ids, documents) \<Rightarrow>
          transaction M (commit_operation M chain_id block_number ids documents) d)"

section \<open>Chains\<close>

definition registered_row :: "row_readers \<Rightarrow> chain_document \<Rightarrow> registered_chain result" where
  "registered_row Y row =
     res_bind (from_i64 (cdoc_chain_id row) ''chain id'') (\<lambda>c.
     res_bind (foreign (rr_url_parse Y (cdoc_rpc_url row))) (\<lambda>u.
     Inr \<lparr>rc_chain = Chain c, rc_rpc_url = u, rc_enabled = cdoc_enabled row\<rparr>))"

definition mongo_list_registered_chains :: "row_readers \<Rightarrow> 'd mongo \<Rightarrow> 'd \<Rightarrow> registered_chain list result" where
  "mongo_list_registered_chains Y M d =
     res_bind (co_find (mg_chains M) d (\<lambda>_. True) by_chain_id 0 None) (\<lambda>rows. traverse (registered_row Y) rows)"

definition mongo_create_chain :: "row_readers \<Rightarrow> 'd mongo \<Rightarrow> new_chain \<Rightarrow> 'd \<Rightarrow> chain_record result \<times> 'd" where
  "mongo_create_chain Y M input d =
     (let time = mg_now M d in
      io_bind (io_lift (to_i64 (chain_id_of (nc_chain input)) ''chain id'')) (\<lambda>c.
      let row = \<lparr>cdoc_chain_id = c, cdoc_rpc_url = nc_rpc_url input, cdoc_enabled = nc_enabled input,
                 cdoc_created_at = time, cdoc_updated_at = time, cdoc_monitor_revision = 0\<rparr> in
      io_bind (co_insert_one (mg_chains M) False row) (\<lambda>_.
      io_lift (mongo_chain_record Y row))) d)"

definition mongo_list_chains :: "row_readers \<Rightarrow> 'd mongo \<Rightarrow> 'd \<Rightarrow> chain_record list result" where
  "mongo_list_chains Y M d =
     res_bind (co_find (mg_chains M) d (\<lambda>_. True) by_chain_id 0 None) (\<lambda>rows. traverse (mongo_chain_record Y) rows)"

definition chain_not_found :: "i64 \<Rightarrow> error" where
  "chain_not_found i = anyhow (''chain '' @ show_int i @ '' not found'')"

definition mongo_get_chain :: "row_readers \<Rightarrow> 'd mongo \<Rightarrow> 'd \<Rightarrow> chain \<Rightarrow> chain_record result" where
  "mongo_get_chain Y M d ch =
     res_bind (to_i64 (chain_id_of ch) ''chain id'') (\<lambda>i.
     res_bind (co_find_one (mg_chains M) d (\<lambda>row. cdoc_chain_id row = i)) (\<lambda>found.
     res_bind (ok_or (chain_not_found i) found) (\<lambda>row.
     mongo_chain_record Y row)))"

definition chain_set :: "int \<Rightarrow> chain_update \<Rightarrow> chain_document \<Rightarrow> chain_document" where
  "chain_set time update row =
     (let row1 = row\<lparr>cdoc_updated_at := time\<rparr>;
          row2 = (case cu_rpc_url update of None \<Rightarrow> row1 | Some u \<Rightarrow> row1\<lparr>cdoc_rpc_url := u\<rparr>) in
      case cu_enabled update of None \<Rightarrow> row2 | Some b \<Rightarrow> row2\<lparr>cdoc_enabled := b\<rparr>)"

definition mongo_update_chain ::
  "row_readers \<Rightarrow> 'd mongo \<Rightarrow> chain \<Rightarrow> chain_update \<Rightarrow> 'd \<Rightarrow> chain_record result \<times> 'd" where
  "mongo_update_chain Y M ch update =
     io_bind (io_lift (to_i64 (chain_id_of ch) ''chain id'')) (\<lambda>i.
     io_bind (\<lambda>d. co_find_one_and_update (mg_chains M) False (\<lambda>row. cdoc_chain_id row = i)
                (chain_set (mg_now M d) update) d) (\<lambda>found.
     io_bind (io_lift (ok_or (chain_not_found i) found)) (\<lambda>row.
     io_lift (mongo_chain_record Y row))))"

definition delete_chain_operation :: "'d mongo \<Rightarrow> i64 \<Rightarrow> 'd \<Rightarrow> unit result \<times> 'd" where
  "delete_chain_operation M i =
     io_bind (co_delete_one (mg_chains M) True (\<lambda>row. cdoc_chain_id row = i)) (\<lambda>deleted.
     io_bind (io_lift (ensure (deleted = 1) (chain_not_found i))) (\<lambda>_.
     io_bind (co_delete_many (mg_monitors M) True (\<lambda>row. mdoc_chain_id row = i)) (\<lambda>_.
     io_bind (co_delete_many (mg_results M) True (\<lambda>row. rdoc_chain_id row = i)) (\<lambda>_.
     io_lift (Inr ())))))"

definition mongo_delete_chain :: "'d mongo \<Rightarrow> chain \<Rightarrow> 'd \<Rightarrow> (unit result \<times> 'd) option" where
  "mongo_delete_chain M ch d =
     (case to_i64 (chain_id_of ch) ''chain id'' of
        Inl e \<Rightarrow> Some (Inl e, d)
      | Inr i \<Rightarrow> transaction M (delete_chain_operation M i) d)"

section \<open>Monitors\<close>

definition mongo_count_monitors :: "'d mongo \<Rightarrow> 'd \<Rightarrow> nat result" where
  "mongo_count_monitors M d = co_count_documents (mg_monitors M) d (\<lambda>_. True)"

definition bump_revision :: "chain_document \<Rightarrow> chain_document" where
  "bump_revision row = row\<lparr>cdoc_monitor_revision := cdoc_monitor_revision row + 1\<rparr>"

definition create_monitor_operation ::
  "'d mongo \<Rightarrow> monitor_document \<Rightarrow> 'd \<Rightarrow> monitor_document result \<times> 'd" where
  "create_monitor_operation M template =
     io_bind (co_update_one (mg_chains M) True (\<lambda>row. cdoc_chain_id row = mdoc_chain_id template) bump_revision) (\<lambda>matched.
     io_bind (io_lift (ensure (matched = 1) (chain_not_found (mdoc_chain_id template)))) (\<lambda>_.
     io_bind (mg_bump_counter M True ''monitors'') (\<lambda>found.
     io_bind (io_lift (ok_or (anyhow ''monitor counter update returned no row'') found)) (\<lambda>counter.
     io_bind (io_lift (foreign counter)) (\<lambda>i.
     let row = template\<lparr>mdoc_id := i\<rparr> in
     io_bind (co_insert_one (mg_monitors M) True row) (\<lambda>_.
     io_lift (Inr row)))))))"

definition mongo_create_monitor ::
  "externs \<Rightarrow> row_readers \<Rightarrow> 'd mongo \<Rightarrow> new_monitor \<Rightarrow> 'd \<Rightarrow> (monitor_record result \<times> 'd) option" where
  "mongo_create_monitor X Y M input d =
     (case monitor_template X (mg_now M d) input of
        Inl e \<Rightarrow> Some (Inl e, d)
      | Inr template \<Rightarrow>
          map_option (\<lambda>(r, d1). (res_bind r (mongo_monitor_record X Y), d1))
            (transaction M (create_monitor_operation M template) d))"

definition mongo_list_monitors ::
  "externs \<Rightarrow> row_readers \<Rightarrow> 'd mongo \<Rightarrow> 'd \<Rightarrow> chain option \<Rightarrow> monitor_record list result" where
  "mongo_list_monitors X Y M d ch =
     res_bind (traverse_option (\<lambda>c. to_i64 (chain_id_of c) ''chain id'') ch) (\<lambda>only.
     res_bind (co_find (mg_monitors M) d
                 (\<lambda>row. case only of None \<Rightarrow> True | Some c \<Rightarrow> mdoc_chain_id row = c) by_monitor_id 0 None) (\<lambda>rows.
     traverse (mongo_monitor_record X Y) rows))"

definition monitor_not_found :: "i64 \<Rightarrow> error" where
  "monitor_not_found i = anyhow (''monitor '' @ show_int i @ '' not found'')"

definition mongo_get_monitor ::
  "externs \<Rightarrow> row_readers \<Rightarrow> 'd mongo \<Rightarrow> 'd \<Rightarrow> monitor_id \<Rightarrow> monitor_record result" where
  "mongo_get_monitor X Y M d mid =
     res_bind (to_i64 (monitor_id_get mid) ''monitor id'') (\<lambda>i.
     res_bind (co_find_one (mg_monitors M) d (\<lambda>row. mdoc_id row = i)) (\<lambda>found.
     res_bind (ok_or (monitor_not_found i) found) (\<lambda>row.
     mongo_monitor_record X Y row)))"

definition enabled_set :: "bool \<Rightarrow> int \<Rightarrow> monitor_document \<Rightarrow> monitor_document" where
  "enabled_set enabled time row = row\<lparr>mdoc_enabled := enabled, mdoc_updated_at := time\<rparr>"

definition mongo_set_monitor_enabled ::
  "externs \<Rightarrow> row_readers \<Rightarrow> 'd mongo \<Rightarrow> monitor_id \<Rightarrow> bool \<Rightarrow> 'd \<Rightarrow> monitor_record result \<times> 'd" where
  "mongo_set_monitor_enabled X Y M mid enabled =
     io_bind (io_lift (to_i64 (monitor_id_get mid) ''monitor id'')) (\<lambda>i.
     io_bind (\<lambda>d. co_find_one_and_update (mg_monitors M) False (\<lambda>row. mdoc_id row = i)
                (enabled_set enabled (mg_now M d)) d) (\<lambda>found.
     io_bind (io_lift (ok_or (monitor_not_found i) found)) (\<lambda>row.
     io_lift (mongo_monitor_record X Y row))))"

definition delete_monitor_operation :: "'d mongo \<Rightarrow> i64 \<Rightarrow> 'd \<Rightarrow> unit result \<times> 'd" where
  "delete_monitor_operation M i =
     io_bind (co_delete_one (mg_monitors M) True (\<lambda>row. mdoc_id row = i)) (\<lambda>deleted.
     io_bind (io_lift (ensure (deleted = 1) (monitor_not_found i))) (\<lambda>_.
     io_bind (co_delete_many (mg_results M) True (\<lambda>row. rdoc_monitor_id row = i)) (\<lambda>_.
     io_lift (Inr ()))))"

definition mongo_delete_monitor :: "'d mongo \<Rightarrow> monitor_id \<Rightarrow> 'd \<Rightarrow> (unit result \<times> 'd) option" where
  "mongo_delete_monitor M mid d =
     (case to_i64 (monitor_id_get mid) ''monitor id'' of
        Inl e \<Rightarrow> Some (Inl e, d)
      | Inr i \<Rightarrow> transaction M (delete_monitor_operation M i) d)"

section \<open>Results\<close>

text \<open>Texts are ordered by their bytes.\<close>

definition text_less :: "string \<Rightarrow> string \<Rightarrow> bool" where
  "text_less a b = ord_class.lexordp (map (of_char :: char \<Rightarrow> nat) a) (map of_char b)"

definition newest_call :: "result_row \<Rightarrow> result_row \<Rightarrow> bool" where
  "newest_call a b =
     (rdoc_block_number b < rdoc_block_number a
      \<or> (rdoc_block_number a = rdoc_block_number b \<and> text_less (rdoc_tx_hash b) (rdoc_tx_hash a)))"

text \<open>An absent log index sorts before every number.\<close>

definition log_index_less :: "i64 option \<Rightarrow> i64 option \<Rightarrow> bool" where
  "log_index_less a b = (case (a, b) of (_, None) \<Rightarrow> False | (None, Some _) \<Rightarrow> True | (Some x, Some y) \<Rightarrow> x < y)"

definition newest_event :: "result_row \<Rightarrow> result_row \<Rightarrow> bool" where
  "newest_event a b =
     (rdoc_block_number b < rdoc_block_number a
      \<or> (rdoc_block_number a = rdoc_block_number b \<and> log_index_less (rdoc_log_index b) (rdoc_log_index a)))"

definition mongo_result_query ::
  "i64 \<Rightarrow> string \<Rightarrow> ((result_row \<Rightarrow> bool) \<times> (result_row \<Rightarrow> result_row \<Rightarrow> bool)) result" where
  "mongo_result_query monitor_id kind =
     (let found = (\<lambda>row. rdoc_monitor_id row = monitor_id \<and> rdoc_kind row = kind) in
      if kind = ''call'' then Inr (found, newest_call)
      else if kind = ''event'' then Inr (found, newest_event)
      else Inl (anyhow (''invalid monitor kind '' @ kind)))"

definition mongo_query_results ::
  "externs \<Rightarrow> 'd mongo \<Rightarrow> 'd \<Rightarrow> monitor_record \<Rightarrow> result_query \<Rightarrow> result_record list result" where
  "mongo_query_results X M d monitor q =
     (let kind = (case mr_target monitor of CallT _ \<Rightarrow> ''call'' | EventT _ \<Rightarrow> ''event'') in
      res_bind (to_i64 (monitor_id_get (mr_id monitor)) ''monitor id'') (\<lambda>i.
      res_bind (mongo_result_query i kind) (\<lambda>(found, order).
      res_bind (co_find (mg_results M) d found order (unat (rq_offset q)) (Some (unat (page_limit_get (rq_limit q))))) (\<lambda>rows.
      traverse (result_record_of X kind) rows))))"

section \<open>The traits\<close>

text \<open>
  A method as its port sees it. The first alternative is a method that never returns; a patient
  deployment rules it out.
\<close>

definition settled :: "('a result \<times> 'd) option \<Rightarrow> 'd \<Rightarrow> 'a result \<times> 'd" where
  "settled outcome d = (case outcome of None \<Rightarrow> (Inl [Panic ''transaction does not return''], d) | Some rd \<Rightarrow> rd)"

definition mongo_index_storage :: "externs \<Rightarrow> 'd mongo \<Rightarrow> 'd index_storage" where
  "mongo_index_storage X M =
     \<lparr>is_load_monitors = mongo_load_monitors X M,
      is_commit_block = (\<lambda>d c. settled (mongo_commit_block X M c d) d)\<rparr>"

definition mongo_repository :: "externs \<Rightarrow> row_readers \<Rightarrow> 'd mongo \<Rightarrow> 'd repository" where
  "mongo_repository X Y M =
     \<lparr>rp_list_registered_chains = mongo_list_registered_chains Y M,
      rp_create_chain = (\<lambda>d c. mongo_create_chain Y M c d),
      rp_list_chains = mongo_list_chains Y M,
      rp_get_chain = mongo_get_chain Y M,
      rp_update_chain = (\<lambda>d ch u. mongo_update_chain Y M ch u d),
      rp_delete_chain = (\<lambda>d ch. settled (mongo_delete_chain M ch d) d),
      rp_count_monitors = mongo_count_monitors M,
      rp_create_monitor = (\<lambda>d nm. settled (mongo_create_monitor X Y M nm d) d),
      rp_list_monitors = mongo_list_monitors X Y M,
      rp_get_monitor = mongo_get_monitor X Y M,
      rp_set_monitor_enabled = (\<lambda>d i b. mongo_set_monitor_enabled X Y M i b d),
      rp_delete_monitor = (\<lambda>d i. settled (mongo_delete_monitor M i d) d),
      rp_query_results = mongo_query_results X M\<rparr>"

end
