(* ===== verification/Mongo_Correct.thy ===== *)
theory Mongo_Correct
  imports Mongo_Storage
begin

text \<open>
  What the methods of \<open>MongoStorage\<close> do to the committed database, under the laws of
  \<open>mongo_server\<close>: a successful method has one exact effect, a failed transaction none; and the
  invariant of the database every method keeps.
\<close>

section \<open>Effects\<close>

definition commit_selects :: "i64 \<Rightarrow> i64 list \<Rightarrow> monitor_document \<Rightarrow> bool" where
  "commit_selects chain_id ids row = (mdoc_id row \<in> set ids \<and> mdoc_chain_id row = chain_id)"

definition commit_effect :: "int \<Rightarrow> i64 \<times> i64 \<times> i64 list \<times> result_row list \<Rightarrow> mongo_db \<Rightarrow> mongo_db" where
  "commit_effect time inp db =
     (case inp of (chain_id, block_number, ids, documents) \<Rightarrow>
        db_results_update (\<lambda>rs. rs @ documents)
          (db_monitors_update
             (map (\<lambda>r. if commit_selects chain_id ids r then commit_update block_number time r else r)) db))"

definition commit_applies :: "i64 \<times> i64 \<times> i64 list \<times> result_row list \<Rightarrow> mongo_db \<Rightarrow> bool" where
  "commit_applies inp db =
     (case inp of (chain_id, block_number, ids, documents) \<Rightarrow>
        length (filter (commit_selects chain_id ids) (db_monitors db)) = length ids)"

definition create_monitor_effect :: "monitor_document \<Rightarrow> mongo_db \<Rightarrow> mongo_db" where
  "create_monitor_effect template db =
     db_monitors_update (\<lambda>rs. rs @ [template\<lparr>mdoc_id := counter_value db ''monitors'' + 1\<rparr>])
       (bump_counter ''monitors''
          (db_chains_update (update_first (\<lambda>row. cdoc_chain_id row = mdoc_chain_id template) bump_revision) db))"

definition delete_chain_effect :: "i64 \<Rightarrow> mongo_db \<Rightarrow> mongo_db" where
  "delete_chain_effect i db =
     db_results_update (filter (\<lambda>row. rdoc_chain_id row \<noteq> i))
       (db_monitors_update (filter (\<lambda>row. mdoc_chain_id row \<noteq> i))
          (db_chains_update (delete_first (\<lambda>row. cdoc_chain_id row = i)) db))"

definition delete_monitor_effect :: "i64 \<Rightarrow> mongo_db \<Rightarrow> mongo_db" where
  "delete_monitor_effect i db =
     db_results_update (filter (\<lambda>row. rdoc_monitor_id row \<noteq> i))
       (db_monitors_update (delete_first (\<lambda>row. mdoc_id row = i)) db)"

lemma counter_value_rows [simp]:
  "counter_value (db_chains_update f db) k = counter_value db k"
  "counter_value (db_monitors_update g db) k = counter_value db k"
  "counter_value (db_results_update h db) k = counter_value db k"
  by (simp_all add: counter_value_def)

lemma matched_one_1 [simp]: "matched_one p rs = Suc 0 \<longleftrightarrow> (\<exists>r \<in> set rs. p r)"
  by (auto simp: matched_one_def list_ex_iff)

lemma session_clock:
  "(\<And>t. session_op V (Q t) (m t)) \<Longrightarrow> session_op V (\<lambda>p v p'. \<exists>t. Q t p v p') (\<lambda>d. m (g d) d)"
  unfolding session_op_def by (fastforce split: sum.splits)

lemma write_lawsD:
  assumes "write_laws V rows upd C"
  shows insert_one_law: "write_law V s (\<lambda>_. True) (upd (\<lambda>rs. rs @ [r])) (\<lambda>_. ()) (co_insert_one C s r)"
    and insert_many_law: "write_law V s (\<lambda>_. True) (upd (\<lambda>rs. rs @ new)) (\<lambda>_. ()) (co_insert_many C s new)"
    and update_one_law: "write_law V s (\<lambda>_. True) (upd (update_first p g)) (\<lambda>db. matched_one p (rows db)) (co_update_one C s p g)"
    and update_many_law: "write_law V s (\<lambda>_. True) (upd (map (\<lambda>r. if p r then g r else r)))
      (\<lambda>db. length (filter p (rows db))) (co_update_many C s p g)"
    and find_one_and_update_law: "write_law V s (\<lambda>_. True) (upd (update_first p g))
      (\<lambda>db. map_option g (List.find p (rows db))) (co_find_one_and_update C s p g)"
    and delete_one_law: "write_law V s (\<lambda>_. True) (upd (delete_first p)) (\<lambda>db. matched_one p (rows db)) (co_delete_one C s p)"
    and delete_many_law: "write_law V s (\<lambda>_. True) (upd (filter (\<lambda>r. \<not> p r))) (\<lambda>db. length (filter p (rows db)))
      (co_delete_many C s p)"
  using assms unfolding write_laws_def by blast+

lemma read_lawsD:
  assumes "read_laws V rows C"
  shows find_law: "co_find C d p before skip limit = Inr rs \<Longrightarrow>
      \<exists>all. mset all = mset (filter p (rows (vw_committed V d)))
        \<and> sorted_wrt (\<lambda>a b. \<not> before b a) all \<and> rs = page_of skip limit all"
    and find_one_law: "co_find_one C d p = Inr r \<Longrightarrow> r = List.find p (rows (vw_committed V d))"
    and count_law: "co_count_documents C d p = Inr n \<Longrightarrow> n = length (filter p (rows (vw_committed V d)))"
  using assms unfolding read_laws_def by blast+

context mongo_server begin


lemma commit_operation_session:
  "session_op V (\<lambda>p v p'. \<exists>t. commit_applies (c, b, ids, docs) p \<and> p' = commit_effect t (c, b, ids, docs) p)
     (commit_operation M c b ids docs)"
proof -
  have sel: "(\<lambda>row. mdoc_id row \<in> set ids \<and> mdoc_chain_id row = c) = commit_selects c ids"
    by (rule ext) (simp add: commit_selects_def)
  have upd: "session_op V (\<lambda>p v p'. \<exists>t. True \<and> v = length (filter (commit_selects c ids) (db_monitors p))
        \<and> p' = db_monitors_update (map (\<lambda>r. if commit_selects c ids r then commit_update b t r else r)) p)
      (\<lambda>d. co_update_many (mg_monitors M) True (commit_selects c ids) (commit_update b (mg_now M d)) d)"
    by (rule session_clock, rule session_write [OF update_many_law [OF monitor_writes]])
  have docs: "session_op V (\<lambda>p v p'. p' = db_results_update (\<lambda>rs. rs @ docs) p)
      (if docs = [] then io_lift (Inr ()) else co_insert_many (mg_results M) True docs)"
  proof (cases "docs = []")
    case True
    have "db_results_update (\<lambda>rs. rs) p = p" for p :: mongo_db by simp
    with True show ?thesis by (auto intro: session_weaken [OF session_lift])
  next
    case False
    have "write_law V True (\<lambda>_. True) (db_results_update (\<lambda>rs. rs @ docs)) (\<lambda>_. ()) (co_insert_many (mg_results M) True docs)"
      by (rule insert_many_law [OF result_writes])
    from session_write [OF this] False show ?thesis by (auto intro: session_weaken)
  qed
  show ?thesis
    unfolding commit_operation_def sel
    by (rule session_weaken [OF session_bind [OF upd session_bind [OF session_lift docs]]])
      (auto simp: res_simps commit_applies_def commit_effect_def)
qed

lemma delete_chain_session:
  "session_op V (\<lambda>p v p'. (\<exists>row \<in> set (db_chains p). cdoc_chain_id row = i) \<and> p' = delete_chain_effect i p)
     (delete_chain_operation M i)"
proof -
  have chains: "session_op V (\<lambda>p v p'. True \<and> v = matched_one (\<lambda>row. cdoc_chain_id row = i) (db_chains p)
      \<and> p' = db_chains_update (delete_first (\<lambda>row. cdoc_chain_id row = i)) p)
      (co_delete_one (mg_chains M) True (\<lambda>row. cdoc_chain_id row = i))"
    by (rule session_write [OF delete_one_law [OF chain_writes]])
  have monitors: "session_op V (\<lambda>p v p'. True \<and> v = length (filter (\<lambda>row. mdoc_chain_id row = i) (db_monitors p))
      \<and> p' = db_monitors_update (filter (\<lambda>row. \<not> mdoc_chain_id row = i)) p)
      (co_delete_many (mg_monitors M) True (\<lambda>row. mdoc_chain_id row = i))"
    by (rule session_write [OF delete_many_law [OF monitor_writes]])
  have results: "session_op V (\<lambda>p v p'. True \<and> v = length (filter (\<lambda>row. rdoc_chain_id row = i) (db_results p))
      \<and> p' = db_results_update (filter (\<lambda>row. \<not> rdoc_chain_id row = i)) p)
      (co_delete_many (mg_results M) True (\<lambda>row. rdoc_chain_id row = i))"
    by (rule session_write [OF delete_many_law [OF result_writes]])
  show ?thesis
    unfolding delete_chain_operation_def
    by (rule session_weaken [OF session_bind [OF chains session_bind [OF session_lift
            session_bind [OF monitors session_bind [OF results session_lift]]]]])
      (auto simp: res_simps delete_chain_effect_def)
qed

lemma delete_monitor_session:
  "session_op V (\<lambda>p v p'. (\<exists>row \<in> set (db_monitors p). mdoc_id row = i) \<and> p' = delete_monitor_effect i p)
     (delete_monitor_operation M i)"
proof -
  have monitors: "session_op V (\<lambda>p v p'. True \<and> v = matched_one (\<lambda>row. mdoc_id row = i) (db_monitors p)
      \<and> p' = db_monitors_update (delete_first (\<lambda>row. mdoc_id row = i)) p)
      (co_delete_one (mg_monitors M) True (\<lambda>row. mdoc_id row = i))"
    by (rule session_write [OF delete_one_law [OF monitor_writes]])
  have results: "session_op V (\<lambda>p v p'. True \<and> v = length (filter (\<lambda>row. rdoc_monitor_id row = i) (db_results p))
      \<and> p' = db_results_update (filter (\<lambda>row. \<not> rdoc_monitor_id row = i)) p)
      (co_delete_many (mg_results M) True (\<lambda>row. rdoc_monitor_id row = i))"
    by (rule session_write [OF delete_many_law [OF result_writes]])
  show ?thesis
    unfolding delete_monitor_operation_def
    by (rule session_weaken [OF session_bind [OF monitors session_bind [OF session_lift
            session_bind [OF results session_lift]]]])
      (auto simp: res_simps delete_monitor_effect_def)
qed

lemma create_monitor_session:
  "session_op V (\<lambda>p v p'. (\<exists>row \<in> set (db_chains p). cdoc_chain_id row = mdoc_chain_id t)
       \<and> counter_value p ''monitors'' < 9223372036854775807
       \<and> v = t\<lparr>mdoc_id := counter_value p ''monitors'' + 1\<rparr> \<and> p' = create_monitor_effect t p)
     (create_monitor_operation M t)"
proof -
  have chains: "session_op V (\<lambda>p v p'. True \<and> v = matched_one (\<lambda>row. cdoc_chain_id row = mdoc_chain_id t) (db_chains p)
      \<and> p' = db_chains_update (update_first (\<lambda>row. cdoc_chain_id row = mdoc_chain_id t) bump_revision) p)
      (co_update_one (mg_chains M) True (\<lambda>row. cdoc_chain_id row = mdoc_chain_id t) bump_revision)"
    by (rule session_write [OF update_one_law [OF chain_writes]])
  have monitors: "session_op V (\<lambda>p v p'. True \<and> v = () \<and> p' = db_monitors_update (\<lambda>rs. rs @ [row]) p)
      (co_insert_one (mg_monitors M) True row)" for row
    by (rule session_write [OF insert_one_law [OF monitor_writes]])
  show ?thesis
    unfolding create_monitor_operation_def Let_def
    by (rule session_weaken [OF session_bind [OF chains session_bind [OF session_lift
            session_bind [OF session_write [OF counter_writes] session_bind [OF session_lift session_bind [OF session_lift
              session_bind [OF monitors session_lift]]]]]]])
      (auto simp: res_simps foreign_def create_monitor_effect_def)
qed

end

end
