(* ===== verification/Mongo_Invariant.thy ===== *)
theory Mongo_Invariant
  imports Mongo_Correct
begin

text \<open>
  The invariant of the stored database and its preservation by every method of \<open>MongoStorage\<close>:
  identities are unique, a monitor belongs to a stored chain and a result to a stored monitor,
  columns are in range, and \<open>completed\<close> says exactly that the cursor has reached the end block.
\<close>

section \<open>The invariant\<close>

definition monitor_row_ok :: "monitor_document \<Rightarrow> bool" where
  "monitor_row_ok m =
     (0 \<le> mdoc_start_block m
      \<and> (case mdoc_end_block m of None \<Rightarrow> True | Some e \<Rightarrow> 0 \<le> e)
      \<and> (case mdoc_cursor m of None \<Rightarrow> True | Some c \<Rightarrow> 0 \<le> c)
      \<and> (mdoc_kind m = ''call'' \<or> mdoc_kind m = ''event'')
      \<and> (mdoc_filter_ast m = None \<longleftrightarrow> mdoc_filter_version m = None)
      \<and> (mdoc_completed m \<longleftrightarrow>
           (case (mdoc_end_block m, mdoc_cursor m) of (Some e, Some c) \<Rightarrow> e \<le> c | _ \<Rightarrow> False)))"

definition monitor_key :: "monitor_document \<Rightarrow> i64 \<times> i64" where
  "monitor_key m = (mdoc_id m, mdoc_chain_id m)"

definition database_ok :: "mongo_db \<Rightarrow> bool" where
  "database_ok db =
     (0 \<le> counter_value db ''monitors'' \<and> counter_value db ''monitors'' \<le> 9223372036854775807
      \<and> (\<forall>c \<in> cdoc_chain_id ` set (db_chains db). 0 \<le> c)
      \<and> (\<forall>(i, c) \<in> monitor_key ` set (db_monitors db).
           1 \<le> i \<and> i \<le> counter_value db ''monitors'' \<and> c \<in> cdoc_chain_id ` set (db_chains db))
      \<and> (\<forall>m \<in> set (db_monitors db). monitor_row_ok m)
      \<and> (\<forall>r \<in> set (db_results db). (rdoc_monitor_id r, rdoc_chain_id r) \<in> monitor_key ` set (db_monitors db)))"

definition mongo_invariant :: "'d mongo_view \<Rightarrow> 'd \<Rightarrow> bool" where
  "mongo_invariant V d =
     (set indexes \<subseteq> set (vw_indexes V d) \<and> unique_ok (vw_indexes V d) (vw_committed V d)
      \<and> database_ok (vw_committed V d))"

text \<open>What the unique indexes give.\<close>

definition identities_ok :: "mongo_db \<Rightarrow> bool" where
  "identities_ok db =
     (distinct (map cdoc_chain_id (db_chains db)) \<and> distinct (map mdoc_id (db_monitors db))
      \<and> distinct (map (\<lambda>r. (rdoc_monitor_id r, rdoc_tx_hash r)) (filter (\<lambda>r. rdoc_kind r = ''call'') (db_results db)))
      \<and> distinct (map (\<lambda>r. (rdoc_monitor_id r, rdoc_tx_hash r, rdoc_log_index r))
           (filter (\<lambda>r. rdoc_kind r = ''event'') (db_results db))))"

lemma distinct_map_rekey: "distinct (map f xs) \<Longrightarrow> (\<And>x. x \<in> set xs \<Longrightarrow> f x = g (h x)) \<Longrightarrow> distinct (map h xs)"
  by (auto simp: distinct_map inj_on_def)

lemma unique_ok_identities:
  assumes "unique_ok ixs db" and "set indexes \<subseteq> set ixs"
  shows "identities_ok db"
proof -
  have each: "index_ok db cix" if "cix \<in> set indexes" for cix
    using assms that by (auto simp: unique_ok_def list_all_iff)
  have "index_ok db (''chains'', \<lparr>ix_keys = [(''chain_id'', 1)], ix_name = ''chains_chain_id'', ix_unique = True, ix_partial = None\<rparr>)"
    by (rule each) (simp add: indexes_def)
  then have "distinct (map cdoc_chain_id (db_chains db))"
    by (auto simp: index_ok_def collection_rows_def chain_field_def index_covers_def comp_def
        intro: distinct_map_rekey [where g = "\<lambda>i. [FInt i]"])
  moreover have "index_ok db (''monitors'', \<lparr>ix_keys = [(''id'', 1)], ix_name = ''monitors_id'', ix_unique = True, ix_partial = None\<rparr>)"
    by (rule each) (simp add: indexes_def)
  then have "distinct (map mdoc_id (db_monitors db))"
    by (auto simp: index_ok_def collection_rows_def monitor_field_def index_covers_def comp_def
        intro: distinct_map_rekey [where g = "\<lambda>i. [FInt i]"])
  moreover have "index_ok db (''results'', \<lparr>ix_keys = [(''monitor_id'', 1), (''tx_hash'', 1)], ix_name = ''results_call_identity'',
      ix_unique = True, ix_partial = Some (''kind'', ''call'')\<rparr>)"
    by (rule each) (simp add: indexes_def)
  then have "distinct (map (\<lambda>r. (rdoc_monitor_id r, rdoc_tx_hash r)) (filter (\<lambda>r. rdoc_kind r = ''call'') (db_results db)))"
    by (auto simp: index_ok_def collection_rows_def result_field_def index_covers_def comp_def filter_map
        intro: distinct_map_rekey [where g = "\<lambda>(i, h). [FInt i, FText h]"])
  moreover have "index_ok db (''results'', \<lparr>ix_keys = [(''monitor_id'', 1), (''tx_hash'', 1), (''log_index'', 1)],
      ix_name = ''results_event_identity'', ix_unique = True, ix_partial = Some (''kind'', ''event'')\<rparr>)"
    by (rule each) (simp add: indexes_def)
  then have "distinct (map (\<lambda>r. (rdoc_monitor_id r, rdoc_tx_hash r, rdoc_log_index r))
      (filter (\<lambda>r. rdoc_kind r = ''event'') (db_results db)))"
    by (auto simp: index_ok_def collection_rows_def result_field_def index_covers_def comp_def filter_map
        intro: distinct_map_rekey [where g = "\<lambda>(i, h, l). [FInt i, FText h, case l of None \<Rightarrow> FAbsent | Some l \<Rightarrow> FInt l]"])
  ultimately show ?thesis by (simp add: identities_ok_def)
qed

section \<open>Every effect keeps it\<close>

lemma set_update_first: "r \<in> set (update_first p g rs) \<Longrightarrow> r \<in> set rs \<or> (\<exists>r0 \<in> set rs. p r0 \<and> r = g r0)"
  by (induction rs) (auto split: if_splits)

lemma map_update_first: "(\<And>r. p r \<Longrightarrow> f (g r) = f r) \<Longrightarrow> map f (update_first p g rs) = map f rs"
  by (induction rs) auto

lemma set_delete_first: "set (delete_first p rs) \<subseteq> set rs"
  by (induction rs) auto

lemma delete_first_distinct:
  "distinct (map f rs) \<Longrightarrow> set (delete_first (\<lambda>r. f r = k) rs) = {r \<in> set rs. f r \<noteq> k}"
  by (induction rs) (auto simp: image_iff)

lemma database_ok_add_chain:
  "database_ok db \<Longrightarrow> 0 \<le> cdoc_chain_id row \<Longrightarrow> database_ok (db_chains_update (\<lambda>rs. rs @ [row]) db)"
  by (fastforce simp: database_ok_def split: prod.splits)

lemma chain_set_id [simp]: "cdoc_chain_id (chain_set t u row) = cdoc_chain_id row"
  by (simp add: chain_set_def Let_def split: option.split)

lemma bump_revision_id [simp]: "cdoc_chain_id (bump_revision row) = cdoc_chain_id row"
  by (simp add: bump_revision_def)

lemma image_of_map: "map f xs = map f ys \<Longrightarrow> f ` set xs = f ` set ys"
  by (drule arg_cong [where f = set]) simp

lemma database_ok_chains_same_ids:
  assumes "database_ok db" and "map cdoc_chain_id (f (db_chains db)) = map cdoc_chain_id (db_chains db)"
  shows "database_ok (db_chains_update f db)"
  using assms(1) by (simp add: database_ok_def image_of_map [OF assms(2)])

lemma database_ok_monitors_same_keys:
  assumes "database_ok db" and "map monitor_key (f (db_monitors db)) = map monitor_key (db_monitors db)"
    and "\<forall>m \<in> set (f (db_monitors db)). monitor_row_ok m"
  shows "database_ok (db_monitors_update f db)"
  using assms(1,3) by (simp add: database_ok_def image_of_map [OF assms(2)])

lemma database_ok_update_chain:
  "database_ok db \<Longrightarrow> database_ok (db_chains_update (update_first p (chain_set t u)) db)"
  by (rule database_ok_chains_same_ids) (simp_all add: map_update_first)

lemma database_ok_rows: "database_ok db \<Longrightarrow> m \<in> set (db_monitors db) \<Longrightarrow> monitor_row_ok m"
  by (simp add: database_ok_def)

lemma database_ok_enabled:
  assumes "database_ok db"
  shows "database_ok (db_monitors_update (update_first p (enabled_set b t)) db)"
proof -
  have row: "monitor_key (enabled_set b t m) = monitor_key m" "monitor_row_ok (enabled_set b t m) = monitor_row_ok m" for m
    by (simp_all add: enabled_set_def monitor_row_ok_def monitor_key_def)
  show ?thesis
    by (rule database_ok_monitors_same_keys [OF assms])
      (use database_ok_rows [OF assms] row in \<open>auto simp: map_update_first dest!: set_update_first\<close>)
qed

lemma database_ok_commit:
  assumes ok: "database_ok db" and "distinct (map mdoc_id (db_monitors db))"
    and applies: "commit_applies (chain_id, block, ids, docs) db" and "distinct ids" and "0 \<le> block"
    and docs: "\<forall>r \<in> set docs. rdoc_chain_id r = chain_id \<and> rdoc_monitor_id r \<in> set ids"
  shows "database_ok (commit_effect t (chain_id, block, ids, docs) db)"
proof -
  let ?f = "map (\<lambda>r. if commit_selects chain_id ids r then commit_update block t r else r)"
  have key: "monitor_key (commit_update block t m) = monitor_key m" for m
    by (simp add: commit_update_def monitor_key_def)
  then have keys: "map monitor_key (?f (db_monitors db)) = map monitor_key (db_monitors db)" by simp
  have "monitor_row_ok (commit_update block t m)" if "m \<in> set (db_monitors db)" for m
    using database_ok_rows [OF ok that] \<open>0 \<le> block\<close>
    by (auto simp: monitor_row_ok_def commit_update_def split: option.splits)
  with database_ok_rows [OF ok] have ok1: "database_ok (db_monitors_update ?f db)"
    by (intro database_ok_monitors_same_keys [where f = ?f] ok keys) auto
  have found: "\<forall>i \<in> set ids. \<exists>m \<in> set (db_monitors db). mdoc_id m = i \<and> mdoc_chain_id m = chain_id"
    by (rule matched_all [OF assms(2,4)]) (use applies in \<open>simp add: commit_applies_def commit_selects_def [abs_def]\<close>)
  have "(rdoc_monitor_id r, rdoc_chain_id r) \<in> monitor_key ` set (?f (db_monitors db))" if "r \<in> set docs" for r
    unfolding image_of_map [OF keys] using docs found that by (metis imageI monitor_key_def)
  with ok1 show ?thesis by (auto simp: commit_effect_def database_ok_def)
qed

lemma database_ok_create_monitor:
  assumes ok: "database_ok db" and row: "monitor_template X t nm = Inr template"
    and owner: "\<exists>c \<in> set (db_chains db). cdoc_chain_id c = mdoc_chain_id template"
    and room: "counter_value db ''monitors'' < 9223372036854775807"
  shows "database_ok (create_monitor_effect template db)"
proof -
  let ?db = "db_chains_update (update_first (\<lambda>row. cdoc_chain_id row = mdoc_chain_id template) bump_revision) db"
  have ok1: "database_ok ?db"
    by (rule database_ok_chains_same_ids [OF ok]) (simp add: map_update_first)
  have "mdoc_kind template = ''call'' \<or> mdoc_kind template = ''event''"
    using row by (auto simp: monitor_template_def Let_def res_simps split: target.splits)
  then have "monitor_row_ok (template\<lparr>mdoc_id := i\<rparr>)" for i
    using monitor_template_fields [OF row]
    by (auto simp: monitor_row_ok_def option.map_disc_iff split: option.splits)
  moreover have "mdoc_chain_id template \<in> cdoc_chain_id ` set (db_chains ?db)"
  proof -
    have "map cdoc_chain_id (db_chains ?db) = map cdoc_chain_id (db_chains db)" by (simp add: map_update_first)
    from image_of_map [OF this] owner show ?thesis by force
  qed
  ultimately show ?thesis
    using ok1 room by (auto simp: create_monitor_effect_def database_ok_def monitor_key_def split: prod.splits)
qed

lemma database_ok_delete_chain:
  assumes ok: "database_ok db" and "distinct (map cdoc_chain_id (db_chains db))"
  shows "database_ok (delete_chain_effect i db)"
proof -
  note rest = delete_first_distinct [OF assms(2), of i]
  show ?thesis
    using ok unfolding database_ok_def delete_chain_effect_def
    by (auto simp: rest monitor_key_def image_iff)
qed

lemma database_ok_delete_monitor:
  assumes ok: "database_ok db" and "distinct (map mdoc_id (db_monitors db))"
  shows "database_ok (delete_monitor_effect i db)"
proof -
  note rest = delete_first_distinct [OF assms(2), of i]
  show ?thesis
    using ok unfolding database_ok_def delete_monitor_effect_def
    by (auto simp: rest monitor_key_def image_iff)
qed

lemma result_owner:
  assumes "database_ok db" and "r \<in> set (db_results db)"
  shows "\<exists>m \<in> set (db_monitors db). mdoc_id m = rdoc_monitor_id r \<and> mdoc_chain_id m = rdoc_chain_id r"
proof -
  have "(rdoc_monitor_id r, rdoc_chain_id r) \<in> monitor_key ` set (db_monitors db)"
    using assms by (simp add: database_ok_def)
  then show ?thesis by (auto simp: monitor_key_def)
qed

lemma monitor_id_bounds:
  assumes "database_ok db" and "m \<in> set (db_monitors db)"
  shows "1 \<le> mdoc_id m \<and> mdoc_id m \<le> counter_value db ''monitors'' \<and> counter_value db ''monitors'' \<le> 9223372036854775807"
proof -
  have "monitor_key m \<in> monitor_key ` set (db_monitors db)" using assms(2) by simp
  with assms(1) show ?thesis unfolding database_ok_def monitor_key_def by fastforce
qed

section \<open>Every method keeps it\<close>

text \<open>
  A step is one call of a writing method, with any argument and any outcome: a commit of the
  worker, or a change made through the services.
\<close>

inductive admin_step :: "externs \<Rightarrow> row_readers \<Rightarrow> 'd mongo \<Rightarrow> 'd \<Rightarrow> 'd \<Rightarrow> bool"
  for X :: externs and Y :: row_readers and M :: "'d mongo" where
  step_create_chain: "mongo_create_chain Y M nc d = (r, d') \<Longrightarrow> admin_step X Y M d d'"
| step_update_chain: "mongo_update_chain Y M ch u d = (r, d') \<Longrightarrow> admin_step X Y M d d'"
| step_delete_chain: "mongo_delete_chain M ch d = Some (r, d') \<Longrightarrow> admin_step X Y M d d'"
| step_create_monitor: "mongo_create_monitor X Y M nm d = Some (r, d') \<Longrightarrow> admin_step X Y M d d'"
| step_set_enabled: "mongo_set_monitor_enabled X Y M i b d = (r, d') \<Longrightarrow> admin_step X Y M d d'"
| step_delete_monitor: "mongo_delete_monitor M i d = Some (r, d') \<Longrightarrow> admin_step X Y M d d'"

inductive mongo_step :: "externs \<Rightarrow> row_readers \<Rightarrow> 'd mongo \<Rightarrow> 'd \<Rightarrow> 'd \<Rightarrow> bool"
  for X :: externs and Y :: row_readers and M :: "'d mongo" where
  step_commit: "mongo_commit_block X M c d = Some (r, d') \<Longrightarrow> mongo_step X Y M d d'"
| step_admin: "admin_step X Y M d d' \<Longrightarrow> mongo_step X Y M d d'"

text \<open>A commit's input: distinct ids in range, and documents of its chain and monitors only.\<close>

lemma locked_monitor_Inr: "locked_monitor ms i = Inr m \<Longrightarrow> m \<in> set ms \<and> mon_id m = i"
proof -
  assume "locked_monitor ms i = Inr m"
  then have "List.find (\<lambda>m. mon_id m = i) (rev ms) = Some m" by (simp add: locked_monitor_def ok_or_Inr)
  then obtain j where "j < length (rev ms)" "mon_id (rev ms ! j) = i" "m = rev ms ! j"
    unfolding find_Some_iff by blast
  then have "m \<in> set (rev ms) \<and> mon_id m = i" using nth_mem by blast
  then show ?thesis by simp
qed

lemma result_document_facts:
  assumes "result_document X c ms res = Inr row"
  shows "rdoc_chain_id row = c
    \<and> (\<exists>m \<in> set ms. mon_id m = result_monitor_id res \<and> rdoc_monitor_id row = uint (monitor_id_get (mon_id m)))"
proof (cases res)
  case (ResultCall call)
  with assms obtain m where m: "locked_monitor ms (dc_monitor_id call) = Inr m"
    by (auto simp: result_document_def res_bind_Inr)
  have "rdoc_chain_id row = c \<and> rdoc_monitor_id row = uint (monitor_id_get (result_monitor_id res))"
    using assms m unfolding ResultCall
    by (cases "mon_target m") (auto simp: result_document_def res_bind_Inr to_i64_Inr)
  with locked_monitor_Inr [OF m] ResultCall show ?thesis by auto
next
  case (ResultEvent event)
  with assms obtain m where m: "locked_monitor ms (de_monitor_id event) = Inr m"
    by (auto simp: result_document_def res_bind_Inr)
  have "rdoc_chain_id row = c \<and> rdoc_monitor_id row = uint (monitor_id_get (result_monitor_id res))"
    using assms m unfolding ResultEvent
    by (cases "mon_target m") (auto simp: result_document_def res_bind_Inr to_i64_Inr)
  with locked_monitor_Inr [OF m] ResultEvent show ?thesis by auto
qed

lemma commit_input_facts:
  assumes "commit_input X c = Inr (chain_id, block, ids, docs)"
  shows "chain_id = uint (chain_id_of (bc_chain c))" and "block = uint (bc_block_number c)"
    and "unat (bc_block_number c) \<le> 9223372036854775807" and "\<forall>m \<in> set (bc_monitors c). mon_chain m = bc_chain c"
    and "set ids = (\<lambda>m. uint (monitor_id_get (mon_id m))) ` set (bc_monitors c)" and "distinct ids"
    and "traverse (result_document X chain_id (bc_monitors c)) (bc_results c) = Inr docs"
    and "\<forall>r \<in> set docs. rdoc_chain_id r = chain_id \<and> rdoc_monitor_id r \<in> set ids"
proof -
  from assms obtain raw where raw: "traverse (\<lambda>m. to_i64 (monitor_id_get (mon_id m)) ''monitor id'') (bc_monitors c) = Inr raw"
    and ids: "ids = remdups_adj (sort raw)"
    and docs: "traverse (result_document X chain_id (bc_monitors c)) (bc_results c) = Inr docs"
    and nums: "chain_id = uint (chain_id_of (bc_chain c))" "block = uint (bc_block_number c)"
    by (auto simp: commit_input_def res_simps)
  have "list_all2 (\<lambda>m i. i = uint (monitor_id_get (mon_id m))) (bc_monitors c) raw"
    using raw by (auto simp: traverse_Inr res_simps elim: list_all2_mono)
  then have "raw = map (\<lambda>m. uint (monitor_id_get (mon_id m))) (bc_monitors c)"
    by (induction rule: list_all2_induct) auto
  then show set: "set ids = (\<lambda>m. uint (monitor_id_get (mon_id m))) ` set (bc_monitors c)" by (simp add: ids)
  show "distinct ids" unfolding ids by (rule distinct_remdups_adj_sorted) simp
  show "traverse (result_document X chain_id (bc_monitors c)) (bc_results c) = Inr docs" by (rule docs)
  show "\<forall>r \<in> set docs. rdoc_chain_id r = chain_id \<and> rdoc_monitor_id r \<in> set ids"
  proof
    fix r assume "r \<in> set docs"
    with docs obtain res where "result_document X chain_id (bc_monitors c) res = Inr r"
      by (auto simp: traverse_Inr list_all2_conv_all_nth in_set_conv_nth)
    from result_document_facts [OF this] set
    show "rdoc_chain_id r = chain_id \<and> rdoc_monitor_id r \<in> set ids" by auto
  qed
qed (use assms in \<open>auto simp: commit_input_def res_simps list_all_iff\<close>)

context mongo_server begin

text \<open>A method outside of a transaction: one write, or none.\<close>

definition changes_to :: "(mongo_db \<Rightarrow> mongo_db \<Rightarrow> bool) \<Rightarrow> 'd \<Rightarrow> 'd \<Rightarrow> bool" where
  "changes_to P d d' =
     (vw_indexes V d' = vw_indexes V d
      \<and> (vw_committed V d' = vw_committed V d
         \<or> (P (vw_committed V d) (vw_committed V d')
            \<and> (unique_ok (vw_indexes V d) (vw_committed V d) \<longrightarrow> unique_ok (vw_indexes V d) (vw_committed V d')))))"

lemma changes_keep_invariant:
  assumes "changes_to P d d'" and "mongo_invariant V d"
    and "\<And>db db'. P db db' \<Longrightarrow> identities_ok db \<Longrightarrow> database_ok db \<Longrightarrow> database_ok db'"
  shows "mongo_invariant V d'"
proof -
  have "identities_ok (vw_committed V d)"
    using assms(2) unique_ok_identities by (auto simp: mongo_invariant_def)
  with assms show ?thesis by (auto simp: mongo_invariant_def changes_to_def)
qed

lemma plain_write_changes:
  "write_law V False ok f val call \<Longrightarrow> call d = (r, d') \<Longrightarrow> changes_to (\<lambda>db db'. db' = f db) d d'"
  unfolding write_law_def changes_to_def by (fastforce simp: Let_def split: sum.splits)

lemma transaction_changes:
  assumes "session_op V Q op" and "transaction M op d = Some (r, d')"
  shows "changes_to (\<lambda>db db'. \<exists>v. Q db v db') d d'"
  using transaction_outcome [OF assms] by (cases r) (auto simp: changes_to_def)

lemma same_changes: "changes_to P d d"
  by (simp add: changes_to_def)

lemma changes_weaken: "changes_to P d d' \<Longrightarrow> (\<And>db db'. P db db' \<Longrightarrow> Q db db') \<Longrightarrow> changes_to Q d d'"
  by (auto simp: changes_to_def)

lemma commit_block_outcome:
  assumes "mongo_commit_block X M c d = Some (r, d')"
  shows "vw_indexes V d' = vw_indexes V d
    \<and> (case r of Inl e \<Rightarrow> vw_committed V d' = vw_committed V d
       | Inr u \<Rightarrow> \<exists>inp t. commit_input X c = Inr inp \<and> commit_applies inp (vw_committed V d)
           \<and> vw_committed V d' = commit_effect t inp (vw_committed V d)
           \<and> (unique_ok (vw_indexes V d) (vw_committed V d) \<longrightarrow> unique_ok (vw_indexes V d) (vw_committed V d')))"
proof (cases "commit_input X c")
  case (Inl e)
  with assms show ?thesis by (auto simp: mongo_commit_block_def)
next
  case (Inr inp)
  obtain chain_id block ids docs where inp: "inp = (chain_id, block, ids, docs)" by (cases inp)
  with assms Inr have "transaction M (commit_operation M chain_id block ids docs) d = Some (r, d')"
    by (simp add: mongo_commit_block_def)
  from transaction_outcome [OF commit_operation_session this] Inr inp show ?thesis
    by (auto split: sum.split)
qed

lemma commit_block_changes:
  assumes "mongo_commit_block X M c d = Some (r, d')"
  shows "changes_to (\<lambda>db db'. \<exists>inp t. commit_input X c = Inr inp \<and> commit_applies inp db \<and> db' = commit_effect t inp db) d d'"
  using commit_block_outcome [OF assms] by (cases r) (auto simp: changes_to_def)

lemma create_chain_changes:
  assumes "mongo_create_chain Y M nc d = (r, d')"
  shows "changes_to (\<lambda>db db'. \<exists>row. 0 \<le> cdoc_chain_id row \<and> db' = db_chains_update (\<lambda>rs. rs @ [row]) db) d d'"
proof (cases "to_i64 (chain_id_of (nc_chain nc)) ''chain id''")
  case (Inl e)
  with assms show ?thesis by (simp add: mongo_create_chain_def Let_def io_bind_def io_lift_def same_changes)
next
  case (Inr c)
  let ?row = "\<lparr>cdoc_chain_id = c, cdoc_rpc_url = nc_rpc_url nc, cdoc_enabled = nc_enabled nc,
    cdoc_created_at = mg_now M d, cdoc_updated_at = mg_now M d, cdoc_monitor_revision = 0\<rparr>"
  obtain q d1 where q: "co_insert_one (mg_chains M) False ?row d = (q, d1)" by fastforce
  with assms Inr have "d' = d1"
    by (cases q) (simp_all add: mongo_create_chain_def Let_def io_bind_def io_lift_def)
  moreover have "0 \<le> c" using Inr by (auto simp: res_simps)
  ultimately show ?thesis
    using plain_write_changes [OF insert_one_law [OF chain_writes] q]
    by (auto elim!: changes_weaken intro: exI [of _ ?row])
qed

lemma find_and_update_changes:
  assumes "io_bind (\<lambda>d. co_find_one_and_update C False p (g (mg_now M d)) d) (\<lambda>found. io_bind (io_lift (h found)) (\<lambda>x. io_lift (k x))) d = (r, d')"
    and "write_laws V rows upd C"
  shows "changes_to (\<lambda>db db'. \<exists>t. db' = upd (update_first p (g t)) db) d d'"
proof -
  obtain q d1 where q: "co_find_one_and_update C False p (g (mg_now M d)) d = (q, d1)" by fastforce
  with assms(1) have "d' = d1"
    by (cases q) (auto simp: io_bind_def io_lift_def split: sum.splits)
  with plain_write_changes [OF find_one_and_update_law [OF assms(2)] q] show ?thesis
    by (auto elim!: changes_weaken)
qed

lemma update_chain_changes:
  assumes "mongo_update_chain Y M ch u d = (r, d')"
  shows "changes_to (\<lambda>db db'. \<exists>i t. db' = db_chains_update (update_first (\<lambda>row. cdoc_chain_id row = i) (chain_set t u)) db) d d'"
proof (cases "to_i64 (chain_id_of ch) ''chain id''")
  case (Inl e)
  with assms show ?thesis by (simp add: mongo_update_chain_def io_bind_def io_lift_def same_changes)
next
  case (Inr i)
  with assms have "io_bind (\<lambda>d. co_find_one_and_update (mg_chains M) False (\<lambda>row. cdoc_chain_id row = i) (chain_set (mg_now M d) u) d)
      (\<lambda>found. io_bind (io_lift (ok_or (chain_not_found i) found)) (\<lambda>row. io_lift (mongo_chain_record Y row))) d = (r, d')"
    by (simp add: mongo_update_chain_def io_bind_def io_lift_def)
  from find_and_update_changes [where g = "\<lambda>t. chain_set t u", OF this chain_writes] show ?thesis
    by (auto elim!: changes_weaken)
qed

lemma set_enabled_changes:
  assumes "mongo_set_monitor_enabled X Y M mid b d = (r, d')"
  shows "changes_to (\<lambda>db db'. \<exists>i t. db' = db_monitors_update (update_first (\<lambda>row. mdoc_id row = i) (enabled_set b t)) db) d d'"
proof (cases "to_i64 (monitor_id_get mid) ''monitor id''")
  case (Inl e)
  with assms show ?thesis by (simp add: mongo_set_monitor_enabled_def io_bind_def io_lift_def same_changes)
next
  case (Inr i)
  with assms have "io_bind (\<lambda>d. co_find_one_and_update (mg_monitors M) False (\<lambda>row. mdoc_id row = i) (enabled_set b (mg_now M d)) d)
      (\<lambda>found. io_bind (io_lift (ok_or (monitor_not_found i) found)) (\<lambda>row. io_lift (mongo_monitor_record X Y row))) d = (r, d')"
    by (simp add: mongo_set_monitor_enabled_def io_bind_def io_lift_def)
  from find_and_update_changes [where g = "enabled_set b", OF this monitor_writes] show ?thesis
    by (auto elim!: changes_weaken)
qed

lemma delete_chain_changes:
  assumes "mongo_delete_chain M ch d = Some (r, d')"
  shows "changes_to (\<lambda>db db'. db' = delete_chain_effect (uint (chain_id_of ch)) db) d d'"
  using assms transaction_changes [OF delete_chain_session]
  by (fastforce simp: mongo_delete_chain_def res_simps same_changes elim: changes_weaken split: sum.splits)

lemma delete_monitor_changes:
  assumes "mongo_delete_monitor M i d = Some (r, d')"
  shows "changes_to (\<lambda>db db'. db' = delete_monitor_effect (uint (monitor_id_get i)) db) d d'"
  using assms transaction_changes [OF delete_monitor_session]
  by (fastforce simp: mongo_delete_monitor_def res_simps same_changes elim: changes_weaken split: sum.splits)

lemma create_monitor_changes:
  assumes "mongo_create_monitor X Y M nm d = Some (r, d')"
  shows "changes_to (\<lambda>db db'. \<exists>t template. monitor_template X t nm = Inr template
      \<and> (\<exists>c \<in> set (db_chains db). cdoc_chain_id c = mdoc_chain_id template)
      \<and> counter_value db ''monitors'' < 9223372036854775807 \<and> db' = create_monitor_effect template db) d d'"
proof (cases "monitor_template X (mg_now M d) nm")
  case (Inl e)
  with assms show ?thesis by (simp add: mongo_create_monitor_def same_changes)
next
  case (Inr template)
  with assms obtain q where "transaction M (create_monitor_operation M template) d = Some (q, d')"
    by (auto simp: mongo_create_monitor_def)
  from transaction_changes [OF create_monitor_session this] Inr show ?thesis
    by (auto elim!: changes_weaken)
qed

lemma commit_keeps_invariant:
  assumes commit: "mongo_commit_block X M c d = Some (r, d')" and inv: "mongo_invariant V d"
  shows "mongo_invariant V d'"
proof (rule changes_keep_invariant [OF commit_block_changes [OF commit] inv])
  fix db db' assume "\<exists>inp t. commit_input X c = Inr inp \<and> commit_applies inp db \<and> db' = commit_effect t inp db"
    and ids: "identities_ok db" and ok: "database_ok db"
  then obtain chain_id block ids docs t where inp: "commit_input X c = Inr (chain_id, block, ids, docs)"
    "commit_applies (chain_id, block, ids, docs) db" "db' = commit_effect t (chain_id, block, ids, docs) db" by auto
  note facts = commit_input_facts [OF inp(1)]
  have "distinct (map mdoc_id (db_monitors db))" using ids by (simp add: identities_ok_def)
  from database_ok_commit [OF ok this inp(2) facts(6) _ facts(8)] inp(3) show "database_ok db'"
    by (simp add: facts(2))
qed

lemma admin_keeps_invariant:
  assumes "admin_step X Y M d d'" and "mongo_invariant V d"
  shows "mongo_invariant V d'"
  using assms
proof (induction rule: admin_step.induct)
  case (step_create_chain nc d r d')
  show ?case
    by (rule changes_keep_invariant [OF create_chain_changes [OF step_create_chain(1)] step_create_chain(2)])
      (use database_ok_add_chain in blast)
next
  case (step_update_chain ch u d r d')
  show ?case
    by (rule changes_keep_invariant [OF update_chain_changes [OF step_update_chain(1)] step_update_chain(2)])
      (use database_ok_update_chain in blast)
next
  case (step_delete_chain ch d r d')
  show ?case
    by (rule changes_keep_invariant [OF delete_chain_changes [OF step_delete_chain(1)] step_delete_chain(2)])
      (simp add: database_ok_delete_chain identities_ok_def)
next
  case (step_create_monitor nm d r d')
  show ?case
    by (rule changes_keep_invariant [OF create_monitor_changes [OF step_create_monitor(1)] step_create_monitor(2)])
      (use database_ok_create_monitor in blast)
next
  case (step_set_enabled i b d r d')
  show ?case
    by (rule changes_keep_invariant [OF set_enabled_changes [OF step_set_enabled(1)] step_set_enabled(2)])
      (use database_ok_enabled in blast)
next
  case (step_delete_monitor i d r d')
  show ?case
    by (rule changes_keep_invariant [OF delete_monitor_changes [OF step_delete_monitor(1)] step_delete_monitor(2)])
      (simp add: database_ok_delete_monitor identities_ok_def)
qed

lemma step_keeps_invariant: "mongo_step X Y M d d' \<Longrightarrow> mongo_invariant V d \<Longrightarrow> mongo_invariant V d'"
  by (induction rule: mongo_step.induct) (auto intro: commit_keeps_invariant admin_keeps_invariant)

end

end
