(* ===== verification/Index_Port.thy ===== *)
theory Index_Port
  imports Worker_Poll
begin

text \<open>
  The interface \<open>index_storage_port\<close> between the worker and a storage adapter, and what the two
  give together: after any number of commits of a poll the rows a storage holds for a monitor are
  those of the finalized blocks from the monitor's start to its stored cursor, each block once.
\<close>

section \<open>What the chain dictates for one monitor\<close>

text \<open>The results of one block for a monitor, whatever its cursor and its switches are.\<close>

definition fresh_monitor :: "monitor \<Rightarrow> monitor" where
  "fresh_monitor m = m\<lparr>mon_cursor := Cursor None, mon_completed := False, mon_enabled := True\<rparr>"

definition monitor_truth :: "externs \<Rightarrow> chain_data \<Rightarrow> monitor \<Rightarrow> block_number \<Rightarrow> decoded_result list" where
  "monitor_truth X D m b = block_results X D [fresh_monitor m] [0] b"

definition done_blocks :: "monitor \<Rightarrow> block_number option \<Rightarrow> block_number list" where
  "done_blocks m c = (case c of None \<Rightarrow> [] | Some b \<Rightarrow> range_inclusive (mon_start_block m) b)"

lemma filter_map_filter_only:
  assumes "distinct is" and "i \<in> set is" and "\<And>j r. j \<in> set is \<Longrightarrow> f j = Some r \<Longrightarrow> P r \<longleftrightarrow> j = i"
  shows "filter P (List.map_filter f is) = List.map_filter f [i]"
  using assms
proof (induction "is")
  case (Cons j js)
  show ?case
  proof (cases "j = i")
    case True
    with Cons.prems(1) have "i \<notin> set js" by simp
    then have "filter P (List.map_filter f js) = []"
      using Cons.prems(3) by (force simp: filter_empty_conv List.map_filter_def)
    with True Cons.prems(3) [of i] show ?thesis by (auto simp: List.map_filter_def split: option.splits)
  next
    case False
    with Cons.prems have "filter P (List.map_filter f js) = List.map_filter f [i]" by (intro Cons.IH) auto
    with False Cons.prems(3) [of j] show ?thesis by (auto simp: List.map_filter_def split: option.splits)
  qed
qed simp

lemma call_match_fresh [simp]: "call_match X (fresh_monitor m) b tx = call_match X m b tx"
  by (simp add: call_match_def call_of_def fresh_monitor_def split: target.split sum.split)

lemma event_match_fresh [simp]: "event_match X (fresh_monitor m) b log pos = event_match X m b log pos"
  by (simp add: event_match_def event_of_def fresh_monitor_def split: target.split sum.split)

lemma call_match_id: "call_match X m b tx = Some r \<Longrightarrow> dc_monitor_id r = mon_id m"
  by (auto simp: call_match_def call_of_def split: target.splits if_splits sum.splits)

lemma event_match_id: "event_match X m b log pos = Some r \<Longrightarrow> de_monitor_id r = mon_id m"
  by (auto simp: event_match_def event_of_def split: target.splits if_splits sum.splits)

lemma needs_block_fresh: "needs_block m b \<Longrightarrow> needs_block (fresh_monitor m) b"
  by (auto simp: needs_block_def covers_def fresh_monitor_def)

lemma distinct_ids_nth:
  "distinct (map mon_id ms) \<Longrightarrow> i < length ms \<Longrightarrow> j < length ms \<Longrightarrow> mon_id (ms ! j) = mon_id (ms ! i) \<longleftrightarrow> j = i"
  by (metis length_map nth_eq_iff_index_eq nth_map)

lemma planned_ids_distinct:
  assumes "distinct (map mon_id ms)" and "distinct is" and "\<forall>i \<in> set is. i < length ms"
  shows "distinct (map mon_id (map (\<lambda>i. ms ! i) is))"
proof -
  have "inj_on (\<lambda>i. mon_id (ms ! i)) (set is)"
    using assms(3) distinct_ids_nth [OF assms(1)] by (intro inj_onI) blast
  with assms(2) show ?thesis by (simp add: comp_def distinct_map)
qed

lemma planned_id_member:
  assumes "distinct (map mon_id ms)" and "\<forall>i \<in> set is. i < length ms" and "i < length ms"
  shows "mon_id (ms ! i) \<in> mon_id ` set (map (\<lambda>i. ms ! i) is) \<longleftrightarrow> i \<in> set is"
proof
  assume "mon_id (ms ! i) \<in> mon_id ` set (map (\<lambda>i. ms ! i) is)"
  then obtain j where "j \<in> set is" "mon_id (ms ! j) = mon_id (ms ! i)" by auto
  with distinct_ids_nth [OF assms(1,3)] assms(2) show "i \<in> set is" by blast
qed auto

lemma block_results_of_monitor:
  assumes ids: "distinct (map mon_id ms)" and planned: "distinct planned" "i \<in> set planned"
    and i: "i < length ms" and need: "needs_block (ms ! i) b"
  shows "filter (\<lambda>r. result_monitor_id r = mon_id (ms ! i)) (block_results X D ms planned b)
    = monitor_truth X D (ms ! i) b"
proof -
  let ?m = "ms ! i" and ?fresh = "fresh_monitor (ms ! i)"
  note fresh = needs_block_fresh [OF need]
  have calls: "filter (\<lambda>r. dc_monitor_id r = mon_id ?m) (reference_calls X ms b planned tx)
      = reference_calls X [?fresh] b [0] tx" for tx
  proof -
    have "filter (\<lambda>r. dc_monitor_id r = mon_id ?m) (reference_calls X ms b planned tx)
        = List.map_filter (\<lambda>i. if i < length ms \<and> needs_block (ms ! i) b then call_match X (ms ! i) b tx else None) [i]"
      unfolding reference_calls_def
      by (rule filter_map_filter_only [OF planned])
        (auto simp: distinct_ids_nth [OF ids i] dest: call_match_id split: if_splits)
    with i need fresh show ?thesis by (simp add: reference_calls_def List.map_filter_def)
  qed
  have events: "filter (\<lambda>r. de_monitor_id r = mon_id ?m) (reference_events X ms b planned log pos)
      = reference_events X [?fresh] b [0] log pos" for log pos
  proof -
    have "filter (\<lambda>r. de_monitor_id r = mon_id ?m) (reference_events X ms b planned log pos)
        = List.map_filter (\<lambda>i. if i < length ms \<and> needs_block (ms ! i) b then event_match X (ms ! i) b log pos else None) [i]"
      unfolding reference_events_def
      by (rule filter_map_filter_only [OF planned])
        (auto simp: distinct_ids_nth [OF ids i] dest: event_match_id split: if_splits)
    with i need fresh show ?thesis by (simp add: reference_events_def List.map_filter_def)
  qed
  have "filter (\<lambda>r. dc_monitor_id r = mon_id ?m) (chain_calls X D ms planned b) = chain_calls X D [?fresh] [0] b"
    by (simp add: chain_calls_def filter_concat comp_def calls if_distrib [of "filter _"] cong: if_cong)
  moreover have "filter (\<lambda>r. de_monitor_id r = mon_id ?m) (chain_events X D ms planned b) = chain_events X D [?fresh] [0] b"
    by (simp add: chain_events_def filter_concat comp_def events)
  ultimately show ?thesis
    by (simp add: monitor_truth_def block_results_def filter_map comp_def)
qed

lemma range_inclusive_Cons:
  assumes "range_inclusive a t = b # rest" and "b < - 1"
  shows "b = a \<and> rest = range_inclusive (saturating_add a 1) t"
proof -
  have "map unat (b # rest) = [unat a ..< Suc (unat t)]"
    unfolding assms(1) [symmetric] by (rule map_unat_range_inclusive)
  then have le: "unat a \<le> unat t" and "unat b = unat a" and rest: "map unat rest = [Suc (unat a) ..< Suc (unat t)]"
    by (auto simp: upt_rec [of "unat a"] simp del: upt_Suc split: if_splits)
  then have b: "b = a" by (simp add: unat_arith_simps)
  with assms(2) have "unat a < 18446744073709551615" by (simp add: word_less_nat_alt u64_simps)
  then have "unat (saturating_add a 1) = Suc (unat a)" by (simp add: u64_simps)
  with rest have "map unat rest = map unat (range_inclusive (saturating_add a 1) t)"
    by (simp only: map_unat_range_inclusive)
  then have "rest = range_inclusive (saturating_add a 1) t"
    by (rule map_injective) (simp add: inj_def unat_arith_simps)
  with b show ?thesis by simp
qed

lemma range_inclusive_snoc:
  assumes "s \<le> c" and "c < - 1"
  shows "range_inclusive s (saturating_add c 1) = range_inclusive s c @ [saturating_add c 1]"
proof -
  have "unat c < 18446744073709551615" using assms(2) by (simp add: word_less_nat_alt u64_simps)
  then have u: "unat (saturating_add c 1) = Suc (unat c)" by (simp add: u64_simps)
  have "map unat (range_inclusive s (saturating_add c 1)) = map unat (range_inclusive s c @ [saturating_add c 1])"
    using assms(1) by (simp add: map_unat_range_inclusive u word_le_nat_alt)
  then show ?thesis by (rule map_injective) (simp add: inj_def unat_arith_simps)
qed

lemma range_inclusive_single: "range_inclusive s s = [s]"
  by (simp add: range_inclusive_def)

text \<open>The blocks of a plan that name a monitor are the consecutive ones it wants.\<close>

lemma planned_blocks_of_monitor:
  assumes batch: "batch \<noteq> 0" and i: "i < length ms"
  shows "map bp_block_number (filter (\<lambda>p. i \<in> set (bp_monitor_indices p)) (plan_blocks ms head batch))
    = range_inclusive (next_block (ms ! i)) (plan_to (ms ! i) head batch)"
proof (rule sorted_wrt_less_unique)
  let ?mine = "filter (\<lambda>p. i \<in> set (bp_monitor_indices p)) (plan_blocks ms head batch)"
  show "sorted_wrt (<) (map bp_block_number ?mine)"
    using plan_blocks_ascending [OF batch, of ms head] by (simp add: sorted_wrt_map sorted_wrt_filter)
  have "sorted_wrt (<) (map unat (range_inclusive a b))" for a b
    unfolding map_unat_range_inclusive by (rule sorted_wrt_upt)
  then show "sorted_wrt (<) (range_inclusive (next_block (ms ! i)) (plan_to (ms ! i) head batch))"
    unfolding word_less_nat_alt sorted_wrt_map .
  show "set (map bp_block_number ?mine) = set (range_inclusive (next_block (ms ! i)) (plan_to (ms ! i) head batch))"
  proof (intro equalityI subsetI)
    fix b assume "b \<in> set (map bp_block_number ?mine)"
    then show "b \<in> set (range_inclusive (next_block (ms ! i)) (plan_to (ms ! i) head batch))"
      unfolding in_plan_range [OF batch] by (auto simp: set_plan_blocks [OF batch])
  next
    fix b assume "b \<in> set (range_inclusive (next_block (ms ! i)) (plan_to (ms ! i) head batch))"
    then have w: "wants (ms ! i) head batch b" unfolding in_plan_range [OF batch] .
    from plan_blocks_planned [OF batch i w] i w show "b \<in> set (map bp_block_number ?mine)"
      by (auto intro!: image_eqI [of _ _ "\<lparr>bp_block_number = b, bp_monitor_indices = planned_for ms head batch b\<rparr>"])
  qed
qed

section \<open>Exactly the rows of the indexed blocks\<close>

text \<open>
  For a storage that holds \<open>cursor_of\<close> and \<open>rows_of\<close> for a monitor and encodes its results with
  \<open>encode\<close>: the rows of the monitor are those of the blocks up to its cursor, each block once.
\<close>

definition stored_exactly ::
  "('s \<Rightarrow> monitor_id \<Rightarrow> block_number option) \<Rightarrow> ('s \<Rightarrow> monitor_id \<Rightarrow> 'row list)
     \<Rightarrow> (monitor \<Rightarrow> decoded_result \<Rightarrow> 'row) \<Rightarrow> externs \<Rightarrow> chain_data \<Rightarrow> 's \<Rightarrow> monitor \<Rightarrow> bool" where
  "stored_exactly cursor_of rows_of encode X D s m =
     ((case cursor_of s (mon_id m) of None \<Rightarrow> True | Some c \<Rightarrow> mon_start_block m \<le> c \<and> c < - 1)
      \<and> mset (rows_of s (mon_id m))
          = mset (map (encode m) (concat (map (monitor_truth X D m) (done_blocks m (cursor_of s (mon_id m)))))))"

section \<open>Commits\<close>

text \<open>What a commit that took effect does to the cursors and rows, and what one that did not.\<close>

definition committed_as ::
  "('s \<Rightarrow> monitor_id \<Rightarrow> block_number option) \<Rightarrow> ('s \<Rightarrow> monitor_id \<Rightarrow> 'row list)
     \<Rightarrow> (monitor \<Rightarrow> decoded_result \<Rightarrow> 'row) \<Rightarrow> 's \<Rightarrow> block_commit \<Rightarrow> 's \<Rightarrow> bool" where
  "committed_as cursor_of rows_of encode s c s' =
     (bc_block_number c < - 1
      \<and> (\<forall>m \<in> set (bc_monitors c).
           cursor_of s' (mon_id m) = Some (bc_block_number c)
           \<and> rows_of s' (mon_id m)
               = rows_of s (mon_id m) @ map (encode m) (filter (\<lambda>r. result_monitor_id r = mon_id m) (bc_results c)))
      \<and> (\<forall>i. i \<notin> mon_id ` set (bc_monitors c) \<longrightarrow> cursor_of s' i = cursor_of s i \<and> rows_of s' i = rows_of s i))"

definition holds_same ::
  "('s \<Rightarrow> monitor_id \<Rightarrow> block_number option) \<Rightarrow> ('s \<Rightarrow> monitor_id \<Rightarrow> 'row list) \<Rightarrow> 's \<Rightarrow> 's \<Rightarrow> bool" where
  "holds_same cursor_of rows_of s s' = (\<forall>i. cursor_of s' i = cursor_of s i \<and> rows_of s' i = rows_of s i)"

lemma holds_same_refl [simp]: "holds_same cursor_of rows_of s s"
  by (simp add: holds_same_def)

lemma holds_same_trans:
  "holds_same cursor_of rows_of a b \<Longrightarrow> holds_same cursor_of rows_of b c \<Longrightarrow> holds_same cursor_of rows_of a c"
  by (simp add: holds_same_def)

inductive commit_chain :: "('s \<Rightarrow> block_commit \<Rightarrow> 's \<Rightarrow> bool) \<Rightarrow> 's \<Rightarrow> block_commit list \<Rightarrow> 's \<Rightarrow> bool" for taken where
  chain_nil: "commit_chain taken s [] s"
| chain_cons: "taken s c s1 \<Longrightarrow> commit_chain taken s1 cs s2 \<Longrightarrow> commit_chain taken s (c # cs) s2"

inductive_simps commit_chain_Nil [simp]: "commit_chain taken s [] s'"
inductive_simps commit_chain_Cons: "commit_chain taken s (c # cs) s'"

lemma commit_chain_snoc:
  "commit_chain taken s cs s1 \<Longrightarrow> taken s1 c s2 \<Longrightarrow> commit_chain taken s (cs @ [c]) s2"
  by (induction rule: commit_chain.induct) (auto simp: commit_chain_Cons)

section \<open>The interface\<close>

text \<open>
  \<open>ok\<close> is the adapter's own invariant, \<open>cursor_of\<close> and \<open>rows_of\<close> what it holds for a monitor,
  \<open>encode\<close> how it stores a result of a monitor. A commit that is answered with an error may still
  have taken effect: the answer may have been lost.
\<close>

locale index_storage_port =
  fixes st :: "'s index_storage" and ok :: "'s \<Rightarrow> bool"
    and cursor_of :: "'s \<Rightarrow> monitor_id \<Rightarrow> block_number option"
    and rows_of :: "'s \<Rightarrow> monitor_id \<Rightarrow> 'row list"
    and encode :: "monitor \<Rightarrow> decoded_result \<Rightarrow> 'row"
  assumes loads: "ok s \<Longrightarrow> is_load_monitors st s ch = Inr ms \<Longrightarrow>
      distinct (map mon_id ms)
      \<and> (\<forall>m \<in> set ms. mon_chain m = ch \<and> cursor_block (mon_cursor m) = cursor_of s (mon_id m))"
    and commits: "ok s \<Longrightarrow> distinct (map mon_id (bc_monitors c)) \<Longrightarrow> is_commit_block st s c = (r, s') \<Longrightarrow>
      ok s'
      \<and> (case r of
           Inr u \<Rightarrow> committed_as cursor_of rows_of encode s c s'
         | Inl e \<Rightarrow> holds_same cursor_of rows_of s s' \<or> committed_as cursor_of rows_of encode s c s')"
begin

abbreviation taken :: "'s \<Rightarrow> block_commit \<Rightarrow> 's \<Rightarrow> bool" where
  "taken \<equiv> committed_as cursor_of rows_of encode"

abbreviation indexed_exactly :: "externs \<Rightarrow> chain_data \<Rightarrow> 's \<Rightarrow> monitor \<Rightarrow> bool" where
  "indexed_exactly X D s m \<equiv> stored_exactly cursor_of rows_of encode X D s m"

lemma indexed_exactly_cong:
  "cursor_of s' (mon_id m) = cursor_of s (mon_id m) \<Longrightarrow> rows_of s' (mon_id m) = rows_of s (mon_id m) \<Longrightarrow>
     indexed_exactly X D s' m = indexed_exactly X D s m"
  by (simp add: stored_exactly_def)

lemma commit_indexes_exactly:
  assumes ids: "distinct (map mon_id ms)" and planned: "distinct (bp_monitor_indices plan)"
    and bound: "\<forall>i \<in> set (bp_monitor_indices plan). i < length ms"
    and need: "\<forall>i \<in> set (bp_monitor_indices plan). needs_block (ms ! i) (bp_block_number plan)"
    and matches: "commit_matches X D ms ch plan c" and commit: "taken s c s'"
    and i: "i < length ms" and before: "indexed_exactly X D s (ms ! i)"
    and next_one: "i \<in> set (bp_monitor_indices plan) \<Longrightarrow>
      bp_block_number plan = cursor_next (Cursor (cursor_of s (mon_id (ms ! i)))) (mon_start_block (ms ! i))"
  shows "bp_block_number plan < - 1 \<and> indexed_exactly X D s' (ms ! i)
    \<and> cursor_of s' (mon_id (ms ! i))
        = (if i \<in> set (bp_monitor_indices plan) then Some (bp_block_number plan) else cursor_of s (mon_id (ms ! i)))"
proof -
  let ?m = "ms ! i" and ?b = "bp_block_number plan"
  have c: "bc_block_number c = ?b" "bc_monitors c = map (\<lambda>i. ms ! i) (bp_monitor_indices plan)"
    "mset (bc_results c) = mset (block_results X D ms (bp_monitor_indices plan) ?b)"
    using matches by (simp_all add: commit_matches_def)
  note law = commit [unfolded committed_as_def]
  show ?thesis
  proof (cases "i \<in> set (bp_monitor_indices plan)")
    case False
    have "mon_id ?m \<notin> mon_id ` set (bc_monitors c)"
      using False planned_id_member [OF ids bound i] by (simp add: c(2))
    with law have "cursor_of s' (mon_id ?m) = cursor_of s (mon_id ?m)" "rows_of s' (mon_id ?m) = rows_of s (mon_id ?m)"
      by auto
    with indexed_exactly_cong [of s' ?m s] before law False c(1) show ?thesis by simp
  next
    case True
    then have mem: "?m \<in> set (bc_monitors c)" by (simp add: c(2))
    have cur: "cursor_of s' (mon_id ?m) = Some ?b" and lt: "?b < - 1"
      and rows: "rows_of s' (mon_id ?m)
        = rows_of s (mon_id ?m) @ map (encode ?m) (filter (\<lambda>r. result_monitor_id r = mon_id ?m) (bc_results c))"
      using law mem c(1) by auto
    have "mset (filter (\<lambda>r. result_monitor_id r = mon_id ?m) (bc_results c))
        = mset (filter (\<lambda>r. result_monitor_id r = mon_id ?m) (block_results X D ms (bp_monitor_indices plan) ?b))"
      by (simp only: mset_filter c(3))
    also have "\<dots> = mset (monitor_truth X D ?m ?b)"
      using block_results_of_monitor [OF ids planned True i] need True by simp
    finally have news: "mset (map (encode ?m) (filter (\<lambda>r. result_monitor_id r = mon_id ?m) (bc_results c)))
        = mset (map (encode ?m) (monitor_truth X D ?m ?b))"
      by (simp only: mset_map)
    have blocks: "done_blocks ?m (Some ?b) = done_blocks ?m (cursor_of s (mon_id ?m)) @ [?b]"
      and start: "mon_start_block ?m \<le> ?b"
    proof -
      have b: "?b = cursor_next (Cursor (cursor_of s (mon_id ?m))) (mon_start_block ?m)" by (rule next_one [OF True])
      show "done_blocks ?m (Some ?b) = done_blocks ?m (cursor_of s (mon_id ?m)) @ [?b]"
      proof (cases "cursor_of s (mon_id ?m)")
        case None
        with b show ?thesis by (simp add: done_blocks_def range_inclusive_single)
      next
        case (Some c0)
        with before have "mon_start_block ?m \<le> c0" "c0 < - 1" by (simp_all add: stored_exactly_def)
        with b Some show ?thesis by (simp add: done_blocks_def cursor_next_def range_inclusive_snoc)
      qed
      show "mon_start_block ?m \<le> ?b"
        using need True by (auto simp: needs_block_def covers_def)
    qed
    have "indexed_exactly X D s' ?m"
      using before news lt start
      by (simp add: stored_exactly_def cur rows blocks del: mset_map)
    with law cur lt True c(1) show ?thesis by simp
  qed
qed

text \<open>All commits of a prefix of the plans.\<close>

lemma commits_index_exactly:
  assumes run: "commit_chain taken s cs s'" and ids: "distinct (map mon_id ms)"
    and "list_all2 (commit_matches X D ms ch) (take (length cs) plans) cs" and "length cs \<le> length plans"
    and "\<forall>p \<in> set plans. distinct (bp_monitor_indices p)
      \<and> (\<forall>i \<in> set (bp_monitor_indices p). i < length ms \<and> needs_block (ms ! i) (bp_block_number p))"
    and "\<forall>i < length ms. indexed_exactly X D s (ms ! i)
      \<and> (\<exists>t. map bp_block_number (filter (\<lambda>p. i \<in> set (bp_monitor_indices p)) plans)
           = range_inclusive (cursor_next (Cursor (cursor_of s (mon_id (ms ! i)))) (mon_start_block (ms ! i))) t)"
  shows "(\<forall>i < length ms. indexed_exactly X D s' (ms ! i))
    \<and> (\<forall>k. k \<notin> mon_id ` set ms \<longrightarrow> cursor_of s' k = cursor_of s k \<and> rows_of s' k = rows_of s k)"
  using run assms(3-)
proof (induction arbitrary: plans rule: commit_chain.induct)
  case (chain_nil s)
  then show ?case by simp
next
  case (chain_cons s c s1 cs s2)
  from chain_cons.prems(1,2) obtain plan rest where plans: "plans = plan # rest"
    and matches: "commit_matches X D ms ch plan c"
    and rest: "list_all2 (commit_matches X D ms ch) (take (length cs) rest) cs" "length cs \<le> length rest"
    by (cases plans) auto
  have facts: "distinct (bp_monitor_indices plan)" "\<forall>i \<in> set (bp_monitor_indices plan). i < length ms"
    "\<forall>i \<in> set (bp_monitor_indices plan). needs_block (ms ! i) (bp_block_number plan)"
    using chain_cons.prems(3) by (simp_all add: plans)
  have step: "bp_block_number plan < - 1 \<and> indexed_exactly X D s1 (ms ! i)
      \<and> (\<exists>t. map bp_block_number (filter (\<lambda>p. i \<in> set (bp_monitor_indices p)) rest)
           = range_inclusive (cursor_next (Cursor (cursor_of s1 (mon_id (ms ! i)))) (mon_start_block (ms ! i))) t)"
    if i: "i < length ms" for i
  proof -
    from chain_cons.prems(4) i obtain t where before: "indexed_exactly X D s (ms ! i)"
      and blocks: "map bp_block_number (filter (\<lambda>p. i \<in> set (bp_monitor_indices p)) plans)
        = range_inclusive (cursor_next (Cursor (cursor_of s (mon_id (ms ! i)))) (mon_start_block (ms ! i))) t" by blast
    have lt: "bp_block_number plan < - 1"
      using chain_cons.hyps(1) matches by (simp add: committed_as_def commit_matches_def)
    have first: "bp_block_number plan = cursor_next (Cursor (cursor_of s (mon_id (ms ! i)))) (mon_start_block (ms ! i))
        \<and> map bp_block_number (filter (\<lambda>p. i \<in> set (bp_monitor_indices p)) rest)
            = range_inclusive (saturating_add (bp_block_number plan) 1) t"
      if "i \<in> set (bp_monitor_indices plan)"
    proof -
      from blocks that have "range_inclusive (cursor_next (Cursor (cursor_of s (mon_id (ms ! i)))) (mon_start_block (ms ! i))) t
          = bp_block_number plan # map bp_block_number (filter (\<lambda>p. i \<in> set (bp_monitor_indices p)) rest)"
        by (simp add: plans)
      from range_inclusive_Cons [OF this lt] show ?thesis by simp
    qed
    note one = commit_indexes_exactly [OF ids facts matches chain_cons.hyps(1) i before]
    show ?thesis
    proof (cases "i \<in> set (bp_monitor_indices plan)")
      case True
      with one first show ?thesis by (auto simp: cursor_next_def)
    next
      case False
      with one blocks show ?thesis by (auto simp: plans)
    qed
  qed
  have outside: "cursor_of s1 k = cursor_of s k \<and> rows_of s1 k = rows_of s k" if "k \<notin> mon_id ` set ms" for k
  proof -
    have mons: "set (bc_monitors c) \<subseteq> set ms" using matches facts(2) by (auto simp: commit_matches_def)
    with chain_cons.hyps(1) that show ?thesis unfolding committed_as_def by blast
  qed
  from chain_cons.IH [OF rest] chain_cons.prems(3) step outside show ?case by (auto simp: plans)
qed

text \<open>A whole poll, however it ends.\<close>

lemma poll_commits_prefix:
  assumes "poll_commits X D ms ch st plans head s r s'"
  shows "\<exists>cs s1. length cs \<le> length plans \<and> list_all2 (commit_matches X D ms ch) (take (length cs) plans) cs
    \<and> commit_run st s cs s1
    \<and> (s' = s1 \<or> (length cs < length plans
        \<and> (\<exists>c e. commit_matches X D ms ch (plans ! length cs) c \<and> is_commit_block st s1 c = (Inl e, s'))))"
proof -
  from assms obtain cs where cs: "length cs \<le> length plans"
    "list_all2 (commit_matches X D ms ch) (take (length cs) plans) cs"
    "case r of
       Inr (Completed p) \<Rightarrow>
         commit_run st s cs s' \<and> length cs = length plans \<and> pr_finalized_head p = head
         \<and> pr_decoded p = sum_list (map (\<lambda>c. length (bc_results c)) cs)
     | Inr Cancelled \<Rightarrow> commit_run st s cs s'
     | Inl e \<Rightarrow> commit_run st s cs s' \<or> commit_failed X D ms ch st plans s cs e s'"
    unfolding poll_commits_def by blast
  then have "commit_run st s cs s' \<or> (\<exists>e. commit_failed X D ms ch st plans s cs e s')"
    by (auto split: sum.splits poll_outcome.splits)
  with cs(1,2) show ?thesis unfolding commit_failed_def by blast
qed

lemma commit_run_takes:
  "commit_run st s cs s' \<Longrightarrow> ok s \<Longrightarrow> \<forall>c \<in> set cs. distinct (map mon_id (bc_monitors c)) \<Longrightarrow>
     ok s' \<and> commit_chain taken s cs s'"
proof (induction rule: commit_run.induct)
  case (run_cons s c s1 cs s2)
  with commits [of s c "Inr ()" s1] show ?case by (auto intro: commit_chain.intros)
qed (simp add: chain_nil)

text \<open>Apart from an answer that was lost, the storage holds what a chain of commits left.\<close>

lemma poll_takes:
  assumes poll: "poll_commits X D ms ch st plans head s r s'" and "ok s"
    and distinct: "\<forall>p \<in> set plans. \<forall>c. commit_matches X D ms ch p c \<longrightarrow> distinct (map mon_id (bc_monitors c))"
  shows "ok s' \<and> (\<exists>cs s1. length cs \<le> length plans
    \<and> list_all2 (commit_matches X D ms ch) (take (length cs) plans) cs
    \<and> commit_chain taken s cs s1 \<and> holds_same cursor_of rows_of s1 s')"
proof -
  from poll_commits_prefix [OF poll] obtain cs s1 where cs: "length cs \<le> length plans"
    "list_all2 (commit_matches X D ms ch) (take (length cs) plans) cs" "commit_run st s cs s1"
    and fin: "s' = s1 \<or> (length cs < length plans
      \<and> (\<exists>c e. commit_matches X D ms ch (plans ! length cs) c \<and> is_commit_block st s1 c = (Inl e, s')))" by blast
  have "\<forall>c \<in> set cs. distinct (map mon_id (bc_monitors c))"
  proof
    fix c assume "c \<in> set cs"
    with cs(2) obtain p where "p \<in> set (take (length cs) plans)" "commit_matches X D ms ch p c"
      by (metis in_set_conv_nth list_all2_conv_all_nth)
    with distinct show "distinct (map mon_id (bc_monitors c))" by (meson in_set_takeD)
  qed
  from commit_run_takes [OF cs(3) \<open>ok s\<close> this] have taken: "ok s1" "commit_chain taken s cs s1" by blast+
  from fin show ?thesis
  proof (elim disjE conjE exE)
    assume "s' = s1"
    with cs taken show ?thesis by (blast intro: holds_same_refl)
  next
    fix c e assume more: "length cs < length plans" and c: "commit_matches X D ms ch (plans ! length cs) c"
      and failed: "is_commit_block st s1 c = (Inl e, s')"
    have "distinct (map mon_id (bc_monitors c))" using distinct nth_mem [OF more] c by blast
    from commits [OF taken(1) this failed] have "ok s'" and or: "holds_same cursor_of rows_of s1 s' \<or> taken s1 c s'" by auto
    from or show ?thesis
    proof
      assume "holds_same cursor_of rows_of s1 s'"
      with \<open>ok s'\<close> cs taken show ?thesis by blast
    next
      assume "taken s1 c s'"
      then have "commit_chain taken s (cs @ [c]) s'" by (rule commit_chain_snoc [OF taken(2)])
      moreover have "list_all2 (commit_matches X D ms ch) (take (length (cs @ [c])) plans) (cs @ [c])"
        using cs(2) c more by (simp add: take_Suc_conv_app_nth list_all2_appendI)
      ultimately show ?thesis using \<open>ok s'\<close> more
        by (intro conjI exI [of _ "cs @ [c]"] exI [of _ s']) simp_all
    qed
  qed
qed

lemma poll_indexes_exactly:
  assumes poll: "poll_commits X D (active_monitors all) ch st (plan_blocks (active_monitors all) head batch) head s r s'"
    and batch: "batch \<noteq> 0" and "ok s" and load: "is_load_monitors st s ch = Inr all"
    and before: "\<forall>m \<in> set (active_monitors all). indexed_exactly X D s m"
  shows "ok s' \<and> (\<forall>m \<in> set (active_monitors all). indexed_exactly X D s' m)
    \<and> (\<forall>k. k \<notin> mon_id ` set (active_monitors all) \<longrightarrow> cursor_of s' k = cursor_of s k \<and> rows_of s' k = rows_of s k)"
proof -
  let ?ms = "active_monitors all"
  let ?plans = "plan_blocks ?ms head batch"
  note loaded = loads [OF \<open>ok s\<close> load]
  then have ids: "distinct (map mon_id ?ms)" by (simp add: active_monitors_def distinct_map_filter)
  have member: "?ms ! i \<in> set all \<and> mon_enabled (?ms ! i) \<and> \<not> mon_completed (?ms ! i)" if "i < length ?ms" for i
    using nth_mem [OF that] by (simp add: active_monitors_def)
  have cursor: "mon_cursor (?ms ! i) = Cursor (cursor_of s (mon_id (?ms ! i)))" if "i < length ?ms" for i
    using loaded member [OF that] by (metis cursor.collapse)
  have in_range: "cursor_in_range (?ms ! i) \<and> mon_enabled (?ms ! i) \<and> \<not> mon_completed (?ms ! i)" if i: "i < length ?ms" for i
  proof -
    have "indexed_exactly X D s (?ms ! i)" using before i by simp
    then show ?thesis
      using member [OF i] by (auto simp: cursor_in_range_def cursor [OF i] stored_exactly_def split: option.splits)
  qed
  have plans: "\<forall>p \<in> set ?plans. distinct (bp_monitor_indices p)
      \<and> (\<forall>i \<in> set (bp_monitor_indices p). i < length ?ms \<and> needs_block (?ms ! i) (bp_block_number p))"
  proof
    fix p assume p: "p \<in> set ?plans"
    then have "sorted_wrt (<) (bp_monitor_indices p)" using plan_blocks_window_facts(2) [OF batch] by blast
    then have "distinct (bp_monitor_indices p)" by (simp add: strict_sorted_iff)
    with p in_range wants_needs_block
    show "distinct (bp_monitor_indices p)
        \<and> (\<forall>i \<in> set (bp_monitor_indices p). i < length ?ms \<and> needs_block (?ms ! i) (bp_block_number p))"
      by (auto simp: set_plan_blocks [OF batch])
  qed
  have mine: "\<forall>i < length ?ms. indexed_exactly X D s (?ms ! i)
      \<and> (\<exists>t. map bp_block_number (filter (\<lambda>p. i \<in> set (bp_monitor_indices p)) ?plans)
           = range_inclusive (cursor_next (Cursor (cursor_of s (mon_id (?ms ! i)))) (mon_start_block (?ms ! i))) t)"
    using before planned_blocks_of_monitor [OF batch, of _ ?ms head] by (auto simp: next_block_def cursor)
  have "\<forall>p \<in> set ?plans. \<forall>c. commit_matches X D ?ms ch p c \<longrightarrow> distinct (map mon_id (bc_monitors c))"
    using plans planned_ids_distinct [OF ids] by (simp add: commit_matches_def)
  from poll_takes [OF poll \<open>ok s\<close> this] obtain cs s1 where "ok s'"
    and cs: "length cs \<le> length ?plans" "list_all2 (commit_matches X D ?ms ch) (take (length cs) ?plans) cs"
      "commit_chain taken s cs s1" and same: "holds_same cursor_of rows_of s1 s'" by blast
  from commits_index_exactly [OF cs(3) ids cs(2,1) plans mine] same \<open>ok s'\<close> indexed_exactly_cong [of s' _ s1]
  show ?thesis by (auto simp: in_set_conv_nth holds_same_def)
qed

end

section \<open>All stored monitors\<close>

text \<open>Monitors that differ in their cursor and switches only have the same results.\<close>

lemma fresh_truth: "fresh_monitor m' = fresh_monitor m \<Longrightarrow> monitor_truth X D m' b = monitor_truth X D m b"
  by (simp add: monitor_truth_def)

lemma fresh_fields:
  assumes "fresh_monitor m' = fresh_monitor m"
  shows "mon_id m' = mon_id m" and "mon_chain m' = mon_chain m" and "mon_target m' = mon_target m"
    and "mon_start_block m' = mon_start_block m" and "mon_filter m' = mon_filter m"
  using arg_cong [OF assms, of mon_id] arg_cong [OF assms, of mon_chain] arg_cong [OF assms, of mon_target]
    arg_cong [OF assms, of mon_start_block] arg_cong [OF assms, of mon_filter]
  by (simp_all add: fresh_monitor_def)

lemma fresh_blocks:
  assumes "fresh_monitor m' = fresh_monitor m"
  shows "done_blocks m' c = done_blocks m c"
  unfolding done_blocks_def fresh_fields(4) [OF assms] ..

lemma fresh_monitor_ok:
  assumes "fresh_monitor m' = fresh_monitor m"
  shows "monitor_ok X m' = monitor_ok X m"
  unfolding monitor_ok_def fresh_fields(3,5) [OF assms] ..

lemma stored_exactly_fresh:
  assumes "fresh_monitor m' = fresh_monitor m" and "encode m' = encode m"
  shows "stored_exactly cursor_of rows_of encode X D s m' \<longleftrightarrow> stored_exactly cursor_of rows_of encode X D s m"
proof -
  have truth: "monitor_truth X D m' = monitor_truth X D m" by (rule ext) (rule fresh_truth [OF assms(1)])
  show ?thesis unfolding stored_exactly_def truth fresh_fields [OF assms(1)] fresh_blocks [OF assms(1)] assms(2) ..
qed

definition store_exact ::
  "('s \<Rightarrow> monitor \<Rightarrow> bool) \<Rightarrow> ('s \<Rightarrow> monitor_id \<Rightarrow> block_number option) \<Rightarrow> ('s \<Rightarrow> monitor_id \<Rightarrow> 'row list)
     \<Rightarrow> (monitor \<Rightarrow> decoded_result \<Rightarrow> 'row) \<Rightarrow> externs \<Rightarrow> (chain \<Rightarrow> chain_data) \<Rightarrow> 's \<Rightarrow> bool" where
  "store_exact stored cursor_of rows_of encode X D s =
     (\<forall>m. stored s m \<longrightarrow> stored_exactly cursor_of rows_of encode X (D (mon_chain m)) s m)"

text \<open>\<open>stored s m\<close>: one of the storage's monitor rows reads as \<open>m\<close>.\<close>

locale monitor_store = index_storage_port st ok cursor_of rows_of encode
  for st :: "'s index_storage" and ok :: "'s \<Rightarrow> bool"
    and cursor_of :: "'s \<Rightarrow> monitor_id \<Rightarrow> block_number option"
    and rows_of :: "'s \<Rightarrow> monitor_id \<Rightarrow> 'row list"
    and encode :: "monitor \<Rightarrow> decoded_result \<Rightarrow> 'row" +
  fixes stored :: "'s \<Rightarrow> monitor \<Rightarrow> bool"
  assumes loads_stored: "ok s \<Longrightarrow> is_load_monitors st s ch = Inr ms \<Longrightarrow> m \<in> set ms \<Longrightarrow> stored s m"
    and stored_unique: "ok s \<Longrightarrow> stored s m \<Longrightarrow> stored s m' \<Longrightarrow> mon_id m' = mon_id m \<Longrightarrow> m' = m"
    and commit_keeps_stored: "ok s \<Longrightarrow> is_commit_block st s c = (r, s') \<Longrightarrow> stored s' m' \<Longrightarrow>
      \<exists>m. stored s m \<and> fresh_monitor m' = fresh_monitor m"
    and encode_fresh: "fresh_monitor m' = fresh_monitor m \<Longrightarrow> encode m' = encode m"
begin

abbreviation exact :: "externs \<Rightarrow> (chain \<Rightarrow> chain_data) \<Rightarrow> 's \<Rightarrow> bool" where
  "exact \<equiv> store_exact stored cursor_of rows_of encode"

lemma run_keeps_stored:
  "commit_run st s cs s' \<Longrightarrow> ok s \<Longrightarrow> \<forall>c \<in> set cs. distinct (map mon_id (bc_monitors c)) \<Longrightarrow> stored s' m' \<Longrightarrow>
     \<exists>m. stored s m \<and> fresh_monitor m' = fresh_monitor m"
proof (induction arbitrary: m' rule: commit_run.induct)
  case (run_cons s c s1 cs s2)
  then have "ok s1" using commits [of s c "Inr ()" s1] by auto
  with run_cons obtain m1 where "stored s1 m1" "fresh_monitor m' = fresh_monitor m1" by fastforce
  with commit_keeps_stored [OF run_cons.prems(1) run_cons.hyps(1)] show ?case by metis
qed blast

end

end
