(* ===== verification/Mongo_Port.thy ===== *)
theory Mongo_Port
  imports Mongo_Invariant Index_Port
begin

text \<open>
  \<open>MongoStorage\<close> keeps the contract of \<open>index_storage_port\<close>: what a load returns stands at the
  stored cursors, a successful commit moves the cursors of its monitors and appends their
  documents, a refused one changes nothing. So the worker's lemmas hold over it.
\<close>

definition mongo_cursor :: "'d mongo_view \<Rightarrow> 'd \<Rightarrow> monitor_id \<Rightarrow> block_number option" where
  "mongo_cursor V d i =
     (case List.find (\<lambda>row. mdoc_id row = uint (monitor_id_get i)) (db_monitors (vw_committed V d)) of
        None \<Rightarrow> None
      | Some row \<Rightarrow> map_option word_of_int (mdoc_cursor row))"

definition mongo_rows :: "'d mongo_view \<Rightarrow> 'd \<Rightarrow> monitor_id \<Rightarrow> result_row list" where
  "mongo_rows V d i = filter (\<lambda>r. rdoc_monitor_id r = uint (monitor_id_get i)) (db_results (vw_committed V d))"

definition mongo_encode :: "externs \<Rightarrow> monitor \<Rightarrow> decoded_result \<Rightarrow> result_row" where
  "mongo_encode X m r = projr (result_document X (uint (chain_id_of (mon_chain m))) [m] r)"

lemma locked_monitor_distinct:
  assumes "distinct (map mon_id ms)" and "m \<in> set ms"
  shows "locked_monitor ms (mon_id m) = Inr m"
  using find_distinct_key [of mon_id "rev ms" m] assms by (simp add: locked_monitor_def rev_map [symmetric])

lemma result_document_alone:
  assumes "distinct (map mon_id ms)" and "m \<in> set ms" and "result_monitor_id res = mon_id m"
  shows "result_document X c ms res = result_document X c [m] res"
  using locked_monitor_distinct [OF assms(1,2)] locked_monitor_distinct [of "[m]" m] assms(3)
  by (cases res) (simp_all add: result_document_def)

lemma documents_of_monitor:
  assumes "traverse (result_document X c ms) results = Inr docs" and "distinct (map mon_id ms)" and "m \<in> set ms"
    and "c = uint (chain_id_of (mon_chain m))"
  shows "filter (\<lambda>r. rdoc_monitor_id r = uint (monitor_id_get (mon_id m))) docs
    = map (mongo_encode X m) (filter (\<lambda>r. result_monitor_id r = mon_id m) results)"
proof -
  have "list_all2 (\<lambda>res row. result_document X c ms res = Inr row) results docs"
    using assms(1) by (simp add: traverse_Inr)
  then show ?thesis
  proof (induction rule: list_all2_induct)
    case (Cons res results row docs)
    have id: "rdoc_monitor_id row = uint (monitor_id_get (result_monitor_id res))"
      using result_document_facts [OF Cons.hyps(1)] by auto
    then have "rdoc_monitor_id row = uint (monitor_id_get (mon_id m)) \<longleftrightarrow> result_monitor_id res = mon_id m"
      by (simp add: monitor_id_get_inject)
    moreover have "result_monitor_id res = mon_id m \<Longrightarrow> row = mongo_encode X m res"
      using result_document_alone [OF assms(2,3)] Cons.hyps(1) assms(4) by (simp add: mongo_encode_def)
    ultimately show ?case using Cons.IH by simp
  qed simp
qed

lemma documents_of_others:
  assumes "\<forall>r \<in> set docs. rdoc_monitor_id r \<in> set ids" and "uint (monitor_id_get i) \<notin> set ids"
  shows "filter (\<lambda>r. rdoc_monitor_id r = uint (monitor_id_get i)) docs = []"
  using assms by (auto simp: filter_empty_conv)

lemma mongo_monitor_fields:
  assumes "mongo_monitor X row = Inr m"
  shows "mon_id m = MonitorId (word_of_int (mdoc_id row))" and "mon_chain m = Chain (word_of_int (mdoc_chain_id row))"
    and "cursor_block (mon_cursor m) = map_option word_of_int (mdoc_cursor row)"
    and "mon_enabled m = mdoc_enabled row" and "mon_completed m = mdoc_completed row"
  using assms by (auto simp: mongo_monitor_def res_simps from_i64_def split: if_splits)

locale mongo_index = mongo_server M V for M :: "'d mongo" and V :: "'d mongo_view" +
  fixes X :: externs
begin

lemma load_facts:
  assumes inv: "mongo_invariant V d" and load: "mongo_load_monitors X M d ch = Inr ms"
  shows "distinct (map mon_id ms)"
    and "m \<in> set ms \<Longrightarrow> mon_chain m = ch \<and> mon_enabled m \<and> \<not> mon_completed m
      \<and> cursor_block (mon_cursor m) = mongo_cursor V d (mon_id m)
      \<and> (\<exists>row \<in> set (db_monitors (vw_committed V d)). mongo_monitor X row = Inr m)"
proof -
  let ?db = "vw_committed V d"
  from load obtain rows all where
    rows: "co_find (mg_monitors M) d (\<lambda>row. mdoc_chain_id row = uint (chain_id_of ch)) by_monitor_id 0 None = Inr rows"
    and all: "traverse (mongo_monitor X) rows = Inr all" and ms: "ms = filter (\<lambda>m. mon_enabled m \<and> \<not> mon_completed m) all"
    by (auto simp: mongo_load_monitors_def res_simps)
  from find_law [OF monitor_reads rows] have perm: "mset rows = mset (filter (\<lambda>row. mdoc_chain_id row = uint (chain_id_of ch)) (db_monitors ?db))"
    by (auto simp: page_of_def)
  have ids: "distinct (map mdoc_id (db_monitors ?db))" and ok: "database_ok ?db"
    using inv unique_ok_identities by (auto simp: mongo_invariant_def identities_ok_def)
  have set_rows: "set rows = {row \<in> set (db_monitors ?db). mdoc_chain_id row = uint (chain_id_of ch)}"
    using mset_eq_setD [OF perm] by auto
  have range: "0 \<le> mdoc_id row \<and> mdoc_id row \<le> 9223372036854775807" if "row \<in> set rows" for row
    using ok that set_rows by (fastforce simp: database_ok_def monitor_key_def)
  have pairs: "list_all2 (\<lambda>row m. mongo_monitor X row = Inr m) rows all" using all by (simp add: traverse_Inr)
  have "distinct (map mdoc_id rows)"
  proof -
    have "mset (map mdoc_id rows) = mset (map mdoc_id (filter (\<lambda>row. mdoc_chain_id row = uint (chain_id_of ch)) (db_monitors ?db)))"
      by (simp only: mset_map perm)
    with distinct_map_filter [OF ids] show ?thesis by (metis mset_eq_imp_distinct_iff)
  qed
  moreover have "inj_on (\<lambda>i. MonitorId (word_of_int i)) (mdoc_id ` set rows)"
    using range by (intro inj_onI) (metis image_iff monitor_id.inject uint_word_of_int_64)
  ultimately have "distinct (map (\<lambda>i. MonitorId (word_of_int i)) (map mdoc_id rows))"
    by (auto simp: distinct_map intro: comp_inj_on)
  moreover from pairs have "map mon_id all = map (\<lambda>i. MonitorId (word_of_int i)) (map mdoc_id rows)"
    by (induction rule: list_all2_induct) (simp_all add: mongo_monitor_fields)
  ultimately have "distinct (map mon_id all)" by simp
  then show "distinct (map mon_id ms)" by (simp add: ms distinct_map_filter)
  show "mon_chain m = ch \<and> mon_enabled m \<and> \<not> mon_completed m
      \<and> cursor_block (mon_cursor m) = mongo_cursor V d (mon_id m)
      \<and> (\<exists>row \<in> set (db_monitors (vw_committed V d)). mongo_monitor X row = Inr m)" if m: "m \<in> set ms"
  proof -
    from m ms obtain k where k: "k < length all" "m = all ! k" by (auto simp: in_set_conv_nth)
    define row where "row = rows ! k"
    have row: "row \<in> set rows" "mongo_monitor X row = Inr m"
      using pairs k by (auto simp: list_all2_conv_all_nth row_def)
    note fields = mongo_monitor_fields [OF row(2)]
    have "uint (monitor_id_get (mon_id m)) = mdoc_id row" using range [OF row(1)] by (simp add: fields uint_word_of_int_64)
    with find_distinct_key [OF ids, of row] row(1) set_rows
    have "mongo_cursor V d (mon_id m) = map_option word_of_int (mdoc_cursor row)" by (simp add: mongo_cursor_def)
    with fields row set_rows m ms show ?thesis by (cases ch) auto
  qed
qed

lemma commit_facts:
  assumes inv: "mongo_invariant V d" and ids: "distinct (map mon_id (bc_monitors c))"
    and commit: "mongo_commit_block X M c d = Some (Inr (), d')"
  shows "bc_block_number c < - 1"
    and "m \<in> set (bc_monitors c) \<Longrightarrow> mongo_cursor V d' (mon_id m) = Some (bc_block_number c)
      \<and> mongo_rows V d' (mon_id m) = mongo_rows V d (mon_id m)
          @ map (mongo_encode X m) (filter (\<lambda>r. result_monitor_id r = mon_id m) (bc_results c))"
    and "i \<notin> mon_id ` set (bc_monitors c) \<Longrightarrow> mongo_cursor V d' i = mongo_cursor V d i \<and> mongo_rows V d' i = mongo_rows V d i"
proof -
  let ?db = "vw_committed V d"
  from commit_block_outcome [OF commit] obtain chain_id block ks docs t
    where inp: "commit_input X c = Inr (chain_id, block, ks, docs)"
      and applies: "commit_applies (chain_id, block, ks, docs) ?db"
      and effect: "vw_committed V d' = commit_effect t (chain_id, block, ks, docs) ?db" by auto
  note facts = commit_input_facts [OF inp]
  have "unat (- 1 :: u64) = 18446744073709551615" by (simp add: u64_simps)
  with facts(3) show "bc_block_number c < - 1" by (simp add: word_less_nat_alt)
  have db: "distinct (map mdoc_id (db_monitors ?db))"
    using inv unique_ok_identities by (auto simp: mongo_invariant_def identities_ok_def)
  let ?f = "\<lambda>r. if commit_selects chain_id ks r then commit_update block t r else r"
  have id: "mdoc_id (?f r) = mdoc_id r" for r by (simp add: commit_update_def)
  have find: "List.find (\<lambda>row. mdoc_id row = k) (db_monitors (vw_committed V d'))
      = map_option ?f (List.find (\<lambda>row. mdoc_id row = k) (db_monitors ?db))" for k
    unfolding effect by (simp add: commit_effect_def find_map_same id)
  have found: "\<forall>i \<in> set ks. \<exists>r \<in> set (db_monitors ?db). mdoc_id r = i \<and> mdoc_chain_id r = chain_id"
    by (rule matched_all [OF db facts(6)])
      (use applies in \<open>simp add: commit_applies_def commit_selects_def [abs_def]\<close>)
  show "mongo_cursor V d' (mon_id m) = Some (bc_block_number c)
      \<and> mongo_rows V d' (mon_id m) = mongo_rows V d (mon_id m)
          @ map (mongo_encode X m) (filter (\<lambda>r. result_monitor_id r = mon_id m) (bc_results c))"
    if m: "m \<in> set (bc_monitors c)"
  proof -
    have mem: "uint (monitor_id_get (mon_id m)) \<in> set ks" using m facts(5) by auto
    with found obtain r where r: "r \<in> set (db_monitors ?db)" "mdoc_id r = uint (monitor_id_get (mon_id m))"
      "mdoc_chain_id r = chain_id" by blast
    then have "List.find (\<lambda>row. mdoc_id row = uint (monitor_id_get (mon_id m))) (db_monitors ?db) = Some r"
      using find_distinct_key [OF db r(1)] by simp
    with r mem have "mongo_cursor V d' (mon_id m) = Some (bc_block_number c)"
      by (simp add: mongo_cursor_def find commit_selects_def commit_update_def facts(2))
    moreover have "chain_id = uint (chain_id_of (mon_chain m))" using facts(1,4) m by simp
    from documents_of_monitor [OF facts(7) ids m this]
    have "mongo_rows V d' (mon_id m) = mongo_rows V d (mon_id m)
        @ map (mongo_encode X m) (filter (\<lambda>r. result_monitor_id r = mon_id m) (bc_results c))"
      by (simp add: mongo_rows_def effect commit_effect_def)
    ultimately show ?thesis by blast
  qed
  show "mongo_cursor V d' i = mongo_cursor V d i \<and> mongo_rows V d' i = mongo_rows V d i"
    if i: "i \<notin> mon_id ` set (bc_monitors c)"
  proof -
    have out: "uint (monitor_id_get i) \<notin> set ks" using i facts(5) by (auto simp: monitor_id_get_inject)
    have "mongo_cursor V d' i = mongo_cursor V d i"
    proof (cases "List.find (\<lambda>row. mdoc_id row = uint (monitor_id_get i)) (db_monitors ?db)")
      case (Some r)
      then have "mdoc_id r = uint (monitor_id_get i)" by (auto simp: find_Some_iff)
      with Some out show ?thesis by (simp add: mongo_cursor_def find commit_selects_def)
    qed (simp add: mongo_cursor_def find)
    moreover have "mongo_rows V d' i = mongo_rows V d i"
      using documents_of_others [of docs ks i] facts(8) out by (simp add: mongo_rows_def effect commit_effect_def)
    ultimately show ?thesis by blast
  qed
qed

end

sublocale mongo_index \<subseteq> port: index_storage_port "mongo_index_storage X M" "mongo_invariant V"
  "mongo_cursor V" "mongo_rows V" "mongo_encode X"
proof (unfold_locales, goal_cases)
  case (1 s ch ms)
  then show ?case using load_facts by (fastforce simp: mongo_index_storage_def)
next
  case (2 s c r s')
  show ?case
  proof (cases "mongo_commit_block X M c s")
    case None
    with 2 show ?thesis by (auto simp: mongo_index_storage_def settled_def)
  next
    case (Some rd)
    with 2(3) have c: "mongo_commit_block X M c s = Some (r, s')"
      by (simp add: mongo_index_storage_def settled_def)
    have inv: "mongo_invariant V s'" by (rule commit_keeps_invariant [OF c 2(1)])
    show ?thesis
    proof (cases r)
      case (Inl e)
      with commit_block_outcome [OF c] inv show ?thesis
        by (simp add: holds_same_def mongo_cursor_def mongo_rows_def)
    next
      case (Inr u)
      with commit_facts [OF 2(1,2)] c inv show ?thesis by (simp add: committed_as_def)
    qed
  qed
qed

end
