(* ===== verification/Mongo_Reference.thy ===== *)
theory Mongo_Reference
  imports Mongo_Port Reference_Scenario
begin

text \<open>
  An in-memory server that keeps every law of \<open>mongo_server\<close>: transactions with snapshot and
  commit, unique indexes, and a budget of commits whose result it reports as unknown although they
  took effect. It shows the laws can hold together and serves the witnesses.
\<close>

record ref_server =
  rs_committed :: mongo_db
  rs_pending :: "mongo_db option"
  rs_base :: mongo_db
  rs_indexes :: "(string \<times> index_model) list"
  rs_clock :: int
  rs_unknown :: nat

definition ref_view :: "ref_server mongo_view" where
  "ref_view = \<lparr>vw_committed = rs_committed, vw_pending = rs_pending, vw_base = rs_base, vw_indexes = rs_indexes\<rparr>"

definition ref_error :: "string \<Rightarrow> error" where
  "ref_error text = [Driver [] None text]"

definition ref_write ::
  "bool \<Rightarrow> (mongo_db \<Rightarrow> bool) \<Rightarrow> (mongo_db \<Rightarrow> mongo_db) \<Rightarrow> (mongo_db \<Rightarrow> 'n) \<Rightarrow> ref_server \<Rightarrow> 'n result \<times> ref_server" where
  "ref_write session good f val s =
     (if session then
        (case rs_pending s of
           None \<Rightarrow> (Inl (ref_error ''no transaction''), s)
         | Some p \<Rightarrow>
             if good p \<and> unique_ok (rs_indexes s) (f p) then (Inr (val p), s\<lparr>rs_pending := Some (f p)\<rparr>)
             else (Inl (ref_error ''write rejected''), s))
      else if good (rs_committed s) \<and> unique_ok (rs_indexes s) (f (rs_committed s)) then
        (Inr (val (rs_committed s)), s\<lparr>rs_committed := f (rs_committed s)\<rparr>)
      else (Inl (ref_error ''write rejected''), s))"

fun insert_before :: "('r \<Rightarrow> 'r \<Rightarrow> bool) \<Rightarrow> 'r \<Rightarrow> 'r list \<Rightarrow> 'r list" where
  "insert_before before x [] = [x]"
| "insert_before before x (y # ys) = (if before y x then y # insert_before before x ys else x # y # ys)"

text \<open>A relation that does not order the rows is an error.\<close>

definition ref_find ::
  "(mongo_db \<Rightarrow> 'r list) \<Rightarrow> ref_server \<Rightarrow> ('r \<Rightarrow> bool) \<Rightarrow> ('r \<Rightarrow> 'r \<Rightarrow> bool) \<Rightarrow> nat \<Rightarrow> nat option \<Rightarrow> 'r list result" where
  "ref_find rows s p before skip limit =
     (let all = foldr (insert_before before) (filter p (rows (rs_committed s))) [] in
      if sorted_wrt (\<lambda>a b. \<not> before b a) all then Inr (page_of skip limit all) else Inl (ref_error ''bad sort''))"

definition ref_collection ::
  "(mongo_db \<Rightarrow> 'r list) \<Rightarrow> (('r list \<Rightarrow> 'r list) \<Rightarrow> mongo_db \<Rightarrow> mongo_db) \<Rightarrow> (ref_server, 'r) collection" where
  "ref_collection rows upd =
     \<lparr>co_find = ref_find rows,
      co_find_one = (\<lambda>s p. Inr (List.find p (rows (rs_committed s)))),
      co_count_documents = (\<lambda>s p. Inr (length (filter p (rows (rs_committed s))))),
      co_insert_one = (\<lambda>t r. ref_write t (\<lambda>_. True) (upd (\<lambda>rs. rs @ [r])) (\<lambda>_. ())),
      co_insert_many = (\<lambda>t new. ref_write t (\<lambda>_. True) (upd (\<lambda>rs. rs @ new)) (\<lambda>_. ())),
      co_update_one = (\<lambda>t p g. ref_write t (\<lambda>_. True) (upd (update_first p g)) (\<lambda>db. matched_one p (rows db))),
      co_update_many = (\<lambda>t p g. ref_write t (\<lambda>_. True) (upd (map (\<lambda>r. if p r then g r else r)))
         (\<lambda>db. length (filter p (rows db)))),
      co_find_one_and_update = (\<lambda>t p g. ref_write t (\<lambda>_. True) (upd (update_first p g))
         (\<lambda>db. map_option g (List.find p (rows db)))),
      co_delete_one = (\<lambda>t p. ref_write t (\<lambda>_. True) (upd (delete_first p)) (\<lambda>db. matched_one p (rows db))),
      co_delete_many = (\<lambda>t p. ref_write t (\<lambda>_. True) (upd (filter (\<lambda>r. \<not> p r)))
         (\<lambda>db. length (filter p (rows db))))\<rparr>"

definition ref_commit :: "ref_server \<Rightarrow> unit result \<times> ref_server" where
  "ref_commit s =
     (case rs_pending s of
        None \<Rightarrow> (Inl (ref_error ''no transaction''), s)
      | Some p \<Rightarrow>
          if rs_unknown s = 0 then (Inr (), s\<lparr>rs_committed := p, rs_pending := None\<rparr>)
          else (Inl [Driver [''UnknownTransactionCommitResult''] None ''timeout''],
                s\<lparr>rs_committed := p, rs_unknown := rs_unknown s - 1\<rparr>))"

definition ref_mongo :: "ref_server mongo" where
  "ref_mongo =
     \<lparr>mg_hello = (\<lambda>s. Inr [(''setName'', BsonString ''rs0'')]),
      mg_drop_index = (\<lambda>c n s.
        if list_ex (\<lambda>cix. fst cix = c \<and> ix_name (snd cix) = n) (rs_indexes s)
        then (Inr (), s\<lparr>rs_indexes := filter (\<lambda>cix. \<not> (fst cix = c \<and> ix_name (snd cix) = n)) (rs_indexes s)\<rparr>)
        else (Inl [Driver [] (Some INDEX_NOT_FOUND) ''index not found''], s)),
      mg_create_index = (\<lambda>c ix s.
        if index_ok (rs_committed s) (c, ix) then (Inr (), s\<lparr>rs_indexes := (c, ix) # rs_indexes s\<rparr>)
        else (Inl (ref_error ''duplicate key''), s)),
      mg_now = rs_clock,
      mg_start_session = (\<lambda>s. (Inr (), s)),
      mg_start_transaction = (\<lambda>s. (Inr (), s\<lparr>rs_pending := Some (rs_committed s), rs_base := rs_committed s\<rparr>)),
      mg_commit_transaction = ref_commit,
      mg_abort_transaction = (\<lambda>s. (Inr (), s\<lparr>rs_pending := None\<rparr>)),
      mg_chains = ref_collection db_chains db_chains_update,
      mg_monitors = ref_collection db_monitors db_monitors_update,
      mg_results = ref_collection db_results db_results_update,
      mg_bump_counter = (\<lambda>t k. ref_write t (\<lambda>db. counter_value db k < 9223372036854775807) (bump_counter k)
        (\<lambda>db. Some (Inr (counter_value db k + 1))))\<rparr>"

lemma ref_write_law: "write_law ref_view t good f val (ref_write t good f val)"
  by (auto simp: write_law_def ref_write_def ref_view_def Let_def split: if_splits option.splits)

lemma mset_insert_before [simp]: "mset (insert_before before x xs) = add_mset x (mset xs)"
  by (induction xs) auto

lemma mset_foldr_insert_before [simp]: "mset (foldr (insert_before before) xs []) = mset xs"
  by (induction xs) auto

lemma ref_read_laws: "read_laws ref_view rows (ref_collection rows upd)"
  unfolding read_laws_def
proof (intro conjI allI impI)
  fix d p before skip limit rs
  assume "co_find (ref_collection rows upd) d p before skip limit = Inr rs"
  then show "\<exists>all. mset all = mset (filter p (rows (vw_committed ref_view d)))
      \<and> sorted_wrt (\<lambda>a b. \<not> before b a) all \<and> rs = page_of skip limit all"
    by (intro exI [of _ "foldr (insert_before before) (filter p (rows (rs_committed d))) []"])
      (auto simp: ref_collection_def ref_find_def ref_view_def Let_def split: if_splits)
qed (auto simp: ref_collection_def ref_view_def)

lemma ref_write_laws: "write_laws ref_view rows upd (ref_collection rows upd)"
  by (simp add: write_laws_def ref_collection_def ref_write_law)

interpretation refdb: mongo_index ref_mongo ref_view ref_externs
proof (unfold_locales, goal_cases)
  case 1 show ?case by (simp add: ref_mongo_def ref_read_laws)
next
  case 2 show ?case by (simp add: ref_mongo_def ref_write_laws)
next
  case 3 show ?case by (simp add: ref_mongo_def ref_read_laws)
next
  case 4 show ?case by (simp add: ref_mongo_def ref_write_laws)
next
  case 5 show ?case by (simp add: ref_mongo_def ref_read_laws)
next
  case 6 show ?case by (simp add: ref_mongo_def ref_write_laws)
next
  case 7 show ?case by (simp add: ref_mongo_def ref_write_law)
next
  case 8 then show ?case by (simp add: ref_mongo_def ref_view_def)
next
  case 9 then show ?case by (auto simp: ref_mongo_def ref_view_def)
next
  case 10 then show ?case by (auto simp: ref_mongo_def ref_view_def)
next
  case (11 d r d' p)
  then show ?case
    by (auto simp: ref_mongo_def ref_view_def ref_commit_def contains_label_def split: if_splits)
next
  case 12 then show ?case by (auto simp: ref_mongo_def ref_view_def split: if_splits)
next
  case 13 then show ?case by (auto simp: ref_mongo_def ref_view_def split: if_splits)
qed

lemma ref_mongo_server: "mongo_server ref_mongo ref_view"
  by (rule refdb.mongo_server_axioms)

lemma ref_patient_write: "patient_call rs_unknown (ref_write t good f val)"
  by (auto simp: patient_call_def ref_write_def ref_error_def asks_retry_def contains_label_def
      split: if_splits option.splits)

lemma ref_mongo_patient: "mongo_patient ref_mongo rs_unknown"
  by (auto simp: mongo_patient_def patient_collection_def ref_mongo_def ref_collection_def ref_patient_write)
    (auto simp: patient_call_def ref_commit_def ref_error_def asks_retry_def contains_label_def
      split: if_splits option.splits)

text \<open>A connected server with one registered chain and a monitor of it.\<close>

definition ref_empty :: ref_server where
  "ref_empty =
     \<lparr>rs_committed = \<lparr>db_chains = [], db_monitors = [], db_results = [], db_counters = []\<rparr>,
      rs_pending = None, rs_base = \<lparr>db_chains = [], db_monitors = [], db_results = [], db_counters = []\<rparr>,
      rs_indexes = [], rs_clock = 0, rs_unknown = 1\<rparr>"

end
