(* ===== verification/Mongo_Properties.thy ===== *)
theory Mongo_Properties
  imports Mongo_Reference Worker_Properties
begin

text \<open>
  The properties of the MongoDB adapter, and of the worker over it: the database invariant, the
  atomicity and the termination of its transactions, what is stored and read back, and exactly
  once indexing across polls, restarts and failures.
\<close>

section \<open>Connecting and running\<close>

context mongo_server begin

lemma create_each_index_effect:
  assumes "create_each_index M ixs d = (r, d')" and "unique_ok (vw_indexes V d) (vw_committed V d)"
  shows "vw_committed V d' = vw_committed V d \<and> set (vw_indexes V d) \<subseteq> set (vw_indexes V d')
    \<and> unique_ok (vw_indexes V d') (vw_committed V d') \<and> (r = Inr () \<longrightarrow> set ixs \<subseteq> set (vw_indexes V d'))"
  using assms
proof (induction ixs arbitrary: d)
  case Nil
  then show ?case by (simp add: io_lift_def)
next
  case (Cons cix ixs)
  obtain c ix where cix: "cix = (c, ix)" by fastforce
  obtain q d1 where q: "mg_create_index M c ix d = (q, d1)" by fastforce
  note law = creates_index [OF q]
  have unique: "unique_ok (vw_indexes V d1) (vw_committed V d1)"
    using law Cons.prems(2) by (auto simp: unique_ok_def list_all_iff)
  show ?case
  proof (cases q)
    case (Inl e)
    with Cons.prems(1) q cix law unique show ?thesis by (auto simp: io_bind_def)
  next
    case (Inr u)
    with Cons.prems(1) q cix have "create_each_index M ixs d1 = (r, d')" by (simp add: io_bind_def)
    from Cons.IH [OF this unique] law Inr cix show ?thesis by auto
  qed
qed

lemma connect_effect:
  assumes "mongo_connect M database d = (Inr (), d')" and "unique_ok (vw_indexes V d) (vw_committed V d)"
  shows "vw_committed V d' = vw_committed V d \<and> set indexes \<subseteq> set (vw_indexes V d')
    \<and> unique_ok (vw_indexes V d') (vw_committed V d')"
proof -
  obtain q d1 where q: "mg_drop_index M ''monitors'' LEGACY_MONITOR_TARGET_INDEX d = (q, d1)" by fastforce
  from assms(1) q have "create_each_index M indexes d1 = (Inr (), d')"
    by (cases q)
      (auto simp: mongo_connect_def create_indexes_def drop_legacy_monitor_target_index_def io_bind_def io_lift_def
        ensure_def split: sum.splits if_splits)
  moreover have "unique_ok (vw_indexes V d1) (vw_committed V d1)" "vw_committed V d1 = vw_committed V d"
    using drops_index [OF q] assms(2) by (auto simp: unique_ok_def list_all_iff)
  ultimately show ?thesis using create_each_index_effect [of indexes d1] by auto
qed

lemma steps_keep_invariant:
  "(mongo_step X Y M)\<^sup>*\<^sup>* d d' \<Longrightarrow> mongo_invariant V d \<Longrightarrow> mongo_invariant V d'"
  by (induction rule: rtranclp_induct) (auto intro: step_keeps_invariant)

end

definition ref_readers :: row_readers where
  "ref_readers = \<lparr>rr_url_parse = Inr, rr_from_timestamp_millis = Some\<rparr>"

definition ref_connected :: ref_server where
  "ref_connected = snd (mongo_connect ref_mongo ''db'' ref_empty)"

definition ref_chained :: ref_server where
  "ref_chained = snd (mongo_create_chain ref_readers ref_mongo
     \<lparr>nc_chain = Chain 1, nc_rpc_url = ''http://node'', nc_enabled = True\<rparr> ref_connected)"

definition ex_new_monitor :: new_monitor where
  "ex_new_monitor = \<lparr>nm_chain = Chain 1, nm_target = CallT ex_call_target, nm_start_block = 5,
     nm_end_block = Some 6, nm_filter = None\<rparr>"

lemma ref_connects: "mongo_connect ref_mongo ''db'' ref_empty = (Inr (), ref_connected)"
proof -
  have "fst (mongo_connect ref_mongo ''db'' ref_empty) = Inr ()"
    by (simp add: mongo_connect_def ref_mongo_def io_bind_def io_lift_def ensure_def supports_transactions_def
        create_indexes_def drop_legacy_monitor_target_index_def missing_index_def INDEX_NOT_FOUND_def
        indexes_def index_ok_def collection_rows_def ref_empty_def)
  then show ?thesis by (simp add: ref_connected_def prod_eq_iff)
qed

lemma ref_connected_invariant: "mongo_invariant ref_view ref_connected"
proof -
  have "unique_ok (vw_indexes ref_view ref_empty) (vw_committed ref_view ref_empty)"
    by (simp add: unique_ok_def ref_view_def ref_empty_def)
  from refdb.connect_effect [OF ref_connects this] show ?thesis
    by (auto simp: mongo_invariant_def ref_view_def ref_empty_def database_ok_def counter_value_def)
qed

lemma ref_connected_rows: "rs_committed ref_connected = rs_committed ref_empty"
proof -
  have "unique_ok (vw_indexes ref_view ref_empty) (vw_committed ref_view ref_empty)"
    by (simp add: unique_ok_def ref_view_def ref_empty_def)
  from refdb.connect_effect [OF ref_connects this] show ?thesis by (simp add: ref_view_def)
qed

text \<open>A transaction of the reference server commits what its body left pending.\<close>

lemma ref_commit_loop:
  "rs_pending s = Some p \<Longrightarrow>
     commit_loop ref_mongo s = Some (Inr True, s\<lparr>rs_committed := p, rs_pending := None, rs_unknown := 0\<rparr>)"
proof (induction "rs_unknown s" arbitrary: s)
  case 0
  then show ?case by (subst commit_loop.simps) (simp add: ref_mongo_def ref_commit_def)
next
  case (Suc n)
  from Suc.hyps(1) [of "s\<lparr>rs_committed := p, rs_unknown := n\<rparr>"] Suc.hyps(2) [symmetric] Suc.prems
  have "commit_loop ref_mongo (s\<lparr>rs_committed := p, rs_unknown := n\<rparr>)
      = Some (Inr True, s\<lparr>rs_committed := p, rs_pending := None, rs_unknown := 0\<rparr>)"
    by simp
  moreover have "mg_commit_transaction ref_mongo s
      = (Inl [Driver [''UnknownTransactionCommitResult''] None ''timeout''], s\<lparr>rs_committed := p, rs_unknown := n\<rparr>)"
    using Suc.hyps(2) [symmetric] Suc.prems by (simp add: ref_mongo_def ref_commit_def)
  ultimately show ?case by (subst commit_loop.simps) (simp add: contains_label_def)
qed

lemma ref_transaction:
  assumes "op (s\<lparr>rs_pending := Some (rs_committed s), rs_base := rs_committed s\<rparr>) = (Inr v, s2)"
    and "rs_pending s2 = Some p"
  shows "transaction ref_mongo op s = Some (Inr v, s2\<lparr>rs_committed := p, rs_pending := None, rs_unknown := 0\<rparr>)"
proof -
  have "mg_start_session ref_mongo s = (Inr (), s)"
    "mg_start_transaction ref_mongo s = (Inr (), s\<lparr>rs_pending := Some (rs_committed s), rs_base := rs_committed s\<rparr>)"
    by (simp_all add: ref_mongo_def)
  with assms ref_commit_loop [OF assms(2)] show ?thesis
    by (simp add: transaction_def transaction_loop.simps [of ref_mongo op s])
qed

lemma distinct_short: "length xs \<le> 1 \<Longrightarrow> distinct xs"
  by (cases xs) auto

lemma unique_ok_small:
  assumes "length (db_chains db) \<le> 1" and "length (db_monitors db) \<le> 1" and "length (db_results db) \<le> 1"
  shows "unique_ok ixs db"
proof -
  have "length (collection_rows db c) \<le> 1" for c using assms by (simp add: collection_rows_def)
  then have "length (map f (filter q (collection_rows db c))) \<le> 1" for f :: "(string \<Rightarrow> field) \<Rightarrow> field list" and q c
    using length_filter_le [of q "collection_rows db c"] by (metis (no_types) le_trans length_map)
  then show ?thesis unfolding unique_ok_def list_all_iff index_ok_def by (auto intro!: distinct_short)
qed

lemma ref_chained_rows:
  "rs_committed ref_chained = \<lparr>db_chains = [\<lparr>cdoc_chain_id = 1, cdoc_rpc_url = ''http://node'', cdoc_enabled = True,
     cdoc_created_at = rs_clock ref_connected, cdoc_updated_at = rs_clock ref_connected, cdoc_monitor_revision = 0\<rparr>],
     db_monitors = [], db_results = [], db_counters = []\<rparr>"
  by (simp add: ref_chained_def mongo_create_chain_def ref_mongo_def ref_collection_def io_bind_def io_lift_def
      to_i64_def ref_write_def ref_connected_rows ref_empty_def unique_ok_small Let_def)

lemma ref_chained_invariant: "mongo_invariant ref_view ref_chained"
  unfolding ref_chained_def
  by (rule refdb.step_keeps_invariant [OF step_admin [OF step_create_chain [OF prod.collapse [symmetric]]] ref_connected_invariant])

lemma ref_hash_text_laws: "hash_text_laws ref_externs"
  by (simp add: hash_text_laws_def ref_externs_def ref_word_from_display)

lemma ref_creates_monitor:
  "\<exists>rec d'. mongo_create_monitor ref_externs ref_readers ref_mongo ex_new_monitor ref_chained = Some (Inr rec, d')"
proof -
  obtain template where template: "monitor_template ref_externs (rs_clock ref_chained) ex_new_monitor = Inr template"
    by (simp add: monitor_template_def ex_new_monitor_def to_i64_def)
  have chain: "mdoc_chain_id template = 1"
    using monitor_template_fields(1) [OF template] by (simp add: ex_new_monitor_def)
  let ?s = "ref_chained\<lparr>rs_pending := Some (rs_committed ref_chained), rs_base := rs_committed ref_chained\<rparr>"
  have "\<exists>s2 p. create_monitor_operation ref_mongo template ?s = (Inr (template\<lparr>mdoc_id := 1\<rparr>), s2) \<and> rs_pending s2 = Some p"
    by (simp add: create_monitor_operation_def ref_mongo_def ref_collection_def io_bind_def io_lift_def ref_write_def
        unique_ok_small matched_one_def ref_chained_rows chain bump_counter_def counter_value_def foreign_def Let_def)
  then obtain s2 p where "create_monitor_operation ref_mongo template ?s = (Inr (template\<lparr>mdoc_id := 1\<rparr>), s2)"
    "rs_pending s2 = Some p" by blast
  note ran = ref_transaction [where op = "create_monitor_operation ref_mongo template" and s = ref_chained, OF this]
  have schema: "schema_ok (target_params (nm_target ex_new_monitor))"
    by (simp add: ex_new_monitor_def ex_call_target_def target_params_def schema_ok_def ex_amount_def scalar_type_def)
  have "rr_from_timestamp_millis ref_readers (rs_clock ref_chained) = Some (rs_clock ref_chained)"
    by (simp add: ref_readers_def)
  from stored_monitor_record [OF ref_laws(1) ref_hash_text_laws schema template this, of 1] template ran show ?thesis
    by (simp add: mongo_create_monitor_def ref_mongo_def)
qed

text \<open>
  C11. Every database the adapter reaches is well formed. From a connection to a database that is
  so, through any sequence of writing calls with any arguments and any outcome: chain and monitor
  identities are unique, no result is stored twice, every monitor belongs to a stored chain and
  every result to a stored monitor of its chain, columns are in range, and a monitor is completed
  exactly when its cursor has reached its end block.
\<close>

theorem mongo_keeps_invariant:
  assumes "mongo_server M V" and "mongo_connect M database d0 = (Inr (), d1)"
    and "unique_ok (vw_indexes V d0) (vw_committed V d0)" and "database_ok (vw_committed V d0)"
    and "(mongo_step X Y M)\<^sup>*\<^sup>* d1 d"
  shows "database_ok (vw_committed V d) \<and> identities_ok (vw_committed V d)"
proof -
  have "mongo_invariant V d1"
    using mongo_server.connect_effect [OF assms(1-3)] assms(4) by (auto simp: mongo_invariant_def)
  from mongo_server.steps_keep_invariant [OF assms(1,5) this] unique_ok_identities show ?thesis
    by (auto simp: mongo_invariant_def)
qed

lemma mongo_keeps_invariant_witness:
  "database_ok (rs_committed ref_chained) \<and> identities_ok (rs_committed ref_chained)"
proof -
  have "mongo_step ref_externs ref_readers ref_mongo ref_connected ref_chained"
    unfolding ref_chained_def by (rule step_admin [OF step_create_chain [OF prod.collapse [symmetric]]])
  then have steps: "(mongo_step ref_externs ref_readers ref_mongo)\<^sup>*\<^sup>* ref_connected ref_chained" by simp
  have "unique_ok (vw_indexes ref_view ref_empty) (vw_committed ref_view ref_empty)"
    "database_ok (vw_committed ref_view ref_empty)"
    by (simp_all add: unique_ok_def ref_view_def ref_empty_def database_ok_def counter_value_def)
  from mongo_keeps_invariant [OF ref_mongo_server ref_connects this steps] show ?thesis by (simp add: ref_view_def)
qed


lemma commit_block_returns:
  assumes "mongo_patient M m"
  shows "\<exists>r d'. mongo_commit_block X M c d = Some (r, d')"
proof (cases "commit_input X c")
  case (Inr inp)
  obtain chain_id block ids docs where inp: "inp = (chain_id, block, ids, docs)" by (cases inp)
  have "patient_call m (commit_operation M chain_id block ids docs)"
    unfolding commit_operation_def
    by (intro patient_bind patient_lift)
      (use assms in \<open>auto simp: mongo_patient_def patient_collection_def patient_call_def ensure_def io_lift_def split: if_splits\<close>)
  from transaction_returns [OF assms this] Inr inp show ?thesis by (simp add: mongo_commit_block_def)
qed (simp add: mongo_commit_block_def)



section \<open>The transactions end\<close>

lemma delete_monitor_returns: "mongo_patient M m \<Longrightarrow> \<exists>r d'. mongo_delete_monitor M i d = Some (r, d')"
proof -
  assume patient: "mongo_patient M m"
  have "patient_call m (delete_monitor_operation M k)" for k
    unfolding delete_monitor_operation_def
    by (intro patient_bind patient_lift)
      (use patient in \<open>auto simp: mongo_patient_def patient_collection_def monitor_not_found_def ensure_def split: if_splits\<close>)
  from transaction_returns [OF patient this] show ?thesis
    by (auto simp: mongo_delete_monitor_def split: sum.split)
qed

lemma delete_chain_returns: "mongo_patient M m \<Longrightarrow> \<exists>r d'. mongo_delete_chain M ch d = Some (r, d')"
proof -
  assume patient: "mongo_patient M m"
  have "patient_call m (delete_chain_operation M k)" for k
    unfolding delete_chain_operation_def
    by (intro patient_bind patient_lift)
      (use patient in \<open>auto simp: mongo_patient_def patient_collection_def chain_not_found_def ensure_def split: if_splits\<close>)
  from transaction_returns [OF patient this] show ?thesis
    by (auto simp: mongo_delete_chain_def split: sum.split)
qed

lemma create_monitor_returns: "mongo_patient M m \<Longrightarrow> \<exists>r d'. mongo_create_monitor X Y M nm d = Some (r, d')"
proof -
  assume patient: "mongo_patient M m"
  have backend: "\<not> asks_retry [Backend e]" for e by (simp add: asks_retry_def contains_label_def)
  have "patient_call m (create_monitor_operation M template)" for template
    unfolding create_monitor_operation_def Let_def
    by (intro patient_bind patient_lift)
      (use patient in \<open>auto simp: mongo_patient_def patient_collection_def chain_not_found_def ensure_def foreign_def
        res_simps backend split: if_splits\<close>)
  from transaction_returns [OF patient this] show ?thesis
    by (fastforce simp: mongo_create_monitor_def split: sum.split)
qed

text \<open>
  C19. Every transaction of the adapter returns: against a deployment that does not ask for
  retries for ever, committing a block, creating a monitor, deleting a monitor and deleting a
  chain all come back with a result, from any state.
\<close>

theorem mongo_transactions_return:
  assumes "mongo_patient M m"
  shows "(\<exists>r d'. mongo_commit_block X M c d = Some (r, d')) \<and> (\<exists>r d'. mongo_create_monitor X Y M nm d = Some (r, d'))
    \<and> (\<exists>r d'. mongo_delete_monitor M i d = Some (r, d')) \<and> (\<exists>r d'. mongo_delete_chain M ch d = Some (r, d'))"
  by (intro conjI commit_block_returns [OF assms] create_monitor_returns [OF assms]
      delete_monitor_returns [OF assms] delete_chain_returns [OF assms])

lemma mongo_transactions_return_witness:
  "\<exists>r d'. mongo_create_monitor ref_externs ref_readers ref_mongo ex_new_monitor ref_chained = Some (r, d')"
  using mongo_transactions_return [OF ref_mongo_patient] by blast

section \<open>Monitors are stored and read back\<close>

lemma create_monitor_stores:
  assumes server: "mongo_server M V" and inv: "mongo_invariant V d"
    and run: "mongo_create_monitor X Y M nm d = Some (Inr rec, d')"
  shows "\<exists>template i. monitor_template X (mg_now M d) nm = Inr template
    \<and> i = counter_value (vw_committed V d) ''monitors'' + 1 \<and> 0 < i \<and> i \<le> 9223372036854775807
    \<and> vw_committed V d' = create_monitor_effect template (vw_committed V d)
    \<and> mongo_monitor_record X Y (template\<lparr>mdoc_id := i\<rparr>) = Inr rec"
proof -
  from run obtain template row where template: "monitor_template X (mg_now M d) nm = Inr template"
    and ran: "transaction M (create_monitor_operation M template) d = Some (Inr row, d')"
    and rec: "mongo_monitor_record X Y row = Inr rec"
    by (auto simp: mongo_create_monitor_def res_simps split: sum.splits)
  have "0 \<le> counter_value (vw_committed V d) ''monitors''"
    using inv by (simp add: mongo_invariant_def database_ok_def)
  with template rec mongo_server.transaction_outcome [OF server mongo_server.create_monitor_session [OF server] ran]
  show ?thesis by auto
qed

lemma create_monitor_result:
  assumes "mongo_server M V" and "mongo_invariant V d"
    and "type_text_laws X" and "hash_text_laws X" and "schema_ok (target_params (nm_target nm))"
    and "case nm_filter nm of None \<Rightarrow> f = FilterAll | Some fd \<Rightarrow> compile_definition X fd (nm_target nm) = Inr f"
    and "mongo_create_monitor X Y M nm d = Some (Inr rec, d')"
  shows "mr_target rec = nm_target nm \<and> mr_chain rec = nm_chain nm \<and> mr_filter rec = nm_filter nm
    \<and> mr_start_block rec = nm_start_block nm \<and> mr_end_block rec = nm_end_block nm \<and> mr_cursor rec = None
    \<and> mr_enabled rec \<and> \<not> mr_completed rec
    \<and> (\<exists>row. db_monitors (vw_committed V d') = db_monitors (vw_committed V d) @ [row]
        \<and> (\<forall>old \<in> set (db_monitors (vw_committed V d)). mdoc_id old \<noteq> mdoc_id row)
        \<and> mongo_rows V d' (mr_id rec) = []
        \<and> mongo_monitor X row = Inr \<lparr>mon_id = mr_id rec, mon_chain = nm_chain nm, mon_target = nm_target nm,
            mon_start_block = nm_start_block nm, mon_end_block = nm_end_block nm, mon_cursor = Cursor None,
            mon_completed = False, mon_enabled = True, mon_filter = f\<rparr>)"
proof -
  let ?db = "vw_committed V d"
  from create_monitor_stores [OF assms(1,2,7)] obtain template i
    where template: "monitor_template X (mg_now M d) nm = Inr template"
      and i: "i = counter_value ?db ''monitors'' + 1" "0 < i" "i \<le> 9223372036854775807"
      and db: "vw_committed V d' = create_monitor_effect template ?db"
      and rec: "mongo_monitor_record X Y (template\<lparr>mdoc_id := i\<rparr>) = Inr rec" by blast
  have "\<exists>stamp. rr_from_timestamp_millis Y (mg_now M d) = Some stamp"
    using rec by (auto simp: mongo_monitor_record_def res_simps chrono_def monitor_template_fields [OF template])
  then obtain stamp where stamp: "rr_from_timestamp_millis Y (mg_now M d) = Some stamp" ..
  note stored = stored_monitor_record [OF assms(3-5) template stamp i(2,3)]
  note loads = stored_monitor_loads [OF assms(3-5) template i(2,3) assms(6)]
  have ok: "database_ok ?db" using assms(2) by (simp add: mongo_invariant_def)
  have old: "mdoc_id m \<noteq> i" if "m \<in> set (db_monitors ?db)" for m
    using monitor_id_bounds [OF ok that] i(1) by simp
  then have "rdoc_monitor_id r \<noteq> i" if "r \<in> set (db_results ?db)" for r
    using result_owner [OF ok that] by force
  then have "mongo_rows V d' (MonitorId (word_of_int i)) = []"
    using uint_word_of_int_64 [of i] i(2,3)
    by (simp add: mongo_rows_def db create_monitor_effect_def filter_empty_conv)
  with stored rec loads old i(1) db show ?thesis
    by (auto simp: create_monitor_effect_def intro!: exI [of _ "template\<lparr>mdoc_id := i\<rparr>"])
qed

text \<open>
  C22. A created monitor is stored without loss. When \<open>create_monitor\<close> succeeds, the record it
  returns is the requested monitor with a fresh positive id, no cursor and enabled; the database
  gained exactly one monitor row, with that id and no results; and the row loads as a monitor with
  the same target, range and filter.
\<close>

theorem created_monitor_is_stored:
  assumes "mongo_server M V" and "mongo_invariant V d"
    and "type_text_laws X" and "hash_text_laws X" and "schema_ok (target_params (nm_target nm))"
    and "case nm_filter nm of None \<Rightarrow> f = FilterAll | Some fd \<Rightarrow> compile_definition X fd (nm_target nm) = Inr f"
    and "mongo_create_monitor X Y M nm d = Some (Inr rec, d')"
  shows "mr_target rec = nm_target nm \<and> mr_chain rec = nm_chain nm \<and> mr_filter rec = nm_filter nm
    \<and> mr_start_block rec = nm_start_block nm \<and> mr_end_block rec = nm_end_block nm \<and> mr_cursor rec = None
    \<and> mr_enabled rec \<and> \<not> mr_completed rec
    \<and> (\<exists>row. db_monitors (vw_committed V d') = db_monitors (vw_committed V d) @ [row]
        \<and> (\<forall>old \<in> set (db_monitors (vw_committed V d)). mdoc_id old \<noteq> mdoc_id row)
        \<and> mongo_rows V d' (mr_id rec) = []
        \<and> mongo_monitor X row = Inr \<lparr>mon_id = mr_id rec, mon_chain = nm_chain nm, mon_target = nm_target nm,
            mon_start_block = nm_start_block nm, mon_end_block = nm_end_block nm, mon_cursor = Cursor None,
            mon_completed = False, mon_enabled = True, mon_filter = f\<rparr>)"
  by (rule create_monitor_result [OF assms])

lemma created_monitor_is_stored_witness:
  "\<exists>rec d'. mongo_create_monitor ref_externs ref_readers ref_mongo ex_new_monitor ref_chained = Some (Inr rec, d')
     \<and> mr_start_block rec = 5 \<and> mr_cursor rec = None \<and> mongo_rows ref_view d' (mr_id rec) = []"
proof -
  obtain rec d' where run: "mongo_create_monitor ref_externs ref_readers ref_mongo ex_new_monitor ref_chained = Some (Inr rec, d')"
    using ref_creates_monitor by blast
  have schema: "schema_ok (target_params (nm_target ex_new_monitor))"
    and flt: "case nm_filter ex_new_monitor of None \<Rightarrow> FilterAll = FilterAll
      | Some fd \<Rightarrow> compile_definition ref_externs fd (nm_target ex_new_monitor) = Inr FilterAll"
    by (simp_all add: ex_new_monitor_def ex_call_target_def target_params_def schema_ok_def ex_amount_def scalar_type_def)
  from created_monitor_is_stored [OF ref_mongo_server ref_chained_invariant ref_laws(1) ref_hash_text_laws schema flt run] run
  show ?thesis by (auto simp: ex_new_monitor_def)
qed

text \<open>
  C23. Deleting a chain cascades and touches nothing else: on success the chain existed and
  afterwards the database has exactly the chains, monitors and results of the other chains.
\<close>

theorem delete_chain_cascades:
  assumes "mongo_server M V" and "mongo_invariant V d" and "mongo_delete_chain M ch d = Some (Inr u, d')"
  shows "uint (chain_id_of ch) \<in> cdoc_chain_id ` set (db_chains (vw_committed V d))
    \<and> set (db_chains (vw_committed V d')) = {c \<in> set (db_chains (vw_committed V d)). cdoc_chain_id c \<noteq> uint (chain_id_of ch)}
    \<and> db_monitors (vw_committed V d') = filter (\<lambda>m. mdoc_chain_id m \<noteq> uint (chain_id_of ch)) (db_monitors (vw_committed V d))
    \<and> db_results (vw_committed V d') = filter (\<lambda>r. rdoc_chain_id r \<noteq> uint (chain_id_of ch)) (db_results (vw_committed V d))"
proof -
  have "transaction M (delete_chain_operation M (uint (chain_id_of ch))) d = Some (Inr u, d')"
    using assms(3) by (auto simp: mongo_delete_chain_def to_i64_def split: if_splits)
  from mongo_server.transaction_outcome [OF assms(1) mongo_server.delete_chain_session [OF assms(1)] this]
  have found: "\<exists>row \<in> set (db_chains (vw_committed V d)). cdoc_chain_id row = uint (chain_id_of ch)"
    and effect: "vw_committed V d' = delete_chain_effect (uint (chain_id_of ch)) (vw_committed V d)" by simp_all
  have "distinct (map cdoc_chain_id (db_chains (vw_committed V d)))"
    using assms(2) unique_ok_identities by (auto simp: mongo_invariant_def identities_ok_def)
  moreover have "uint (chain_id_of ch) \<in> cdoc_chain_id ` set (db_chains (vw_committed V d))" using found by force
  ultimately show ?thesis
    using delete_first_distinct [of cdoc_chain_id "db_chains (vw_committed V d)" "uint (chain_id_of ch)"]
    by (simp add: effect delete_chain_effect_def)
qed

lemma delete_chain_cascades_witness:
  "\<exists>d'. mongo_delete_chain ref_mongo (Chain 1) ref_chained = Some (Inr (), d') \<and> db_chains (rs_committed d') = []"
proof -
  let ?s = "ref_chained\<lparr>rs_pending := Some (rs_committed ref_chained), rs_base := rs_committed ref_chained\<rparr>"
  have "\<exists>s2 p. delete_chain_operation ref_mongo 1 ?s = (Inr (), s2) \<and> rs_pending s2 = Some p"
    by (simp add: delete_chain_operation_def ref_mongo_def ref_collection_def io_bind_def io_lift_def ref_write_def
        unique_ok_small matched_one_def ref_chained_rows)
  then obtain s2 p where "delete_chain_operation ref_mongo 1 ?s = (Inr (), s2)" "rs_pending s2 = Some p" by blast
  from ref_transaction [where op = "delete_chain_operation ref_mongo 1" and s = ref_chained, OF this]
  have run: "mongo_delete_chain ref_mongo (Chain 1) ref_chained
      = Some (Inr (), s2\<lparr>rs_committed := p, rs_pending := None, rs_unknown := 0\<rparr>)"
    by (simp add: mongo_delete_chain_def to_i64_def)
  from delete_chain_cascades [OF ref_mongo_server ref_chained_invariant run] run have "set (db_chains p) = {}" by (auto simp: ref_view_def ref_chained_rows)
  with run show ?thesis by simp
qed

section \<open>Results are stored and read back\<close>



lemma result_document_call:
  assumes "result_document X c ms (ResultCall call) = Inr row"
  obtains m t doc where "locked_monitor ms (dc_monitor_id call) = Inr m" and "mon_target m = CallT t"
    and "bson_params X (ct_inputs t) (dc_params call) = Inr doc"
    and "rdoc_tx_hash row = b256_display X (dc_transaction_hash call)" and "rdoc_params row = doc"
    and "rdoc_block_number row = uint (dc_block_number call)"
proof -
  from assms obtain m where "locked_monitor ms (dc_monitor_id call) = Inr m"
    by (auto simp: result_document_def res_bind_Inr)
  with assms that show thesis
    by (cases "mon_target m") (auto simp: result_document_def res_bind_Inr to_i64_Inr)
qed

lemma result_document_event:
  assumes "result_document X c ms (ResultEvent event) = Inr row"
  obtains m t doc where "locked_monitor ms (de_monitor_id event) = Inr m" and "mon_target m = EventT t"
    and "bson_params X (et_params t) (de_params event) = Inr doc"
    and "rdoc_tx_hash row = b256_display X (de_transaction_hash event)" and "rdoc_params row = doc"
    and "rdoc_block_number row = uint (de_block_number event)" and "rdoc_log_index row = Some (uint (de_log_index event))"
proof -
  from assms obtain m where "locked_monitor ms (de_monitor_id event) = Inr m"
    by (auto simp: result_document_def res_bind_Inr)
  with assms that show thesis
    by (cases "mon_target m") (auto simp: result_document_def res_bind_Inr to_i64_Inr)
qed

text \<open>
  C24. A stored result reads back as it was decoded: the row \<open>commit_block\<close> writes for a result
  yields, when queried, its transaction hash, block, log index and the canonical JSON of its
  parameters under the schema of its monitor.
\<close>

theorem stored_result_reads_back:
  assumes "hash_text_laws X" and "result_document X c ms res = Inr row"
  shows "case res of
      ResultCall call \<Rightarrow> \<exists>m \<in> set ms. \<exists>t params. mon_id m = dc_monitor_id call \<and> mon_target m = CallT t
        \<and> canonical_params X (ct_inputs t) (dc_params call) = Inr params
        \<and> result_record_of X ''call'' row = Inr (RecordCall (dc_transaction_hash call) (dc_block_number call) params)
    | ResultEvent event \<Rightarrow> \<exists>m \<in> set ms. \<exists>t params. mon_id m = de_monitor_id event \<and> mon_target m = EventT t
        \<and> canonical_params X (et_params t) (de_params event) = Inr params
        \<and> result_record_of X ''event'' row
            = Inr (RecordEvent (de_transaction_hash event) (de_log_index event) (de_block_number event) params)"
proof (cases res)
  case (ResultCall call)
  obtain m t doc where m: "locked_monitor ms (dc_monitor_id call) = Inr m" "mon_target m = CallT t"
    and doc: "bson_params X (ct_inputs t) (dc_params call) = Inr doc"
    and row: "rdoc_tx_hash row = b256_display X (dc_transaction_hash call)" "rdoc_params row = doc"
      "rdoc_block_number row = uint (dc_block_number call)"
    by (rule result_document_call [OF assms(2) [unfolded ResultCall]])
  have "\<exists>params. canonical_params X (ct_inputs t) (dc_params call) = Inr params"
    using doc by (auto simp: bson_params_def canonical_params_def res_simps)
  then obtain params where params: "canonical_params X (ct_inputs t) (dc_params call) = Inr params" ..
  have "result_record_of X ''call'' row = Inr (RecordCall (dc_transaction_hash call) (dc_block_number call) params)"
    using bson_params_round_trip [OF doc] params assms(1)
    by (simp add: result_record_of_def row foreign_def hash_text_laws_def)
  with ResultCall locked_monitor_Inr [OF m(1)] m(2) params show ?thesis by auto
next
  case (ResultEvent event)
  obtain m t doc where m: "locked_monitor ms (de_monitor_id event) = Inr m" "mon_target m = EventT t"
    and doc: "bson_params X (et_params t) (de_params event) = Inr doc"
    and row: "rdoc_tx_hash row = b256_display X (de_transaction_hash event)" "rdoc_params row = doc"
      "rdoc_block_number row = uint (de_block_number event)" "rdoc_log_index row = Some (uint (de_log_index event))"
    by (rule result_document_event [OF assms(2) [unfolded ResultEvent]])
  have "\<exists>params. canonical_params X (et_params t) (de_params event) = Inr params"
    using doc by (auto simp: bson_params_def canonical_params_def res_simps)
  then obtain params where params: "canonical_params X (et_params t) (de_params event) = Inr params" ..
  have "result_record_of X ''event'' row
      = Inr (RecordEvent (de_transaction_hash event) (de_log_index event) (de_block_number event) params)"
    using bson_params_round_trip [OF doc] params assms(1)
    by (simp add: result_record_of_def row foreign_def hash_text_laws_def)
  with ResultEvent locked_monitor_Inr [OF m(1)] m(2) params show ?thesis by auto
qed

lemma stored_result_reads_back_witness:
  "\<exists>row params. result_document ref_externs 1 ex_monitors (ResultCall (call_of ex_call_monitor 5 ex_tx [DUint 42])) = Inr row
     \<and> result_record_of ref_externs ''call'' row = Inr (RecordCall 99 5 params)"
proof -
  have "\<exists>row. result_document ref_externs 1 ex_monitors (ResultCall (call_of ex_call_monitor 5 ex_tx [DUint 42])) = Inr row"
    by (simp add: result_document_def locked_monitor_def ex_monitors_def ex_call_monitor_def ex_event_monitor_def call_of_def
        to_i64_def bson_params_def ex_call_target_def)
  then obtain row where row: "result_document ref_externs 1 ex_monitors (ResultCall (call_of ex_call_monitor 5 ex_tx [DUint 42])) = Inr row" ..
  from stored_result_reads_back [OF ref_hash_text_laws row] row show ?thesis
    by (auto simp: call_of_def ex_tx_def)
qed

end
