(* ===== verification/Postgres_Rows.thy ===== *)
theory Postgres_Rows
  imports Services
begin

text \<open>
  \<open>parseon-postgres/src/pg_types.rs\<close> and the stored rows of \<open>monitor_repo.rs\<close>, \<open>chain_repo.rs\<close> and
  \<open>storage.rs\<close>: conversions at the border of the database, and the translations between rows and the
  core's monitors and records. \<open>U\<close> parses the text of a stored URL.
\<close>

section \<open>Column values (\<open>pg_types.rs\<close>)\<close>

definition pg_to_i64 :: "u64 \<Rightarrow> string \<Rightarrow> i64 result" where
  "pg_to_i64 v name =
     (if unat v \<le> 9223372036854775807 then Inr (uint v)
      else Inl (anyhow (name @ '' exceeds PostgreSQL BIGINT range'')))"

definition pg_from_i64 :: "i64 \<Rightarrow> string \<Rightarrow> u64 result" where
  "pg_from_i64 v name =
     (if v < 0 then Inl (anyhow (''stored '' @ name @ '' must be non-negative'')) else Inr (word_of_int v))"

definition pg_to_monitor_id :: "monitor_id \<Rightarrow> i64 result" where
  "pg_to_monitor_id i = pg_to_i64 (monitor_id_get i) ''monitor id''"

definition pg_from_monitor_id :: "i64 \<Rightarrow> monitor_id result" where
  "pg_from_monitor_id v = res_bind (pg_from_i64 v ''monitor id'') monitor_id_new"

definition pg_address :: "bytes \<Rightarrow> address result" where
  "pg_address bs =
     (if length bs = 20 then Inr (of_be_bytes bs) else Inl (anyhow ''stored address must contain exactly 20 bytes''))"

definition pg_selector :: "bytes \<Rightarrow> selector result" where
  "pg_selector bs =
     (if length bs = 4 then Inr (of_be_bytes bs) else Inl (anyhow ''stored selector must contain exactly 4 bytes''))"

definition pg_b256 :: "bytes \<Rightarrow> string \<Rightarrow> b256 result" where
  "pg_b256 bs name =
     (if length bs = 32 then Inr (of_be_bytes bs)
      else Inl (anyhow (''stored '' @ name @ '' must contain exactly 32 bytes'')))"

lemma pg_to_i64_Inr [res_simps]:
  "pg_to_i64 v name = Inr i \<longleftrightarrow> unat v \<le> 9223372036854775807 \<and> i = uint v"
  by (auto simp: pg_to_i64_def)

lemma pg_from_i64_uint [simp]: "pg_from_i64 (uint v) name = Inr v"
  by (simp add: pg_from_i64_def)

lemma pg_from_i64_Inr [res_simps]: "pg_from_i64 v name = Inr u \<longleftrightarrow> 0 \<le> v \<and> u = word_of_int v"
  by (auto simp: pg_from_i64_def)

lemma pg_from_i64_option [simp]: "traverse_option (\<lambda>v. pg_from_i64 v name) (map_option uint e) = Inr (e :: u64 option)"
  by (cases e) simp_all

lemma pg_bytes_round_trip [simp]:
  "pg_address (be_bytes 20 a) = Inr a" "pg_selector (be_bytes 4 s) = Inr s" "pg_b256 (be_bytes 32 h) name = Inr h"
  by (simp_all add: pg_address_def pg_selector_def pg_b256_def)

section \<open>Rows\<close>

record pg_param =
  pgp_name :: string
  pgp_sol_type :: string
  pgp_indexed :: bool

record pg_chain_row =
  pgc_chain_id :: i64
  pgc_rpc_url :: string
  pgc_enabled :: bool
  pgc_created_at :: int
  pgc_updated_at :: int

record pg_monitor_row =
  pgm_id :: i64
  pgm_chain_id :: i64
  pgm_address :: bytes
  pgm_kind :: string
  pgm_signature_hash :: bytes
  pgm_param_schema :: "pg_param list"
  pgm_start_block :: i64
  pgm_end_block :: "i64 option"
  pgm_cursor :: "i64 option"
  pgm_completed :: bool
  pgm_enabled :: bool
  pgm_filter_ast :: "filter_expression option"
  pgm_filter_version :: "int option"
  pgm_created_at :: int
  pgm_updated_at :: int

definition pg_foreign :: "string + 'a \<Rightarrow> 'a result" where
  "pg_foreign r = map_err (\<lambda>e. [Backend e]) r"

section \<open>From rows to the core\<close>

definition pg_param_to_abi :: "externs \<Rightarrow> pg_param \<Rightarrow> abi_param result" where
  "pg_param_to_abi X p =
     res_bind (parse_abi_type X (pgp_sol_type p)) (\<lambda>ty.
     res_bind (abi_param_new X (pgp_name p) ty) (\<lambda>param.
     Inr (with_indexed (pgp_indexed p) param)))"

definition pg_target :: "externs \<Rightarrow> pg_monitor_row \<Rightarrow> target result" where
  "pg_target X row =
     res_bind (pg_address (pgm_address row)) (\<lambda>address.
     res_bind (traverse (pg_param_to_abi X) (pgm_param_schema row)) (\<lambda>params.
     if pgm_kind row = ''call'' then
       res_bind (pg_selector (pgm_signature_hash row)) (\<lambda>sel.
       Inr (CallT \<lparr>ct_address = address, ct_selector = sel, ct_inputs = params\<rparr>))
     else if pgm_kind row = ''event'' then
       res_bind (pg_b256 (pgm_signature_hash row) ''event topic0'') (\<lambda>topic.
       Inr (EventT \<lparr>et_address = address, et_topic0 = topic, et_params = params\<rparr>))
     else Inl (anyhow (''invalid monitor kind '' @ pgm_kind row))))"

definition pg_incomplete_filter :: "pg_monitor_row \<Rightarrow> error" where
  "pg_incomplete_filter row = anyhow (''monitor '' @ show_int (pgm_id row) @ '' has incomplete filter state'')"

definition pg_filter :: "externs \<Rightarrow> pg_monitor_row \<Rightarrow> target \<Rightarrow> monitor_filter result" where
  "pg_filter X row t =
     (case (pgm_filter_ast row, pgm_filter_version row) of
        (None, None) \<Rightarrow> Inr FilterAll
      | (Some expression, Some version) \<Rightarrow>
          compile_definition X \<lparr>fd_version = version, fd_expression = expression\<rparr> t
      | _ \<Rightarrow> Inl (pg_incomplete_filter row))"

definition pg_monitor :: "externs \<Rightarrow> pg_monitor_row \<Rightarrow> monitor result" where
  "pg_monitor X row =
     res_bind (pg_target X row) (\<lambda>t.
     res_bind (pg_filter X row t) (\<lambda>flt.
     res_bind (pg_from_monitor_id (pgm_id row)) (\<lambda>i.
     res_bind (pg_from_i64 (pgm_chain_id row) ''chain id'') (\<lambda>c.
     res_bind (pg_from_i64 (pgm_start_block row) ''start block'') (\<lambda>s.
     res_bind (traverse_option (\<lambda>v. pg_from_i64 v ''end block'') (pgm_end_block row)) (\<lambda>e.
     res_bind (traverse_option (\<lambda>v. pg_from_i64 v ''cursor'') (pgm_cursor row)) (\<lambda>cur.
     Inr \<lparr>mon_id = i, mon_chain = Chain c, mon_target = t, mon_start_block = s, mon_end_block = e,
          mon_cursor = Cursor cur, mon_completed = pgm_completed row,
          mon_enabled = pgm_enabled row, mon_filter = flt\<rparr>)))))))"

definition pg_chain_record :: "(string \<Rightarrow> string + url) \<Rightarrow> pg_chain_row \<Rightarrow> chain_record result" where
  "pg_chain_record U row =
     res_bind (pg_foreign (U (pgc_rpc_url row))) (\<lambda>u.
     res_bind (pg_from_i64 (pgc_chain_id row) ''chain id'') (\<lambda>c.
     Inr \<lparr>cr_chain = Chain c, cr_rpc_url = u, cr_enabled = pgc_enabled row,
          cr_created_at = pgc_created_at row, cr_updated_at = pgc_updated_at row\<rparr>))"

definition pg_registered :: "(string \<Rightarrow> string + url) \<Rightarrow> pg_chain_row \<Rightarrow> registered_chain result" where
  "pg_registered U row =
     res_bind (pg_from_i64 (pgc_chain_id row) ''chain id'') (\<lambda>c.
     res_bind (pg_foreign (U (pgc_rpc_url row))) (\<lambda>u.
     Inr \<lparr>rc_chain = Chain c, rc_rpc_url = u, rc_enabled = pgc_enabled row\<rparr>))"

definition pg_filter_definition :: "pg_monitor_row \<Rightarrow> filter_definition option result" where
  "pg_filter_definition row =
     (case (pgm_filter_ast row, pgm_filter_version row) of
        (None, None) \<Rightarrow> Inr None
      | (Some expression, Some version) \<Rightarrow> Inr (Some \<lparr>fd_version = version, fd_expression = expression\<rparr>)
      | _ \<Rightarrow> Inl (pg_incomplete_filter row))"

definition pg_monitor_record :: "externs \<Rightarrow> pg_monitor_row \<Rightarrow> monitor_record result" where
  "pg_monitor_record X row =
     res_bind (pg_filter_definition row) (\<lambda>flt.
     res_bind (pg_from_monitor_id (pgm_id row)) (\<lambda>i.
     res_bind (pg_from_i64 (pgm_chain_id row) ''chain id'') (\<lambda>c.
     res_bind (pg_target X row) (\<lambda>t.
     res_bind (pg_from_i64 (pgm_start_block row) ''start block'') (\<lambda>s.
     res_bind (traverse_option (\<lambda>v. pg_from_i64 v ''end block'') (pgm_end_block row)) (\<lambda>e.
     res_bind (traverse_option (\<lambda>v. pg_from_i64 v ''cursor'') (pgm_cursor row)) (\<lambda>cur.
     Inr \<lparr>mr_id = i, mr_chain = Chain c, mr_target = t, mr_start_block = s, mr_end_block = e,
          mr_cursor = cur, mr_completed = pgm_completed row, mr_enabled = pgm_enabled row,
          mr_filter = flt, mr_created_at = pgm_created_at row, mr_updated_at = pgm_updated_at row\<rparr>)))))))"

section \<open>From the core to rows\<close>

definition pg_param_of :: "externs \<Rightarrow> abi_param \<Rightarrow> pg_param" where
  "pg_param_of X p = \<lparr>pgp_name = param_name p, pgp_sol_type = sol_type X p, pgp_indexed = param_indexed p\<rparr>"

text \<open>The bound values of the \<open>INSERT INTO monitors\<close>.\<close>

record pg_monitor_input =
  pgi_chain_id :: i64
  pgi_address :: bytes
  pgi_kind :: string
  pgi_signature_hash :: bytes
  pgi_param_schema :: "pg_param list"
  pgi_start_block :: i64
  pgi_end_block :: "i64 option"
  pgi_filter_ast :: "filter_expression option"
  pgi_filter_version :: "int option"

definition pg_monitor_input_of :: "externs \<Rightarrow> new_monitor \<Rightarrow> pg_monitor_input result" where
  "pg_monitor_input_of X nm =
     (let (address, kind, signature_hash, abi_params) =
            (case nm_target nm of
               CallT t \<Rightarrow> (be_bytes 20 (ct_address t), KindCall, be_bytes 4 (ct_selector t), ct_inputs t)
             | EventT t \<Rightarrow> (be_bytes 20 (et_address t), KindEvent, be_bytes 32 (et_topic0 t), et_params t)) in
      res_bind (pg_to_i64 (chain_id_of (nm_chain nm)) ''chain id'') (\<lambda>c.
      res_bind (pg_to_i64 (nm_start_block nm) ''start block'') (\<lambda>s.
      res_bind (traverse_option (\<lambda>v. pg_to_i64 v ''end block'') (nm_end_block nm)) (\<lambda>e.
      Inr \<lparr>pgi_chain_id = c, pgi_address = address, pgi_kind = monitor_kind_as_str kind,
           pgi_signature_hash = signature_hash, pgi_param_schema = map (pg_param_of X) abi_params,
           pgi_start_block = s, pgi_end_block = e,
           pgi_filter_ast = map_option fd_expression (nm_filter nm),
           pgi_filter_version = map_option fd_version (nm_filter nm)\<rparr>))))"

section \<open>Monitors are stored without loss\<close>

lemma pg_param_round_trip:
  assumes "type_text_laws X" and "scalar_type (param_ty p)"
  shows "pg_param_to_abi X (pg_param_of X p) = Inr p"
proof -
  have "ensure_supported_type X (param_ty p) = Inr ()"
    using assms(2) by (cases "param_ty p") (simp_all add: scalar_type_def ensure_supported_type_def)
  with assms show ?thesis
    by (simp add: pg_param_to_abi_def pg_param_of_def parse_abi_type_def sol_type_def type_text_laws_def
        abi_param_new_def with_indexed_def)
qed

lemma pg_schema_round_trip:
  "type_text_laws X \<Longrightarrow> \<forall>p \<in> set ps. scalar_type (param_ty p) \<Longrightarrow>
     traverse (pg_param_to_abi X) (map (pg_param_of X) ps) = Inr ps"
  by (induction ps) (simp_all add: pg_param_round_trip)

text \<open>The row the server makes of the bound values; the other columns have defaults.\<close>

definition pg_inserted_monitor :: "i64 \<Rightarrow> int \<Rightarrow> pg_monitor_input \<Rightarrow> pg_monitor_row" where
  "pg_inserted_monitor i time input =
     \<lparr>pgm_id = i, pgm_chain_id = pgi_chain_id input, pgm_address = pgi_address input, pgm_kind = pgi_kind input,
      pgm_signature_hash = pgi_signature_hash input, pgm_param_schema = pgi_param_schema input,
      pgm_start_block = pgi_start_block input, pgm_end_block = pgi_end_block input, pgm_cursor = None,
      pgm_completed = False, pgm_enabled = True, pgm_filter_ast = pgi_filter_ast input,
      pgm_filter_version = pgi_filter_version input, pgm_created_at = time, pgm_updated_at = time\<rparr>"

lemma pg_monitor_input_target:
  assumes "type_text_laws X" and "schema_ok (target_params (nm_target nm))" and input: "pg_monitor_input_of X nm = Inr input"
  shows "pg_target X (pg_inserted_monitor i time input) = Inr (nm_target nm)"
proof -
  have "traverse (pg_param_to_abi X) (map (pg_param_of X) (target_params (nm_target nm))) = Inr (target_params (nm_target nm))"
    using assms(2) by (intro pg_schema_round_trip [OF assms(1)]) (simp add: schema_ok_def)
  with input show ?thesis
    by (cases "nm_target nm")
      (auto simp: pg_monitor_input_of_def pg_target_def pg_inserted_monitor_def target_params_def monitor_kind_as_str_def res_simps)
qed

lemma pg_monitor_input_fields:
  assumes "pg_monitor_input_of X nm = Inr input"
  shows "pgi_chain_id input = uint (chain_id_of (nm_chain nm))" and "pgi_start_block input = uint (nm_start_block nm)"
    and "pgi_end_block input = map_option uint (nm_end_block nm)"
    and "pgi_filter_ast input = map_option fd_expression (nm_filter nm)"
    and "pgi_filter_version input = map_option fd_version (nm_filter nm)"
    and "pgi_kind input = (case nm_target nm of CallT t \<Rightarrow> ''call'' | EventT t \<Rightarrow> ''event'')"
    and "map pgp_name (pgi_param_schema input) = map param_name (target_params (nm_target nm))"
  using assms
  by (auto simp: pg_monitor_input_of_def res_simps Let_def monitor_kind_as_str_def target_params_def pg_param_of_def
      split: target.splits)

lemma pg_filter_compiled: "pg_filter X row t = Inr f \<Longrightarrow> filter_compiled X t f"
  by (auto simp: pg_filter_def compile_definition_def filter_compiled_def res_simps split: option.splits if_splits)

lemma pg_monitor_fields:
  assumes "pg_monitor X row = Inr m"
  shows "mon_id m = MonitorId (word_of_int (pgm_id row))" and "mon_chain m = Chain (word_of_int (pgm_chain_id row))"
    and "cursor_block (mon_cursor m) = map_option word_of_int (pgm_cursor row)"
    and "pg_target X row = Inr (mon_target m)" and "pg_filter X row (mon_target m) = Inr (mon_filter m)"
  using assms by (auto simp: pg_monitor_def pg_from_monitor_id_def res_simps)

end
