(* ===== verification/Postgres_Tables.thy ===== *)
theory Postgres_Tables
  imports Postgres_Rows
begin

text \<open>
  \<open>parseon-postgres/src/dyn_table.rs\<close>, the parts without a database: how the parameters of a monitor
  become columns of its result table, the texts of the dynamic statements, the values a result is
  written as, and how they are read back as JSON.
\<close>

section \<open>Identifiers\<close>

datatype sql_identifier = Identifier (identifier_name: string)

definition identifier_new :: "string \<Rightarrow> sql_identifier result" where
  "identifier_new v =
     (if v = [] \<or> CHR 0x00 \<in> set v then Inl (anyhow ''invalid SQL identifier'') else Inr (Identifier v))"

definition double_quote :: char where "double_quote = CHR 0x22"

fun escape_quotes :: "string \<Rightarrow> string" where
  "escape_quotes [] = []"
| "escape_quotes (c # s) = (if c = double_quote then [double_quote, double_quote] else [c]) @ escape_quotes s"

definition identifier_text :: "sql_identifier \<Rightarrow> string" where
  "identifier_text i = [double_quote] @ escape_quotes (identifier_name i) @ [double_quote]"

text \<open>How a quoted identifier is read: up to the first quote that is not doubled.\<close>

fun read_quoted :: "string \<Rightarrow> (string \<times> string) option" where
  "read_quoted [] = None"
| "read_quoted (c # s) =
     (if c \<noteq> double_quote then map_option (\<lambda>(v, rest). (c # v, rest)) (read_quoted s)
      else (case s of
              c2 # s2 \<Rightarrow> if c2 = double_quote then map_option (\<lambda>(v, rest). (double_quote # v, rest)) (read_quoted s2)
                        else Some ([], s)
            | [] \<Rightarrow> Some ([], [])))"

definition read_identifier :: "string \<Rightarrow> (string \<times> string) option" where
  "read_identifier text = (case text of c # s \<Rightarrow> if c = double_quote then read_quoted s else None | [] \<Rightarrow> None)"

lemma read_quoted_escaped:
  assumes "rest = [] \<or> hd rest \<noteq> double_quote"
  shows "read_quoted (escape_quotes v @ double_quote # rest) = Some (v, rest)"
proof (induction v)
  case Nil
  with assms show ?case by (cases rest) auto
qed simp

lemma read_identifier_text:
  "rest = [] \<or> hd rest \<noteq> double_quote \<Longrightarrow> read_identifier (identifier_text i @ rest) = Some (identifier_name i, rest)"
  by (simp add: read_identifier_def identifier_text_def read_quoted_escaped)

section \<open>Columns\<close>

datatype pg_column_type = PgNumeric | PgBool | PgText | PgBytea

definition pg_column_type_of :: "externs \<Rightarrow> pg_param \<Rightarrow> pg_column_type result" where
  "pg_column_type_of X p =
     res_bind (parse_abi_type X (pgp_sol_type p)) (\<lambda>ty.
     if pgp_indexed p \<and> (ty = TString \<or> ty = TBytes) then Inr PgBytea
     else
       (case ty of
          TUint _ \<Rightarrow> Inr PgNumeric
        | TInt _ \<Rightarrow> Inr PgNumeric
        | TBool \<Rightarrow> Inr PgBool
        | TAddress \<Rightarrow> Inr PgBytea
        | TString \<Rightarrow> Inr PgText
        | TBytes \<Rightarrow> Inr PgBytea
        | TFixedBytes _ \<Rightarrow> Inr PgBytea
        | TFunction \<Rightarrow> Inr PgBytea
        | _ \<Rightarrow> Inl [Panic ''internal error: entered unreachable code'']))"

definition pg_ddl :: "pg_column_type \<Rightarrow> string" where
  "pg_ddl k = (case k of PgNumeric \<Rightarrow> ''NUMERIC'' | PgBool \<Rightarrow> ''BOOLEAN'' | PgText \<Rightarrow> ''TEXT'' | PgBytea \<Rightarrow> ''BYTEA'')"

definition CALL_COLUMNS :: "(string \<times> string) list" where
  "CALL_COLUMNS =
     [(''tx_hash'', ''BYTEA NOT NULL PRIMARY KEY CHECK (octet_length(tx_hash) = 32)''),
      (''block_number'', ''BIGINT NOT NULL CHECK (block_number >= 0)'')]"

definition EVENT_COLUMNS :: "(string \<times> string) list" where
  "EVENT_COLUMNS =
     [(''tx_hash'', ''BYTEA NOT NULL CHECK (octet_length(tx_hash) = 32)''),
      (''log_index'', ''BIGINT NOT NULL CHECK (log_index >= 0)''),
      (''block_number'', ''BIGINT NOT NULL CHECK (block_number >= 0)''),
      (''PRIMARY KEY'', ''(tx_hash, log_index)'')]"

definition CALL_RESERVED :: "string list" where "CALL_RESERVED = [''tx_hash'', ''block_number'']"
definition EVENT_RESERVED :: "string list" where "EVENT_RESERVED = [''tx_hash'', ''log_index'', ''block_number'']"

text \<open>The loop that appends \<open>_1\<close>, \<open>_2\<close>, \<dots> until the name is free.\<close>

function free_column :: "string list \<Rightarrow> string \<Rightarrow> nat \<Rightarrow> string \<Rightarrow> string" where
  "free_column used base n col =
     (if col \<in> set used then free_column used base (Suc n) (base @ ''_'' @ show_nat n) else col)"
  by pat_completeness auto
termination
proof (relation "measure (\<lambda>(used, base, n, col).
    2 * card {k. n \<le> k \<and> base @ ''_'' @ show_nat k \<in> set used} + (if col \<in> set used then 1 else 0))")
  fix used :: "string list" and base n and col :: string
  let ?left = "\<lambda>n. {k. n \<le> k \<and> base @ ''_'' @ show_nat k \<in> set used}" and ?new = "base @ ''_'' @ show_nat n"
  assume col: "col \<in> set used"
  have "inj_on (\<lambda>k. base @ ''_'' @ show_nat k) (?left n)" by (simp add: inj_on_def)
  then have fin: "finite (?left n)" by (rule inj_on_finite [of _ _ "set used"]) auto
  have split: "?left n = (if ?new \<in> set used then insert n (?left (Suc n)) else ?left (Suc n))"
    by (auto simp: Suc_le_eq le_less)
  have "n \<notin> ?left (Suc n)" by simp
  then have "card (?left n) = card (?left (Suc n)) + (if ?new \<in> set used then 1 else 0)"
    using fin unfolding split by (auto split: if_splits)
  with col show "((used, base, Suc n, ?new), (used, base, n, col)) \<in> measure (\<lambda>(used, base, n, col).
      2 * card {k. n \<le> k \<and> base @ ''_'' @ show_nat k \<in> set used} + (if col \<in> set used then 1 else 0))"
    by simp
qed simp

declare free_column.simps [simp del]

lemma free_column_unused [simp]: "col \<notin> set used \<Longrightarrow> free_column used base n col = col"
  by (simp add: free_column.simps)

lemma free_column_free: "free_column used base n col \<notin> set used"
proof (induction used base n col rule: free_column.induct)
  case (1 used base n col)
  then show ?case by (subst free_column.simps) simp
qed

lemma free_column_shape: "free_column used base n col = col \<or> (\<exists>k. free_column used base n col = base @ ''_'' @ show_nat k)"
proof (induction used base n col rule: free_column.induct)
  case (1 used base n col)
  then show ?case by (subst (1 2) free_column.simps) auto
qed

record pg_column =
  pp_name :: string
  pp_column :: string
  pp_kind :: pg_column_type

definition column_base :: "string list \<Rightarrow> string \<Rightarrow> string" where
  "column_base reserved name = (if name \<in> set reserved then name @ ''_param'' else name)"

fun column_names :: "string list \<Rightarrow> string list \<Rightarrow> string list \<Rightarrow> string list" where
  "column_names reserved used [] = []"
| "column_names reserved used (name # names) =
     (let col = free_column used (column_base reserved name) 1 (column_base reserved name) in
      col # column_names reserved (col # used) names)"

definition reserved_columns :: "string \<Rightarrow> string list result" where
  "reserved_columns kind =
     (if kind = ''call'' then Inr CALL_RESERVED else if kind = ''event'' then Inr EVENT_RESERVED
      else Inl (anyhow ''invalid monitor kind''))"

text \<open>The names depend on the names only; a type that does not parse ends the collection.\<close>

definition postgres_params :: "externs \<Rightarrow> string \<Rightarrow> pg_param list \<Rightarrow> pg_column list result" where
  "postgres_params X kind params =
     res_bind (reserved_columns kind) (\<lambda>reserved.
     traverse (\<lambda>(p, col). res_bind (pg_column_type_of X p) (\<lambda>k.
         Inr \<lparr>pp_name = pgp_name p, pp_column = col, pp_kind = k\<rparr>))
       (zip params (column_names reserved [] (map pgp_name params))))"

lemma length_column_names [simp]: "length (column_names reserved used names) = length names"
  by (induction names arbitrary: used) (simp_all add: Let_def)

lemma column_names_distinct:
  "distinct (column_names reserved used names) \<and> set (column_names reserved used names) \<inter> set used = {}"
proof (induction names arbitrary: used)
  case (Cons name names)
  let ?col = "free_column used (column_base reserved name) 1 (column_base reserved name)"
  from Cons [of "?col # used"] free_column_free [of used] show ?case by (auto simp: Let_def)
qed simp

text \<open>Reserved names end in a letter that no number ends in.\<close>

lemma show_nat_last: "is_ascii_digit (List.last (show_nat k))"
  by (rule show_nat_digits [of _ k]) simp

lemma column_names_unreserved:
  assumes "reserved = CALL_RESERVED \<or> reserved = EVENT_RESERVED"
  shows "set (column_names reserved used names) \<inter> set reserved = {}"
proof (induction names arbitrary: used)
  case (Cons name names)
  let ?base = "column_base reserved name"
  let ?col = "free_column used ?base 1 ?base"
  have letters: "\<not> is_ascii_digit (List.last r)" if "r \<in> set reserved" for r
    using assms that by (auto simp: CALL_RESERVED_def EVENT_RESERVED_def is_ascii_digit_def)
  have "?base \<notin> set reserved"
    using assms by (auto simp: column_base_def CALL_RESERVED_def EVENT_RESERVED_def)
  moreover have "?base @ ''_'' @ show_nat k \<notin> set reserved" for k
  proof
    assume "?base @ ''_'' @ show_nat k \<in> set reserved"
    from letters [OF this] show_nat_last [of k] show False by simp
  qed
  ultimately have "?col \<notin> set reserved"
    using free_column_shape [of used ?base 1 ?base] by auto
  with Cons show ?case by (simp add: Let_def)
qed simp

lemma postgres_params_Inr:
  assumes "postgres_params X kind params = Inr cols"
  shows "map pp_name cols = map pgp_name params"
    and "\<exists>reserved. reserved_columns kind = Inr reserved \<and> map pp_column cols = column_names reserved [] (map pgp_name params)"
    and "length cols = length params"
    and "list_all2 (\<lambda>p col. pg_column_type_of X p = Inr (pp_kind col)) params cols"
proof -
  from assms obtain reserved where reserved: "reserved_columns kind = Inr reserved"
    and all: "list_all2 (\<lambda>x y. (case x of (p, col) \<Rightarrow> res_bind (pg_column_type_of X p) (\<lambda>k.
         Inr \<lparr>pp_name = pgp_name p, pp_column = col, pp_kind = k\<rparr>)) = Inr y)
       (zip params (column_names reserved [] (map pgp_name params))) cols"
    by (auto simp: postgres_params_def res_bind_Inr traverse_Inr)
  show len: "length cols = length params" using list_all2_lengthD [OF all] by simp
  have fields: "pp_name (cols ! n) = pgp_name (params ! n)
      \<and> pp_column (cols ! n) = column_names reserved [] (map pgp_name params) ! n
      \<and> pg_column_type_of X (params ! n) = Inr (pp_kind (cols ! n))"
    if n: "n < length params" for n
  proof -
    from list_all2_nthD2 [OF all, of n] n len obtain k where "pg_column_type_of X (params ! n) = Inr k"
      and col: "\<lparr>pp_name = pgp_name (params ! n), pp_column = column_names reserved [] (map pgp_name params) ! n,
        pp_kind = k\<rparr> = cols ! n"
      by (auto simp: res_bind_Inr)
    then show ?thesis by (simp add: col [symmetric])
  qed
  then show "map pp_name cols = map pgp_name params" by (intro nth_equalityI) (simp_all add: len)
  from fields have "map pp_column cols = column_names reserved [] (map pgp_name params)"
    by (intro nth_equalityI) (simp_all add: len)
  with reserved
  show "\<exists>reserved. reserved_columns kind = Inr reserved \<and> map pp_column cols = column_names reserved [] (map pgp_name params)"
    by blast
  show "list_all2 (\<lambda>p col. pg_column_type_of X p = Inr (pp_kind col)) params cols"
    using fields by (auto simp: list_all2_conv_all_nth len)
qed

definition result_table_name :: "i64 \<Rightarrow> string result" where
  "result_table_name i =
     (if i \<le> 0 then Inl (anyhow ''invalid monitor id'') else Inr (''monitor_'' @ show_int i @ ''_results''))"

lemma result_table_name_inject:
  assumes "result_table_name i = Inr n" and "result_table_name j = Inr n"
  shows "i = j"
proof -
  from assms have "show_int i = show_int j"
    by (auto simp: result_table_name_def split: if_splits)
  then show ?thesis by simp
qed

end
