(* ===== verification/Postgres_Server.thy ===== *)
theory Postgres_Server
  imports Postgres_Tables "HOL-Library.Multiset"
begin

text \<open>
  The border between \<open>parseon-postgres\<close> and sqlx. Each query of the code is a constructor of \<open>sql\<close> with
  its bound values; sqlx and the server behind it are the record \<open>postgres\<close>, which runs a statement,
  over a state the caller threads. What a statement does to the tables is \<open>sql_effect\<close>, and what the
  server promises is the locale \<open>postgres_server\<close>. Transactions are taken one after the other, which
  the row locks the statements take are for.
\<close>

section \<open>Statements\<close>

text \<open>A \<open>BigDecimal\<close> is an integer with a scale.\<close>

type_synonym big_decimal = "int \<times> int"

datatype pg_cell =
    CellBytea bytes
  | CellBigint i64
  | CellNumeric big_decimal
  | CellBool bool
  | CellText string
  | CellNull

datatype sql =
    InsertChain i64 string bool
  | SelectChains
  | SelectChain i64
  | UpdateChain i64 "string option" "bool option"
  | LockChain i64
  | LockMonitorIds i64
  | DeleteChain i64
  | InsertMonitor pg_monitor_input
  | SelectMonitors "i64 option"
  | CountMonitors
  | SelectMonitor i64
  | DeleteMonitor i64
  | UpdateEnabled i64 bool
  | CommitMonitors i64 "i64 list" i64
  | CreateTable sql_identifier "(string \<times> string) list" "(sql_identifier \<times> string) list"
  | CreateIndex sql_identifier sql_identifier
  | DropTable sql_identifier
  | InsertRows sql_identifier "string list" "sql_identifier list" "pg_cell list list"
  | SelectRows sql_identifier string i64 i64

text \<open>The texts of the statements whose text is built; the others are literals.\<close>

fun join :: "string \<Rightarrow> string list \<Rightarrow> string" where
  "join sep [] = []"
| "join sep [t] = t"
| "join sep (t # u # ts) = t @ sep @ join sep (u # ts)"

definition placeholder :: "nat \<Rightarrow> string" where
  "placeholder n = ''$'' @ show_nat n"

definition create_table_text :: "sql_identifier \<Rightarrow> (string \<times> string) list \<Rightarrow> (sql_identifier \<times> string) list \<Rightarrow> string" where
  "create_table_text table identity columns =
     ''CREATE TABLE '' @ identifier_text table @ '' (''
       @ join '', '' (map (\<lambda>(name, ty). name @ '' '' @ ty) identity @ map (\<lambda>(c, ty). identifier_text c @ '' '' @ ty) columns)
       @ '')''"

definition create_index_text :: "sql_identifier \<Rightarrow> sql_identifier \<Rightarrow> string" where
  "create_index_text index table =
     ''CREATE INDEX '' @ identifier_text index @ '' ON '' @ identifier_text table @ '' (block_number)''"

definition drop_table_text :: "sql_identifier \<Rightarrow> string" where
  "drop_table_text table = ''DROP TABLE IF EXISTS '' @ identifier_text table @ '' CASCADE''"

text \<open>One row: the identity values are separated by a comma, the others by a comma and a blank.\<close>

definition row_placeholders :: "nat \<Rightarrow> nat \<Rightarrow> nat \<Rightarrow> string" where
  "row_placeholders identity width n =
     ''('' @ join '','' (map placeholder [n ..< n + identity])
       @ concat (map (\<lambda>k. '', '' @ placeholder k) [n + identity ..< n + width]) @ '')''"

definition insert_text :: "sql_identifier \<Rightarrow> string list \<Rightarrow> sql_identifier list \<Rightarrow> nat \<Rightarrow> string" where
  "insert_text table identity columns rows =
     (let width = length identity + length columns in
      ''INSERT INTO '' @ identifier_text table @ '' ('' @ join '','' identity
        @ concat (map (\<lambda>c. '', '' @ identifier_text c) columns) @ '') VALUES ''
        @ join '','' (map (\<lambda>k. row_placeholders (length identity) width (k * width + 1)) [0 ..< rows]))"

definition select_rows_text :: "sql_identifier \<Rightarrow> string \<Rightarrow> string" where
  "select_rows_text table kind =
     ''SELECT * FROM '' @ identifier_text table
       @ (if kind = ''call'' then '' ORDER BY block_number DESC, tx_hash DESC''
          else '' ORDER BY block_number DESC, log_index DESC'')
       @ '' LIMIT $1 OFFSET $2''"

fun statement_binds :: "sql \<Rightarrow> nat" where
  "statement_binds (InsertRows table identity columns rows) = sum_list (map length rows)"
| "statement_binds (SelectRows table kind limit skip) = 2"
| "statement_binds (CreateTable table identity columns) = 0"
| "statement_binds (CreateIndex index table) = 0"
| "statement_binds (DropTable table) = 0"
| "statement_binds (InsertChain c u b) = 3"
| "statement_binds SelectChains = 0"
| "statement_binds (SelectChain c) = 1"
| "statement_binds (UpdateChain c u b) = 3"
| "statement_binds (LockChain c) = 1"
| "statement_binds (LockMonitorIds c) = 1"
| "statement_binds (DeleteChain c) = 1"
| "statement_binds (InsertMonitor input) = 9"
| "statement_binds (SelectMonitors only) = 1"
| "statement_binds CountMonitors = 0"
| "statement_binds (SelectMonitor i) = 1"
| "statement_binds (DeleteMonitor i) = 1"
| "statement_binds (UpdateEnabled i b) = 2"
| "statement_binds (CommitMonitors b ids c) = 3"

section \<open>The server\<close>

text \<open>A result row by column name.\<close>

type_synonym pg_row = "(string \<times> pg_cell) list"

datatype pg_answer =
    AnsChains "pg_chain_row list"
  | AnsMonitors "pg_monitor_row list"
  | AnsIds "i64 list"
  | AnsRows "pg_row list"
  | AnsCount int

record 'd postgres =
  pq_begin :: "'d \<Rightarrow> unit result \<times> 'd"
  pq_commit :: "'d \<Rightarrow> unit result \<times> 'd"
  pq_rollback :: "'d \<Rightarrow> 'd"
  pq_execute :: "bool \<Rightarrow> sql \<Rightarrow> 'd \<Rightarrow> pg_answer result \<times> 'd"

text \<open>\<open>query_as\<close>, \<open>query_scalar\<close> and \<open>execute\<close> read the answer they expect.\<close>

definition pg_fetch :: "'d postgres \<Rightarrow> bool \<Rightarrow> (pg_answer \<Rightarrow> 'a option) \<Rightarrow> sql \<Rightarrow> 'd \<Rightarrow> 'a result \<times> 'd" where
  "pg_fetch Q tx read q =
     io_bind (pq_execute Q tx q) (\<lambda>a. io_lift (ok_or [Backend ''unexpected columns''] (read a)))"

fun chain_rows :: "pg_answer \<Rightarrow> pg_chain_row list option" where
  "chain_rows (AnsChains rs) = Some rs"
| "chain_rows _ = None"

fun monitor_rows :: "pg_answer \<Rightarrow> pg_monitor_row list option" where
  "monitor_rows (AnsMonitors rs) = Some rs"
| "monitor_rows _ = None"

fun id_rows :: "pg_answer \<Rightarrow> i64 list option" where
  "id_rows (AnsIds is) = Some is"
| "id_rows _ = None"

fun result_rows :: "pg_answer \<Rightarrow> pg_row list option" where
  "result_rows (AnsRows rs) = Some rs"
| "result_rows _ = None"

fun row_count :: "pg_answer \<Rightarrow> int option" where
  "row_count (AnsCount n) = Some n"
| "row_count _ = None"

definition first_row :: "'r list \<Rightarrow> 'r option" where
  "first_row rs = (case rs of [] \<Rightarrow> None | r # _ \<Rightarrow> Some r)"

definition pg_fetch_one :: "'d postgres \<Rightarrow> bool \<Rightarrow> (pg_answer \<Rightarrow> 'r list option) \<Rightarrow> sql \<Rightarrow> 'd \<Rightarrow> 'r result \<times> 'd" where
  "pg_fetch_one Q tx read q =
     io_bind (pg_fetch Q tx read q) (\<lambda>rs. io_lift (ok_or [Backend ''no rows returned''] (first_row rs)))"

definition pg_fetch_optional ::
  "'d postgres \<Rightarrow> bool \<Rightarrow> (pg_answer \<Rightarrow> 'r list option) \<Rightarrow> sql \<Rightarrow> 'd \<Rightarrow> 'r option result \<times> 'd" where
  "pg_fetch_optional Q tx read q = io_bind (pg_fetch Q tx read q) (\<lambda>rs. io_lift (Inr (first_row rs)))"

text \<open>
  \<open>begin\<close>, a body over the transaction, \<open>commit\<close>. A body that fails drops the transaction, which
  rolls it back.
\<close>

definition pg_transaction :: "'d postgres \<Rightarrow> ('d \<Rightarrow> 'a result \<times> 'd) \<Rightarrow> 'd \<Rightarrow> 'a result \<times> 'd" where
  "pg_transaction Q body d =
     (case pq_begin Q d of
        (Inl e, d1) \<Rightarrow> (Inl e, d1)
      | (Inr _, d1) \<Rightarrow>
          (case body d1 of
             (Inl e, d2) \<Rightarrow> (Inl e, pq_rollback Q d2)
           | (Inr v, d2) \<Rightarrow>
               (case pq_commit Q d2 of (Inl e, d3) \<Rightarrow> (Inl e, d3) | (Inr _, d3) \<Rightarrow> (Inr v, d3))))"

section \<open>The tables and what a statement does to them\<close>

text \<open>A row of a result table has a cell per column, in the order of the columns.\<close>

record pg_table =
  tb_columns :: "string list"
  tb_rows :: "pg_cell list list"

record pg_db =
  pd_chains :: "pg_chain_row list"
  pd_monitors :: "pg_monitor_row list"
  pd_tables :: "string \<Rightarrow> pg_table option"

text \<open>The server keeps the first 63 bytes of an identifier.\<close>

definition pg_name :: "string \<Rightarrow> string" where
  "pg_name s = take 63 s"

definition chain_update_row :: "string option \<Rightarrow> bool option \<Rightarrow> int \<Rightarrow> pg_chain_row \<Rightarrow> pg_chain_row" where
  "chain_update_row u b time row =
     row\<lparr>pgc_rpc_url := (case u of None \<Rightarrow> pgc_rpc_url row | Some v \<Rightarrow> v),
         pgc_enabled := (case b of None \<Rightarrow> pgc_enabled row | Some v \<Rightarrow> v), pgc_updated_at := time\<rparr>"

definition enabled_row :: "bool \<Rightarrow> int \<Rightarrow> pg_monitor_row \<Rightarrow> pg_monitor_row" where
  "enabled_row b time row = row\<lparr>pgm_enabled := b, pgm_updated_at := time\<rparr>"

text \<open>\<open>SET cursor = $1, completed = COALESCE(end_block <= $1, FALSE), updated_at = NOW()\<close>.\<close>

definition commit_row :: "i64 \<Rightarrow> int \<Rightarrow> pg_monitor_row \<Rightarrow> pg_monitor_row" where
  "commit_row block time row =
     row\<lparr>pgm_cursor := Some block,
         pgm_completed := (case pgm_end_block row of None \<Rightarrow> False | Some e \<Rightarrow> e \<le> block), pgm_updated_at := time\<rparr>"

definition commit_hits :: "i64 list \<Rightarrow> i64 \<Rightarrow> pg_monitor_row \<Rightarrow> bool" where
  "commit_hits ids c row = (pgm_id row \<in> set ids \<and> pgm_chain_id row = c)"

definition stored_cells :: "string list \<Rightarrow> (string \<times> pg_cell) list \<Rightarrow> pg_cell list" where
  "stored_cells columns named = map (\<lambda>c. case map_of named c of None \<Rightarrow> CellNull | Some v \<Rightarrow> v) columns"

text \<open>A text cannot hold the character NUL.\<close>

definition storable_cell :: "pg_cell \<Rightarrow> bool" where
  "storable_cell v = (case v of CellText s \<Rightarrow> CHR 0x00 \<notin> set s | _ \<Rightarrow> True)"

definition cell_int :: "pg_row \<Rightarrow> string \<Rightarrow> i64" where
  "cell_int row c = (case map_of row c of Some (CellBigint v) \<Rightarrow> v | _ \<Rightarrow> 0)"

definition cell_bytes :: "pg_row \<Rightarrow> string \<Rightarrow> bytes" where
  "cell_bytes row c = (case map_of row c of Some (CellBytea v) \<Rightarrow> v | _ \<Rightarrow> [])"

text \<open>\<open>ORDER BY block_number DESC\<close>, then \<open>tx_hash DESC\<close> for calls and \<open>log_index DESC\<close> for events.\<close>

definition newer_row :: "string \<Rightarrow> pg_row \<Rightarrow> pg_row \<Rightarrow> bool" where
  "newer_row kind a b =
     (cell_int b ''block_number'' < cell_int a ''block_number''
      \<or> (cell_int a ''block_number'' = cell_int b ''block_number''
         \<and> (if kind = ''call''
            then ord_class.lexordp (map unat (cell_bytes b ''tx_hash'')) (map unat (cell_bytes a ''tx_hash''))
            else cell_int b ''log_index'' < cell_int a ''log_index'')))"

text \<open>
  \<open>sql_effect time q db answer db'\<close>: the statement succeeds on \<open>db\<close> with that answer and leaves \<open>db'\<close>.
  A server may always refuse a statement instead.
\<close>

fun sql_effect :: "int \<Rightarrow> sql \<Rightarrow> pg_db \<Rightarrow> pg_answer \<Rightarrow> pg_db \<Rightarrow> bool" where
  "sql_effect time (InsertChain c u b) db a db' =
     (let row = \<lparr>pgc_chain_id = c, pgc_rpc_url = u, pgc_enabled = b, pgc_created_at = time, pgc_updated_at = time\<rparr> in
      c \<notin> pgc_chain_id ` set (pd_chains db) \<and> 0 \<le> c
      \<and> a = AnsChains [row] \<and> db' = db\<lparr>pd_chains := pd_chains db @ [row]\<rparr>)"
| "sql_effect time SelectChains db a db' =
     (a = AnsChains (sort_key pgc_chain_id (pd_chains db)) \<and> db' = db)"
| "sql_effect time (SelectChain c) db a db' =
     (a = AnsChains (filter (\<lambda>r. pgc_chain_id r = c) (pd_chains db)) \<and> db' = db)"
| "sql_effect time (UpdateChain c u b) db a db' =
     (let f = (\<lambda>r. if pgc_chain_id r = c then chain_update_row u b time r else r) in
      a = AnsChains (map f (filter (\<lambda>r. pgc_chain_id r = c) (pd_chains db)))
      \<and> db' = db\<lparr>pd_chains := map f (pd_chains db)\<rparr>)"
| "sql_effect time (LockChain c) db a db' =
     (a = AnsIds (map pgc_chain_id (filter (\<lambda>r. pgc_chain_id r = c) (pd_chains db))) \<and> db' = db)"
| "sql_effect time (LockMonitorIds c) db a db' =
     (a = AnsIds (sort (map pgm_id (filter (\<lambda>r. pgm_chain_id r = c) (pd_monitors db)))) \<and> db' = db)"
| "sql_effect time (DeleteChain c) db a db' =
     (a = AnsCount (int (length (filter (\<lambda>r. pgc_chain_id r = c) (pd_chains db))))
      \<and> db' = db\<lparr>pd_chains := filter (\<lambda>r. pgc_chain_id r \<noteq> c) (pd_chains db),
                pd_monitors := filter (\<lambda>r. pgm_chain_id r \<noteq> c) (pd_monitors db)\<rparr>)"
| "sql_effect time (InsertMonitor input) db a db' =
     (pgi_chain_id input \<in> pgc_chain_id ` set (pd_chains db)
      \<and> (\<exists>i. 0 < i \<and> i \<le> 9223372036854775807 \<and> i \<notin> pgm_id ` set (pd_monitors db)
           \<and> a = AnsMonitors [pg_inserted_monitor i time input]
           \<and> db' = db\<lparr>pd_monitors := pd_monitors db @ [pg_inserted_monitor i time input]\<rparr>))"
| "sql_effect time (SelectMonitors only) db a db' =
     (a = AnsMonitors (sort_key pgm_id
        (filter (\<lambda>r. case only of None \<Rightarrow> True | Some c \<Rightarrow> pgm_chain_id r = c) (pd_monitors db))) \<and> db' = db)"
| "sql_effect time CountMonitors db a db' = (a = AnsCount (int (length (pd_monitors db))) \<and> db' = db)"
| "sql_effect time (SelectMonitor i) db a db' =
     (a = AnsMonitors (filter (\<lambda>r. pgm_id r = i) (pd_monitors db)) \<and> db' = db)"
| "sql_effect time (DeleteMonitor i) db a db' =
     (a = AnsCount (int (length (filter (\<lambda>r. pgm_id r = i) (pd_monitors db))))
      \<and> db' = db\<lparr>pd_monitors := filter (\<lambda>r. pgm_id r \<noteq> i) (pd_monitors db)\<rparr>)"
| "sql_effect time (UpdateEnabled i b) db a db' =
     (let f = (\<lambda>r. if pgm_id r = i then enabled_row b time r else r) in
      a = AnsMonitors (map f (filter (\<lambda>r. pgm_id r = i) (pd_monitors db)))
      \<and> db' = db\<lparr>pd_monitors := map f (pd_monitors db)\<rparr>)"
| "sql_effect time (CommitMonitors block ids c) db a db' =
     (let f = (\<lambda>r. if commit_hits ids c r then commit_row block time r else r) in
      (\<exists>rows. a = AnsMonitors rows \<and> mset rows = mset (map f (filter (commit_hits ids c) (pd_monitors db))))
      \<and> db' = db\<lparr>pd_monitors := map f (pd_monitors db)\<rparr>)"
| "sql_effect time (CreateTable table identity columns) db a db' =
     (let n = pg_name (identifier_name table);
          names = filter (\<lambda>c. c \<noteq> ''PRIMARY KEY'') (map fst identity) @ map (pg_name \<circ> identifier_name \<circ> fst) columns in
      pd_tables db n = None \<and> distinct names \<and> a = AnsCount 0
      \<and> db' = db\<lparr>pd_tables := (pd_tables db)(n := Some \<lparr>tb_columns = names, tb_rows = []\<rparr>)\<rparr>)"
| "sql_effect time (CreateIndex index table) db a db' = (a = AnsCount 0 \<and> db' = db)"
| "sql_effect time (DropTable table) db a db' =
     (a = AnsCount 0 \<and> db' = db\<lparr>pd_tables := (pd_tables db)(pg_name (identifier_name table) := None)\<rparr>)"
| "sql_effect time (InsertRows table identity columns rows) db a db' =
     (let n = pg_name (identifier_name table); names = identity @ map (pg_name \<circ> identifier_name) columns in
      (\<exists>t. pd_tables db n = Some t \<and> distinct names \<and> set names \<subseteq> set (tb_columns t)
         \<and> (\<forall>row \<in> set rows. length row = length names \<and> (\<forall>v \<in> set row. storable_cell v))
         \<and> a = AnsCount (int (length rows))
         \<and> db' = db\<lparr>pd_tables := (pd_tables db)(n :=
             Some (t\<lparr>tb_rows := tb_rows t @ map (\<lambda>row. stored_cells (tb_columns t) (zip names row)) rows\<rparr>))\<rparr>))"
| "sql_effect time (SelectRows table kind limit skip) db a db' =
     (db' = db
      \<and> (\<exists>t all. pd_tables db (pg_name (identifier_name table)) = Some t
           \<and> mset all = mset (map (zip (tb_columns t)) (tb_rows t))
           \<and> sorted_wrt (\<lambda>x y. \<not> newer_row kind y x) all
           \<and> a = AnsRows (take (nat limit) (drop (nat skip) all))))"

section \<open>The interface\<close>

text \<open>
  The view reads off a driver state the committed tables and those the open transaction would
  leave. The answer to a write or a commit may get lost: then it has taken effect wholly or not at
  all.
\<close>

record 'd pg_view =
  pv_committed :: "'d \<Rightarrow> pg_db"
  pv_pending :: "'d \<Rightarrow> pg_db option"

locale postgres_server =
  fixes Q :: "'d postgres" and V :: "'d pg_view"
  assumes begins: "pq_begin Q d = (r, d') \<Longrightarrow>
      pv_committed V d' = pv_committed V d \<and> (\<forall>u. r = Inr u \<longrightarrow> pv_pending V d' = Some (pv_committed V d))"
    and executes: "pq_execute Q True q d = (ra, d') \<Longrightarrow> pv_pending V d = Some p \<Longrightarrow>
      pv_committed V d' = pv_committed V d
      \<and> (\<forall>a. ra = Inr a \<longrightarrow> (\<exists>time p'. sql_effect time q p a p' \<and> pv_pending V d' = Some p'))"
    and autocommits: "pq_execute Q False q d = (ra, d') \<Longrightarrow>
      (case ra of
         Inr a \<Rightarrow> \<exists>time. sql_effect time q (pv_committed V d) a (pv_committed V d')
       | Inl e \<Rightarrow> pv_committed V d' = pv_committed V d \<or> (\<exists>time a. sql_effect time q (pv_committed V d) a (pv_committed V d')))"
    and commits: "pq_commit Q d = (r, d') \<Longrightarrow> pv_pending V d = Some p \<Longrightarrow>
      (case r of Inr u \<Rightarrow> pv_committed V d' = p | Inl e \<Rightarrow> pv_committed V d' \<in> {pv_committed V d, p})"
    and rollbacks: "pv_committed V (pq_rollback Q d) = pv_committed V d"

section \<open>Sequences of statements inside a transaction\<close>

text \<open>\<open>E p v p'\<close>: with result \<open>v\<close> the pending tables go from \<open>p\<close> to \<open>p'\<close>.\<close>

definition tx_op :: "'d pg_view \<Rightarrow> (pg_db \<Rightarrow> 'a \<Rightarrow> pg_db \<Rightarrow> bool) \<Rightarrow> ('d \<Rightarrow> 'a result \<times> 'd) \<Rightarrow> bool" where
  "tx_op V E m =
     (\<forall>d r d' p. m d = (r, d') \<longrightarrow> pv_pending V d = Some p \<longrightarrow>
        pv_committed V d' = pv_committed V d
        \<and> (\<forall>v. r = Inr v \<longrightarrow> (\<exists>p'. pv_pending V d' = Some p' \<and> E p v p')))"

lemma tx_opD:
  assumes "tx_op V E m" and "m d = (r, d')" and "pv_pending V d = Some p"
  shows "pv_committed V d' = pv_committed V d" and "r = Inr v \<Longrightarrow> \<exists>p'. pv_pending V d' = Some p' \<and> E p v p'"
  using assms unfolding tx_op_def by blast+

lemma tx_lift: "tx_op V (\<lambda>p v p'. r = Inr v \<and> p' = p) (io_lift r)"
  by (auto simp: tx_op_def io_lift_def)

lemma tx_bind:
  assumes m: "tx_op V E m" and f: "\<And>x. tx_op V (G x) (f x)"
  shows "tx_op V (\<lambda>p v p'. \<exists>x p1. E p x p1 \<and> G x p1 v p') (io_bind m f)"
  unfolding tx_op_def
proof (intro allI impI)
  fix d r d' p
  assume run: "io_bind m f d = (r, d')" and p: "pv_pending V d = Some p"
  obtain r1 d1 where m1: "m d = (r1, d1)" by fastforce
  note one = tx_opD [OF m m1 p]
  show "pv_committed V d' = pv_committed V d
      \<and> (\<forall>v. r = Inr v \<longrightarrow> (\<exists>p'. pv_pending V d' = Some p' \<and> (\<exists>x p1. E p x p1 \<and> G x p1 v p')))"
  proof (cases r1)
    case (Inl e)
    with run m1 one(1) show ?thesis by (auto simp: io_bind_def)
  next
    case (Inr x)
    with one(2) obtain p1 where p1: "pv_pending V d1 = Some p1" "E p x p1" by blast
    from run m1 Inr have "f x d1 = (r, d')" by (simp add: io_bind_def)
    note two = tx_opD [OF f this p1(1)]
    have "\<exists>p'. pv_pending V d' = Some p' \<and> (\<exists>x p1. E p x p1 \<and> G x p1 v p')" if "r = Inr v" for v
      using two(2) [OF that] p1(2) by blast
    with two(1) one(1) show ?thesis by simp
  qed
qed

lemma tx_weaken: "tx_op V E m \<Longrightarrow> (\<And>p v p'. E p v p' \<Longrightarrow> G p v p') \<Longrightarrow> tx_op V G m"
  unfolding tx_op_def by blast

context postgres_server begin

lemma tx_execute: "tx_op V (\<lambda>p a p'. \<exists>time. sql_effect time q p a p') (pq_execute Q True q)"
  unfolding tx_op_def using executes by blast

lemma tx_fetch: "tx_op V (\<lambda>p v p'. \<exists>time a. sql_effect time q p a p' \<and> read a = Some v) (pg_fetch Q True read q)"
  unfolding pg_fetch_def
  by (rule tx_weaken [OF tx_bind [OF tx_execute tx_lift]]) (auto simp: ok_or_Inr)

lemma tx_fetch_one:
  "tx_op V (\<lambda>p v p'. \<exists>time a rs. sql_effect time q p a p' \<and> read a = Some (v # rs)) (pg_fetch_one Q True read q)"
  unfolding pg_fetch_one_def
  by (rule tx_weaken [OF tx_bind [OF tx_fetch tx_lift]]) (fastforce simp: ok_or_Inr first_row_def split: list.splits)

lemma tx_fetch_optional:
  "tx_op V (\<lambda>p v p'. \<exists>time a rs. sql_effect time q p a p' \<and> read a = Some rs \<and> v = first_row rs)
     (pg_fetch_optional Q True read q)"
  unfolding pg_fetch_optional_def
  by (rule tx_weaken [OF tx_bind [OF tx_fetch tx_lift]]) auto

text \<open>A whole transaction takes effect as its body did, or not at all.\<close>

lemma transaction_outcome:
  assumes body: "tx_op V E m" and run: "pg_transaction Q m d = (r, d')"
  shows "case r of
      Inr v \<Rightarrow> E (pv_committed V d) v (pv_committed V d')
    | Inl e \<Rightarrow> pv_committed V d' = pv_committed V d \<or> (\<exists>v. E (pv_committed V d) v (pv_committed V d'))"
proof -
  obtain r1 d1 where b: "pq_begin Q d = (r1, d1)" by fastforce
  note started = begins [OF b]
  show ?thesis
  proof (cases r1)
    case (Inl e)
    with run b started show ?thesis by (auto simp: pg_transaction_def)
  next
    case (Inr u)
    with started have p: "pv_pending V d1 = Some (pv_committed V d)" by blast
    obtain r2 d2 where m2: "m d1 = (r2, d2)" by fastforce
    note one = tx_opD [OF body m2 p]
    show ?thesis
    proof (cases r2)
      case (Inl e)
      with run b Inr m2 one(1) started rollbacks show ?thesis by (auto simp: pg_transaction_def)
    next
      case (Inr v)
      with one(2) obtain p' where p': "pv_pending V d2 = Some p'" "E (pv_committed V d) v p'" by blast
      obtain r3 d3 where c: "pq_commit Q d2 = (r3, d3)" by fastforce
      from commits [OF c p'(1)] run b \<open>r1 = Inr u\<close> m2 Inr c one(1) started p'(2) show ?thesis
        by (auto simp: pg_transaction_def split: sum.splits)
    qed
  qed
qed

end

end
