(* ===== verification/Postgres_Results.thy ===== *)
theory Postgres_Results
  imports Postgres_Server
begin

text \<open>
  The result tables of \<open>parseon-postgres/src/dyn_table.rs\<close>: creating and dropping one, writing results
  into it in statements that stay below the bind limit, and reading them back as JSON. \<open>C\<close> holds
  the conversions of the \<open>BigDecimal\<close> and \<open>Url\<close> types.
\<close>

record pg_codec =
  cx_decimal_from_str :: "string \<Rightarrow> string + big_decimal"
  cx_to_plain_string :: "big_decimal \<Rightarrow> string"
  cx_url_parse :: "string \<Rightarrow> string + url"

section \<open>The table of a monitor\<close>

definition table_columns :: "string \<Rightarrow> (string \<times> string) list result" where
  "table_columns kind =
     (if kind = ''call'' then Inr CALL_COLUMNS else if kind = ''event'' then Inr EVENT_COLUMNS
      else Inl (anyhow ''invalid monitor kind''))"

definition result_table :: "i64 \<Rightarrow> sql_identifier result" where
  "result_table i = res_bind (result_table_name i) identifier_new"

definition param_column :: "pg_column \<Rightarrow> (sql_identifier \<times> string) result" where
  "param_column p = res_bind (identifier_new (pp_column p)) (\<lambda>c. Inr (c, pg_ddl (pp_kind p)))"

definition create_result_table :: "externs \<Rightarrow> 'd postgres \<Rightarrow> i64 \<Rightarrow> string \<Rightarrow> pg_param list \<Rightarrow> 'd \<Rightarrow> unit result \<times> 'd" where
  "create_result_table X Q i kind schema =
     io_bind (io_lift (result_table i)) (\<lambda>table.
     io_bind (io_lift (postgres_params X kind schema)) (\<lambda>params.
     io_bind (io_lift (table_columns kind)) (\<lambda>identity.
     io_bind (io_lift (traverse param_column params)) (\<lambda>columns.
     io_bind (pg_fetch Q True row_count (CreateTable table identity columns)) (\<lambda>_.
     io_bind (io_lift (identifier_new (''monitor_'' @ show_int i @ ''_block_idx''))) (\<lambda>index.
     io_bind (pg_fetch Q True row_count (CreateIndex index table)) (\<lambda>_.
     io_lift (Inr ()))))))))"

definition drop_result_table :: "'d postgres \<Rightarrow> i64 \<Rightarrow> 'd \<Rightarrow> unit result \<times> 'd" where
  "drop_result_table Q i =
     io_bind (io_lift (result_table i)) (\<lambda>table.
     io_bind (pg_fetch Q True row_count (DropTable table)) (\<lambda>_.
     io_lift (Inr ())))"

section \<open>Writing results\<close>

record call_input =
  ci_tx_hash :: b256
  ci_block_number :: block_number
  ci_params :: "decoded_value list"

record event_input =
  ei_tx_hash :: b256
  ei_log_index :: u64
  ei_block_number :: block_number
  ei_params :: "decoded_value list"

definition push_value :: "externs \<Rightarrow> pg_codec \<Rightarrow> decoded_value \<Rightarrow> pg_cell result" where
  "push_value X C v =
     (case v of
        DUint w \<Rightarrow> res_bind (pg_foreign (cx_decimal_from_str C (u256_display X w))) (\<lambda>d. Inr (CellNumeric d))
      | DInt w \<Rightarrow> res_bind (pg_foreign (cx_decimal_from_str C (i256_display X w))) (\<lambda>d. Inr (CellNumeric d))
      | DBool b \<Rightarrow> Inr (CellBool b)
      | DAddress a \<Rightarrow> Inr (CellBytea (be_bytes 20 a))
      | DString s \<Rightarrow> Inr (CellText s)
      | DBytes bs \<Rightarrow> Inr (CellBytea bs))"

definition push_values :: "externs \<Rightarrow> pg_codec \<Rightarrow> decoded_value list \<Rightarrow> pg_cell list result" where
  "push_values X C vs = traverse (push_value X C) vs"

definition push_param_columns :: "pg_column list \<Rightarrow> sql_identifier list result" where
  "push_param_columns params = traverse (\<lambda>p. identifier_new (pp_column p)) params"

definition call_cells :: "externs \<Rightarrow> pg_codec \<Rightarrow> call_input \<Rightarrow> pg_cell list result" where
  "call_cells X C inp =
     res_bind (pg_to_i64 (ci_block_number inp) ''block number'') (\<lambda>b.
     res_bind (push_values X C (ci_params inp)) (\<lambda>vs.
     Inr (CellBytea (be_bytes 32 (ci_tx_hash inp)) # CellBigint b # vs)))"

definition event_cells :: "externs \<Rightarrow> pg_codec \<Rightarrow> event_input \<Rightarrow> pg_cell list result" where
  "event_cells X C inp =
     res_bind (pg_to_i64 (ei_log_index inp) ''log index'') (\<lambda>l.
     res_bind (pg_to_i64 (ei_block_number inp) ''block number'') (\<lambda>b.
     res_bind (push_values X C (ei_params inp)) (\<lambda>vs.
     Inr (CellBytea (be_bytes 32 (ei_tx_hash inp)) # CellBigint l # CellBigint b # vs))))"

text \<open>\<open>slice::chunks\<close>, for a positive size.\<close>

function slice_chunks :: "nat \<Rightarrow> 'a list \<Rightarrow> 'a list list" where
  "slice_chunks n xs = (if xs = [] \<or> n = 0 then [] else take n xs # slice_chunks n (drop n xs))"
  by pat_completeness auto
termination by (relation "measure (\<lambda>(n, xs). length xs)") auto

declare slice_chunks.simps [simp del]

definition BIND_LIMIT :: nat where "BIND_LIMIT = 65535"

definition io_each :: "('a \<Rightarrow> 'd \<Rightarrow> unit result \<times> 'd) \<Rightarrow> 'a list \<Rightarrow> 'd \<Rightarrow> unit result \<times> 'd" where
  "io_each f xs = io_bind (io_traverse f xs) (\<lambda>_. io_lift (Inr ()))"

definition insert_chunk ::
  "'d postgres \<Rightarrow> sql_identifier \<Rightarrow> string list \<Rightarrow> pg_column list \<Rightarrow> ('i \<Rightarrow> pg_cell list result) \<Rightarrow> 'i list
     \<Rightarrow> 'd \<Rightarrow> unit result \<times> 'd" where
  "insert_chunk Q table identity params cells chunk =
     io_bind (io_lift (push_param_columns params)) (\<lambda>columns.
     io_bind (io_lift (traverse cells chunk)) (\<lambda>rows.
     io_bind (pg_fetch Q True row_count (InsertRows table identity columns rows)) (\<lambda>inserted.
     io_lift (ensure (inserted = int (length chunk)) (anyhow ''result row count mismatch'')))))"

definition insert_calls ::
  "externs \<Rightarrow> pg_codec \<Rightarrow> 'd postgres \<Rightarrow> i64 \<Rightarrow> pg_param list \<Rightarrow> call_input list \<Rightarrow> 'd \<Rightarrow> unit result \<times> 'd" where
  "insert_calls X C Q i schema inputs =
     io_bind (io_lift (postgres_params X ''call'' schema)) (\<lambda>params.
     io_bind (io_lift (ensure (list_all (\<lambda>inp. length params = length (ci_params inp)) inputs)
                (anyhow ''parameter count mismatch''))) (\<lambda>_.
     let width = length params + 2 in
     io_bind (io_lift (ensure (width \<le> BIND_LIMIT) (anyhow ''result row exceeds PostgreSQL bind limit''))) (\<lambda>_.
     io_bind (io_lift (result_table i)) (\<lambda>table.
     io_each (insert_chunk Q table [''tx_hash'', ''block_number''] params (call_cells X C))
       (slice_chunks (BIND_LIMIT div width) inputs)))))"

definition insert_events ::
  "externs \<Rightarrow> pg_codec \<Rightarrow> 'd postgres \<Rightarrow> i64 \<Rightarrow> pg_param list \<Rightarrow> event_input list \<Rightarrow> 'd \<Rightarrow> unit result \<times> 'd" where
  "insert_events X C Q i schema inputs =
     io_bind (io_lift (postgres_params X ''event'' schema)) (\<lambda>params.
     io_bind (io_lift (ensure (list_all (\<lambda>inp. length params = length (ei_params inp)) inputs)
                (anyhow ''parameter count mismatch''))) (\<lambda>_.
     let width = length params + 3 in
     io_bind (io_lift (ensure (width \<le> BIND_LIMIT) (anyhow ''result row exceeds PostgreSQL bind limit''))) (\<lambda>_.
     io_bind (io_lift (result_table i)) (\<lambda>table.
     io_each (insert_chunk Q table [''tx_hash'', ''log_index'', ''block_number''] params (event_cells X C))
       (slice_chunks (BIND_LIMIT div width) inputs)))))"

section \<open>Reading results\<close>

definition try_get :: "pg_row \<Rightarrow> string \<Rightarrow> pg_cell result" where
  "try_get row c = ok_or [Backend (''no column found for name: '' @ c)] (map_of row c)"

definition column_mismatch :: error where
  "column_mismatch = [Backend ''error occurred while decoding column'']"

definition get_bytes :: "pg_row \<Rightarrow> string \<Rightarrow> bytes result" where
  "get_bytes row c = res_bind (try_get row c) (\<lambda>v. case v of CellBytea bs \<Rightarrow> Inr bs | _ \<Rightarrow> Inl column_mismatch)"

definition get_i64 :: "pg_row \<Rightarrow> string \<Rightarrow> i64 result" where
  "get_i64 row c = res_bind (try_get row c) (\<lambda>v. case v of CellBigint i \<Rightarrow> Inr i | _ \<Rightarrow> Inl column_mismatch)"

definition cell_json :: "externs \<Rightarrow> pg_codec \<Rightarrow> pg_column_type \<Rightarrow> pg_cell \<Rightarrow> json result" where
  "cell_json X C k v =
     (case (k, v) of
        (_, CellNull) \<Rightarrow> Inr JNull
      | (PgNumeric, CellNumeric d) \<Rightarrow> Inr (JString (cx_to_plain_string C d))
      | (PgBool, CellBool b) \<Rightarrow> Inr (JBool b)
      | (PgText, CellText s) \<Rightarrow> Inr (JString s)
      | (PgBytea, CellBytea bs) \<Rightarrow> Inr (JString (''0x'' @ hex_encode X bs))
      | _ \<Rightarrow> Inl column_mismatch)"

definition read_params :: "externs \<Rightarrow> pg_codec \<Rightarrow> pg_column list \<Rightarrow> pg_row \<Rightarrow> json result" where
  "read_params X C params row =
     res_bind (traverse (\<lambda>p. res_bind (try_get row (pp_column p)) (\<lambda>v.
                 res_bind (cell_json X C (pp_kind p) v) (\<lambda>value. Inr (pp_name p, value)))) params) (\<lambda>fs.
     Inr (collect_object fs))"

definition read_result :: "externs \<Rightarrow> pg_codec \<Rightarrow> string \<Rightarrow> pg_column list \<Rightarrow> pg_row \<Rightarrow> result_record result" where
  "read_result X C kind params row =
     res_bind (read_params X C params row) (\<lambda>decoded.
     if kind = ''call'' then
       res_bind (res_bind (get_bytes row ''tx_hash'') (\<lambda>bs. pg_b256 bs ''transaction hash'')) (\<lambda>h.
       res_bind (res_bind (get_i64 row ''block_number'') (\<lambda>v. pg_from_i64 v ''block number'')) (\<lambda>b.
       Inr (RecordCall h b decoded)))
     else
       res_bind (res_bind (get_bytes row ''tx_hash'') (\<lambda>bs. pg_b256 bs ''transaction hash'')) (\<lambda>h.
       res_bind (res_bind (get_i64 row ''log_index'') (\<lambda>v. pg_from_i64 v ''log index'')) (\<lambda>l.
       res_bind (res_bind (get_i64 row ''block_number'') (\<lambda>v. pg_from_i64 v ''block number'')) (\<lambda>b.
       Inr (RecordEvent h l b decoded)))))"

definition table_results ::
  "externs \<Rightarrow> pg_codec \<Rightarrow> 'd postgres \<Rightarrow> i64 \<Rightarrow> string \<Rightarrow> pg_param list \<Rightarrow> page_limit \<Rightarrow> u64
     \<Rightarrow> 'd \<Rightarrow> result_record list result \<times> 'd" where
  "table_results X C Q i kind schema limit offset =
     io_bind (io_lift (postgres_params X kind schema)) (\<lambda>params.
     io_bind (io_lift (result_table i)) (\<lambda>table.
     io_bind (io_lift (pg_to_i64 offset ''result offset'')) (\<lambda>skip.
     io_bind (pg_fetch Q False result_rows (SelectRows table kind (uint (page_limit_get limit)) skip)) (\<lambda>rows.
     io_lift (traverse (read_result X C kind params) rows)))))"

end
