(* ===== verification/Postgres_Storage.thy ===== *)
theory Postgres_Storage
  imports Postgres_Results
begin

text \<open>
  \<open>parseon-postgres/src/chain_repo.rs\<close>, \<open>monitor_repo.rs\<close> and \<open>storage.rs\<close>: the queries of the
  repositories and the four traits \<open>PostgresStorage\<close> implements, over the driver \<open>Q\<close>. The loops over
  a \<open>HashMap\<close> of results take their order from \<open>G\<close>.
\<close>

section \<open>Chains (\<open>chain_repo.rs\<close>)\<close>

definition pg_chain_not_found :: "i64 \<Rightarrow> error" where
  "pg_chain_not_found c = anyhow (''chain '' @ show_int c @ '' not found'')"

definition repo_create_chain :: "'d postgres \<Rightarrow> chain \<Rightarrow> url \<Rightarrow> bool \<Rightarrow> 'd \<Rightarrow> pg_chain_row result \<times> 'd" where
  "repo_create_chain Q ch u enabled =
     io_bind (io_lift (pg_to_i64 (chain_id_of ch) ''chain id'')) (\<lambda>c.
     pg_fetch_one Q False chain_rows (InsertChain c u enabled))"

definition repo_list_chains :: "'d postgres \<Rightarrow> 'd \<Rightarrow> pg_chain_row list result \<times> 'd" where
  "repo_list_chains Q = pg_fetch Q False chain_rows SelectChains"

definition repo_get_chain :: "'d postgres \<Rightarrow> u64 \<Rightarrow> 'd \<Rightarrow> pg_chain_row result \<times> 'd" where
  "repo_get_chain Q chain_id =
     io_bind (io_lift (pg_to_i64 chain_id ''chain id'')) (\<lambda>c.
     io_bind (pg_fetch_optional Q False chain_rows (SelectChain c)) (\<lambda>found.
     io_lift (ok_or (pg_chain_not_found c) found)))"

definition repo_update_chain :: "'d postgres \<Rightarrow> u64 \<Rightarrow> url option \<Rightarrow> bool option \<Rightarrow> 'd \<Rightarrow> pg_chain_row result \<times> 'd" where
  "repo_update_chain Q chain_id u enabled =
     io_bind (io_lift (pg_to_i64 chain_id ''chain id'')) (\<lambda>c.
     io_bind (pg_fetch_optional Q False chain_rows (UpdateChain c u enabled)) (\<lambda>found.
     io_lift (ok_or (pg_chain_not_found c) found)))"

definition delete_chain_body :: "'d postgres \<Rightarrow> i64 \<Rightarrow> 'd \<Rightarrow> unit result \<times> 'd" where
  "delete_chain_body Q c =
     io_bind (pg_fetch_optional Q True id_rows (LockChain c)) (\<lambda>found.
     io_bind (io_lift (ensure (found \<noteq> None) (pg_chain_not_found c))) (\<lambda>_.
     io_bind (pg_fetch Q True id_rows (LockMonitorIds c)) (\<lambda>ids.
     io_bind (io_each (drop_result_table Q) ids) (\<lambda>_.
     io_bind (pg_fetch Q True row_count (DeleteChain c)) (\<lambda>_.
     io_lift (Inr ()))))))"

definition repo_delete_chain :: "'d postgres \<Rightarrow> u64 \<Rightarrow> 'd \<Rightarrow> unit result \<times> 'd" where
  "repo_delete_chain Q chain_id =
     io_bind (io_lift (pg_to_i64 chain_id ''chain id'')) (\<lambda>c.
     pg_transaction Q (delete_chain_body Q c))"

section \<open>Monitors (\<open>monitor_repo.rs\<close>)\<close>

definition create_monitor_body :: "externs \<Rightarrow> 'd postgres \<Rightarrow> u64 \<Rightarrow> pg_monitor_input \<Rightarrow> 'd \<Rightarrow> pg_monitor_row result \<times> 'd" where
  "create_monitor_body X Q chain_id input =
     io_bind (pg_fetch_optional Q True id_rows (LockChain (pgi_chain_id input))) (\<lambda>found.
     io_bind (io_lift (ensure (found \<noteq> None) (anyhow (''chain '' @ show_u64 chain_id @ '' not found'')))) (\<lambda>_.
     io_bind (pg_fetch_one Q True monitor_rows (InsertMonitor input)) (\<lambda>row.
     io_bind (create_result_table X Q (pgm_id row) (pgm_kind row) (pgi_param_schema input)) (\<lambda>_.
     io_lift (Inr row)))))"

definition create_prepared :: "externs \<Rightarrow> 'd postgres \<Rightarrow> new_monitor \<Rightarrow> 'd \<Rightarrow> pg_monitor_row result \<times> 'd" where
  "create_prepared X Q nm =
     io_bind (io_lift (pg_monitor_input_of X nm)) (\<lambda>input.
     pg_transaction Q (create_monitor_body X Q (chain_id_of (nm_chain nm)) input))"

definition repo_list_monitors :: "'d postgres \<Rightarrow> u64 option \<Rightarrow> 'd \<Rightarrow> pg_monitor_row list result \<times> 'd" where
  "repo_list_monitors Q chain_id =
     io_bind (io_lift (traverse_option (\<lambda>c. pg_to_i64 c ''chain id'') chain_id)) (\<lambda>only.
     pg_fetch Q False monitor_rows (SelectMonitors only))"

definition repo_count_monitors :: "'d postgres \<Rightarrow> 'd \<Rightarrow> nat result \<times> 'd" where
  "repo_count_monitors Q =
     io_bind (pg_fetch Q False row_count CountMonitors) (\<lambda>n.
     io_lift (if n < 0 then Inl [Backend ''out of range integral type conversion attempted''] else Inr (nat n)))"

definition repo_get_monitor :: "'d postgres \<Rightarrow> monitor_id \<Rightarrow> 'd \<Rightarrow> pg_monitor_row result \<times> 'd" where
  "repo_get_monitor Q mid =
     io_bind (io_lift (pg_to_monitor_id mid)) (\<lambda>i.
     pg_fetch_one Q False monitor_rows (SelectMonitor i))"

text \<open>The count of deleted rows is looked at by a debug assertion only.\<close>

definition delete_monitor_body :: "'d postgres \<Rightarrow> i64 \<Rightarrow> 'd \<Rightarrow> unit result \<times> 'd" where
  "delete_monitor_body Q i =
     io_bind (pg_fetch_optional Q True monitor_rows (SelectMonitor i)) (\<lambda>found.
     io_bind (io_lift (ok_or (anyhow (''monitor '' @ show_int i @ '' not found'')) found)) (\<lambda>current.
     io_bind (drop_result_table Q (pgm_id current)) (\<lambda>_.
     io_bind (pg_fetch Q True row_count (DeleteMonitor i)) (\<lambda>_.
     io_lift (Inr ())))))"

definition repo_delete_monitor :: "'d postgres \<Rightarrow> monitor_id \<Rightarrow> 'd \<Rightarrow> unit result \<times> 'd" where
  "repo_delete_monitor Q mid =
     io_bind (io_lift (pg_to_monitor_id mid)) (\<lambda>i.
     pg_transaction Q (delete_monitor_body Q i))"

definition repo_set_enabled :: "'d postgres \<Rightarrow> monitor_id \<Rightarrow> bool \<Rightarrow> 'd \<Rightarrow> pg_monitor_row result \<times> 'd" where
  "repo_set_enabled Q mid enabled =
     io_bind (io_lift (pg_to_monitor_id mid)) (\<lambda>i.
     pg_fetch_one Q False monitor_rows (UpdateEnabled i enabled))"

section \<open>Index storage (\<open>storage.rs\<close>)\<close>

definition pg_load_monitors :: "externs \<Rightarrow> 'd postgres \<Rightarrow> chain \<Rightarrow> 'd \<Rightarrow> monitor list result \<times> 'd" where
  "pg_load_monitors X Q ch =
     io_bind (repo_list_monitors Q (Some (chain_id_of ch))) (\<lambda>rows. io_lift (traverse (pg_monitor X) rows))"

type_synonym call_batches = "(monitor_id \<times> call_input list) list"
type_synonym event_batches = "(monitor_id \<times> event_input list) list"

record pg_order =
  po_calls :: "call_batches \<Rightarrow> call_batches"
  po_events :: "event_batches \<Rightarrow> event_batches"

text \<open>\<open>entry(id).or_insert_with(Vec::new).push(v)\<close>.\<close>

fun group_push :: "'k \<Rightarrow> 'v \<Rightarrow> ('k \<times> 'v list) list \<Rightarrow> ('k \<times> 'v list) list" where
  "group_push k v [] = [(k, [v])]"
| "group_push k v ((k', vs) # rest) = (if k = k' then (k', vs @ [v]) # rest else (k', vs) # group_push k v rest)"

definition call_input_of :: "decoded_call \<Rightarrow> call_input" where
  "call_input_of c = \<lparr>ci_tx_hash = dc_transaction_hash c, ci_block_number = dc_block_number c, ci_params = dc_params c\<rparr>"

definition event_input_of :: "decoded_event \<Rightarrow> event_input" where
  "event_input_of e =
     \<lparr>ei_tx_hash = de_transaction_hash e, ei_log_index = de_log_index e, ei_block_number = de_block_number e,
      ei_params = de_params e\<rparr>"

definition not_locked :: "monitor_id \<Rightarrow> error" where
  "not_locked i = anyhow (''monitor '' @ show_u64 (monitor_id_get i) @ '' was not locked'')"

fun group_results ::
  "(monitor_id \<Rightarrow> pg_monitor_row option) \<Rightarrow> decoded_result list \<Rightarrow> call_batches \<Rightarrow> event_batches
     \<Rightarrow> (call_batches \<times> event_batches) result" where
  "group_results rows [] calls events = Inr (calls, events)"
| "group_results rows (ResultCall c # rs) calls events =
     res_bind (ok_or (not_locked (dc_monitor_id c)) (rows (dc_monitor_id c))) (\<lambda>row.
     res_bind (ensure (pgm_kind row = ''call'') (anyhow ''call result references event monitor'')) (\<lambda>_.
     group_results rows rs (group_push (dc_monitor_id c) (call_input_of c) calls) events))"
| "group_results rows (ResultEvent e # rs) calls events =
     res_bind (ok_or (not_locked (de_monitor_id e)) (rows (de_monitor_id e))) (\<lambda>row.
     res_bind (ensure (pgm_kind row = ''event'') (anyhow ''event result references call monitor'')) (\<lambda>_.
     group_results rows rs calls (group_push (de_monitor_id e) (event_input_of e) events)))"

text \<open>The body of the two loops that insert the groups.\<close>

definition insert_group ::
  "(monitor_id \<Rightarrow> pg_monitor_row option) \<Rightarrow> (i64 \<Rightarrow> pg_param list \<Rightarrow> 'i list \<Rightarrow> 'd \<Rightarrow> unit result \<times> 'd)
     \<Rightarrow> monitor_id \<times> 'i list \<Rightarrow> 'd \<Rightarrow> unit result \<times> 'd" where
  "insert_group rows insert_inputs batch =
     io_bind (io_lift (ok_or (not_locked (fst batch)) (rows (fst batch)))) (\<lambda>row.
     insert_inputs (pgm_id row) (pgm_param_schema row) (snd batch))"

text \<open>The last row of an id wins, as in a \<open>HashMap\<close>.\<close>

definition rows_by_id :: "pg_monitor_row list \<Rightarrow> (monitor_id \<Rightarrow> pg_monitor_row option) result" where
  "rows_by_id rows =
     res_bind (traverse (\<lambda>row. res_bind (pg_from_monitor_id (pgm_id row)) (\<lambda>i. Inr (i, row))) rows) (\<lambda>pairs.
     Inr (map_of (rev pairs)))"

definition commit_body :: "externs \<Rightarrow> pg_codec \<Rightarrow> pg_order \<Rightarrow> 'd postgres \<Rightarrow> block_commit \<Rightarrow> 'd \<Rightarrow> unit result \<times> 'd" where
  "commit_body X C G Q c =
     io_bind (io_lift (traverse (\<lambda>m. pg_to_monitor_id (mon_id m)) (bc_monitors c))) (\<lambda>ids.
     let ids = remdups_adj (sort ids) in
     io_bind (io_lift (pg_to_i64 (bc_block_number c) ''block number'')) (\<lambda>block_number.
     io_bind (io_lift (pg_to_i64 (chain_id_of (bc_chain c)) ''chain id'')) (\<lambda>chain_id.
     io_bind (pg_fetch Q True monitor_rows (CommitMonitors block_number ids chain_id)) (\<lambda>rows.
     io_bind (io_lift (ensure (length rows = length ids)
       (anyhow (''monitor set changed before block '' @ show_u64 (bc_block_number c) @ '' could be committed'')))) (\<lambda>_.
     io_bind (io_lift (rows_by_id rows)) (\<lambda>by_id.
     io_bind (io_lift (group_results by_id (bc_results c) [] [])) (\<lambda>(calls, events).
     io_bind (io_each (insert_group by_id (insert_calls X C Q)) (po_calls G calls)) (\<lambda>_.
     io_each (insert_group by_id (insert_events X C Q)) (po_events G events)))))))))"

definition pg_commit_block :: "externs \<Rightarrow> pg_codec \<Rightarrow> pg_order \<Rightarrow> 'd postgres \<Rightarrow> block_commit \<Rightarrow> 'd \<Rightarrow> unit result \<times> 'd" where
  "pg_commit_block X C G Q c =
     io_bind (io_lift (ensure (list_all (\<lambda>m. mon_chain m = bc_chain c) (bc_monitors c))
       (anyhow (''cross-chain monitor set rejected for chain '' @ show_u64 (chain_id_of (bc_chain c)))))) (\<lambda>_.
     pg_transaction Q (commit_body X C G Q c))"

section \<open>The other traits\<close>

definition pg_query_results ::
  "externs \<Rightarrow> pg_codec \<Rightarrow> 'd postgres \<Rightarrow> monitor_record \<Rightarrow> result_query \<Rightarrow> 'd \<Rightarrow> result_record list result \<times> 'd" where
  "pg_query_results X C Q monitor q =
     (let (kind, params) = (case mr_target monitor of CallT t \<Rightarrow> (''call'', ct_inputs t) | EventT t \<Rightarrow> (''event'', et_params t)) in
      io_bind (io_lift (pg_to_monitor_id (mr_id monitor))) (\<lambda>i.
      table_results X C Q i kind (map (pg_param_of X) params) (rq_limit q) (rq_offset q)))"

definition pg_index_storage :: "externs \<Rightarrow> pg_codec \<Rightarrow> pg_order \<Rightarrow> 'd postgres \<Rightarrow> 'd index_storage" where
  "pg_index_storage X C G Q =
     \<lparr>is_load_monitors = (\<lambda>d ch. fst (pg_load_monitors X Q ch d)),
      is_commit_block = (\<lambda>d c. pg_commit_block X C G Q c d)\<rparr>"

text \<open>A row the repository returns becomes a record of the core.\<close>

definition io_map :: "('a \<Rightarrow> 'b result) \<Rightarrow> ('d \<Rightarrow> 'a result \<times> 'd) \<Rightarrow> 'd \<Rightarrow> 'b result \<times> 'd" where
  "io_map f m = io_bind m (\<lambda>v. io_lift (f v))"

definition pg_repository :: "externs \<Rightarrow> pg_codec \<Rightarrow> 'd postgres \<Rightarrow> 'd repository" where
  "pg_repository X C Q =
     (let to_chain = pg_chain_record (cx_url_parse C); to_monitor = pg_monitor_record X in
      \<lparr>rp_list_registered_chains = (\<lambda>d. fst (io_map (traverse (pg_registered (cx_url_parse C))) (repo_list_chains Q) d)),
       rp_create_chain = (\<lambda>d nc. io_map to_chain (repo_create_chain Q (nc_chain nc) (nc_rpc_url nc) (nc_enabled nc)) d),
       rp_list_chains = (\<lambda>d. fst (io_map (traverse to_chain) (repo_list_chains Q) d)),
       rp_get_chain = (\<lambda>d ch. fst (io_map to_chain (repo_get_chain Q (chain_id_of ch)) d)),
       rp_update_chain = (\<lambda>d ch u. io_map to_chain (repo_update_chain Q (chain_id_of ch) (cu_rpc_url u) (cu_enabled u)) d),
       rp_delete_chain = (\<lambda>d ch. repo_delete_chain Q (chain_id_of ch) d),
       rp_count_monitors = (\<lambda>d. fst (repo_count_monitors Q d)),
       rp_create_monitor = (\<lambda>d nm. io_map to_monitor (create_prepared X Q nm) d),
       rp_list_monitors = (\<lambda>d ch. fst (io_map (traverse to_monitor) (repo_list_monitors Q (map_option chain_id_of ch)) d)),
       rp_get_monitor = (\<lambda>d i. fst (io_map to_monitor (repo_get_monitor Q i) d)),
       rp_set_monitor_enabled = (\<lambda>d i b. io_map to_monitor (repo_set_enabled Q i b) d),
       rp_delete_monitor = (\<lambda>d i. repo_delete_monitor Q i d),
       rp_query_results = (\<lambda>d monitor q. fst (pg_query_results X C Q monitor q d))\<rparr>)"

end
