(* ===== verification/Postgres_Contract.thy ===== *)
theory Postgres_Contract
  imports Postgres_Storage
begin

text \<open>
  What the transactions of \<open>PostgresStorage\<close> do to the tables: every body gets a relation between
  the tables before and after it, composed from the effects of its statements.
\<close>

section \<open>Names of result tables\<close>

definition monitor_table :: "i64 \<Rightarrow> string" where
  "monitor_table i = ''monitor_'' @ show_int i @ ''_results''"

lemma length_show_nat: "n < 10 ^ Suc k \<Longrightarrow> length (show_nat n) \<le> Suc k"
proof (induction k arbitrary: n)
  case 0
  then show ?case by (subst show_nat.simps) simp
next
  case (Suc k)
  show ?case
  proof (cases "n < 10")
    case True
    then show ?thesis by (subst show_nat.simps) simp
  next
    case False
    from Suc.prems have "n div 10 < 10 ^ Suc k" by (simp add: less_mult_imp_div_less)
    from Suc.IH [OF this] False show ?thesis by (subst show_nat.simps) simp
  qed
qed

lemma pg_name_short [simp]: "length s \<le> 63 \<Longrightarrow> pg_name s = s"
  by (simp add: pg_name_def)

lemma pg_name_table [simp]: "0 < i \<Longrightarrow> i \<le> 9223372036854775807 \<Longrightarrow> pg_name (monitor_table i) = monitor_table i"
proof -
  assume i: "0 < i" "i \<le> 9223372036854775807"
  then have "nat i < 10 ^ Suc 18" by simp
  from length_show_nat [OF this] i show ?thesis by (intro pg_name_short) (simp add: monitor_table_def show_int_def)
qed

lemma monitor_table_inject [simp]: "monitor_table i = monitor_table j \<longleftrightarrow> i = j"
  by (simp add: monitor_table_def)

lemma result_table_Inr [res_simps]: "result_table i = Inr t \<longleftrightarrow> 0 < i \<and> t = Identifier (monitor_table i)"
proof -
  have "CHR 0x00 \<notin> set (show_nat n)" for n
    using show_nat_digits [of "CHR 0x00" n] by (auto simp: is_ascii_digit_def)
  then show ?thesis
    by (auto simp: result_table_def result_table_name_def identifier_new_def monitor_table_def show_int_def split: if_splits)
qed

section \<open>Loops\<close>

fun each_rel :: "('i \<Rightarrow> pg_db \<Rightarrow> unit \<Rightarrow> pg_db \<Rightarrow> bool) \<Rightarrow> 'i list \<Rightarrow> pg_db \<Rightarrow> pg_db \<Rightarrow> bool" where
  "each_rel E [] p p' = (p' = p)"
| "each_rel E (x # xs) p p' = (\<exists>p1. E x p () p1 \<and> each_rel E xs p1 p')"

lemma tx_each:
  assumes "\<And>x. tx_op V (E x) (f x)"
  shows "tx_op V (\<lambda>p v p'. each_rel E xs p p') (io_each f xs)"
proof -
  have "tx_op V (\<lambda>p vs p'. each_rel E xs p p') (io_traverse f xs)"
  proof (induction xs)
    case Nil
    show ?case unfolding io_traverse.simps(1) by (rule tx_weaken [OF tx_lift]) auto
  next
    case (Cons x xs)
    show ?case unfolding io_traverse.simps(2)
      by (rule tx_weaken [OF tx_bind [OF assms tx_bind [OF Cons.IH tx_lift]]]) auto
  qed
  then show ?thesis unfolding io_each_def
    by (rule tx_weaken [OF tx_bind [OF _ tx_lift]]) auto
qed

section \<open>Inserting results\<close>

definition append_rows :: "i64 \<Rightarrow> pg_cell list list \<Rightarrow> pg_db \<Rightarrow> pg_db" where
  "append_rows i rows db =
     db\<lparr>pd_tables := (pd_tables db)(monitor_table i :=
       map_option (\<lambda>t. t\<lparr>tb_rows := tb_rows t @ rows\<rparr>) (pd_tables db (monitor_table i)))\<rparr>"

definition result_columns :: "string \<Rightarrow> pg_param list \<Rightarrow> string list" where
  "result_columns kind schema =
     (let reserved = (if kind = ''call'' then CALL_RESERVED else EVENT_RESERVED) in
      reserved @ map pg_name (column_names reserved [] (map pgp_name schema)))"

text \<open>The monitor's table exists with the columns of its schema.\<close>

definition has_table :: "pg_db \<Rightarrow> i64 \<Rightarrow> string \<Rightarrow> pg_param list \<Rightarrow> bool" where
  "has_table db i kind schema =
     (\<exists>t. pd_tables db (monitor_table i) = Some t \<and> tb_columns t = result_columns kind schema)"

lemma append_rows_Nil [simp]: "append_rows i [] db = db"
  by (cases "pd_tables db (monitor_table i)") (auto simp: append_rows_def fun_upd_idem_iff)

lemma append_rows_append: "append_rows i ys (append_rows i xs db) = append_rows i (xs @ ys) db"
  by (simp add: append_rows_def option.map_comp comp_def)

lemma has_table_append [simp]: "has_table (append_rows j rows db) i kind schema = has_table db i kind schema"
  by (auto simp: has_table_def append_rows_def)

lemma pd_monitors_append [simp]: "pd_monitors (append_rows i rows db) = pd_monitors db"
  by (simp add: append_rows_def)

lemma stored_cells_same:
  "distinct names \<Longrightarrow> length row = length names \<Longrightarrow> stored_cells names (zip names row) = row"
  by (rule nth_equalityI) (simp_all add: stored_cells_def map_of_zip_nth)

lemma insert_rows_effect:
  assumes "sql_effect time (InsertRows (Identifier (monitor_table i)) identity columns rows) db a db'"
    and "0 < i" and "i \<le> 9223372036854775807"
    and t: "pd_tables db (monitor_table i) = Some t" and cols: "tb_columns t = identity @ map (pg_name \<circ> identifier_name) columns"
  shows "db' = append_rows i rows db"
proof -
  have "map (\<lambda>row. stored_cells (tb_columns t) (zip (tb_columns t) row)) rows = rows"
    using assms(1-3) t cols by (auto simp: Let_def stored_cells_same intro!: map_idI)
  with assms show ?thesis by (simp add: Let_def append_rows_def)
qed

text \<open>The server takes a row only when it can hold every value.\<close>

definition storable_rows :: "pg_cell list list \<Rightarrow> bool" where
  "storable_rows rows = (\<forall>row \<in> set rows. \<forall>v \<in> set row. storable_cell v)"

lemma storable_rows_append [simp]: "storable_rows []" "storable_rows (xs @ ys) \<longleftrightarrow> storable_rows xs \<and> storable_rows ys"
  by (auto simp: storable_rows_def)

lemma insert_rows_storable:
  "sql_effect time (InsertRows table identity columns rows) db a db' \<Longrightarrow> storable_rows rows"
  by (auto simp: Let_def storable_rows_def)

lemma concat_slice_chunks: "0 < n \<Longrightarrow> concat (slice_chunks n xs) = xs"
proof (induction n xs rule: slice_chunks.induct)
  case (1 n xs)
  then show ?case by (subst slice_chunks.simps) (auto simp: append_take_drop_id)
qed

text \<open>Writing a chunk, and writing them all, appends the rows of the inputs.\<close>

definition chunk_rel ::
  "i64 \<Rightarrow> string list \<Rightarrow> pg_column list \<Rightarrow> ('i \<Rightarrow> pg_cell list result) \<Rightarrow> 'i list \<Rightarrow> pg_db \<Rightarrow> unit \<Rightarrow> pg_db \<Rightarrow> bool" where
  "chunk_rel i identity params cells chunk p u p' =
     (i \<le> 9223372036854775807 \<longrightarrow> (\<exists>rows. traverse cells chunk = Inr rows \<and> storable_rows rows
       \<and> (\<forall>t. pd_tables p (monitor_table i) = Some t \<longrightarrow> tb_columns t = identity @ map (pg_name \<circ> pp_column) params
            \<longrightarrow> p' = append_rows i rows p)))"

lemma chunks_rel:
  assumes "i \<le> 9223372036854775807" and "each_rel (chunk_rel i identity params cells) chunks p p'"
    and "pd_tables p (monitor_table i) = Some t" and "tb_columns t = identity @ map (pg_name \<circ> pp_column) params"
  shows "\<exists>rows. traverse cells (concat chunks) = Inr rows \<and> storable_rows rows \<and> p' = append_rows i rows p"
  using assms(2-)
proof (induction chunks arbitrary: p t)
  case (Cons chunk chunks)
  from Cons.prems obtain rows where rows: "traverse cells chunk = Inr rows" "storable_rows rows"
    and rest: "each_rel (chunk_rel i identity params cells) chunks (append_rows i rows p) p'"
    unfolding each_rel.simps chunk_rel_def [of _ _ _ _ chunk] using assms(1) by blast
  have "pd_tables (append_rows i rows p) (monitor_table i) = Some (t\<lparr>tb_rows := tb_rows t @ rows\<rparr>)"
    using Cons.prems(2) by (simp add: append_rows_def)
  moreover have "tb_columns (t\<lparr>tb_rows := tb_rows t @ rows\<rparr>) = identity @ map (pg_name \<circ> pp_column) params"
    using Cons.prems(3) by simp
  ultimately obtain more where
    "traverse cells (concat chunks) = Inr more" "storable_rows more" "p' = append_rows i more (append_rows i rows p)"
    using Cons.IH [OF rest] by blast
  with rows show ?case by (simp add: traverse_append append_rows_append)
qed (use assms in simp)

lemma push_param_columns_names: "push_param_columns params = Inr columns \<Longrightarrow> map identifier_name columns = map pp_column params"
  unfolding push_param_columns_def
  by (induction params arbitrary: columns) (auto simp: res_simps identifier_new_def split: if_splits)

context postgres_server begin

lemma tx_insert_chunk:
  assumes "0 < i"
  shows "tx_op V (chunk_rel i identity params cells chunk) (insert_chunk Q (Identifier (monitor_table i)) identity params cells chunk)"
  unfolding insert_chunk_def
proof (rule tx_weaken [OF tx_bind [OF tx_lift tx_bind [OF tx_lift tx_bind [OF tx_fetch tx_lift]]]], elim exE conjE)
  fix p u p' columns p1 rows p2 inserted p3 time a
  assume columns: "push_param_columns params = Inr columns" and rows: "traverse cells chunk = Inr rows"
    and effect: "sql_effect time (InsertRows (Identifier (monitor_table i)) identity columns rows) p2 a p3"
    and same: "p1 = p" "p2 = p1" "p' = p3"
  have names: "map (pg_name \<circ> pp_column) params = map (pg_name \<circ> identifier_name) columns"
    using push_param_columns_names [OF columns] by (metis list.map_comp)
  show "chunk_rel i identity params cells chunk p u p'"
    unfolding chunk_rel_def names same
    using rows insert_rows_effect [OF effect assms] same insert_rows_storable [OF effect] by blast
qed

end

text \<open>What \<open>insert_calls\<close> and \<open>insert_events\<close> do to a table that fits the schema.\<close>

definition insert_rel ::
  "string \<Rightarrow> ('i \<Rightarrow> pg_cell list result) \<Rightarrow> i64 \<Rightarrow> pg_param list \<Rightarrow> 'i list \<Rightarrow> pg_db \<Rightarrow> unit \<Rightarrow> pg_db \<Rightarrow> bool" where
  "insert_rel kind cells i schema inputs p u p' =
     (i \<le> 9223372036854775807 \<longrightarrow> has_table p i kind schema \<longrightarrow>
        (\<exists>rows. traverse cells inputs = Inr rows \<and> storable_rows rows \<and> p' = append_rows i rows p))"

lemma insert_relI:
  assumes params: "postgres_params X kind schema = Inr params" and kind: "kind = ''call'' \<or> kind = ''event''"
    and identity: "identity = (if kind = ''call'' then CALL_RESERVED else EVENT_RESERVED)"
    and chunks: "each_rel (chunk_rel i identity params cells) (slice_chunks (BIND_LIMIT div width) inputs) p p'"
    and width: "0 < width" "width \<le> BIND_LIMIT"
  shows "insert_rel kind cells i schema inputs p u p'"
  unfolding insert_rel_def
proof (intro impI)
  assume i: "i \<le> 9223372036854775807" and "has_table p i kind schema"
  then obtain t where t: "pd_tables p (monitor_table i) = Some t" "tb_columns t = result_columns kind schema"
    by (auto simp: has_table_def)
  from postgres_params_Inr(2) [OF params]
  have "map pp_column params = column_names identity [] (map pgp_name schema)"
    using kind by (auto simp: reserved_columns_def identity split: if_splits)
  then have "tb_columns t = identity @ map (pg_name \<circ> pp_column) params"
    using t(2) by (simp add: result_columns_def identity flip: map_map)
  from chunks_rel [OF i chunks t(1) this] show "\<exists>rows. traverse cells inputs = Inr rows \<and> storable_rows rows \<and> p' = append_rows i rows p"
    using width by (simp add: concat_slice_chunks div_greater_zero_iff)
qed

context postgres_server begin

lemma tx_chunk:
  assumes "result_table i = Inr table"
  shows "tx_op V (chunk_rel i identity params cells chunk) (insert_chunk Q table identity params cells chunk)"
  using assms tx_insert_chunk by (auto simp: result_table_Inr)

lemma tx_chunks:
  "tx_op V (\<lambda>p v p'. each_rel (chunk_rel i identity params cells) chunks p p')
    (io_bind (io_lift (result_table i)) (\<lambda>table. io_each (insert_chunk Q table identity params cells) chunks))"
proof (cases "result_table i")
  case (Inl e)
  then show ?thesis by (simp add: tx_op_def io_bind_def io_lift_def)
next
  case (Inr table)
  from tx_each [OF tx_chunk [OF Inr]]
  show ?thesis by (simp add: Inr io_bind_def [abs_def] io_lift_def)
qed

lemma tx_insert_calls: "tx_op V (insert_rel ''call'' (call_cells X C) i schema inputs) (insert_calls X C Q i schema inputs)"
  unfolding insert_calls_def Let_def
  by (rule tx_weaken [OF tx_bind [OF tx_lift tx_bind [OF tx_lift tx_bind [OF tx_lift tx_chunks]]]])
    (auto simp: res_simps CALL_RESERVED_def BIND_LIMIT_def intro: insert_relI)

lemma tx_insert_events: "tx_op V (insert_rel ''event'' (event_cells X C) i schema inputs) (insert_events X C Q i schema inputs)"
  unfolding insert_events_def Let_def
  by (rule tx_weaken [OF tx_bind [OF tx_lift tx_bind [OF tx_lift tx_bind [OF tx_lift tx_chunks]]]])
    (auto simp: res_simps EVENT_RESERVED_def BIND_LIMIT_def intro: insert_relI)

end

end
