(* ===== verification/Postgres_Commit.thy ===== *)
theory Postgres_Commit
  imports Postgres_Contract
begin

text \<open>
  \<open>commit_block\<close> of \<open>PostgresStorage\<close>: the results are grouped by monitor and written group by group
  in any order; in the end every table has the rows of its monitor's results appended, in their
  order, and exactly the monitors of the commit have their cursors moved.
\<close>

section \<open>Grouping\<close>

definition batch_of :: "'k \<Rightarrow> ('k \<times> 'v list) list \<Rightarrow> 'v list" where
  "batch_of k bs = (case map_of bs k of None \<Rightarrow> [] | Some vs \<Rightarrow> vs)"

lemma batch_of_push: "batch_of k (group_push k' v bs) = (if k = k' then batch_of k bs @ [v] else batch_of k bs)"
  by (induction k' v bs rule: group_push.induct) (auto simp: batch_of_def)

lemma keys_push: "fst ` set (group_push k v bs) = insert k (fst ` set bs)"
  by (induction k v bs rule: group_push.induct) auto

lemma distinct_push: "distinct (map fst bs) \<Longrightarrow> distinct (map fst (group_push k v bs))"
proof (induction k v bs rule: group_push.induct)
  case (2 k v k' vs rest)
  then show ?case using keys_push [of k v rest] by (auto simp: image_iff)
qed simp

lemma batch_of_perm:
  assumes "distinct (map fst bs)" and "mset bs' = mset bs"
  shows "batch_of k bs' = batch_of k bs"
proof -
  have "distinct (map fst bs')" using assms by (metis mset_eq_imp_distinct_iff mset_map)
  with assms have "map_of bs' = map_of bs" by (metis map_of_eqI mset_eq_setD set_map map_of_inject_set)
  then show ?thesis by (simp add: batch_of_def)
qed

definition calls_of :: "monitor_id \<Rightarrow> decoded_result list \<Rightarrow> call_input list" where
  "calls_of k rs = List.map_filter (\<lambda>r. case r of
     ResultCall c \<Rightarrow> if dc_monitor_id c = k then Some (call_input_of c) else None | ResultEvent e \<Rightarrow> None) rs"

definition events_of :: "monitor_id \<Rightarrow> decoded_result list \<Rightarrow> event_input list" where
  "events_of k rs = List.map_filter (\<lambda>r. case r of
     ResultEvent e \<Rightarrow> if de_monitor_id e = k then Some (event_input_of e) else None | ResultCall c \<Rightarrow> None) rs"

definition result_kind :: "decoded_result \<Rightarrow> string" where
  "result_kind r = (case r of ResultCall c \<Rightarrow> ''call'' | ResultEvent e \<Rightarrow> ''event'')"

lemma group_results_Inr:
  assumes "group_results rows rs calls events = Inr (calls', events')"
    and "distinct (map fst calls)" and "distinct (map fst events)"
  shows "distinct (map fst calls') \<and> distinct (map fst events')
    \<and> (\<forall>k. batch_of k calls' = batch_of k calls @ calls_of k rs \<and> batch_of k events' = batch_of k events @ events_of k rs)
    \<and> (\<forall>r \<in> set rs. \<exists>row. rows (result_monitor_id r) = Some row \<and> pgm_kind row = result_kind r)
    \<and> fst ` set calls' = fst ` set calls \<union> result_monitor_id ` set (filter (\<lambda>r. result_kind r = ''call'') rs)
    \<and> fst ` set events' = fst ` set events \<union> result_monitor_id ` set (filter (\<lambda>r. result_kind r = ''event'') rs)"
  using assms
proof (induction rows rs calls events rule: group_results.induct)
  case (2 rows c rs calls events)
  then obtain row where row: "rows (dc_monitor_id c) = Some row" "pgm_kind row = ''call''"
    and rest: "group_results rows rs (group_push (dc_monitor_id c) (call_input_of c) calls) events = Inr (calls', events')"
    by (auto simp: res_simps)
  from "2.IH" [OF _ _ rest distinct_push [OF "2.prems"(2)] "2.prems"(3)] row
  show ?case by (auto simp: res_simps batch_of_push keys_push calls_of_def events_of_def result_kind_def List.map_filter_def split: if_splits)
next
  case (3 rows e rs calls events)
  then obtain row where row: "rows (de_monitor_id e) = Some row" "pgm_kind row = ''event''"
    and rest: "group_results rows rs calls (group_push (de_monitor_id e) (event_input_of e) events) = Inr (calls', events')"
    by (auto simp: res_simps)
  from "3.IH" [OF _ _ rest "3.prems"(2) distinct_push [OF "3.prems"(3)]] row
  show ?case by (auto simp: res_simps batch_of_push keys_push calls_of_def events_of_def result_kind_def List.map_filter_def split: if_splits)
qed (auto simp: calls_of_def events_of_def List.map_filter_def)

text \<open>The row of one result.\<close>

definition result_cells :: "externs \<Rightarrow> pg_codec \<Rightarrow> decoded_result \<Rightarrow> pg_cell list result" where
  "result_cells X C r =
     (case r of ResultCall c \<Rightarrow> call_cells X C (call_input_of c) | ResultEvent e \<Rightarrow> event_cells X C (event_input_of e))"

lemma cells_of_calls:
  "\<forall>r \<in> set rs. result_monitor_id r = k \<longrightarrow> result_kind r = ''call'' \<Longrightarrow>
     events_of k rs = []
     \<and> traverse (result_cells X C) (filter (\<lambda>r. result_monitor_id r = k) rs) = traverse (call_cells X C) (calls_of k rs)"
proof (induction rs)
  case (Cons r rs)
  then show ?case
    by (cases r) (auto simp: calls_of_def events_of_def List.map_filter_def result_cells_def result_kind_def)
qed (simp add: calls_of_def events_of_def List.map_filter_def)

lemma cells_of_events:
  "\<forall>r \<in> set rs. result_monitor_id r = k \<longrightarrow> result_kind r = ''event'' \<Longrightarrow>
     calls_of k rs = []
     \<and> traverse (result_cells X C) (filter (\<lambda>r. result_monitor_id r = k) rs) = traverse (event_cells X C) (events_of k rs)"
proof (induction rs)
  case (Cons r rs)
  then show ?case
    by (cases r) (auto simp: calls_of_def events_of_def List.map_filter_def result_cells_def result_kind_def)
qed (simp add: calls_of_def events_of_def List.map_filter_def)

section \<open>Writing the groups\<close>

definition table_rows :: "pg_db \<Rightarrow> i64 \<Rightarrow> pg_cell list list" where
  "table_rows db i = (case pd_tables db (monitor_table i) of None \<Rightarrow> [] | Some t \<Rightarrow> tb_rows t)"

text \<open>Two databases that differ in the rows of the result tables only.\<close>

definition same_shape :: "pg_db \<Rightarrow> pg_db \<Rightarrow> bool" where
  "same_shape db db' =
     (pd_chains db' = pd_chains db \<and> pd_monitors db' = pd_monitors db
      \<and> map_option tb_columns \<circ> pd_tables db' = map_option tb_columns \<circ> pd_tables db)"

lemma same_shape_refl [simp]: "same_shape db db"
  by (simp add: same_shape_def)

lemma same_shape_trans: "same_shape a b \<Longrightarrow> same_shape b c \<Longrightarrow> same_shape a c"
  by (simp add: same_shape_def)

lemma same_shape_append: "same_shape db (append_rows i rows db)"
  by (auto simp: same_shape_def append_rows_def fun_eq_iff option.map_comp comp_def)

lemma table_rows_append:
  "has_table db i kind schema \<Longrightarrow> table_rows (append_rows i rows db) j = table_rows db j @ (if j = i then rows else [])"
  by (auto simp: table_rows_def append_rows_def has_table_def)

definition group_rel ::
  "(monitor_id \<Rightarrow> pg_monitor_row option) \<Rightarrow> string \<Rightarrow> ('i \<Rightarrow> pg_cell list result) \<Rightarrow> monitor_id \<times> 'i list
     \<Rightarrow> pg_db \<Rightarrow> unit \<Rightarrow> pg_db \<Rightarrow> bool" where
  "group_rel rows kind cells batch p u p' =
     (\<exists>row. rows (fst batch) = Some row \<and> insert_rel kind cells (pgm_id row) (pgm_param_schema row) (snd batch) p u p')"

definition row_table :: "pg_db \<Rightarrow> pg_monitor_row \<Rightarrow> bool" where
  "row_table db row = has_table db (pgm_id row) (pgm_kind row) (pgm_param_schema row)"

lemma row_table_append [simp]: "row_table (append_rows i rows db) row = row_table db row"
  by (simp add: row_table_def)

text \<open>\<open>rows\<close> gives the stored row of an id, whose table exists.\<close>

definition keyed_rows :: "pg_db \<Rightarrow> (monitor_id \<Rightarrow> pg_monitor_row option) \<Rightarrow> bool" where
  "keyed_rows db rows =
     (\<forall>k row. rows k = Some row \<longrightarrow>
        pgm_id row = uint (monitor_id_get k) \<and> pgm_id row \<le> 9223372036854775807 \<and> row_table db row)"

lemma keyed_rows_append [simp]: "keyed_rows (append_rows i new db) rows = keyed_rows db rows"
  by (simp add: keyed_rows_def)

lemma groups_effect:
  assumes "each_rel (group_rel rows kind cells) bs p p'" and "distinct (map fst bs)" and "keyed_rows p rows"
    and "\<forall>k \<in> fst ` set bs. \<forall>row. rows k = Some row \<longrightarrow> pgm_kind row = kind"
  shows "same_shape p p'
    \<and> (\<forall>k. \<exists>new. traverse cells (batch_of k bs) = Inr new \<and> storable_rows new
          \<and> table_rows p' (uint (monitor_id_get k)) = table_rows p (uint (monitor_id_get k)) @ new)"
  using assms
proof (induction bs arbitrary: p)
  case Nil
  then show ?case by (simp add: batch_of_def)
next
  case (Cons b bs)
  from Cons.prems(1) obtain p1 row where row: "rows (fst b) = Some row"
    and ins: "insert_rel kind cells (pgm_id row) (pgm_param_schema row) (snd b) p () p1"
    and rest: "each_rel (group_rel rows kind cells) bs p1 p'"
    by (auto simp: group_rel_def [of _ _ _ b])
  from Cons.prems(3) row have id: "pgm_id row = uint (monitor_id_get (fst b))" "pgm_id row \<le> 9223372036854775807" "row_table p row"
    unfolding keyed_rows_def by blast+
  have "pgm_kind row = kind" using Cons.prems(4) row by simp
  with id(3) have table: "has_table p (pgm_id row) kind (pgm_param_schema row)" by (simp add: row_table_def)
  with ins id(2) obtain new where new: "traverse cells (snd b) = Inr new" "p1 = append_rows (pgm_id row) new p" "storable_rows new"
    by (auto simp: insert_rel_def)
  have "keyed_rows p1 rows" using Cons.prems(3) by (simp add: new(2))
  from Cons.IH [OF rest _ this] Cons.prems(2,4) have step: "same_shape p1 p'"
    "\<forall>k. \<exists>new. traverse cells (batch_of k bs) = Inr new \<and> storable_rows new
       \<and> table_rows p' (uint (monitor_id_get k)) = table_rows p1 (uint (monitor_id_get k)) @ new" by auto
  have "\<exists>n. traverse cells (batch_of k (b # bs)) = Inr n \<and> storable_rows n
      \<and> table_rows p' (uint (monitor_id_get k)) = table_rows p (uint (monitor_id_get k)) @ n" for k
  proof (cases "k = fst b")
    case True
    with Cons.prems(2) have "batch_of k bs = []" "batch_of k (b # bs) = snd b"
      by (auto simp: batch_of_def image_iff split: option.splits dest!: map_of_SomeD)
    with step(2) [rule_format, of k] True new table_rows_append [OF table] id(1) show ?thesis by auto
  next
    case False
    then have "batch_of k (b # bs) = batch_of k bs" by (cases b) (simp add: batch_of_def)
    with step(2) [rule_format, of k] False new(2) table_rows_append [OF table] id(1) show ?thesis
      by (auto simp: monitor_id_get_inject)
  qed
  with step(1) same_shape_trans [OF same_shape_append] new(2) show ?case by blast
qed

section \<open>The invariant of the tables\<close>

definition monitor_row_fits :: "pg_db \<Rightarrow> pg_monitor_row \<Rightarrow> bool" where
  "monitor_row_fits db row =
     (0 < pgm_id row \<and> pgm_id row \<le> 9223372036854775807 \<and> row_table db row
      \<and> (\<forall>c. pgm_cursor row = Some c \<longrightarrow> 0 \<le> c))"

text \<open>Ids are unique, every monitor has its table, and there is no table without a monitor.\<close>

definition pg_db_ok :: "pg_db \<Rightarrow> bool" where
  "pg_db_ok db =
     (distinct (map pgm_id (pd_monitors db))
      \<and> (\<forall>row \<in> set (pd_monitors db). monitor_row_fits db row)
      \<and> dom (pd_tables db) = (\<lambda>row. monitor_table (pgm_id row)) ` set (pd_monitors db))"

lemma same_columns:
  assumes "map_option tb_columns \<circ> pd_tables db' = map_option tb_columns \<circ> pd_tables db"
  shows "has_table db' i kind schema = has_table db i kind schema" and "dom (pd_tables db') = dom (pd_tables db)"
proof -
  have cols: "map_option tb_columns (pd_tables db' n) = map_option tb_columns (pd_tables db n)" for n
    using assms by (simp add: fun_eq_iff)
  have table: "has_table d i kind schema
      \<longleftrightarrow> map_option tb_columns (pd_tables d (monitor_table i)) = Some (result_columns kind schema)" for d
    by (auto simp: has_table_def)
  show "has_table db' i kind schema = has_table db i kind schema" unfolding table cols ..
  have "pd_tables db' n = None \<longleftrightarrow> pd_tables db n = None" for n using cols [of n] by (metis option.map_disc_iff)
  then show "dom (pd_tables db') = dom (pd_tables db)" by (auto simp: dom_def)
qed

lemma same_shape_table:
  assumes "same_shape db db'"
  shows "row_table db' row = row_table db row" and "dom (pd_tables db') = dom (pd_tables db)"
  using same_columns [of db' db] assms by (simp_all add: same_shape_def row_table_def)

lemma same_shape_ok: "same_shape db db' \<Longrightarrow> pg_db_ok db' = pg_db_ok db"
  using same_shape_table [of db db'] by (simp add: pg_db_ok_def monitor_row_fits_def same_shape_def)

section \<open>The effect of a commit\<close>

definition commit_rows :: "int \<Rightarrow> i64 \<Rightarrow> i64 list \<Rightarrow> i64 \<Rightarrow> pg_monitor_row list \<Rightarrow> pg_monitor_row list" where
  "commit_rows time block ids chain_id = map (\<lambda>r. if commit_hits ids chain_id r then commit_row block time r else r)"

text \<open>All the monitors are there, their rows move, and each table gets the rows of its results.\<close>

definition commit_applied :: "externs \<Rightarrow> pg_codec \<Rightarrow> block_commit \<Rightarrow> pg_db \<Rightarrow> pg_db \<Rightarrow> bool" where
  "commit_applied X C c db db' =
     (let ids = map (\<lambda>m. uint (monitor_id_get (mon_id m))) (bc_monitors c) in
      unat (bc_block_number c) \<le> 9223372036854775807
      \<and> (\<forall>i \<in> set ids. \<exists>row \<in> set (pd_monitors db). pgm_id row = i \<and> pgm_chain_id row = uint (chain_id_of (bc_chain c)))
      \<and> (\<exists>time ids'. set ids' = set ids
           \<and> pd_monitors db' = commit_rows time (uint (bc_block_number c)) ids' (uint (chain_id_of (bc_chain c))) (pd_monitors db))
      \<and> pd_chains db' = pd_chains db
      \<and> map_option tb_columns \<circ> pd_tables db' = map_option tb_columns \<circ> pd_tables db
      \<and> (\<forall>r \<in> set (bc_results c). result_monitor_id r \<in> mon_id ` set (bc_monitors c))
      \<and> (\<forall>k. \<exists>new. traverse (result_cells X C) (filter (\<lambda>r. result_monitor_id r = k) (bc_results c)) = Inr new \<and> storable_rows new
           \<and> table_rows db' (uint (monitor_id_get k)) = table_rows db (uint (monitor_id_get k)) @ new))"

definition commit_rel :: "externs \<Rightarrow> pg_codec \<Rightarrow> block_commit \<Rightarrow> pg_db \<Rightarrow> unit \<Rightarrow> pg_db \<Rightarrow> bool" where
  "commit_rel X C c p u p' = (pg_db_ok p \<longrightarrow> commit_applied X C c p p')"

text \<open>The order in which a hash map yields its entries.\<close>

definition pg_order_ok :: "pg_order \<Rightarrow> bool" where
  "pg_order_ok G = ((\<forall>b. mset (po_calls G b) = mset b) \<and> (\<forall>b. mset (po_events G b) = mset b))"

lemma traverse_member: "traverse g xs = Inr ys \<Longrightarrow> y \<in> set ys \<Longrightarrow> \<exists>x \<in> set xs. g x = Inr y"
  by (induction xs arbitrary: ys) (auto simp: res_simps)

lemma rows_by_id_Inr:
  assumes "rows_by_id rows = Inr f" and "f k = Some row"
  shows "row \<in> set rows \<and> k = MonitorId (word_of_int (pgm_id row)) \<and> 0 \<le> pgm_id row"
proof -
  from assms(1) obtain pairs where pairs: "traverse (\<lambda>row. res_bind (pg_from_monitor_id (pgm_id row)) (\<lambda>i. Inr (i, row))) rows = Inr pairs"
    and f: "f = map_of (rev pairs)" by (auto simp: rows_by_id_def res_simps)
  from f assms(2) have "(k, row) \<in> set pairs" by (metis map_of_SomeD set_rev)
  with pairs obtain row' where "row' \<in> set rows" "res_bind (pg_from_monitor_id (pgm_id row')) (\<lambda>i. Inr (i, row')) = Inr (k, row)"
    using traverse_member by fastforce
  then show ?thesis by (auto simp: pg_from_monitor_id_def res_simps)
qed

text \<open>The rows a commit answers with are those of its monitors, with their tables.\<close>

lemma updated_rows:
  assumes ok: "pg_db_ok p"
    and rows: "mset rows = mset (map (commit_row block time) (filter (commit_hits ids chain_id) (pd_monitors p)))"
    and tables: "pd_tables p1 = pd_tables p" and by_id: "rows_by_id rows = Inr f"
  shows "keyed_rows p1 f" and "f k = Some row \<Longrightarrow> pgm_id row \<in> set ids"
proof -
  have origin: "\<exists>r0. monitor_row_fits p r0 \<and> row = commit_row block time r0 \<and> pgm_id r0 \<in> set ids
      \<and> k = MonitorId (word_of_int (pgm_id row))" if "f k = Some row" for k row
  proof -
    from rows_by_id_Inr [OF by_id that] mset_eq_setD [OF rows] obtain r0 where
      "r0 \<in> set (pd_monitors p)" "row = commit_row block time r0" "commit_hits ids chain_id r0"
      "k = MonitorId (word_of_int (pgm_id row))" by auto
    with ok show ?thesis by (auto simp: pg_db_ok_def commit_hits_def)
  qed
  then show "f k = Some row \<Longrightarrow> pgm_id row \<in> set ids" by (fastforce simp: commit_row_def)
  have table: "has_table p1 i kind schema = has_table p i kind schema" for i kind schema
    by (simp add: has_table_def tables)
  show "keyed_rows p1 f"
    unfolding keyed_rows_def
  proof (intro allI impI)
    fix k row assume "f k = Some row"
    from origin [OF this] obtain r0 where "monitor_row_fits p r0" "row = commit_row block time r0"
      "k = MonitorId (word_of_int (pgm_id row))" by blast
    then show "pgm_id row = uint (monitor_id_get k) \<and> pgm_id row \<le> 9223372036854775807 \<and> row_table p1 row"
      by (simp add: monitor_row_fits_def commit_row_def table row_table_def uint_word_of_int_64)
  qed
qed

text \<open>Written in any order, the groups leave every table with the rows of its monitor's results.\<close>

lemma groups_written:
  assumes order: "pg_order_ok G" and keyed: "keyed_rows p f"
    and groups: "group_results f rs [] [] = Inr (calls, events)"
    and writes: "each_rel (group_rel f ''call'' (call_cells X C)) (po_calls G calls) p p1"
      "each_rel (group_rel f ''event'' (event_cells X C)) (po_events G events) p1 p'"
  shows "same_shape p p'"
    and "\<exists>new. traverse (result_cells X C) (filter (\<lambda>r. result_monitor_id r = k) rs) = Inr new \<and> storable_rows new
      \<and> table_rows p' (uint (monitor_id_get k)) = table_rows p (uint (monitor_id_get k)) @ new"
proof -
  from group_results_Inr [OF groups] have
    keys: "distinct (map fst calls)" "distinct (map fst events)"
    and batches: "\<And>k. batch_of k calls = calls_of k rs" "\<And>k. batch_of k events = events_of k rs"
    and kinds: "\<forall>r \<in> set rs. \<exists>row. f (result_monitor_id r) = Some row \<and> pgm_kind row = result_kind r"
    and call_keys: "fst ` set calls = result_monitor_id ` set (filter (\<lambda>r. result_kind r = ''call'') rs)"
    and event_keys: "fst ` set events = result_monitor_id ` set (filter (\<lambda>r. result_kind r = ''event'') rs)"
    by (auto simp: batch_of_def)
  have perm: "mset (po_calls G calls) = mset calls" "mset (po_events G events) = mset events"
    using order by (simp_all add: pg_order_ok_def)
  note batches' = batches [folded batch_of_perm [OF keys(1) perm(1)] batch_of_perm [OF keys(2) perm(2)]]
  have keys': "distinct (map fst (po_calls G calls))" "distinct (map fst (po_events G events))"
    using keys perm by (metis mset_eq_imp_distinct_iff mset_map)+
  have of_call: "\<forall>k \<in> fst ` set (po_calls G calls). \<forall>row. f k = Some row \<longrightarrow> pgm_kind row = ''call''"
    unfolding mset_eq_setD [OF perm(1)] call_keys using kinds by fastforce
  have of_event: "\<forall>k \<in> fst ` set (po_events G events). \<forall>row. f k = Some row \<longrightarrow> pgm_kind row = ''event''"
    unfolding mset_eq_setD [OF perm(2)] event_keys using kinds by fastforce
  from groups_effect [OF writes(1) keys'(1) keyed of_call] have one: "same_shape p p1"
    "\<And>k. \<exists>new. traverse (call_cells X C) (calls_of k rs) = Inr new \<and> storable_rows new
       \<and> table_rows p1 (uint (monitor_id_get k)) = table_rows p (uint (monitor_id_get k)) @ new"
    by (simp_all add: batches')
  have "keyed_rows p1 f" using keyed unfolding keyed_rows_def same_shape_table(1) [OF one(1)] .
  from groups_effect [OF writes(2) keys'(2) this of_event] have two: "same_shape p1 p'"
    "\<And>k. \<exists>new. traverse (event_cells X C) (events_of k rs) = Inr new \<and> storable_rows new
       \<and> table_rows p' (uint (monitor_id_get k)) = table_rows p1 (uint (monitor_id_get k)) @ new"
    by (simp_all add: batches')
  show "same_shape p p'" by (rule same_shape_trans [OF one(1) two(1)])
  have "(\<forall>r \<in> set rs. result_monitor_id r = k \<longrightarrow> result_kind r = ''event'')
      \<or> (\<forall>r \<in> set rs. result_monitor_id r = k \<longrightarrow> result_kind r = ''call'')"
  proof (cases "\<exists>r \<in> set rs. result_monitor_id r = k \<and> result_kind r = ''event''")
    case True
    with kinds have "\<exists>row. f k = Some row \<and> pgm_kind row = ''event''" by metis
    with kinds have "\<forall>r \<in> set rs. result_monitor_id r = k \<longrightarrow> result_kind r = ''event''" by fastforce
    then show ?thesis ..
  next
    case False
    have "result_kind r = ''call'' \<or> result_kind r = ''event''" for r by (cases r) (simp_all add: result_kind_def)
    with False show ?thesis by blast
  qed
  then show "\<exists>new. traverse (result_cells X C) (filter (\<lambda>r. result_monitor_id r = k) rs) = Inr new \<and> storable_rows new
      \<and> table_rows p' (uint (monitor_id_get k)) = table_rows p (uint (monitor_id_get k)) @ new"
    using cells_of_events [of rs k X C] cells_of_calls [of rs k X C] one(2) [of k] two(2) [of k] by auto
qed

lemma commit_relI:
  assumes order: "pg_order_ok G"
    and ids: "traverse (\<lambda>m. pg_to_monitor_id (mon_id m)) (bc_monitors c) = Inr ids"
    and block: "pg_to_i64 (bc_block_number c) ''block number'' = Inr block"
    and chain: "pg_to_i64 (chain_id_of (bc_chain c)) ''chain id'' = Inr chain_id"
    and update: "sql_effect time (CommitMonitors block (remdups_adj (sort ids)) chain_id) p a p1" "monitor_rows a = Some rows"
    and len: "length rows = length (remdups_adj (sort ids))"
    and by_id: "rows_by_id rows = Inr f"
    and groups: "group_results f (bc_results c) [] [] = Inr (calls, events)"
    and writes: "each_rel (group_rel f ''call'' (call_cells X C)) (po_calls G calls) p1 p2"
      "each_rel (group_rel f ''event'' (event_cells X C)) (po_events G events) p2 p'"
  shows "commit_rel X C c p u p'"
  unfolding commit_rel_def
proof
  assume ok: "pg_db_ok p"
  let ?ids = "remdups_adj (sort ids)"
  have id_list: "ids = map (\<lambda>m. uint (monitor_id_get (mon_id m))) (bc_monitors c)"
    using ids unfolding traverse_Inr by (induction rule: list_all2_induct) (auto simp: pg_to_monitor_id_def res_simps)
  have distinct_ids: "distinct ?ids" "set ?ids = set ids" using sort_remdups_adj [of ids] by (auto simp: strict_sorted_iff)
  have "map (\<lambda>r. if commit_hits ?ids chain_id r then commit_row block time r else r) (filter (commit_hits ?ids chain_id) (pd_monitors p))
      = map (commit_row block time) (filter (commit_hits ?ids chain_id) (pd_monitors p))" by (rule map_cong) simp_all
  with update have p1: "p1 = p\<lparr>pd_monitors := commit_rows time block ?ids chain_id (pd_monitors p)\<rparr>"
    and rows: "mset rows = mset (map (commit_row block time) (filter (commit_hits ?ids chain_id) (pd_monitors p)))"
    unfolding commit_rows_def by (auto simp: Let_def simp del: mset_map)
  have keys: "distinct (map pgm_id (pd_monitors p))" using ok by (simp add: pg_db_ok_def)
  have "length (filter (\<lambda>r. pgm_id r \<in> set ?ids \<and> pgm_chain_id r = chain_id) (pd_monitors p)) = length ?ids"
    using len mset_eq_length [OF rows] by (simp add: commit_hits_def [abs_def])
  from matched_all [OF keys distinct_ids(1) this]
  have hit: "\<forall>i \<in> set ?ids. \<exists>row \<in> set (pd_monitors p). pgm_id row = i \<and> pgm_chain_id row = chain_id" .
  have "pd_tables p1 = pd_tables p" by (simp add: p1)
  note updated = updated_rows [OF ok rows this by_id]
  note written = groups_written [OF order updated(1) groups writes]
  have members: "result_monitor_id r \<in> mon_id ` set (bc_monitors c)" if r: "r \<in> set (bc_results c)" for r
  proof -
    from group_results_Inr [OF groups] r obtain row where row: "f (result_monitor_id r) = Some row" by auto
    with updated have "pgm_id row = uint (monitor_id_get (result_monitor_id r))" "pgm_id row \<in> set ids"
      using distinct_ids(2) by (auto simp: keyed_rows_def)
    then show ?thesis by (auto simp: id_list monitor_id_get_inject)
  qed
  show "commit_applied X C c p p'"
    unfolding commit_applied_def Let_def id_list [symmetric]
    using block chain hit distinct_ids(2) written members
    by (auto simp: p1 same_shape_def res_simps table_rows_def intro!: exI [of _ time] exI [of _ ?ids])
qed

end
