(* ===== verification/Rpc_Source.thy ===== *)
theory Rpc_Source
  imports Status "HOL-Library.Option_ord" "HOL-Library.Product_Lexorder"
begin

text \<open>
  \<open>parseon-rpc\<close>: the JSON-RPC block source. The alloy provider and the endpoint behind it are the
  record \<open>provider\<close> of the calls the code makes, over a state \<open>'e\<close> the caller threads: it stands
  for the network, the endpoint and its URL, and may change with every request. The source keeps
  the cached chain id, the two capability flags and its telemetry beside it.
\<close>

section \<open>The provider\<close>

record rpc_transaction =
  rt_hash :: b256
  rt_from :: address
  rt_to :: "address option"
  rt_input :: bytes

datatype rpc_transactions = FullTransactions "rpc_transaction list" | TransactionHashes "b256 list"

record rpc_block =
  rb_number :: u64
  rb_transactions :: rpc_transactions

record rpc_receipt =
  rr_transaction_hash :: b256
  rr_status :: bool

record rpc_log =
  rl_address :: address
  rl_topics :: "b256 list"
  rl_data :: bytes
  rl_block_number :: "u64 option"
  rl_transaction_hash :: "b256 option"
  rl_log_index :: "u64 option"
  rl_removed :: bool

datatype block_tag = TagFinalized | TagNumber u64

text \<open>
  \<open>alloy::rpc::types::Filter\<close>: the block range, the emitters and the first topics a log may have.
  An empty list matches everything.
\<close>

record log_filter =
  lf_from :: "u64 option"
  lf_to :: "u64 option"
  lf_addresses :: "address list"
  lf_topic0s :: "b256 list"

text \<open>
  A sent batch answers each of its waiters, by position. \<open>pv_add_call\<close> is the serialisation of
  one call of a batch.
\<close>

record 'e provider =
  pv_get_chain_id :: "'e \<Rightarrow> u64 result \<times> 'e"
  pv_get_block_by_number :: "block_tag \<Rightarrow> bool \<Rightarrow> 'e \<Rightarrow> rpc_block option result \<times> 'e"
  pv_get_logs :: "log_filter \<Rightarrow> 'e \<Rightarrow> rpc_log list result \<times> 'e"
  pv_get_transaction_receipt :: "b256 \<Rightarrow> 'e \<Rightarrow> rpc_receipt option result \<times> 'e"
  pv_get_block_receipts :: "u64 \<Rightarrow> 'e \<Rightarrow> rpc_receipt list option result \<times> 'e"
  pv_add_call :: "b256 \<Rightarrow> unit result"
  pv_send_batch :: "b256 list \<Rightarrow> 'e \<Rightarrow> (nat \<Rightarrow> rpc_receipt option result) result \<times> 'e"
  pv_set_url :: "url \<Rightarrow> 'e \<Rightarrow> 'e"

section \<open>Single requests (\<open>fetch.rs\<close>)\<close>

definition block_transaction_of :: "rpc_transaction \<Rightarrow> block_transaction option" where
  "block_transaction_of tx =
     map_option (\<lambda>t. \<lparr>bt_hash = rt_hash tx, bt_from = rt_from tx, bt_to = t, bt_input = rt_input tx\<rparr>) (rt_to tx)"

definition fetch_block :: "'e provider \<Rightarrow> block_number \<Rightarrow> 'e \<Rightarrow> source_block result \<times> 'e" where
  "fetch_block P b =
     io_bind (pv_get_block_by_number P (TagNumber b) True) (\<lambda>found. io_lift (
     res_bind (ok_or (anyhow (''block '' @ show_u64 b @ '' not found'')) found) (\<lambda>block.
     res_bind (ensure (rb_number block = b)
       (anyhow (''block source returned block '' @ show_u64 (rb_number block) @ '' for request '' @ show_u64 b))) (\<lambda>_.
     res_bind (case rb_transactions block of
         FullTransactions ts \<Rightarrow> Inr ts
       | TransactionHashes hs \<Rightarrow> Inl (anyhow (''block '' @ show_u64 b @ '' did not contain full transactions''))) (\<lambda>ts.
     Inr \<lparr>sb_number = b, sb_transactions = List.map_filter block_transaction_of ts\<rparr>)))))"

definition source_log_of :: "rpc_log \<Rightarrow> source_log" where
  "source_log_of log =
     \<lparr>sl_block_number = rl_block_number log, sl_transaction_hash = rl_transaction_hash log,
      sl_log_index = rl_log_index log, sl_address = rl_address log, sl_topics = rl_topics log,
      sl_data = rl_data log, sl_removed = rl_removed log\<rparr>"

definition fetch_logs :: "'e provider \<Rightarrow> log_filter \<Rightarrow> 'e \<Rightarrow> source_log list result \<times> 'e" where
  "fetch_logs P flt = io_bind (pv_get_logs P flt) (\<lambda>logs. io_lift (Inr (map source_log_of logs)))"

text \<open>What a receipt says of the transaction it was asked for.\<close>

definition receipt_outcome :: "externs \<Rightarrow> b256 \<Rightarrow> rpc_receipt option \<Rightarrow> execution_outcome result" where
  "receipt_outcome X h found =
     res_bind (ok_or (anyhow (''receipt for '' @ b256_display X h @ '' not found'')) found) (\<lambda>receipt.
     res_bind (ensure (rr_transaction_hash receipt = h)
       (anyhow (''receipt response hash does not match request '' @ b256_display X h))) (\<lambda>_.
     Inr \<lparr>eo_transaction_hash = h, eo_succeeded = rr_status receipt\<rparr>))"

definition fetch_receipt :: "externs \<Rightarrow> 'e provider \<Rightarrow> b256 \<Rightarrow> 'e \<Rightarrow> execution_outcome result \<times> 'e" where
  "fetch_receipt X P h =
     io_bind (pv_get_transaction_receipt P h) (\<lambda>found. io_lift (receipt_outcome X h found))"

definition fetch_receipt_batch ::
  "externs \<Rightarrow> 'e provider \<Rightarrow> b256 list \<Rightarrow> 'e \<Rightarrow> execution_outcome list result \<times> 'e" where
  "fetch_receipt_batch X P hs =
     io_bind (io_lift (traverse (pv_add_call P) hs)) (\<lambda>_.
     io_bind (pv_send_batch P hs) (\<lambda>answer. io_lift (
     traverse (\<lambda>(i, h). res_bind (answer i) (receipt_outcome X h)) (enumerate 0 hs))))"

text \<open>\<open>statuses.remove(&hash)\<close> for each requested hash in turn.\<close>

fun take_statuses :: "externs \<Rightarrow> (b256 \<Rightarrow> bool option) \<Rightarrow> b256 list \<Rightarrow> execution_outcome list result" where
  "take_statuses X statuses [] = Inr []"
| "take_statuses X statuses (h # hs) =
     (case statuses h of
        None \<Rightarrow> Inl [MissingTransaction (b256_display X h)]
      | Some succeeded \<Rightarrow>
          res_bind (take_statuses X (statuses(h := None)) hs) (\<lambda>outs.
          Inr (\<lparr>eo_transaction_hash = h, eo_succeeded = succeeded\<rparr> # outs)))"

definition fetch_block_receipts ::
  "externs \<Rightarrow> 'e provider \<Rightarrow> block_number \<Rightarrow> b256 list \<Rightarrow> 'e \<Rightarrow> execution_outcome list result \<times> 'e" where
  "fetch_block_receipts X P b hs =
     io_bind (pv_get_block_receipts P b) (\<lambda>found. io_lift (
     res_bind (ok_or [MissingBlock b] found) (\<lambda>receipts.
     take_statuses X (map_of (rev (map (\<lambda>r. (rr_transaction_hash r, rr_status r)) receipts))) hs)))"

section \<open>The source (\<open>provider.rs\<close>)\<close>

definition CAPABILITY_UNKNOWN :: u8 where "CAPABILITY_UNKNOWN = 0"
definition CAPABILITY_SUPPORTED :: u8 where "CAPABILITY_SUPPORTED = 1"
definition CAPABILITY_UNSUPPORTED :: u8 where "CAPABILITY_UNSUPPORTED = 2"

lemma capabilities_distinct [simp]:
  "CAPABILITY_UNKNOWN \<noteq> CAPABILITY_UNSUPPORTED" "CAPABILITY_SUPPORTED \<noteq> CAPABILITY_UNSUPPORTED"
  by (simp_all add: CAPABILITY_UNKNOWN_def CAPABILITY_SUPPORTED_def CAPABILITY_UNSUPPORTED_def)

record rpc_config =
  rpc_request_concurrency :: nat
  rpc_batch_size :: nat

definition rpc_config_default :: rpc_config where
  "rpc_config_default = \<lparr>rpc_request_concurrency = 16, rpc_batch_size = 20\<rparr>"

text \<open>\<open>js_transport\<close> says whether the source has the live transport whose URL can be rotated.\<close>

record 'e json_rpc_source =
  js_endpoint :: 'e
  js_transport :: bool
  js_request_concurrency :: nat
  js_batch_size :: nat
  js_chain_id :: "chain_id option"
  js_batch_capability :: u8
  js_block_receipts_capability :: u8
  js_telemetry :: "telemetry_event list"

definition with_transport :: "'e \<Rightarrow> bool \<Rightarrow> rpc_config \<Rightarrow> 'e json_rpc_source" where
  "with_transport e live config =
     \<lparr>js_endpoint = e, js_transport = live, js_request_concurrency = rpc_request_concurrency config,
      js_batch_size = rpc_batch_size config, js_chain_id = None, js_batch_capability = CAPABILITY_UNKNOWN,
      js_block_receipts_capability = CAPABILITY_UNKNOWN, js_telemetry = []\<rparr>"

text \<open>\<open>connect\<close>; \<open>build\<close> makes the client and its transport for the URL, or fails.\<close>

definition rpc_connect :: "(url \<Rightarrow> 'e result) \<Rightarrow> rpc_config \<Rightarrow> url \<Rightarrow> 'e json_rpc_source result" where
  "rpc_connect build config u = res_bind (build u) (\<lambda>e. Inr (with_transport e True config))"

text \<open>A request on the source's provider.\<close>

definition on_endpoint :: "('e \<Rightarrow> 'a result \<times> 'e) \<Rightarrow> 'e json_rpc_source \<Rightarrow> 'a result \<times> 'e json_rpc_source" where
  "on_endpoint f s = (case f (js_endpoint s) of (r, e) \<Rightarrow> (r, s\<lparr>js_endpoint := e\<rparr>))"

definition emit :: "telemetry_event list \<Rightarrow> 'e json_rpc_source \<Rightarrow> 'e json_rpc_source" where
  "emit es s = s\<lparr>js_telemetry := js_telemetry s @ es\<rparr>"

definition outcome_label :: "'a result \<Rightarrow> string" where
  "outcome_label r = (case r of Inl e \<Rightarrow> ''error'' | Inr x \<Rightarrow> ''success'')"

text \<open>
  The permit of \<open>acquire\<close> is always granted: the semaphore is never closed. The guard leaves the
  gauge after the request is recorded, when it is dropped.
\<close>

definition observed ::
  "string \<Rightarrow> string \<Rightarrow> ('e \<Rightarrow> 'a result \<times> 'e) \<Rightarrow> 'e json_rpc_source \<Rightarrow> 'a result \<times> 'e json_rpc_source" where
  "observed operation strategy future s =
     (case js_chain_id s of
        None \<Rightarrow> on_endpoint future s
      | Some c \<Rightarrow>
          (case on_endpoint future (emit [in_flight_enter c ''rpc''] s) of
             (r, s1) \<Rightarrow> (r, emit [RecordRpc c operation strategy (outcome_label r), in_flight_leave c ''rpc''] s1)))"

subsection \<open>Error responses\<close>

definition rpc_error_response :: "error \<Rightarrow> (int \<times> string \<times> bool) option" where
  "rpc_error_response e = (case e of Transport response text # _ \<Rightarrow> response | _ \<Rightarrow> None)"

definition log_range_limited :: "error \<Rightarrow> bool" where
  "log_range_limited e =
     (case rpc_error_response e of
        None \<Rightarrow> False
      | Some (code, response_message, retryable) \<Rightarrow>
          (let message = to_ascii_lowercase response_message in
           if retryable
             \<and> list_ex (contains message) [''rate limit'', ''rate exceeded'', ''too many requests'', ''request limit'', ''credits'']
           then False
           else
             (contains message ''block'' \<and> contains message ''range''
               \<and> list_ex (contains message) [''limit'', ''limited'', ''exceed'', ''too wide'', ''too large''])
             \<or> (contains message ''query returned more than'' \<and> contains message ''result'')
             \<or> contains message ''log response size exceeded''
             \<or> (contains message ''too many'' \<and> (contains message ''logs'' \<or> contains message ''results''))))"

definition is_receipts_response_error :: "error \<Rightarrow> bool" where
  "is_receipts_response_error e = (case e of MissingBlock b # _ \<Rightarrow> True | MissingTransaction h # _ \<Rightarrow> True | _ \<Rightarrow> False)"

definition block_receipts_unavailable :: "error \<Rightarrow> bool" where
  "block_receipts_unavailable e =
     ((case rpc_error_response e of None \<Rightarrow> False | Some (code, _, _) \<Rightarrow> code = - 32601 \<or> code = - 32602)
      \<or> is_receipts_response_error e)"

definition unsupported_batch :: "error \<Rightarrow> bool" where
  "unsupported_batch e =
     (case rpc_error_response e of
        None \<Rightarrow> False
      | Some (code, response_message, _) \<Rightarrow>
          code = - 32600
          \<or> (let message = to_ascii_lowercase response_message in
             contains message ''batch''
             \<and> list_ex (contains message) [''not supported'', ''unsupported'', ''disabled'', ''not allowed'']))"

definition is_transport :: "cause \<Rightarrow> bool" where
  "is_transport c = (case c of Transport response text \<Rightarrow> True | _ \<Rightarrow> False)"

definition source_request_error :: "error \<Rightarrow> error" where
  "source_request_error e = (if list_ex is_transport e then BlockSourceRequest # e else e)"

subsection \<open>Receipts\<close>

definition single_receipts ::
  "externs \<Rightarrow> 'e provider \<Rightarrow> b256 list \<Rightarrow> 'e json_rpc_source \<Rightarrow> execution_outcome list result \<times> 'e json_rpc_source" where
  "single_receipts X P hs = io_traverse (\<lambda>h. observed ''receipts'' ''single'' (fetch_receipt X P h)) hs"

text \<open>\<open>(0..len).step_by(size)\<close> with the end of each range, and the slice of a range.\<close>

definition batch_ranges :: "nat \<Rightarrow> nat \<Rightarrow> (nat \<times> nat) list" where
  "batch_ranges n len = map (\<lambda>k. (k * n, min (k * n + n) len)) [0 ..< (len + n - 1) div n]"

definition slice :: "'a list \<Rightarrow> nat \<times> nat \<Rightarrow> 'a list" where
  "slice xs ab = take (snd ab - fst ab) (drop (fst ab) xs)"

definition batched_receipts ::
  "externs \<Rightarrow> 'e provider \<Rightarrow> b256 list \<Rightarrow> 'e json_rpc_source \<Rightarrow> execution_outcome list result \<times> 'e json_rpc_source" where
  "batched_receipts X P hs s =
     io_bind (io_traverse (\<lambda>ab. observed ''receipts'' ''batch'' (fetch_receipt_batch X P (slice hs ab)))
       (batch_ranges (js_batch_size s) (length hs))) (\<lambda>batches. io_lift (Inr (concat batches))) s"

text \<open>The fall back from the batch request on.\<close>

definition batched_or_single ::
  "externs \<Rightarrow> 'e provider \<Rightarrow> b256 list \<Rightarrow> 'e json_rpc_source \<Rightarrow> execution_outcome list result \<times> 'e json_rpc_source" where
  "batched_or_single X P hs s =
     (if js_batch_capability s \<noteq> CAPABILITY_UNSUPPORTED
      then
        (case batched_receipts X P hs s of
           (Inr receipts, s1) \<Rightarrow> (Inr receipts, s1\<lparr>js_batch_capability := CAPABILITY_SUPPORTED\<rparr>)
         | (Inl e, s1) \<Rightarrow>
             if unsupported_batch e
             then single_receipts X P hs (s1\<lparr>js_batch_capability := CAPABILITY_UNSUPPORTED\<rparr>)
             else (Inl e, s1))
      else single_receipts X P hs s)"

definition optimized_receipts ::
  "externs \<Rightarrow> 'e provider \<Rightarrow> block_number \<Rightarrow> b256 list \<Rightarrow> 'e json_rpc_source
     \<Rightarrow> execution_outcome list result \<times> 'e json_rpc_source" where
  "optimized_receipts X P b hs s =
     (if hs = [] then (Inr [], s)
      else if length hs = 1 then single_receipts X P hs s
      else if js_batch_size s < length hs \<and> js_block_receipts_capability s \<noteq> CAPABILITY_UNSUPPORTED
      then
        (case observed ''receipts'' ''block_receipts'' (fetch_block_receipts X P b hs) s of
           (Inr receipts, s1) \<Rightarrow> (Inr receipts, s1\<lparr>js_block_receipts_capability := CAPABILITY_SUPPORTED\<rparr>)
         | (Inl e, s1) \<Rightarrow>
             if block_receipts_unavailable e
             then batched_or_single X P hs (s1\<lparr>js_block_receipts_capability := CAPABILITY_UNSUPPORTED\<rparr>)
             else (Inl e, s1))
      else batched_or_single X P hs s)"

subsection \<open>Logs\<close>

text \<open>One exact filter per address, or per topic when that takes fewer requests.\<close>

definition any_log :: log_filter where
  "any_log = \<lparr>lf_from = None, lf_to = None, lf_addresses = [], lf_topic0s = []\<rparr>"

definition exact_log_filters :: "log_target list \<Rightarrow> log_filter list" where
  "exact_log_filters targets =
     (let by_address = foldl (\<lambda>m (k, v). entry_push k v m) [] (map (\<lambda>t. (lt_address t, lt_topic0 t)) targets);
          by_topic = foldl (\<lambda>m (k, v). entry_push k v m) [] (map (\<lambda>t. (lt_topic0 t, lt_address t)) targets) in
      if length by_address \<le> length by_topic
      then map (\<lambda>(a, topics). any_log\<lparr>lf_addresses := [a], lf_topic0s := topics\<rparr>) by_address
      else map (\<lambda>(t, addresses). any_log\<lparr>lf_addresses := addresses, lf_topic0s := [t]\<rparr>) by_topic)"

text \<open>
  The stack of pending ranges, its top first: a range the endpoint refuses as too large is split
  in two, a single block is not. Each split leaves less to do, whatever the endpoint answers.
\<close>

definition range_work :: "block_range \<Rightarrow> nat" where
  "range_work r = (if br_start r \<le> br_end r then 2 * unat (br_end r - br_start r) + 1 else 1)"

definition range_middle :: "block_range \<Rightarrow> block_number" where
  "range_middle r = br_start r + (br_end r - br_start r) div 2"

lemma range_middle_bounds:
  assumes "br_start r < br_end r"
  shows "br_start r \<le> range_middle r" and "range_middle r < br_end r"
    and "unat (range_middle r + 1) = Suc (unat (range_middle r))"
    and "unat (range_middle r) = unat (br_start r) + (unat (br_end r) - unat (br_start r)) div 2"
proof -
  let ?s = "br_start r" and ?e = "br_end r"
  have lt: "unat ?s < unat ?e" using assms by (simp add: word_less_nat_alt)
  have half: "unat ((?e - ?s) div 2) = (unat ?e - unat ?s) div 2"
    by (simp add: unat_div_distrib unat_sub [OF less_imp_le [OF assms]])
  have "unat ?s + unat ((?e - ?s) div 2) < 18446744073709551616"
    using unat_lt_64 [of ?e] lt unfolding half by linarith
  then have m: "unat (range_middle r) = unat ?s + (unat ?e - unat ?s) div 2"
    by (simp add: range_middle_def unat_add_no_wrap half)
  then show "unat (range_middle r) = unat ?s + (unat ?e - unat ?s) div 2" .
  from m show "?s \<le> range_middle r" by (simp add: word_le_nat_alt)
  from m lt show lt_e: "range_middle r < ?e" by (simp add: word_less_nat_alt)
  then have "unat (range_middle r) < unat ?e" by (simp add: word_less_nat_alt)
  then have "unat (range_middle r) + 1 < 18446744073709551616" using unat_lt_64 [of ?e] by linarith
  then show "unat (range_middle r + 1) = Suc (unat (range_middle r))" by (simp add: unat_add_no_wrap)
qed

lemma range_work_split:
  assumes "br_start r < br_end r"
  shows "range_work \<lparr>br_start = br_start r, br_end = range_middle r\<rparr>
    + range_work \<lparr>br_start = range_middle r + 1, br_end = br_end r\<rparr> < range_work r"
proof -
  note m = range_middle_bounds [OF assms]
  have "range_middle r + 1 \<le> br_end r"
    using m(2,3) by (simp add: word_le_nat_alt word_less_nat_alt)
  with assms m(1-3) have "range_work \<lparr>br_start = br_start r, br_end = range_middle r\<rparr>
      = 2 * (unat (range_middle r) - unat (br_start r)) + 1"
    "range_work \<lparr>br_start = range_middle r + 1, br_end = br_end r\<rparr>
      = 2 * (unat (br_end r) - Suc (unat (range_middle r))) + 1"
    "range_work r = 2 * (unat (br_end r) - unat (br_start r)) + 1"
    by (simp_all add: range_work_def unat_sub less_imp_le)
  moreover have "unat (br_start r) \<le> unat (range_middle r)" "unat (range_middle r) < unat (br_end r)"
    using m(1,2) by (simp_all add: word_le_nat_alt word_less_nat_alt)
  ultimately show ?thesis by linarith
qed

lemma range_work_pos [simp]: "0 < range_work r"
  by (simp add: range_work_def)

function adaptive_loop ::
  "'e provider \<Rightarrow> log_filter \<Rightarrow> block_range list \<Rightarrow> source_log list \<Rightarrow> 'e json_rpc_source
     \<Rightarrow> source_log list result \<times> 'e json_rpc_source" where
  "adaptive_loop P flt [] logs s = (Inr logs, s)"
| "adaptive_loop P flt (rng # pending) logs s =
     (let strategy = (if br_start rng = br_end rng then ''single'' else ''range'');
          flt1 = flt\<lparr>lf_from := Some (br_start rng), lf_to := Some (br_end rng)\<rparr> in
      case observed ''logs'' strategy (fetch_logs P flt1) s of
        (Inr fetched, s1) \<Rightarrow> adaptive_loop P flt1 pending (logs @ fetched) s1
      | (Inl e, s1) \<Rightarrow>
          if log_range_limited e \<and> br_start rng < br_end rng
          then
            (case (block_range_new (br_start rng) (range_middle rng), block_range_new (range_middle rng + 1) (br_end rng)) of
               (Some left, Some right) \<Rightarrow> adaptive_loop P flt1 (left # right # pending) logs s1
             | _ \<Rightarrow> (Inl [Panic ''split log range is ordered''], s1))
          else if log_range_limited e
          then (Inl (Message (''log query limit exceeded for single block '' @ show_u64 (br_start rng)) # e), s1)
          else (Inl e, s1))"
  by pat_completeness auto
termination
  by (relation "measure (\<lambda>(P, flt, pending, logs, s). sum_list (map range_work pending))")
    (auto simp: block_range_new_def range_work_pos dest: range_work_split split: if_splits)

declare adaptive_loop.simps(2) [simp del]

definition adaptive_filter_logs ::
  "'e provider \<Rightarrow> block_range \<Rightarrow> log_filter \<Rightarrow> 'e json_rpc_source \<Rightarrow> source_log list result \<times> 'e json_rpc_source" where
  "adaptive_filter_logs P requested flt = adaptive_loop P flt [requested] []"

text \<open>
  The filters run side by side: \<open>F\<close> is the order in which they finish. \<open>log_key\<close> is the sort key;
  the order of logs with equal keys is not specified.
\<close>

definition log_key :: "source_log \<Rightarrow> u64 option \<times> u64 option" where
  "log_key log = (sl_block_number log, sl_log_index log)"

definition adaptive_logs ::
  "(log_filter list \<Rightarrow> log_filter list) \<Rightarrow> 'e provider \<Rightarrow> log_query \<Rightarrow> 'e json_rpc_source
     \<Rightarrow> source_log list result \<times> 'e json_rpc_source" where
  "adaptive_logs F P q =
     (if log_query_is_empty q then io_lift (Inr [])
      else
        io_bind (io_traverse (adaptive_filter_logs P (lq_range q)) (F (exact_log_filters (lq_targets q)))) (\<lambda>fetched.
        io_lift (Inr (sort_key log_key (concat fetched)))))"

section \<open>The trait\<close>

definition map_io_err :: "(error \<Rightarrow> error) \<Rightarrow> ('d \<Rightarrow> 'a result \<times> 'd) \<Rightarrow> 'd \<Rightarrow> 'a result \<times> 'd" where
  "map_io_err g f d = (case f d of (r, d1) \<Rightarrow> (map_err g r, d1))"

definition rpc_chain_id :: "'e provider \<Rightarrow> 'e json_rpc_source \<Rightarrow> u64 result \<times> 'e json_rpc_source" where
  "rpc_chain_id P s =
     (case on_endpoint (pv_get_chain_id P) s of
        (Inl e, s1) \<Rightarrow> (Inl (source_request_error e), s1)
      | (Inr c, s1) \<Rightarrow>
          (Inr c, emit [RecordRpc c ''chain_id'' ''single'' ''success'']
             (s1\<lparr>js_chain_id := Some (case js_chain_id s1 of None \<Rightarrow> c | Some c' \<Rightarrow> c')\<rparr>)))"

definition finalized_number :: "'e provider \<Rightarrow> 'e \<Rightarrow> u64 result \<times> 'e" where
  "finalized_number P =
     io_bind (pv_get_block_by_number P TagFinalized False) (\<lambda>found. io_lift (
     res_bind (ok_or (anyhow ''finalized block not found'') found) (\<lambda>block. Inr (rb_number block))))"

definition rpc_finalized_head :: "'e provider \<Rightarrow> 'e json_rpc_source \<Rightarrow> block_number result \<times> 'e json_rpc_source" where
  "rpc_finalized_head P =
     map_io_err source_request_error (observed ''finalized_head'' ''single'' (finalized_number P))"

definition rpc_fetch_block ::
  "'e provider \<Rightarrow> block_number \<Rightarrow> 'e json_rpc_source \<Rightarrow> source_block result \<times> 'e json_rpc_source" where
  "rpc_fetch_block P b = map_io_err source_request_error (observed ''block'' ''single'' (fetch_block P b))"

definition rpc_fetch_execution_outcomes ::
  "externs \<Rightarrow> 'e provider \<Rightarrow> block_number \<Rightarrow> b256 list \<Rightarrow> 'e json_rpc_source
     \<Rightarrow> execution_outcome list result \<times> 'e json_rpc_source" where
  "rpc_fetch_execution_outcomes X P b hs = map_io_err source_request_error (optimized_receipts X P b hs)"

definition rpc_fetch_logs ::
  "(log_filter list \<Rightarrow> log_filter list) \<Rightarrow> 'e provider \<Rightarrow> log_query \<Rightarrow> 'e json_rpc_source
     \<Rightarrow> source_log list result \<times> 'e json_rpc_source" where
  "rpc_fetch_logs F P q = map_io_err source_request_error (adaptive_logs F P q)"

definition rpc_set_rpc_url :: "'e provider \<Rightarrow> url \<Rightarrow> 'e json_rpc_source \<Rightarrow> unit result \<times> 'e json_rpc_source" where
  "rpc_set_rpc_url P u s =
     (if js_transport s
      then (Inr (), s\<lparr>js_endpoint := pv_set_url P u (js_endpoint s), js_batch_capability := CAPABILITY_UNKNOWN,
                     js_block_receipts_capability := CAPABILITY_UNKNOWN\<rparr>)
      else (Inl (anyhow ''RPC URL rotation requires a live HTTP transport''), s))"

text \<open>
  The trait object a worker holds. Requests of a poll run side by side and the endpoint changes
  under them, so the state each call finds the source in is a parameter: any assignment of states
  to calls is a run.
\<close>

record 'e rpc_moments =
  mo_chain_id :: "'e json_rpc_source"
  mo_finalized_head :: "'e json_rpc_source"
  mo_fetch_block :: "block_number \<Rightarrow> 'e json_rpc_source"
  mo_outcomes :: "block_number \<Rightarrow> b256 list \<Rightarrow> 'e json_rpc_source"
  mo_logs :: "log_query \<Rightarrow> 'e json_rpc_source"
  mo_set_rpc_url :: "url \<Rightarrow> 'e json_rpc_source"

definition rpc_block_source ::
  "externs \<Rightarrow> (log_filter list \<Rightarrow> log_filter list) \<Rightarrow> 'e provider \<Rightarrow> 'e rpc_moments \<Rightarrow> block_source" where
  "rpc_block_source X F P mo =
     \<lparr>bs_chain_id = fst (rpc_chain_id P (mo_chain_id mo)),
      bs_finalized_head = fst (rpc_finalized_head P (mo_finalized_head mo)),
      bs_fetch_block = (\<lambda>b. fst (rpc_fetch_block P b (mo_fetch_block mo b))),
      bs_fetch_execution_outcomes = (\<lambda>b hs. fst (rpc_fetch_execution_outcomes X P b hs (mo_outcomes mo b hs))),
      bs_fetch_logs = (\<lambda>q. fst (rpc_fetch_logs F P q (mo_logs mo q))),
      bs_set_rpc_url = (\<lambda>u. fst (rpc_set_rpc_url P u (mo_set_rpc_url mo u)))\<rparr>"

end
