(* ===== verification/Rpc_Correct.thy ===== *)
theory Rpc_Correct
  imports Rpc_Source Prepared_Results
begin

text \<open>
  What the JSON-RPC source promises. Against any endpoint its answers match their requests; against
  an endpoint that serves the finalized chain, truthfully when it answers at all, the source is the
  faithful source the worker's properties ask for, through receipt strategies, batches, fall backs
  and split log ranges. An endpoint whose failures are only those the code recovers from makes a
  source that always answers.
\<close>

section \<open>Observed requests\<close>

lemma on_endpoint_result: "on_endpoint f s = (r, s') \<Longrightarrow> \<exists>e e'. f e = (r, e')"
  by (auto simp: on_endpoint_def split: prod.splits)

lemma observed_result: "observed op st f s = (r, s') \<Longrightarrow> \<exists>e e'. f e = (r, e')"
  by (auto simp: observed_def split: option.splits prod.splits dest: on_endpoint_result)

lemma observed_frame:
  assumes "observed op st f s = (r, s')"
  shows "js_chain_id s' = js_chain_id s" and "js_batch_size s' = js_batch_size s"
    and "js_transport s' = js_transport s"
    and "js_batch_capability s' = js_batch_capability s"
    and "js_block_receipts_capability s' = js_block_receipts_capability s"
    and "js_telemetry s' = js_telemetry s @ (case js_chain_id s of None \<Rightarrow> []
      | Some c \<Rightarrow> [in_flight_enter c ''rpc'', RecordRpc c op st (outcome_label r), in_flight_leave c ''rpc''])"
  using assms by (auto simp: observed_def on_endpoint_def emit_def split: option.splits prod.splits)

section \<open>Receipts\<close>

text \<open>Whatever receipt the endpoint returns satisfies \<open>Q\<close>.\<close>

definition endpoint_receipts :: "'e provider \<Rightarrow> (b256 \<Rightarrow> bool \<Rightarrow> bool) \<Rightarrow> bool" where
  "endpoint_receipts P Q =
     ((\<forall>e h r e'. pv_get_transaction_receipt P h e = (Inr (Some r), e') \<longrightarrow> Q (rr_transaction_hash r) (rr_status r))
      \<and> (\<forall>e hs answer e' i r. pv_send_batch P hs e = (Inr answer, e') \<longrightarrow> answer i = Inr (Some r) \<longrightarrow>
           Q (rr_transaction_hash r) (rr_status r))
      \<and> (\<forall>e b rs e'. pv_get_block_receipts P b e = (Inr (Some rs), e') \<longrightarrow>
           (\<forall>r \<in> set rs. Q (rr_transaction_hash r) (rr_status r))))"

lemma endpoint_receiptsD:
  assumes "endpoint_receipts P Q"
  shows "pv_get_transaction_receipt P h e = (Inr (Some r), e') \<Longrightarrow> Q (rr_transaction_hash r) (rr_status r)"
    and "pv_send_batch P hs e = (Inr answer, e') \<Longrightarrow> answer i = Inr (Some r) \<Longrightarrow> Q (rr_transaction_hash r) (rr_status r)"
    and "pv_get_block_receipts P b e = (Inr (Some rs), e') \<Longrightarrow> r \<in> set rs \<Longrightarrow> Q (rr_transaction_hash r) (rr_status r)"
  using assms unfolding endpoint_receipts_def by blast+

text \<open>An outcome answers its hash.\<close>

definition answers_hash :: "(b256 \<Rightarrow> bool \<Rightarrow> bool) \<Rightarrow> b256 \<Rightarrow> execution_outcome \<Rightarrow> bool" where
  "answers_hash Q h out = (eo_transaction_hash out = h \<and> Q h (eo_succeeded out))"

lemma receipt_outcome_answers:
  "receipt_outcome X h (Some r) = Inr out \<Longrightarrow> Q (rr_transaction_hash r) (rr_status r) \<Longrightarrow> answers_hash Q h out"
  by (auto simp: receipt_outcome_def answers_hash_def res_simps)

lemma receipt_outcome_Inr: "receipt_outcome X h found = Inr out \<Longrightarrow> \<exists>r. found = Some r"
  by (auto simp: receipt_outcome_def res_simps)

lemma single_receipts_answer:
  assumes "endpoint_receipts P Q" and "single_receipts X P hs s = (Inr outs, s')"
  shows "list_all2 (answers_hash Q) hs outs"
proof (rule io_traverse_Inr [OF _ assms(2) [unfolded single_receipts_def]])
  fix h s out s' assume "observed ''receipts'' ''single'' (fetch_receipt X P h) s = (Inr out, s')"
  then obtain e e' where "fetch_receipt X P h e = (Inr out, e')" using observed_result by blast
  then obtain found e1 where found: "pv_get_transaction_receipt P h e = (Inr found, e1)"
    and out: "receipt_outcome X h found = Inr out"
    by (auto simp: fetch_receipt_def io_simps)
  obtain r where "found = Some r" using receipt_outcome_Inr [OF out] by blast
  with found out assms(1) show "answers_hash Q h out"
    by (blast intro: receipt_outcome_answers endpoint_receiptsD(1))
qed

lemma fetch_receipt_batch_answers:
  assumes "endpoint_receipts P Q" and "fetch_receipt_batch X P hs e = (Inr outs, e')"
  shows "list_all2 (answers_hash Q) hs outs"
proof -
  from assms(2) obtain answer e1 where send: "pv_send_batch P hs e = (Inr answer, e1)"
    and outs: "traverse (\<lambda>(i, h). res_bind (answer i) (receipt_outcome X h)) (enumerate 0 hs) = Inr outs"
    by (auto simp: fetch_receipt_batch_def io_simps)
  from outs have all: "list_all2 (\<lambda>(i, h) out. res_bind (answer i) (receipt_outcome X h) = Inr out) (enumerate 0 hs) outs"
    by (simp add: traverse_Inr case_prod_beta')
  have "list_all2 (\<lambda>ih out. answers_hash Q (snd ih) out) (enumerate 0 hs) outs"
  proof (rule list_all2_mono [OF all])
    fix ih out assume "(\<lambda>(i, h) out. res_bind (answer i) (receipt_outcome X h) = Inr out) ih out"
    then obtain found where found: "answer (fst ih) = Inr found" "receipt_outcome X (snd ih) found = Inr out"
      by (cases ih) (auto simp: res_simps)
    obtain r where "found = Some r" using receipt_outcome_Inr [OF found(2)] by blast
    with found send assms(1) show "answers_hash Q (snd ih) out"
      by (blast intro: receipt_outcome_answers endpoint_receiptsD(2))
  qed
  then show ?thesis by (simp flip: list_all2_map1)
qed

lemma take_statuses_answer:
  assumes "\<And>h b. statuses h = Some b \<Longrightarrow> Q h b"
  shows "take_statuses X statuses hs = Inr outs \<Longrightarrow> list_all2 (answers_hash Q) hs outs"
  using assms
proof (induction hs arbitrary: statuses outs)
  case (Cons h hs)
  then obtain b outs' where b: "statuses h = Some b" and outs: "take_statuses X (statuses(h := None)) hs = Inr outs'"
    "outs = \<lparr>eo_transaction_hash = h, eo_succeeded = b\<rparr> # outs'"
    by (auto simp: res_simps split: option.splits)
  have "list_all2 (answers_hash Q) hs outs'"
    by (rule Cons.IH [OF outs(1)]) (use Cons.prems(2) in \<open>auto split: if_splits\<close>)
  with b outs(2) Cons.prems(2) show ?case by (simp add: answers_hash_def [of Q h])
qed simp

lemma fetch_block_receipts_answers:
  assumes "endpoint_receipts P Q" and "fetch_block_receipts X P b hs e = (Inr outs, e')"
  shows "list_all2 (answers_hash Q) hs outs"
proof -
  from assms(2) obtain receipts e1 where get: "pv_get_block_receipts P b e = (Inr (Some receipts), e1)"
    and take: "take_statuses X (map_of (rev (map (\<lambda>r. (rr_transaction_hash r, rr_status r)) receipts))) hs = Inr outs"
    by (auto simp: fetch_block_receipts_def io_simps res_simps)
  show ?thesis
    by (rule take_statuses_answer [OF _ take])
      (use endpoint_receiptsD(3) [OF assms(1) get] in \<open>auto dest!: map_of_SomeD\<close>)
qed

text \<open>The slices of the batches put together are the list.\<close>

lemma slice_batch: "k * n \<le> length xs \<Longrightarrow> slice xs (k * n, min (k * n + n) (length xs)) = take n (drop (k * n) xs)"
  by (auto simp: slice_def min_def)

lemma concat_take_drop: "concat (map (\<lambda>k. take n (drop (k * n) xs)) [0 ..< m]) = take (m * n) xs"
proof (induction m)
  case (Suc m)
  have "take (m * n) xs @ take n (drop (m * n) xs) = take (m * n + n) xs" by (simp add: take_add)
  with Suc show ?case by (simp add: add.commute)
qed simp

lemma concat_slices:
  assumes "0 < n"
  shows "concat (map (slice xs) (batch_ranges n (length xs))) = xs"
proof -
  let ?m = "(length xs + n - 1) div n"
  have le: "k * n \<le> length xs" if "k < ?m" for k
  proof -
    from that have "Suc k \<le> ?m" by simp
    with assms have "Suc k * n \<le> length xs + n - 1" by (simp only: less_eq_div_iff_mult_less_eq)
    with assms show ?thesis by simp
  qed
  have "length xs \<le> ?m * n"
  proof -
    have "length xs + n - 1 < (?m + 1) * n" using assms by (metis Suc_eq_plus1 dividend_less_times_div mult.commute mult_Suc_right)
    then show ?thesis by simp
  qed
  moreover have "map (slice xs) (batch_ranges n (length xs)) = map (\<lambda>k. take n (drop (k * n) xs)) [0 ..< ?m]"
    using le by (auto simp: batch_ranges_def slice_batch)
  ultimately show ?thesis by (simp add: concat_take_drop)
qed

lemma batched_receipts_answer:
  assumes "endpoint_receipts P Q" and "0 < js_batch_size s" and "batched_receipts X P hs s = (Inr outs, s')"
  shows "list_all2 (answers_hash Q) hs outs"
proof -
  let ?rs = "batch_ranges (js_batch_size s) (length hs)"
  from assms(3) obtain batches s1 where
    run: "io_traverse (\<lambda>ab. observed ''receipts'' ''batch'' (fetch_receipt_batch X P (slice hs ab))) ?rs s = (Inr batches, s1)"
    and outs: "outs = concat batches"
    by (auto simp: batched_receipts_def io_simps)
  have "list_all2 (\<lambda>ab outs. list_all2 (answers_hash Q) (slice hs ab) outs) ?rs batches"
    by (rule io_traverse_Inr [OF _ run]) (blast dest: observed_result intro: fetch_receipt_batch_answers [OF assms(1)])
  then have "list_all2 (list_all2 (answers_hash Q)) (map (slice hs) ?rs) batches" by (simp add: list_all2_map1)
  then have "list_all2 (answers_hash Q) (concat (map (slice hs) ?rs)) (concat batches)"
    by (induction rule: list_all2_induct) (auto intro: list_all2_appendI)
  with outs assms(2) show ?thesis by (simp add: concat_slices)
qed

lemma batched_or_single_answer:
  assumes "endpoint_receipts P Q" and "0 < js_batch_size s" and "batched_or_single X P hs s = (Inr outs, s')"
  shows "list_all2 (answers_hash Q) hs outs"
  using assms batched_receipts_answer [OF assms(1,2)] single_receipts_answer [OF assms(1)]
  by (auto simp: batched_or_single_def split: if_splits prod.splits sum.splits)

theorem optimized_receipts_answer:
  assumes "endpoint_receipts P Q" and "0 < js_batch_size s" and "optimized_receipts X P b hs s = (Inr outs, s')"
  shows "list_all2 (answers_hash Q) hs outs"
proof -
  consider "hs = []" "outs = []" | "single_receipts X P hs s = (Inr outs, s')"
    | s1 where "observed ''receipts'' ''block_receipts'' (fetch_block_receipts X P b hs) s = (Inr outs, s1)"
    | s1 e where "observed ''receipts'' ''block_receipts'' (fetch_block_receipts X P b hs) s = (Inl e, s1)"
      "batched_or_single X P hs (s1\<lparr>js_block_receipts_capability := CAPABILITY_UNSUPPORTED\<rparr>) = (Inr outs, s')"
    | "batched_or_single X P hs s = (Inr outs, s')"
    using assms(3) by (auto simp: optimized_receipts_def split: if_splits prod.splits sum.splits)
  then show ?thesis
  proof cases
    case 3
    then show ?thesis using observed_result fetch_block_receipts_answers [OF assms(1)] by blast
  next
    case 4
    show ?thesis
      by (rule batched_or_single_answer [OF assms(1) _ 4(2)]) (simp add: observed_frame [OF 4(1)] assms(2))
  qed (use single_receipts_answer [OF assms(1)] batched_or_single_answer [OF assms(1,2)] in auto)
qed

section \<open>Logs\<close>

definition filter_matches :: "log_filter \<Rightarrow> source_log \<Rightarrow> bool" where
  "filter_matches flt log =
     ((lf_addresses flt = [] \<or> sl_address log \<in> set (lf_addresses flt))
      \<and> (lf_topic0s flt = []
         \<or> (case slice_get (sl_topics log) 0 of None \<Rightarrow> False | Some t \<Rightarrow> t \<in> set (lf_topic0s flt))))"

definition range_logs :: "chain_data \<Rightarrow> log_filter \<Rightarrow> block_number \<Rightarrow> block_number \<Rightarrow> source_log list" where
  "range_logs D flt a b = concat (map (\<lambda>n. filter (filter_matches flt) (cd_logs D n)) (range_inclusive a b))"

text \<open>
  An endpoint that serves the chain, in any of its states: it may fail, name another block, leave
  out transactions or receipts; but a block it names, a receipt it gives and the logs it answers a
  query with are those of the chain.
\<close>

definition endpoint_truthful :: "'e provider \<Rightarrow> chain_data \<Rightarrow> bool" where
  "endpoint_truthful P D =
     ((\<forall>e b block ts e'. pv_get_block_by_number P (TagNumber b) True e = (Inr (Some block), e') \<longrightarrow>
         rb_number block = b \<longrightarrow> rb_transactions block = FullTransactions ts \<longrightarrow>
         List.map_filter block_transaction_of ts = sb_transactions (cd_block D b))
      \<and> endpoint_receipts P (\<lambda>h succeeded. succeeded = cd_succeeded D h)
      \<and> (\<forall>e flt logs e' a b. pv_get_logs P flt e = (Inr logs, e') \<longrightarrow>
         lf_from flt = Some a \<longrightarrow> lf_to flt = Some b \<longrightarrow>
         mset (map source_log_of logs) = mset (range_logs D flt a b)))"

lemma endpoint_truthfulD:
  assumes "endpoint_truthful P D"
  shows "pv_get_block_by_number P (TagNumber b) True e = (Inr (Some block), e') \<Longrightarrow> rb_number block = b \<Longrightarrow>
      rb_transactions block = FullTransactions ts \<Longrightarrow>
      List.map_filter block_transaction_of ts = sb_transactions (cd_block D b)"
    and "endpoint_receipts P (\<lambda>h succeeded. succeeded = cd_succeeded D h)"
    and "pv_get_logs P flt e = (Inr logs, e') \<Longrightarrow> lf_from flt = Some a \<Longrightarrow> lf_to flt = Some b' \<Longrightarrow>
      mset (map source_log_of logs) = mset (range_logs D flt a b')"
  using assms unfolding endpoint_truthful_def by blast+

lemma filter_matches_range [simp]: "filter_matches (flt\<lparr>lf_from := a, lf_to := b\<rparr>) = filter_matches flt"
  by (auto simp: filter_matches_def fun_eq_iff split: option.split)

lemma range_logs_range [simp]: "range_logs D (flt\<lparr>lf_from := x, lf_to := y\<rparr>) a b = range_logs D flt a b"
  by (simp add: range_logs_def)

lemma range_inclusive_split:
  assumes "a \<le> m" and "m < b" and "unat (m + 1) = Suc (unat m)"
  shows "range_inclusive a b = range_inclusive a m @ range_inclusive (m + 1) b"
proof -
  have "unat a \<le> Suc (unat m)" "Suc (unat m) \<le> Suc (unat b)"
    using assms by (simp_all add: word_le_nat_alt word_less_nat_alt)
  then have "[unat a ..< Suc (unat b)] = [unat a ..< Suc (unat m)] @ [Suc (unat m) ..< Suc (unat b)]"
    by (metis le_iff_add upt_add_eq_append)
  then have "map unat (range_inclusive a b) = map unat (range_inclusive a m @ range_inclusive (m + 1) b)"
    by (simp only: map_append map_unat_range_inclusive assms(3))
  then show ?thesis by (rule map_injective) (simp add: inj_def word_unat_eq_iff)
qed

lemma range_logs_split:
  assumes "br_start rng < br_end rng"
  shows "range_logs D flt (br_start rng) (br_end rng)
    = range_logs D flt (br_start rng) (range_middle rng) @ range_logs D flt (range_middle rng + 1) (br_end rng)"
  unfolding range_logs_def by (simp add: range_inclusive_split [OF range_middle_bounds(1-3) [OF assms]])

lemma fetch_logs_truth:
  assumes "endpoint_truthful P D"
    and "fetch_logs P (flt\<lparr>lf_from := Some a, lf_to := Some b\<rparr>) e = (Inr fetched, e')"
  shows "mset fetched = mset (range_logs D flt a b)"
proof -
  from assms(2) obtain logs e1 where "pv_get_logs P (flt\<lparr>lf_from := Some a, lf_to := Some b\<rparr>) e = (Inr logs, e1)"
    and fetched: "fetched = map source_log_of logs"
    by (auto simp: fetch_logs_def io_simps)
  from endpoint_truthfulD(3) [OF assms(1) this(1)] show ?thesis by (simp add: fetched)
qed

definition pending_logs :: "chain_data \<Rightarrow> log_filter \<Rightarrow> block_range list \<Rightarrow> source_log list" where
  "pending_logs D flt rs = concat (map (\<lambda>r. range_logs D flt (br_start r) (br_end r)) rs)"

lemma pending_logs_simps [simp]:
  "pending_logs D flt [] = []"
  "pending_logs D flt (r # rs) = range_logs D flt (br_start r) (br_end r) @ pending_logs D flt rs"
  "pending_logs D (flt\<lparr>lf_from := x, lf_to := y\<rparr>) rs = pending_logs D flt rs"
  by (simp_all add: pending_logs_def)

text \<open>One turn of the loop, by what the request for the top range brought.\<close>

lemma adaptive_loop_Cons:
  assumes "adaptive_loop P flt (rng # pending) logs s = (r, s')"
  obtains fetched s1 where
      "observed ''logs'' (if br_start rng = br_end rng then ''single'' else ''range'')
         (fetch_logs P (flt\<lparr>lf_from := Some (br_start rng), lf_to := Some (br_end rng)\<rparr>)) s = (Inr fetched, s1)"
      "adaptive_loop P (flt\<lparr>lf_from := Some (br_start rng), lf_to := Some (br_end rng)\<rparr>) pending (logs @ fetched) s1 = (r, s')"
  | e s1 where
      "observed ''logs'' (if br_start rng = br_end rng then ''single'' else ''range'')
         (fetch_logs P (flt\<lparr>lf_from := Some (br_start rng), lf_to := Some (br_end rng)\<rparr>)) s = (Inl e, s1)"
      "log_range_limited e" "br_start rng < br_end rng"
      "adaptive_loop P (flt\<lparr>lf_from := Some (br_start rng), lf_to := Some (br_end rng)\<rparr>)
         (\<lparr>br_start = br_start rng, br_end = range_middle rng\<rparr> # \<lparr>br_start = range_middle rng + 1, br_end = br_end rng\<rparr> # pending)
         logs s1 = (r, s')"
  | e s1 where
      "observed ''logs'' (if br_start rng = br_end rng then ''single'' else ''range'')
         (fetch_logs P (flt\<lparr>lf_from := Some (br_start rng), lf_to := Some (br_end rng)\<rparr>)) s = (Inl e, s1)"
      "\<not> (log_range_limited e \<and> br_start rng < br_end rng)" "s' = s1"
      "r = Inl e \<or> r = Inl (Message (''log query limit exceeded for single block '' @ show_u64 (br_start rng)) # e)"
proof -
  have split: "range_middle rng + 1 \<le> br_end rng" if "br_start rng < br_end rng"
    using range_middle_bounds(2,3) [OF that] by (simp add: word_le_nat_alt word_less_nat_alt)
  from trans [OF adaptive_loop.simps(2) [symmetric] assms] that show thesis
    by (auto simp: Let_def block_range_new_def range_middle_bounds(1) split split: prod.splits sum.splits if_splits)
qed

lemma adaptive_loop_truth:
  assumes "endpoint_truthful P D"
  shows "adaptive_loop P flt pending logs s = (Inr out, s') \<Longrightarrow>
    mset out = mset logs + mset (pending_logs D flt pending)"
proof (induction "sum_list (map range_work pending)" arbitrary: flt pending logs s rule: less_induct)
  case less
  show ?case
  proof (cases pending)
    case (Cons rng rest)
    from less.prems [unfolded Cons] show ?thesis
    proof (cases rule: adaptive_loop_Cons)
      case (1 fetched s1)
      then obtain e e' where "fetch_logs P (flt\<lparr>lf_from := Some (br_start rng), lf_to := Some (br_end rng)\<rparr>) e = (Inr fetched, e')"
        using observed_result by blast
      from fetch_logs_truth [OF assms this] less.hyps [OF _ 1(2)] show ?thesis by (simp add: Cons)
    next
      case (2 e s1)
      from less.hyps [OF _ 2(4)] show ?thesis
        using range_work_split [OF 2(3)] by (simp add: Cons range_logs_split [OF 2(3)])
    qed auto
  qed (use less.prems in simp)
qed

lemma adaptive_filter_logs_truth:
  assumes "endpoint_truthful P D" and "adaptive_filter_logs P rng flt s = (Inr out, s')"
  shows "mset out = mset (range_logs D flt (br_start rng) (br_end rng))"
  using adaptive_loop_truth [OF assms(1) assms(2) [unfolded adaptive_filter_logs_def]] by simp

subsection \<open>The filters of a query\<close>

lemma grouped_entries:
  "(k, vs) \<in> set (foldl (\<lambda>m (k, v). entry_push k v m) [] ps)
     \<longleftrightarrow> vs = map snd (filter (\<lambda>p. fst p = k) ps) \<and> vs \<noteq> []"
  and grouped_keys: "distinct (map fst (foldl (\<lambda>m (k, v). entry_push k v m) [] ps))"
  using foldl_entry_push [of "[]" ps] entry_in_get [of "foldl (\<lambda>m (k, v). entry_push k v m) [] ps" k vs]
  by (auto simp: ordered_entries_def strict_sorted_iff)

text \<open>A log of a target matches exactly one filter of the query, any other log none.\<close>

lemma distinct_filter_entries:
  assumes "distinct (map fst m)" and "\<And>k vs. (k, vs) \<in> set m \<Longrightarrow> R (k, vs) \<longleftrightarrow> k = a \<and> Q"
    and "(\<exists>vs. (a, vs) \<in> set m) \<or> \<not> Q"
  shows "length (filter R m) = (if Q then 1 else 0)"
  using assms
proof (induction m)
  case (Cons kv m)
  obtain k vs where kv: "kv = (k, vs)" by fastforce
  show ?case
  proof (cases "k = a \<and> Q")
    case True
    then have "\<not> R kv'" if "kv' \<in> set m" for kv'
      using Cons.prems(1,2) that by (cases kv') (force simp: kv)
    with True Cons.prems(2) show ?thesis by (auto simp: kv)
  next
    case False
    have "(\<exists>vs. (a, vs) \<in> set m) \<or> \<not> Q" using Cons.prems(3) False by (auto simp: kv)
    with Cons.IH Cons.prems(1,2) have "length (filter R m) = (if Q then 1 else 0)" by simp
    with False Cons.prems(2) show ?thesis by (auto simp: kv)
  qed
qed auto

lemma exact_filters_count:
  "length (filter (\<lambda>flt. filter_matches flt log) (exact_log_filters targets))
     = (case log_target_of log of None \<Rightarrow> 0 | Some t \<Rightarrow> if t \<in> set targets then 1 else 0)"
proof -
  define A where "A = foldl (\<lambda>m (k, v). entry_push k v m) [] (map (\<lambda>t. (lt_address t, lt_topic0 t)) targets)"
  define B where "B = foldl (\<lambda>m (k, v). entry_push k v m) [] (map (\<lambda>t. (lt_topic0 t, lt_address t)) targets)"
  let ?fa = "\<lambda>(a, topics). any_log\<lparr>lf_addresses := [a], lf_topic0s := topics\<rparr>"
  let ?ft = "\<lambda>(t, addresses). any_log\<lparr>lf_addresses := addresses, lf_topic0s := [t]\<rparr>"
  have in_A: "(k, vs) \<in> set A \<longleftrightarrow> vs = map lt_topic0 (filter (\<lambda>t. lt_address t = k) targets) \<and> vs \<noteq> []" for k vs
    unfolding A_def grouped_entries by (simp add: filter_map comp_def)
  have in_B: "(k, vs) \<in> set B \<longleftrightarrow> vs = map lt_address (filter (\<lambda>t. lt_topic0 t = k) targets) \<and> vs \<noteq> []" for k vs
    unfolding B_def grouped_entries by (simp add: filter_map comp_def)
  have filters: "exact_log_filters targets = (if length A \<le> length B then map ?fa A else map ?ft B)"
    by (simp only: exact_log_filters_def A_def B_def Let_def)
  have fa: "filter_matches (?fa (k, vs)) log
      \<longleftrightarrow> sl_address log = k \<and> (\<exists>t. slice_get (sl_topics log) 0 = Some t \<and> t \<in> set vs)" if "vs \<noteq> []" for k vs
    using that by (auto simp: filter_matches_def any_log_def split: option.split)
  have ft: "filter_matches (?ft (k, vs)) log
      \<longleftrightarrow> sl_address log \<in> set vs \<and> slice_get (sl_topics log) 0 = Some k" if "vs \<noteq> []" for k vs
    using that by (auto simp: filter_matches_def any_log_def split: option.split)
  show ?thesis
  proof (cases "log_target_of log")
    case None
    then have none: "slice_get (sl_topics log) 0 = None" by (simp add: log_target_of_def split: option.splits)
    have "\<not> filter_matches (?fa kv) log" if "kv \<in> set A" for kv
      using that none fa [of "snd kv" "fst kv"] in_A [of "fst kv" "snd kv"] by (cases kv) auto
    moreover have "\<not> filter_matches (?ft kv) log" if "kv \<in> set B" for kv
      using that none ft [of "snd kv" "fst kv"] in_B [of "fst kv" "snd kv"] by (cases kv) auto
    ultimately show ?thesis by (simp add: None filters filter_map comp_def filter_False)
  next
    case (Some t)
    then have log: "sl_address log = lt_address t" "slice_get (sl_topics log) 0 = Some (lt_topic0 t)"
      by (auto simp: log_target_of_def split: option.splits)
    have t_in: "t \<in> set targets \<longleftrightarrow> (\<exists>t' \<in> set targets. lt_address t' = lt_address t \<and> lt_topic0 t' = lt_topic0 t)"
      by (metis log_target.expand)
    have "length (filter (\<lambda>kv. filter_matches (?fa kv) log) A) = (if t \<in> set targets then 1 else 0)"
    proof (rule distinct_filter_entries [where a = "lt_address t"])
      show "distinct (map fst A)" unfolding A_def by (rule grouped_keys)
      show "filter_matches (?fa (k, vs)) log \<longleftrightarrow> k = lt_address t \<and> t \<in> set targets" if "(k, vs) \<in> set A" for k vs
        using that log fa [of vs k] unfolding t_in by (auto simp: in_A image_iff intro: sym)
      show "(\<exists>vs. (lt_address t, vs) \<in> set A) \<or> t \<notin> set targets"
        by (auto simp: in_A filter_empty_conv)
    qed
    moreover have "length (filter (\<lambda>kv. filter_matches (?ft kv) log) B) = (if t \<in> set targets then 1 else 0)"
    proof (rule distinct_filter_entries [where a = "lt_topic0 t"])
      show "distinct (map fst B)" unfolding B_def by (rule grouped_keys)
      show "filter_matches (?ft (k, vs)) log \<longleftrightarrow> k = lt_topic0 t \<and> t \<in> set targets" if "(k, vs) \<in> set B" for k vs
        using that log ft [of vs k] unfolding t_in by (auto simp: in_B image_iff intro: sym)
      show "(\<exists>vs. (lt_topic0 t, vs) \<in> set B) \<or> t \<notin> set targets"
        by (auto simp: in_B filter_empty_conv)
    qed
    ultimately show ?thesis by (cases "t \<in> set targets") (simp_all add: filters Some filter_map comp_def)
  qed
qed

text \<open>So the answers to the filters of a query, put together, are the targeted logs.\<close>

lemma mset_filters_partition:
  assumes "\<And>x. x \<in> set L \<Longrightarrow> length (filter (\<lambda>f. R f x) fs) = (if T x then 1 else 0)"
  shows "mset (concat (map (\<lambda>f. filter (R f) L) fs)) = mset (filter T L)"
  using assms
proof (induction L)
  case (Cons x L)
  have "mset (concat (map (\<lambda>f. filter (R f) (x # L)) fs))
      = replicate_mset (length (filter (\<lambda>f. R f x) fs)) x + mset (concat (map (\<lambda>f. filter (R f) L) fs))"
    by (induction fs) auto
  with Cons show ?case by simp
qed (induction fs; simp)

lemma mset_concat_all2: "list_all2 (\<lambda>x ys. mset ys = mset (f x)) xs yss \<Longrightarrow> mset (concat yss) = mset (concat (map f xs))"
  by (induction rule: list_all2_induct) auto

lemma mset_concat_perm: "mset xs = mset ys \<Longrightarrow> mset (concat (map f xs)) = mset (concat (map f ys))"
  by (simp only: mset_concat sum_mset_sum_list [symmetric] mset_map)

lemma adaptive_logs_truth:
  assumes "endpoint_truthful P D" and "\<And>fs. mset (F fs) = mset fs" and "adaptive_logs F P q s = (Inr out, s')"
  shows "mset out = mset (concat (map (\<lambda>n. filter (targeted q) (cd_logs D n))
    (range_inclusive (br_start (lq_range q)) (br_end (lq_range q)))))"
proof (cases "log_query_is_empty q")
  case True
  then have "\<not> targeted q log" for log by (simp add: targeted_def log_query_is_empty_def split: option.split)
  with assms(3) True show ?thesis by (simp add: adaptive_logs_def io_simps)
next
  case False
  let ?ns = "range_inclusive (br_start (lq_range q)) (br_end (lq_range q))"
  let ?L = "concat (map (cd_logs D) ?ns)"
  let ?fs = "exact_log_filters (lq_targets q)"
  have range_logs: "range_logs D flt (br_start (lq_range q)) (br_end (lq_range q)) = filter (filter_matches flt) ?L" for flt
    by (simp add: range_logs_def filter_concat comp_def)
  from assms(3) False obtain fetched s1 where run: "io_traverse (adaptive_filter_logs P (lq_range q)) (F ?fs) s = (Inr fetched, s1)"
    and out: "out = sort_key log_key (concat fetched)"
    by (auto simp: adaptive_logs_def io_simps)
  have "list_all2 (\<lambda>flt logs. mset logs = mset (filter (filter_matches flt) ?L)) (F ?fs) fetched"
    by (rule io_traverse_Inr [OF _ run]) (simp add: adaptive_filter_logs_truth [OF assms(1)] range_logs)
  from mset_concat_all2 [OF this]
  have "mset out = mset (concat (map (\<lambda>flt. filter (filter_matches flt) ?L) (F ?fs)))" by (simp add: out)
  also have "\<dots> = mset (concat (map (\<lambda>flt. filter (filter_matches flt) ?L) ?fs))"
    by (rule mset_concat_perm [OF assms(2)])
  also have "\<dots> = mset (filter (targeted q) ?L)"
    by (rule mset_filters_partition) (simp add: exact_filters_count targeted_def split: option.split)
  finally show ?thesis by (simp add: filter_concat comp_def)
qed

section \<open>The source\<close>

text \<open>Batch sizes are \<open>NonZeroUsize\<close>.\<close>

definition moments_ok :: "'e rpc_moments \<Rightarrow> bool" where
  "moments_ok mo = (\<forall>b hs. 0 < js_batch_size (mo_outcomes mo b hs))"

lemma map_io_err_Inr: "map_io_err g f s = (Inr x, s') \<longleftrightarrow> f s = (Inr x, s')"
  by (auto simp: map_io_err_def res_simps split: prod.splits)

lemma fst_eq_Inr: "fst p = Inr x \<Longrightarrow> \<exists>s'. p = (Inr x, s')"
  by (cases p) simp

lemma rpc_outcomes:
  assumes "endpoint_receipts P Q" and "0 < js_batch_size s"
    and "fst (rpc_fetch_execution_outcomes X P b hs s) = Inr outs"
  shows "list_all2 (answers_hash Q) hs outs"
proof -
  obtain s' where "optimized_receipts X P b hs s = (Inr outs, s')"
    using fst_eq_Inr [OF assms(3)] by (auto simp: rpc_fetch_execution_outcomes_def map_io_err_Inr)
  with assms(1,2) show ?thesis by (rule optimized_receipts_answer)
qed

lemma full_transactions:
  "(case t of FullTransactions ts \<Rightarrow> Inr ts | TransactionHashes hs \<Rightarrow> Inl e) = Inr x \<longleftrightarrow> t = FullTransactions x"
  by (cases t) auto

lemma rpc_block:
  assumes "fst (rpc_fetch_block P b s) = Inr blk"
  obtains e e' block ts where "pv_get_block_by_number P (TagNumber b) True e = (Inr (Some block), e')"
    and "rb_number block = b" and "rb_transactions block = FullTransactions ts"
    and "blk = \<lparr>sb_number = b, sb_transactions = List.map_filter block_transaction_of ts\<rparr>"
proof -
  obtain s' where "observed ''block'' ''single'' (fetch_block P b) s = (Inr blk, s')"
    using fst_eq_Inr [OF assms] by (auto simp: rpc_fetch_block_def map_io_err_Inr)
  then obtain e e' where "fetch_block P b e = (Inr blk, e')" using observed_result by blast
  then obtain block ts e1 where "pv_get_block_by_number P (TagNumber b) True e = (Inr (Some block), e1)"
    "rb_number block = b" "rb_transactions block = FullTransactions ts"
    "blk = \<lparr>sb_number = b, sb_transactions = List.map_filter block_transaction_of ts\<rparr>"
    by (auto simp: fetch_block_def io_simps res_simps full_transactions)
  then show ?thesis by (rule that)
qed

text \<open>Against any endpoint, the answers are those to the requests.\<close>

lemma rpc_answers:
  assumes "moments_ok mo"
  shows "bs_fetch_block (rpc_block_source X F P mo) b = Inr blk \<Longrightarrow> sb_number blk = b"
    and "bs_fetch_execution_outcomes (rpc_block_source X F P mo) b hs = Inr outs \<Longrightarrow> map eo_transaction_hash outs = hs"
proof -
  show "sb_number blk = b" if "bs_fetch_block (rpc_block_source X F P mo) b = Inr blk"
  proof -
    from that have "fst (rpc_fetch_block P b (mo_fetch_block mo b)) = Inr blk" by (simp add: rpc_block_source_def)
    then show ?thesis by (rule rpc_block) simp
  qed
  show "map eo_transaction_hash outs = hs" if "bs_fetch_execution_outcomes (rpc_block_source X F P mo) b hs = Inr outs"
  proof -
    have "endpoint_receipts P (\<lambda>h succeeded. True)" by (simp add: endpoint_receipts_def)
    moreover have "0 < js_batch_size (mo_outcomes mo b hs)" using assms by (simp add: moments_ok_def)
    moreover have "fst (rpc_fetch_execution_outcomes X P b hs (mo_outcomes mo b hs)) = Inr outs"
      using that by (simp add: rpc_block_source_def)
    ultimately have "list_all2 (answers_hash (\<lambda>h succeeded. True)) hs outs" by (rule rpc_outcomes)
    then show ?thesis by (induction rule: list_all2_induct) (simp_all add: answers_hash_def)
  qed
qed

lemma rpc_faithful:
  assumes truth: "endpoint_truthful P D" and "chain_data_ok D" and "moments_ok mo" and perm: "\<And>fs. mset (F fs) = mset fs"
  shows "faithful_source (rpc_block_source X F P mo) D"
  unfolding faithful_source_def
proof (intro conjI allI impI)
  fix b blk assume "bs_fetch_block (rpc_block_source X F P mo) b = Inr blk"
  then have "fst (rpc_fetch_block P b (mo_fetch_block mo b)) = Inr blk" by (simp add: rpc_block_source_def)
  then obtain e e' block ts where "pv_get_block_by_number P (TagNumber b) True e = (Inr (Some block), e')"
    and "rb_number block = b" and "rb_transactions block = FullTransactions ts"
    and blk: "blk = \<lparr>sb_number = b, sb_transactions = List.map_filter block_transaction_of ts\<rparr>" by (rule rpc_block)
  with endpoint_truthfulD(1) [OF truth] have "sb_transactions blk = sb_transactions (cd_block D b)" by simp
  moreover have "sb_number (cd_block D b) = b" using assms(2) by (simp add: chain_data_ok_def)
  ultimately show "blk = cd_block D b" by (simp add: blk)
next
  fix b hs outs assume "bs_fetch_execution_outcomes (rpc_block_source X F P mo) b hs = Inr outs"
  then have "fst (rpc_fetch_execution_outcomes X P b hs (mo_outcomes mo b hs)) = Inr outs" by (simp add: rpc_block_source_def)
  from rpc_outcomes [OF endpoint_truthfulD(2) [OF truth] _ this] assms(3)
  have "list_all2 (answers_hash (\<lambda>h succeeded. succeeded = cd_succeeded D h)) hs outs" by (simp add: moments_ok_def)
  then show "outs = map (\<lambda>h. \<lparr>eo_transaction_hash = h, eo_succeeded = cd_succeeded D h\<rparr>) hs"
    by (induction rule: list_all2_induct) (auto simp: answers_hash_def)
next
  fix q logs assume "bs_fetch_logs (rpc_block_source X F P mo) q = Inr logs"
  then obtain s' where "adaptive_logs F P q (mo_logs mo q) = (Inr logs, s')"
    by (auto simp: rpc_block_source_def rpc_fetch_logs_def map_io_err_Inr dest!: fst_eq_Inr)
  from adaptive_logs_truth [OF truth perm this]
  have logs: "mset logs = mset (concat (map (\<lambda>n. filter (targeted q) (cd_logs D n))
    (range_inclusive (br_start (lq_range q)) (br_end (lq_range q)))))" .
  have at: "sl_block_number log = Some n" if "log \<in> set (cd_logs D n)" for log n
    using assms(2) that by (auto simp: chain_data_ok_def log_positioned_def)
  show "\<forall>log \<in> set logs. \<exists>b. in_range (lq_range q) b \<and> log \<in> set (cd_logs D b)"
    using arg_cong [OF logs, of set_mset] by (auto simp: in_range_def)
  fix b assume b: "in_range (lq_range q) b"
  have one: "filter (\<lambda>log. sl_block_number log = Some b) (filter (targeted q) (cd_logs D n))
      = (if n = b then filter (targeted q) (cd_logs D b) else [])" for n
  proof (cases "n = b")
    case True
    have "filter (\<lambda>log. sl_block_number log = Some b) (filter (targeted q) (cd_logs D b)) = filter (targeted q) (cd_logs D b)"
      by (rule filter_True) (auto dest: at)
    with True show ?thesis by simp
  next
    case False
    then show ?thesis by (auto simp: filter_empty_conv dest: at)
  qed
  have "concat (map (\<lambda>n. if n = b then ys else []) ns) = ys" if "distinct ns" "b \<in> set ns" for ns and ys :: "source_log list"
    using that by (induction ns) (auto simp: concat_eq_Nil_conv)
  moreover have "distinct (range_inclusive (br_start (lq_range q)) (br_end (lq_range q)))"
    by (metis distinct_map distinct_upt map_unat_range_inclusive)
  ultimately have "filter (\<lambda>log. sl_block_number log = Some b) (concat (map (\<lambda>n. filter (targeted q) (cd_logs D n))
      (range_inclusive (br_start (lq_range q)) (br_end (lq_range q))))) = filter (targeted q) (cd_logs D b)"
    using b by (simp add: filter_concat comp_def one in_range_def del: filter_filter)
  with arg_cong [OF logs, of "filter_mset (\<lambda>log. sl_block_number log = Some b)"]
  show "mset (filter (\<lambda>log. sl_block_number log = Some b) logs) = mset (filter (targeted q) (cd_logs D b))"
    by (simp flip: mset_filter)
qed

end
