(* ===== verification/Rpc_Live.thy ===== *)
theory Rpc_Live
  imports Rpc_Correct Worker_Live
begin

text \<open>
  How the JSON-RPC source goes on: it always answers when the endpoint's failures are those it
  recovers from, it needs a bounded number of log requests whatever the endpoint answers, it
  remembers an unsupported request form, and its errors never show what the transport said.
\<close>

section \<open>Recoverable endpoints\<close>

text \<open>
  In any state: blocks and single receipts are served; block receipts and batches are served or
  refused as unsupported; a log query over one block is served, one over more may be refused as
  too large.
\<close>

definition endpoint_recoverable :: "'e provider \<Rightarrow> bool" where
  "endpoint_recoverable P =
     ((\<forall>e b. \<exists>block ts e'. pv_get_block_by_number P (TagNumber b) True e = (Inr (Some block), e')
         \<and> rb_number block = b \<and> rb_transactions block = FullTransactions ts)
      \<and> (\<forall>e h. \<exists>r e'. pv_get_transaction_receipt P h e = (Inr (Some r), e') \<and> rr_transaction_hash r = h)
      \<and> (\<forall>e b err e'. pv_get_block_receipts P b e = (Inl err, e') \<longrightarrow> block_receipts_unavailable err)
      \<and> (\<forall>h. pv_add_call P h = Inr ())
      \<and> (\<forall>e hs err e'. pv_send_batch P hs e = (Inl err, e') \<longrightarrow> unsupported_batch err)
      \<and> (\<forall>e hs answer e' i err. pv_send_batch P hs e = (Inr answer, e') \<longrightarrow> i < length hs \<longrightarrow>
           answer i = Inl err \<longrightarrow> unsupported_batch err)
      \<and> (\<forall>e hs answer e' i found. pv_send_batch P hs e = (Inr answer, e') \<longrightarrow> i < length hs \<longrightarrow>
           answer i = Inr found \<longrightarrow> (\<exists>r. found = Some r \<and> rr_transaction_hash r = hs ! i))
      \<and> (\<forall>e flt err e'. pv_get_logs P flt e = (Inl err, e') \<longrightarrow>
           log_range_limited err \<and> (\<exists>a b. lf_from flt = Some a \<and> lf_to flt = Some b \<and> a < b)))"

lemma endpoint_recoverableD:
  assumes "endpoint_recoverable P"
  shows "\<exists>block ts e'. pv_get_block_by_number P (TagNumber b) True e = (Inr (Some block), e')
      \<and> rb_number block = b \<and> rb_transactions block = FullTransactions ts"
    and "\<exists>r e'. pv_get_transaction_receipt P h e = (Inr (Some r), e') \<and> rr_transaction_hash r = h"
    and "pv_get_block_receipts P b e = (Inl err, e') \<Longrightarrow> block_receipts_unavailable err"
    and "pv_add_call P h = Inr ()"
    and "pv_send_batch P hs e = (Inl err, e') \<Longrightarrow> unsupported_batch err"
    and "pv_send_batch P hs e = (Inr answer, e') \<Longrightarrow> i < length hs \<Longrightarrow> answer i = Inl err \<Longrightarrow> unsupported_batch err"
    and "pv_send_batch P hs e = (Inr answer, e') \<Longrightarrow> i < length hs \<Longrightarrow> answer i = Inr found \<Longrightarrow>
      \<exists>r. found = Some r \<and> rr_transaction_hash r = hs ! i"
    and "pv_get_logs P flt e = (Inl err, e') \<Longrightarrow>
      log_range_limited err \<and> (\<exists>a b. lf_from flt = Some a \<and> lf_to flt = Some b \<and> a < b)"
proof -
  note conjuncts = assms [unfolded endpoint_recoverable_def]
  note c1 = conjuncts [THEN conjunct1] and r1 = conjuncts [THEN conjunct2]
  note c2 = r1 [THEN conjunct1] and r2 = r1 [THEN conjunct2]
  note c3 = r2 [THEN conjunct1] and r3 = r2 [THEN conjunct2]
  note c4 = r3 [THEN conjunct1] and r4 = r3 [THEN conjunct2]
  note c5 = r4 [THEN conjunct1] and r5 = r4 [THEN conjunct2]
  note c6 = r5 [THEN conjunct1] and r6 = r5 [THEN conjunct2]
  note c7 = r6 [THEN conjunct1] and c8 = r6 [THEN conjunct2]
  show "\<exists>block ts e'. pv_get_block_by_number P (TagNumber b) True e = (Inr (Some block), e')
      \<and> rb_number block = b \<and> rb_transactions block = FullTransactions ts" using c1 by fast
  show "\<exists>r e'. pv_get_transaction_receipt P h e = (Inr (Some r), e') \<and> rr_transaction_hash r = h" using c2 by fast
  show "pv_get_block_receipts P b e = (Inl err, e') \<Longrightarrow> block_receipts_unavailable err" using c3 by fast
  show "pv_add_call P h = Inr ()" using c4 by fast
  show "pv_send_batch P hs e = (Inl err, e') \<Longrightarrow> unsupported_batch err" using c5 by fast
  show "pv_send_batch P hs e = (Inr answer, e') \<Longrightarrow> i < length hs \<Longrightarrow> answer i = Inl err \<Longrightarrow> unsupported_batch err" using c6 by fast
  show "pv_send_batch P hs e = (Inr answer, e') \<Longrightarrow> i < length hs \<Longrightarrow> answer i = Inr found \<Longrightarrow>
      \<exists>r. found = Some r \<and> rr_transaction_hash r = hs ! i" using c7 by fast
  show "pv_get_logs P flt e = (Inl err, e') \<Longrightarrow>
      log_range_limited err \<and> (\<exists>a b. lf_from flt = Some a \<and> lf_to flt = Some b \<and> a < b)" using c8 by fast
qed

lemma observed_total:
  assumes "\<And>e. \<exists>x e'. f e = (Inr x, e')"
  shows "\<exists>x s'. observed op st f s = (Inr x, s')"
proof -
  obtain r s' where run: "observed op st f s = (r, s')" by fastforce
  then obtain e e' where "f e = (r, e')" using observed_result by blast
  with assms [of e] run show ?thesis by auto
qed

lemma single_receipts_total:
  assumes "endpoint_recoverable P"
  shows "\<exists>outs s'. single_receipts X P hs s = (Inr outs, s')"
  unfolding single_receipts_def
proof (rule io_traverse_total, rule observed_total)
  fix h e
  obtain r e' where "pv_get_transaction_receipt P h e = (Inr (Some r), e')" "rr_transaction_hash r = h"
    using endpoint_recoverableD(2) [OF assms] by blast
  then show "\<exists>x e'. fetch_receipt X P h e = (Inr x, e')"
    by (simp add: fetch_receipt_def io_bind_def io_lift_def receipt_outcome_def)
qed

lemma batched_receipts_recovers:
  assumes "endpoint_recoverable P" and "batched_receipts X P hs s = (Inl e, s')"
  shows "unsupported_batch e"
proof -
  from assms(2) have run: "io_traverse (\<lambda>ab. observed ''receipts'' ''batch'' (fetch_receipt_batch X P (slice hs ab)))
      (batch_ranges (js_batch_size s) (length hs)) s = (Inl e, s')"
    by (auto simp: batched_receipts_def io_simps)
  show ?thesis
  proof (rule io_traverse_Inl [OF _ run])
    fix ab s e s' assume "observed ''receipts'' ''batch'' (fetch_receipt_batch X P (slice hs ab)) s = (Inl e, s')"
    then obtain d d' where batch: "fetch_receipt_batch X P (slice hs ab) d = (Inl e, d')" using observed_result by blast
    let ?hs = "slice hs ab"
    have "traverse (pv_add_call P) ?hs = Inr (map (\<lambda>h. ()) ?hs)"
      by (rule traverse_map_Inr) (simp add: endpoint_recoverableD(4) [OF assms(1)])
    with batch consider "pv_send_batch P ?hs d = (Inl e, d')"
      | answer d1 where "pv_send_batch P ?hs d = (Inr answer, d1)"
        "traverse (\<lambda>(i, h). res_bind (answer i) (receipt_outcome X h)) (enumerate 0 ?hs) = Inl e"
      by (auto simp: fetch_receipt_batch_def io_simps)
    then show "unsupported_batch e"
    proof cases
      case 1
      then show ?thesis by (rule endpoint_recoverableD(5) [OF assms(1)])
    next
      case (2 answer d1)
      have "traverse g ihs = Inl e \<Longrightarrow> \<exists>ih \<in> set ihs. g ih = Inl e" for g :: "nat \<times> b256 \<Rightarrow> execution_outcome result" and ihs
        by (induction ihs) (auto simp: res_simps)
      from this [OF 2(2)] obtain i where i: "i < length ?hs" "res_bind (answer i) (receipt_outcome X (?hs ! i)) = Inl e"
        by (auto simp: in_set_enumerate_eq)
      show ?thesis
      proof (cases "answer i")
        case (Inl err)
        with i endpoint_recoverableD(6) [OF assms(1) 2(1) i(1)] show ?thesis by simp
      next
        case (Inr found)
        from endpoint_recoverableD(7) [OF assms(1) 2(1) i(1) Inr] i(2) Inr show ?thesis
          by (auto simp: receipt_outcome_def)
      qed
    qed
  qed
qed

lemma batched_or_single_total:
  assumes "endpoint_recoverable P"
  shows "\<exists>outs s'. batched_or_single X P hs s = (Inr outs, s')"
proof (cases "js_batch_capability s = CAPABILITY_UNSUPPORTED")
  case True
  then show ?thesis using single_receipts_total [OF assms] by (simp add: batched_or_single_def)
next
  case False
  obtain r s1 where run: "batched_receipts X P hs s = (r, s1)" by fastforce
  show ?thesis
  proof (cases r)
    case (Inl e)
    with run batched_receipts_recovers [OF assms] have "unsupported_batch e" by blast
    with run Inl False show ?thesis using single_receipts_total [OF assms] by (simp add: batched_or_single_def)
  qed (use run False in \<open>simp add: batched_or_single_def\<close>)
qed

lemma take_statuses_missing: "take_statuses X st hs = Inl e \<Longrightarrow> is_receipts_response_error e"
  by (induction hs arbitrary: st) (auto simp: is_receipts_response_error_def res_simps split: option.splits)

lemma block_receipts_recovers:
  assumes "endpoint_recoverable P" and "fetch_block_receipts X P b hs d = (Inl e, d')"
  shows "block_receipts_unavailable e"
proof -
  from assms(2) consider "pv_get_block_receipts P b d = (Inl e, d')" | "e = [MissingBlock b]"
    | st where "take_statuses X st hs = Inl e"
    by (auto simp: fetch_block_receipts_def io_simps res_simps)
  then show ?thesis
  proof cases
    case 1
    then show ?thesis by (rule endpoint_recoverableD(3) [OF assms(1)])
  next
    case 3
    then show ?thesis by (auto simp: block_receipts_unavailable_def dest: take_statuses_missing)
  qed (simp add: block_receipts_unavailable_def is_receipts_response_error_def)
qed

lemma optimized_receipts_total:
  assumes "endpoint_recoverable P"
  shows "\<exists>outs s'. optimized_receipts X P b hs s = (Inr outs, s')"
proof -
  obtain r s1 where run: "observed ''receipts'' ''block_receipts'' (fetch_block_receipts X P b hs) s = (r, s1)" by fastforce
  have "block_receipts_unavailable e" if "r = Inl e" for e
    using observed_result [OF run] block_receipts_recovers [OF assms] that by blast
  with run show ?thesis
    using single_receipts_total [OF assms] batched_or_single_total [OF assms]
    by (cases r) (auto simp: optimized_receipts_def)
qed

lemma adaptive_loop_total:
  assumes "endpoint_recoverable P"
  shows "\<exists>out s'. adaptive_loop P flt pending logs s = (Inr out, s')"
proof (induction "sum_list (map range_work pending)" arbitrary: flt pending logs s rule: less_induct)
  case less
  obtain r s' where run: "adaptive_loop P flt pending logs s = (r, s')" by fastforce
  show ?case
  proof (cases pending)
    case (Cons rng rest)
    from run [unfolded Cons] show ?thesis
    proof (cases rule: adaptive_loop_Cons)
      case (1 fetched s1)
      then show ?thesis using less [of rest] by (metis Cons run list.simps(9) sum_list.Cons range_work_pos less_add_same_cancel2)
    next
      case (2 e s1)
      let ?l = "\<lparr>br_start = br_start rng, br_end = range_middle rng\<rparr>" and ?r = "\<lparr>br_start = range_middle rng + 1, br_end = br_end rng\<rparr>"
      have "sum_list (map range_work (?l # ?r # rest)) < sum_list (map range_work pending)"
        using range_work_split [OF 2(3)] by (simp add: Cons)
      from less [OF this] 2(4) run show ?thesis by (metis prod.inject)
    next
      case (3 e s1)
      let ?flt = "flt\<lparr>lf_from := Some (br_start rng), lf_to := Some (br_end rng)\<rparr>"
      obtain d d' where "fetch_logs P ?flt d = (Inl e, d')" using observed_result [OF 3(1)] by blast
      then have "pv_get_logs P ?flt d = (Inl e, d')" by (auto simp: fetch_logs_def io_simps)
      from endpoint_recoverableD(8) [OF assms this] 3(2) show ?thesis by simp
    qed
  qed simp
qed

lemma adaptive_logs_total:
  assumes "endpoint_recoverable P"
  shows "\<exists>out s'. adaptive_logs F P q s = (Inr out, s')"
proof -
  obtain fetched s1 where "io_traverse (adaptive_filter_logs P (lq_range q)) (F (exact_log_filters (lq_targets q))) s = (Inr fetched, s1)"
    using io_traverse_total [of "adaptive_filter_logs P (lq_range q)"] adaptive_loop_total [OF assms]
    by (metis adaptive_filter_logs_def)
  then show ?thesis by (simp add: adaptive_logs_def io_bind_def io_lift_def)
qed

lemma rpc_answers_always:
  assumes "endpoint_truthful P D" and "chain_data_ok D" and "moments_ok mo" and "\<And>fs. mset (F fs) = mset fs"
    and rec: "endpoint_recoverable P"
  shows "source_answers (rpc_block_source X F P mo) D"
  unfolding source_answers_def
proof (intro conjI allI)
  show "faithful_source (rpc_block_source X F P mo) D" by (rule rpc_faithful) fact+
next
  fix b
  have "\<exists>x s'. observed ''block'' ''single'' (fetch_block P b) s = (Inr x, s')" for s
  proof (rule observed_total)
    fix e
    obtain block ts e' where "pv_get_block_by_number P (TagNumber b) True e = (Inr (Some block), e')"
      "rb_number block = b" "rb_transactions block = FullTransactions ts" using endpoint_recoverableD(1) [OF rec] by blast
    then show "\<exists>x e'. fetch_block P b e = (Inr x, e')" by (simp add: fetch_block_def io_bind_def io_lift_def)
  qed
  from this [of "mo_fetch_block mo b"] show "bs_fetch_block (rpc_block_source X F P mo) b \<in> range Inr"
    by (auto simp: rpc_block_source_def rpc_fetch_block_def map_io_err_def)
next
  fix b hs
  show "bs_fetch_execution_outcomes (rpc_block_source X F P mo) b hs \<in> range Inr"
    using optimized_receipts_total [OF rec, of X b hs "mo_outcomes mo b hs"]
    by (auto simp: rpc_block_source_def rpc_fetch_execution_outcomes_def map_io_err_def)
next
  fix q
  show "bs_fetch_logs (rpc_block_source X F P mo) q \<in> range Inr"
    using adaptive_logs_total [OF rec, of F q "mo_logs mo q"]
    by (auto simp: rpc_block_source_def rpc_fetch_logs_def map_io_err_def)
qed

section \<open>The number of log requests\<close>

definition is_log_request :: "telemetry_event \<Rightarrow> bool" where
  "is_log_request ev = (case ev of RecordRpc c op st out \<Rightarrow> op = ''logs'' | _ \<Rightarrow> False)"

lemma observed_log_request:
  assumes "observed ''logs'' st f s = (r, s')" and "js_chain_id s = Some c"
  shows "length (filter is_log_request (js_telemetry s')) = Suc (length (filter is_log_request (js_telemetry s)))"
    and "js_chain_id s' = Some c"
  using assms observed_frame(1,6) [OF assms(1)]
  by (simp_all add: is_log_request_def in_flight_enter_def in_flight_leave_def)

lemma adaptive_loop_requests:
  assumes "js_chain_id s = Some c" and "adaptive_loop P flt pending logs s = (r, s')"
  shows "length (filter is_log_request (js_telemetry s'))
    \<le> length (filter is_log_request (js_telemetry s)) + sum_list (map range_work pending)"
  using assms
proof (induction "sum_list (map range_work pending)" arbitrary: flt pending logs s rule: less_induct)
  case less
  show ?case
  proof (cases pending)
    case (Cons rng rest)
    from less.prems(2) [unfolded Cons] show ?thesis
    proof (cases rule: adaptive_loop_Cons)
      case (1 fetched s1)
      note seen = observed_log_request [OF 1(1) less.prems(1)]
      from less.hyps [OF _ seen(2) 1(2)] seen(1) Suc_leI [OF range_work_pos, of rng] show ?thesis by (simp add: Cons del: range_work_pos)
    next
      case (2 e s1)
      note seen = observed_log_request [OF 2(1) less.prems(1)]
      from less.hyps [OF _ seen(2) 2(4)] seen(1) range_work_split [OF 2(3)] show ?thesis by (simp add: Cons)
    next
      case (3 e s1)
      from observed_log_request(1) [OF 3(1) less.prems(1)] 3(3) show ?thesis by (simp add: Cons range_work_def)
    qed
  qed (use less.prems in simp)
qed

section \<open>Remembered capabilities\<close>

text \<open>A request of the worker on the source. Rotating the URL is the only other change.\<close>

inductive rpc_step ::
  "externs \<Rightarrow> (log_filter list \<Rightarrow> log_filter list) \<Rightarrow> 'e provider \<Rightarrow> 'e json_rpc_source \<Rightarrow> 'e json_rpc_source \<Rightarrow> bool"
  for X :: externs and F :: "log_filter list \<Rightarrow> log_filter list" and P :: "'e provider" where
  step_chain_id: "rpc_chain_id P s = (r, s') \<Longrightarrow> rpc_step X F P s s'"
| step_finalized_head: "rpc_finalized_head P s = (r, s') \<Longrightarrow> rpc_step X F P s s'"
| step_fetch_block: "rpc_fetch_block P b s = (r, s') \<Longrightarrow> rpc_step X F P s s'"
| step_outcomes: "rpc_fetch_execution_outcomes X P b hs s = (r, s') \<Longrightarrow> rpc_step X F P s s'"
| step_fetch_logs: "rpc_fetch_logs F P q s = (r, s') \<Longrightarrow> rpc_step X F P s s'"

text \<open>Requests of one strategy.\<close>

definition uses_strategy :: "string \<Rightarrow> telemetry_event \<Rightarrow> bool" where
  "uses_strategy st ev = (case ev of RecordRpc c op st' out \<Rightarrow> st' = st | _ \<Rightarrow> False)"

definition unsupported_kept :: "'e json_rpc_source \<Rightarrow> 'e json_rpc_source \<Rightarrow> bool" where
  "unsupported_kept s s' =
     ((js_batch_capability s = CAPABILITY_UNSUPPORTED \<longrightarrow>
         js_batch_capability s' = CAPABILITY_UNSUPPORTED
         \<and> filter (uses_strategy ''batch'') (js_telemetry s') = filter (uses_strategy ''batch'') (js_telemetry s))
      \<and> (js_block_receipts_capability s = CAPABILITY_UNSUPPORTED \<longrightarrow>
         js_block_receipts_capability s' = CAPABILITY_UNSUPPORTED
         \<and> filter (uses_strategy ''block_receipts'') (js_telemetry s')
           = filter (uses_strategy ''block_receipts'') (js_telemetry s)))"

lemma unsupported_kept_refl [simp]: "unsupported_kept s s"
  by (simp add: unsupported_kept_def)

lemma unsupported_kept_trans: "unsupported_kept s s1 \<Longrightarrow> unsupported_kept s1 s2 \<Longrightarrow> unsupported_kept s s2"
  by (simp add: unsupported_kept_def)

lemma observed_kept:
  assumes "observed op st f s = (r, s')"
    and "st = ''batch'' \<Longrightarrow> js_batch_capability s \<noteq> CAPABILITY_UNSUPPORTED"
    and "st = ''block_receipts'' \<Longrightarrow> js_block_receipts_capability s \<noteq> CAPABILITY_UNSUPPORTED"
  shows "unsupported_kept s s'"
  using assms(2,3) observed_frame(4-6) [OF assms(1)]
  by (auto simp: unsupported_kept_def uses_strategy_def in_flight_enter_def in_flight_leave_def split: option.splits)

lemma io_traverse_kept:
  assumes "\<And>x s r s'. I s \<Longrightarrow> f x s = (r, s') \<Longrightarrow> unsupported_kept s s' \<and> I s'"
  shows "I s \<Longrightarrow> io_traverse f xs s = (r, s') \<Longrightarrow> unsupported_kept s s' \<and> I s'"
proof (induction xs arbitrary: s r s')
  case (Cons x xs)
  obtain r1 s1 where first: "f x s = (r1, s1)" by fastforce
  note kept = assms [OF Cons.prems(1) first]
  obtain r2 s2 where rest: "io_traverse f xs s1 = (r2, s2)" by fastforce
  from first rest Cons.prems(2) kept Cons.IH [OF _ rest] show ?case
    by (auto simp: io_bind_def io_lift_def intro: unsupported_kept_trans split: sum.splits)
qed (simp add: io_lift_def)

lemma single_receipts_kept: "single_receipts X P hs s = (r, s') \<Longrightarrow> unsupported_kept s s'"
  unfolding single_receipts_def
  by (drule io_traverse_kept [where I = "\<lambda>s. True", rotated 2]) (auto intro: observed_kept)

lemma batched_receipts_kept:
  assumes "batched_receipts X P hs s = (r, s')" and "js_batch_capability s \<noteq> CAPABILITY_UNSUPPORTED"
  shows "unsupported_kept s s'"
proof -
  from assms(1) obtain r1 where "io_traverse (\<lambda>ab. observed ''receipts'' ''batch'' (fetch_receipt_batch X P (slice hs ab)))
      (batch_ranges (js_batch_size s) (length hs)) s = (r1, s')"
    by (auto simp: batched_receipts_def io_bind_def io_lift_def split: prod.splits sum.splits)
  from io_traverse_kept [where I = "\<lambda>s. js_batch_capability s \<noteq> CAPABILITY_UNSUPPORTED", OF _ assms(2) this]
  show ?thesis by (auto intro: observed_kept simp: observed_frame)
qed

lemma batched_or_single_kept:
  assumes "batched_or_single X P hs s = (r, s')"
  shows "unsupported_kept s s'"
proof (cases "js_batch_capability s = CAPABILITY_UNSUPPORTED")
  case True
  with assms show ?thesis by (auto simp: batched_or_single_def intro: single_receipts_kept)
next
  case False
  obtain r1 s1 where run: "batched_receipts X P hs s = (r1, s1)" by fastforce
  note kept = batched_receipts_kept [OF run False]
  from assms run False consider (ok) "s' = s1\<lparr>js_batch_capability := CAPABILITY_SUPPORTED\<rparr>" | (error) "s' = s1"
    | (single) "single_receipts X P hs (s1\<lparr>js_batch_capability := CAPABILITY_UNSUPPORTED\<rparr>) = (r, s')"
    by (auto simp: batched_or_single_def split: sum.splits if_splits)
  then show ?thesis
  proof cases
    case single
    from single_receipts_kept [OF this] kept False show ?thesis by (auto simp: unsupported_kept_def)
  qed (use kept False in \<open>auto simp: unsupported_kept_def\<close>)
qed

lemma optimized_receipts_kept:
  assumes "optimized_receipts X P b hs s = (r, s')"
  shows "unsupported_kept s s'"
proof -
  obtain r1 s1 where run: "observed ''receipts'' ''block_receipts'' (fetch_block_receipts X P b hs) s = (r1, s1)" by fastforce
  from assms run consider "s' = s" | "single_receipts X P hs s = (r, s')" | "batched_or_single X P hs s = (r, s')"
    | "js_block_receipts_capability s \<noteq> CAPABILITY_UNSUPPORTED"
      "s' = s1 \<or> s' = s1\<lparr>js_block_receipts_capability := CAPABILITY_SUPPORTED\<rparr>
       \<or> batched_or_single X P hs (s1\<lparr>js_block_receipts_capability := CAPABILITY_UNSUPPORTED\<rparr>) = (r, s')"
    by (auto simp: optimized_receipts_def split: sum.splits if_splits)
  then show ?thesis
  proof cases
    case 4
    have "unsupported_kept s s1" by (rule observed_kept [OF run]) (use 4(1) in auto)
    then have "unsupported_kept s (s1\<lparr>js_block_receipts_capability := c\<rparr>)" for c
      using 4(1) by (simp add: unsupported_kept_def)
    with 4(2) \<open>unsupported_kept s s1\<close> show ?thesis
      by (blast intro: batched_or_single_kept unsupported_kept_trans)
  qed (auto intro: single_receipts_kept batched_or_single_kept)
qed

lemma adaptive_loop_kept: "adaptive_loop P flt pending logs s = (r, s') \<Longrightarrow> unsupported_kept s s'"
proof (induction "sum_list (map range_work pending)" arbitrary: flt pending logs s rule: less_induct)
  case less
  show ?case
  proof (cases pending)
    case (Cons rng rest)
    from less.prems [unfolded Cons] show ?thesis
    proof (cases rule: adaptive_loop_Cons)
      case (1 fetched s1)
      have "unsupported_kept s s1" by (rule observed_kept [OF 1(1)]) (auto split: if_splits)
      moreover from less.hyps [OF _ 1(2)] have "unsupported_kept s1 s'" by (simp add: Cons)
      ultimately show ?thesis by (rule unsupported_kept_trans)
    next
      case (2 e s1)
      have "unsupported_kept s s1" by (rule observed_kept [OF 2(1)]) (auto split: if_splits)
      moreover from less.hyps [OF _ 2(4)] have "unsupported_kept s1 s'" using range_work_split [OF 2(3)] by (simp add: Cons)
      ultimately show ?thesis by (rule unsupported_kept_trans)
    next
      case (3 e s1)
      show ?thesis unfolding 3(3) by (rule observed_kept [OF 3(1)]) (auto split: if_splits)
    qed
  qed (use less.prems in simp)
qed

lemma adaptive_logs_kept:
  assumes "adaptive_logs F P q s = (r, s')"
  shows "unsupported_kept s s'"
proof (cases "log_query_is_empty q")
  case False
  with assms obtain r1 where "io_traverse (adaptive_filter_logs P (lq_range q)) (F (exact_log_filters (lq_targets q))) s = (r1, s')"
    by (auto simp: adaptive_logs_def io_bind_def io_lift_def split: prod.splits sum.splits)
  from io_traverse_kept [where I = "\<lambda>s. True", OF _ _ this] show ?thesis
    by (auto simp: adaptive_filter_logs_def dest: adaptive_loop_kept)
qed (use assms in \<open>simp add: adaptive_logs_def io_lift_def\<close>)

lemma map_io_err_state: "map_io_err g f s = (r, s') \<Longrightarrow> \<exists>r'. f s = (r', s')"
  by (auto simp: map_io_err_def split: prod.splits)

lemma rpc_step_kept: "rpc_step X F P s s' \<Longrightarrow> unsupported_kept s s'"
proof (induction rule: rpc_step.induct)
  case (step_chain_id s r s')
  then show ?case
    by (auto simp: rpc_chain_id_def on_endpoint_def emit_def unsupported_kept_def uses_strategy_def split: prod.splits sum.splits)
next
  case (step_finalized_head s r s')
  then show ?case by (auto simp: rpc_finalized_head_def dest!: map_io_err_state intro: observed_kept)
next
  case (step_fetch_block b s r s')
  then show ?case by (auto simp: rpc_fetch_block_def dest!: map_io_err_state intro: observed_kept)
next
  case (step_outcomes b hs s r s')
  then show ?case by (auto simp: rpc_fetch_execution_outcomes_def dest!: map_io_err_state intro: optimized_receipts_kept)
next
  case (step_fetch_logs q s r s')
  then show ?case by (auto simp: rpc_fetch_logs_def dest!: map_io_err_state intro: adaptive_logs_kept)
qed

lemma rpc_steps_kept: "(rpc_step X F P)\<^sup>*\<^sup>* s s' \<Longrightarrow> unsupported_kept s s'"
  by (induction rule: rtranclp_induct) (auto dest: rpc_step_kept intro: unsupported_kept_trans)

section \<open>Errors\<close>

lemma source_request_error_scrubbed:
  assumes "list_ex is_transport (source_request_error e)"
  shows "safe_error_message (source_request_error e) = ''block source request failed''"
  using assms by (auto simp: source_request_error_def safe_error_message_def is_transport_def split: if_splits)

lemma map_io_err_scrubbed:
  assumes "fst (map_io_err source_request_error f s) = Inl e" and "list_ex is_transport e"
  shows "safe_error_message e = ''block source request failed''"
  using assms source_request_error_scrubbed by (auto simp: map_io_err_def map_err_def split: prod.splits sum.splits)

end
