(* ===== verification/Api.thy ===== *)
theory Api
  imports Services
begin

text \<open>
  \<open>parseon-server/src/error.rs\<close>, \<open>api/dto.rs\<close> and \<open>api/handlers.rs\<close>: the requests of the HTTP API over
  the services, the rows they answer with, and what of an error a client sees. axum hands a handler
  the parsed body or the text of its rejection.
\<close>

section \<open>Errors (\<open>error.rs\<close>)\<close>

datatype app_error = BadRequest string | InternalError error

text \<open>\<open>downcast_ref\<close> looks through the contexts of an error; its text is the outermost one.\<close>

definition is_invalid_command :: "cause \<Rightarrow> bool" where
  "is_invalid_command c = (case c of InvalidCommand s \<Rightarrow> True | _ \<Rightarrow> False)"

definition app_error_of :: "error \<Rightarrow> app_error" where
  "app_error_of e = (if list_ex is_invalid_command e then BadRequest (error_text e) else InternalError e)"

text \<open>The status code and the text of the \<open>ErrorResponse\<close>.\<close>

definition error_response :: "app_error \<Rightarrow> nat \<times> string" where
  "error_response e =
     (case e of BadRequest text \<Rightarrow> (400, text) | InternalError cause \<Rightarrow> (500, ''internal server error''))"

type_synonym 'a app_result = "app_error + 'a"

definition served :: "'a result \<Rightarrow> 'a app_result" where
  "served r = map_err app_error_of r"

definition json_body :: "string + 'b \<Rightarrow> 'b app_result" where
  "json_body body = map_err BadRequest body"

section \<open>Rows (\<open>dto.rs\<close>)\<close>

record create_chain_dto =
  ccd_rpc_url :: url
  ccd_enabled :: bool

record update_chain_dto =
  ucd_rpc_url :: "url option"
  ucd_enabled :: "bool option"

record chain_row =
  chr_chain_id :: u64
  chr_enabled :: bool
  chr_created_at :: int
  chr_updated_at :: int

definition chain_row_of :: "chain_view \<Rightarrow> chain_row" where
  "chain_row_of v =
     \<lparr>chr_chain_id = cv_chain_id v, chr_enabled = cv_enabled v, chr_created_at = cv_created_at v,
      chr_updated_at = cv_updated_at v\<rparr>"

record create_monitor_dto =
  cmd_chain_id :: u64
  cmd_address :: address
  cmd_signature :: string
  cmd_start_block :: "u64 option"
  cmd_end_block :: "u64 option"
  cmd_filter :: "filter_expression option"

record abi_param_schema =
  aps_name :: string
  aps_sol_type :: string
  aps_indexed :: bool

definition abi_param_schema_of :: "externs \<Rightarrow> abi_param \<Rightarrow> abi_param_schema" where
  "abi_param_schema_of X p = \<lparr>aps_name = param_name p, aps_sol_type = sol_type X p, aps_indexed = param_indexed p\<rparr>"

record monitor_row =
  mnr_id :: u64
  mnr_chain_id :: u64
  mnr_address :: address
  mnr_kind :: string
  mnr_selector :: "selector option"
  mnr_topic0 :: "b256 option"
  mnr_param_schema :: "abi_param_schema list"
  mnr_start_block :: u64
  mnr_end_block :: "u64 option"
  mnr_cursor :: "u64 option"
  mnr_completed :: bool
  mnr_enabled :: bool
  mnr_filter :: "filter_expression option"
  mnr_created_at :: int
  mnr_updated_at :: int

definition monitor_row_of :: "externs \<Rightarrow> monitor_view \<Rightarrow> monitor_row" where
  "monitor_row_of X v =
     \<lparr>mnr_id = monitor_id_get (mv_id v), mnr_chain_id = mv_chain_id v, mnr_address = mv_address v,
      mnr_kind = monitor_kind_as_str (mv_kind v), mnr_selector = mv_selector v, mnr_topic0 = mv_topic0 v,
      mnr_param_schema = map (abi_param_schema_of X) (mv_param_schema v), mnr_start_block = mv_start_block v,
      mnr_end_block = mv_end_block v, mnr_cursor = mv_cursor v, mnr_completed = mv_completed v,
      mnr_enabled = mv_enabled v, mnr_filter = mv_filter v, mnr_created_at = mv_created_at v,
      mnr_updated_at = mv_updated_at v\<rparr>"

text \<open>The parameters of a sample are the entries of a \<open>BTreeMap\<close>, in order.\<close>

datatype filter_sample_input =
    InputCall u64 b256 address address "(string \<times> json) list"
  | InputEvent u64 b256 address u64 "(string \<times> json) list"

record filter_preview_request =
  fpq_signature :: string
  fpq_filter :: filter_expression
  fpq_sample :: filter_sample_input

fun filter_sample_of :: "filter_sample_input \<Rightarrow> filter_sample" where
  "filter_sample_of (InputCall b h from to params) = SampleCall b h from to (collect_fields params)"
| "filter_sample_of (InputEvent b h emitter i params) = SampleEvent b h emitter i (collect_fields params)"

record filter_preview_response =
  fpr_filter :: filter_expression
  fpr_matches :: bool

definition filter_preview_response_of :: "filter_preview \<Rightarrow> filter_preview_response" where
  "filter_preview_response_of p = \<lparr>fpr_filter = fp_filter p, fpr_matches = fp_matches p\<rparr>"

record health =
  hl_status :: string
  hl_monitors :: nat

record chain_status_row =
  csr_chain_id :: u64
  csr_enabled :: bool
  csr_worker_state :: string
  csr_finalized_head :: "u64 option"
  csr_last_successful_poll_at :: "int option"
  csr_last_error :: "string option"

record api_status =
  ast_mode :: string
  ast_chains :: "chain_status_row list"

definition chain_status_row_of :: "chain_status_snapshot \<Rightarrow> chain_status_row" where
  "chain_status_row_of s =
     \<lparr>csr_chain_id = cs_chain_id s, csr_enabled = cs_enabled s,
      csr_worker_state =
        (case cs_worker_state s of
           Starting \<Rightarrow> ''starting'' | Running \<Rightarrow> ''running'' | Degraded \<Rightarrow> ''degraded'' | DisabledState \<Rightarrow> ''disabled''),
      csr_finalized_head = cs_finalized_head s, csr_last_successful_poll_at = cs_last_successful_poll_at s,
      csr_last_error = cs_last_error s\<rparr>"

definition default_limit :: u64 where "default_limit = 50"

record results_query =
  rsq_limit :: "u64 option"
  rsq_offset :: "u64 option"

definition query_limit :: "results_query \<Rightarrow> u64" where
  "query_limit q = (case rsq_limit q of None \<Rightarrow> default_limit | Some v \<Rightarrow> v)"

definition query_offset :: "results_query \<Rightarrow> u64" where
  "query_offset q = (case rsq_offset q of None \<Rightarrow> 0 | Some v \<Rightarrow> v)"

datatype monitor_result =
    MonitorCall b256 u64 json
  | MonitorEvent b256 u64 u64 json

fun monitor_result_of :: "monitor_result_view \<Rightarrow> monitor_result" where
  "monitor_result_of (ViewCall h b params) = MonitorCall h b params"
| "monitor_result_of (ViewEvent h i b params) = MonitorEvent h i b params"

section \<open>Handlers (\<open>handlers.rs\<close>)\<close>

text \<open>A handler that changes state threads the storage and the supervisor.\<close>

definition on_storage :: "('s \<Rightarrow> 'a \<times> 's) \<Rightarrow> 's app \<Rightarrow> 'a \<times> 's app" where
  "on_storage f app = (let (r, s) = f (ap_storage app) in (r, app\<lparr>ap_storage := s\<rparr>))"

definition handle_healthz :: "'s repository \<Rightarrow> 's app \<Rightarrow> health app_result" where
  "handle_healthz R app =
     res_bind (served (monitor_count R (ap_storage app))) (\<lambda>n. Inr \<lparr>hl_status = ''ok'', hl_monitors = n\<rparr>)"

definition handle_status :: "'s app \<Rightarrow> api_status" where
  "handle_status app =
     \<lparr>ast_mode = ''finalized'',
      ast_chains = map chain_status_row_of (status_snapshots (sv_statuses (ap_supervisor app)))\<rparr>"

definition handle_create_chain ::
  "'s repository \<Rightarrow> source_factory \<Rightarrow> source_factory \<Rightarrow> string + create_chain_dto \<Rightarrow> 's app
     \<Rightarrow> chain_row app_result \<times> 's app" where
  "handle_create_chain R sources factory body app =
     (case json_body body of
        Inl e \<Rightarrow> (Inl e, app)
      | Inr b \<Rightarrow>
          (let (r, app1) = chain_create R sources factory \<lparr>cc_rpc_url = ccd_rpc_url b, cc_enabled = ccd_enabled b\<rparr> app in
           (res_bind (served r) (\<lambda>v. Inr (chain_row_of v)), app1)))"

definition handle_list_chains :: "'s repository \<Rightarrow> 's app \<Rightarrow> chain_row list app_result" where
  "handle_list_chains R app = res_bind (served (chain_list R app)) (\<lambda>vs. Inr (map chain_row_of vs))"

definition handle_get_chain :: "'s repository \<Rightarrow> u64 \<Rightarrow> 's app \<Rightarrow> chain_row app_result" where
  "handle_get_chain R c app = res_bind (served (chain_get R c app)) (\<lambda>v. Inr (chain_row_of v))"

definition handle_update_chain ::
  "'s repository \<Rightarrow> source_factory \<Rightarrow> source_factory \<Rightarrow> u64 \<Rightarrow> string + update_chain_dto \<Rightarrow> 's app
     \<Rightarrow> chain_row app_result \<times> 's app" where
  "handle_update_chain R sources factory c body app =
     (case json_body body of
        Inl e \<Rightarrow> (Inl e, app)
      | Inr b \<Rightarrow>
          (let (r, app1) = chain_update_service R sources factory c
                 \<lparr>uc_rpc_url = ucd_rpc_url b, uc_enabled = ucd_enabled b\<rparr> app in
           (res_bind (served r) (\<lambda>v. Inr (chain_row_of v)), app1)))"

definition handle_delete_chain :: "'s repository \<Rightarrow> u64 \<Rightarrow> 's app \<Rightarrow> unit app_result \<times> 's app" where
  "handle_delete_chain R c app = (let (r, app1) = chain_delete R c app in (served r, app1))"

definition handle_create_monitor ::
  "externs \<Rightarrow> 's repository \<Rightarrow> source_factory \<Rightarrow> string + create_monitor_dto \<Rightarrow> 's app \<Rightarrow> monitor_row app_result \<times> 's app" where
  "handle_create_monitor X R sources body app =
     (case json_body body of
        Inl e \<Rightarrow> (Inl e, app)
      | Inr b \<Rightarrow>
          on_storage (\<lambda>s.
            let (r, s1) = monitor_create X R sources
                  \<lparr>cm_chain_id = cmd_chain_id b, cm_address = cmd_address b, cm_signature = cmd_signature b,
                   cm_start_block = cmd_start_block b, cm_end_block = cmd_end_block b, cm_filter = cmd_filter b\<rparr> s in
            (res_bind (served r) (\<lambda>v. Inr (monitor_row_of X v)), s1)) app)"

definition handle_preview_filter :: "externs \<Rightarrow> string + filter_preview_request \<Rightarrow> filter_preview_response app_result" where
  "handle_preview_filter X body =
     res_bind (json_body body) (\<lambda>b.
     res_bind (served (preview_filter X
       \<lparr>pv_signature = fpq_signature b, pv_filter = fpq_filter b, pv_sample = filter_sample_of (fpq_sample b)\<rparr>)) (\<lambda>p.
     Inr (filter_preview_response_of p)))"

definition handle_list_monitors :: "externs \<Rightarrow> 's repository \<Rightarrow> u64 option \<Rightarrow> 's app \<Rightarrow> monitor_row list app_result" where
  "handle_list_monitors X R c app =
     res_bind (served (monitor_list R c (ap_storage app))) (\<lambda>vs. Inr (map (monitor_row_of X) vs))"

text \<open>\<open>monitor_id\<close>: an id of zero is the client's mistake.\<close>

definition path_monitor_id :: "u64 \<Rightarrow> monitor_id app_result" where
  "path_monitor_id i = map_err (\<lambda>e. BadRequest (error_text e)) (monitor_id_new i)"

definition handle_get_monitor :: "externs \<Rightarrow> 's repository \<Rightarrow> u64 \<Rightarrow> 's app \<Rightarrow> monitor_row app_result" where
  "handle_get_monitor X R i app =
     res_bind (path_monitor_id i) (\<lambda>mid.
     res_bind (served (monitor_get R mid (ap_storage app))) (\<lambda>v. Inr (monitor_row_of X v)))"

definition handle_update_monitor ::
  "externs \<Rightarrow> 's repository \<Rightarrow> u64 \<Rightarrow> string + bool \<Rightarrow> 's app \<Rightarrow> monitor_row app_result \<times> 's app" where
  "handle_update_monitor X R i body app =
     (case res_bind (json_body body) (\<lambda>enabled. res_bind (path_monitor_id i) (\<lambda>mid. Inr (mid, enabled))) of
        Inl e \<Rightarrow> (Inl e, app)
      | Inr (mid, enabled) \<Rightarrow>
          on_storage (\<lambda>s.
            let (r, s1) = monitor_set_enabled R mid enabled s in
            (res_bind (served r) (\<lambda>v. Inr (monitor_row_of X v)), s1)) app)"

definition handle_delete_monitor :: "'s repository \<Rightarrow> u64 \<Rightarrow> 's app \<Rightarrow> unit app_result \<times> 's app" where
  "handle_delete_monitor R i app =
     (case path_monitor_id i of
        Inl e \<Rightarrow> (Inl e, app)
      | Inr mid \<Rightarrow> on_storage (\<lambda>s. let (r, s1) = monitor_delete R mid s in (served r, s1)) app)"

definition handle_monitor_results :: "'s repository \<Rightarrow> u64 \<Rightarrow> results_query \<Rightarrow> 's app \<Rightarrow> monitor_result list app_result" where
  "handle_monitor_results R i q app =
     res_bind (path_monitor_id i) (\<lambda>mid.
     res_bind (served (monitor_results R mid
       \<lparr>rq_limit = page_limit_new (query_limit q), rq_offset = query_offset q\<rparr> (ap_storage app))) (\<lambda>vs.
     Inr (map monitor_result_of vs)))"

section \<open>Requests\<close>

text \<open>The routes with their parsed parameters; \<open>GET /metrics\<close> only renders the collected metrics.\<close>

datatype api_request =
    GetHealthz
  | GetStatus
  | PostChains "string + create_chain_dto"
  | GetChains
  | GetChain u64
  | PatchChain u64 "string + update_chain_dto"
  | DeleteChainPath u64
  | PostMonitors "string + create_monitor_dto"
  | PostFilterPreview "string + filter_preview_request"
  | GetMonitors "u64 option"
  | GetMonitor u64
  | PatchMonitor u64 "string + bool"
  | DeleteMonitorPath u64
  | GetMonitorResults u64 results_query

datatype api_body =
    HealthBody health
  | StatusBody api_status
  | ChainBody chain_row
  | ChainsBody "chain_row list"
  | MonitorBody monitor_row
  | MonitorsBody "monitor_row list"
  | PreviewBody filter_preview_response
  | ResultsBody "monitor_result list"
  | ErrorBody string
  | NoBody

definition respond :: "('a \<Rightarrow> nat \<times> api_body) \<Rightarrow> 'a app_result \<Rightarrow> nat \<times> api_body" where
  "respond f r =
     (case r of Inl e \<Rightarrow> (let (status, text) = error_response e in (status, ErrorBody text)) | Inr v \<Rightarrow> f v)"

definition ok_json :: "('a \<Rightarrow> api_body) \<Rightarrow> 'a \<Rightarrow> nat \<times> api_body" where
  "ok_json body v = (200, body v)"

definition no_content :: "unit \<Rightarrow> nat \<times> api_body" where
  "no_content u = (204, NoBody)"

definition respond_state :: "('a \<Rightarrow> nat \<times> api_body) \<Rightarrow> 'a app_result \<times> 's app \<Rightarrow> (nat \<times> api_body) \<times> 's app" where
  "respond_state f ra = (respond f (fst ra), snd ra)"

fun api_handle ::
  "externs \<Rightarrow> 's repository \<Rightarrow> source_factory \<Rightarrow> source_factory \<Rightarrow> api_request \<Rightarrow> 's app \<Rightarrow> (nat \<times> api_body) \<times> 's app" where
  "api_handle X R sources factory GetHealthz app = (respond (ok_json HealthBody) (handle_healthz R app), app)"
| "api_handle X R sources factory GetStatus app = (ok_json StatusBody (handle_status app), app)"
| "api_handle X R sources factory (PostChains body) app =
     respond_state (ok_json ChainBody) (handle_create_chain R sources factory body app)"
| "api_handle X R sources factory GetChains app = (respond (ok_json ChainsBody) (handle_list_chains R app), app)"
| "api_handle X R sources factory (GetChain c) app = (respond (ok_json ChainBody) (handle_get_chain R c app), app)"
| "api_handle X R sources factory (PatchChain c body) app =
     respond_state (ok_json ChainBody) (handle_update_chain R sources factory c body app)"
| "api_handle X R sources factory (DeleteChainPath c) app = respond_state no_content (handle_delete_chain R c app)"
| "api_handle X R sources factory (PostMonitors body) app =
     respond_state (ok_json MonitorBody) (handle_create_monitor X R sources body app)"
| "api_handle X R sources factory (PostFilterPreview body) app =
     (respond (ok_json PreviewBody) (handle_preview_filter X body), app)"
| "api_handle X R sources factory (GetMonitors c) app =
     (respond (ok_json MonitorsBody) (handle_list_monitors X R c app), app)"
| "api_handle X R sources factory (GetMonitor i) app = (respond (ok_json MonitorBody) (handle_get_monitor X R i app), app)"
| "api_handle X R sources factory (PatchMonitor i body) app =
     respond_state (ok_json MonitorBody) (handle_update_monitor X R i body app)"
| "api_handle X R sources factory (DeleteMonitorPath i) app = respond_state no_content (handle_delete_monitor R i app)"
| "api_handle X R sources factory (GetMonitorResults i q) app =
     (respond (ok_json ResultsBody) (handle_monitor_results R i q app), app)"

section \<open>Which errors are the client's\<close>

text \<open>An error with no invalid command in it.\<close>

definition quiet :: "error \<Rightarrow> bool" where
  "quiet e = (\<not> list_ex is_invalid_command e)"

definition quiet_result :: "'a result \<Rightarrow> bool" where
  "quiet_result r = (\<forall>e. r = Inl e \<longrightarrow> quiet e)"

text \<open>The errors of a repository that changes are its own, never the client's.\<close>

definition quiet_repository :: "'s repository \<Rightarrow> bool" where
  "quiet_repository R =
     ((\<forall>s nc. quiet_result (fst (rp_create_chain R s nc)))
      \<and> (\<forall>s ch u. quiet_result (fst (rp_update_chain R s ch u)))
      \<and> (\<forall>s ch. quiet_result (fst (rp_delete_chain R s ch)))
      \<and> (\<forall>s nm. quiet_result (fst (rp_create_monitor R s nm)))
      \<and> (\<forall>s i b. quiet_result (fst (rp_set_monitor_enabled R s i b)))
      \<and> (\<forall>s i. quiet_result (fst (rp_delete_monitor R s i))))"

lemma respond_400:
  "respond (ok_json f) r = (400, b) \<longleftrightarrow> (\<exists>text. r = Inl (BadRequest text) \<and> b = ErrorBody text)"
  "respond no_content u = (400, b) \<longleftrightarrow> (\<exists>text. u = Inl (BadRequest text) \<and> b = ErrorBody text)"
  by (auto simp: respond_def ok_json_def no_content_def error_response_def split: sum.splits app_error.splits)

lemma served_bad [simp]: "served r = Inl (BadRequest text) \<longleftrightarrow> (\<exists>e. r = Inl e \<and> \<not> quiet e \<and> text = error_text e)"
  by (auto simp: served_def map_err_def app_error_of_def quiet_def split: sum.splits if_splits)

lemma quiet_context [simp]: "quiet_result (context_error message r) = quiet_result r"
  by (auto simp: quiet_result_def context_error_def quiet_def is_invalid_command_def split: sum.splits)

lemma served_quiet: "quiet_result r \<Longrightarrow> served r \<noteq> Inl (BadRequest text)"
  by (auto simp: quiet_result_def)

lemma served_then: "res_bind (served r) (\<lambda>v. Inr (f v)) = Inl (BadRequest text) \<longleftrightarrow> served r = Inl (BadRequest text)"
  by (cases "served r") (simp_all add: res_bind_def)

section \<open>Refused requests\<close>

lemma apply_persisted_quiet: "quiet_result (fst rs) \<Longrightarrow> quiet_result (fst (apply_persisted factory message rs app))"
  using quiet_context [of message "fst rs"]
  by (cases rs; cases "fst rs") (auto simp: apply_persisted_def quiet_result_def)

text \<open>A service that fails with an error of the client's has not reached the storage.\<close>

lemma chain_create_refused:
  assumes "quiet_repository R" and run: "chain_create R sources factory cmd app = (r, app')"
  shows "quiet_result r \<or> app' = app"
proof (cases "validate_source sources (cc_rpc_url cmd) None")
  case (Inr ch)
  have "quiet_result (fst (chain_create R sources factory cmd app))"
    unfolding chain_create_def Inr sum.case using assms(1) by (intro apply_persisted_quiet) (simp add: quiet_repository_def)
  then show ?thesis by (simp add: run)
qed (use run in \<open>simp add: chain_create_def\<close>)

lemma chain_update_refused:
  assumes "quiet_repository R" and run: "chain_update_service R sources factory c cmd app = (r, app')"
  shows "quiet_result r \<or> app' = app"
proof -
  have "quiet_result (fst (apply_persisted factory ''update chain'' (rp_update_chain R s ch u) app))" for s ch u
    using assms(1) by (intro apply_persisted_quiet) (simp add: quiet_repository_def)
  with run show ?thesis
    by (auto simp: chain_update_service_def Let_def split: sum.splits if_splits) (metis fst_conv)+
qed

lemma chain_delete_quiet: "quiet_repository R \<Longrightarrow> quiet_result (fst (chain_delete R c app))"
  by (simp add: chain_delete_def quiet_repository_def Let_def split: prod.split) (metis fst_conv)

lemma quiet_then [simp]: "quiet_result (res_bind r (\<lambda>v. Inr (f v))) = quiet_result r"
  by (cases r) (simp_all add: quiet_result_def)

lemma monitor_create_refused:
  assumes "quiet_repository R" and "monitor_create X R sources cmd s = (r, s')"
  shows "quiet_result r \<or> s' = s"
proof (cases "new_monitor_of X R sources cmd s")
  case (Inr nm)
  obtain r1 s1 where "rp_create_monitor R s nm = (r1, s1)" by fastforce
  moreover from this assms(1) have "quiet_result r1" unfolding quiet_repository_def by (metis fst_conv)
  ultimately show ?thesis using assms(2) Inr by (auto simp: monitor_create_def)
qed (use assms(2) in \<open>simp add: monitor_create_def\<close>)

lemma monitor_changes_quiet:
  assumes "quiet_repository R"
  shows "monitor_set_enabled R i b s = (r, s') \<Longrightarrow> quiet_result r" and "monitor_delete R i s = (u, s') \<Longrightarrow> quiet_result u"
proof -
  obtain r1 s1 r2 s2 where "rp_set_monitor_enabled R s i b = (r1, s1)" "rp_delete_monitor R s i = (r2, s2)" by fastforce
  moreover from this assms have "quiet_result r1" "quiet_result r2" unfolding quiet_repository_def by (metis fst_conv)+
  ultimately show "monitor_set_enabled R i b s = (r, s') \<Longrightarrow> quiet_result r" "monitor_delete R i s = (u, s') \<Longrightarrow> quiet_result u"
    by (auto simp: monitor_set_enabled_def monitor_delete_def)
qed

lemma served_not_quiet: "served r = Inl (BadRequest text) \<Longrightarrow> \<not> quiet_result r"
  using served_quiet by blast

lemma api_refused:
  assumes quiet: "quiet_repository R" and run: "api_handle X R sources factory req app = ((400, b), app')"
  shows "app' = app"
proof (cases req)
  case (PostChains body)
  with run show ?thesis
    by (auto simp: respond_state_def respond_400 handle_create_chain_def served_then json_body_def map_err_def simp del: served_bad
        split: sum.splits prod.splits dest!: chain_create_refused [OF quiet] served_not_quiet)
next
  case (PatchChain c body)
  with run show ?thesis
    by (auto simp: respond_state_def respond_400 handle_update_chain_def served_then json_body_def map_err_def simp del: served_bad
        split: sum.splits prod.splits dest!: chain_update_refused [OF quiet] served_not_quiet)
next
  case (DeleteChainPath c)
  with run chain_delete_quiet [OF quiet, of c app] served_quiet show ?thesis
    by (auto simp: respond_state_def respond_400 handle_delete_chain_def simp del: served_bad split: prod.splits)
next
  case (PostMonitors body)
  with run show ?thesis
    by (auto simp: respond_state_def respond_400 handle_create_monitor_def on_storage_def served_then json_body_def map_err_def
        simp del: served_bad split: sum.splits prod.splits dest!: monitor_create_refused [OF quiet] served_not_quiet)
next
  case (PatchMonitor i body)
  with run show ?thesis
    by (auto simp: respond_state_def respond_400 handle_update_monitor_def on_storage_def served_then simp del: served_bad
        split: sum.splits prod.splits dest!: monitor_changes_quiet(1) [OF quiet] dest: served_not_quiet)
next
  case (DeleteMonitorPath i)
  with run show ?thesis
    by (auto simp: respond_state_def respond_400 handle_delete_monitor_def on_storage_def simp del: served_bad
        split: sum.splits prod.splits dest!: monitor_changes_quiet(2) [OF quiet] dest: served_not_quiet)
qed (use run in simp_all)

section \<open>What errors reveal\<close>

text \<open>The texts a request about a chain can be refused with.\<close>

definition chain_refusals :: "string list" where
  "chain_refusals =
     [''RPC endpoint configuration is invalid'', ''RPC endpoint validation failed'',
      ''RPC endpoint returned a different chain ID'', ''at least one of rpc_url or enabled is required'',
      ''create chain'', ''update chain'', ''get chain before update'', ''internal server error'']"

definition fixed_text :: "'a result \<Rightarrow> bool" where
  "fixed_text r = (\<forall>e. r = Inl e \<longrightarrow> error_text e \<in> set chain_refusals)"

lemma fixed_text_context:
  "message \<in> {''create chain'', ''update chain'', ''get chain before update''} \<Longrightarrow> fixed_text (context_error message r)"
  by (cases r) (auto simp: fixed_text_def error_text_def chain_refusals_def)

lemma fixed_text_invalid [simp]:
  "fixed_text (Inl (invalid m)) \<longleftrightarrow> m \<in> set chain_refusals" "fixed_text (Inr v)"
  by (auto simp: fixed_text_def invalid_def error_text_def)

lemma fixed_text_bind: "fixed_text r \<Longrightarrow> (\<And>v. fixed_text (f v)) \<Longrightarrow> fixed_text (res_bind r f)"
  by (cases r) (auto simp: fixed_text_def)

lemma fixed_text_map: "m \<in> set chain_refusals \<Longrightarrow> fixed_text (map_err (\<lambda>_. invalid m) r)"
  by (cases r) (auto simp: fixed_text_def invalid_def error_text_def)

lemma validate_source_fixed: "fixed_text (validate_source sources u expected)"
  unfolding validate_source_def Let_def
  by (intro fixed_text_bind fixed_text_map) (auto simp: chain_refusals_def)

lemma traverse_option_fixed: "(\<And>v. fixed_text (f v)) \<Longrightarrow> fixed_text (traverse_option f x)"
  by (cases x) (auto simp: traverse_option_def intro: fixed_text_bind)

lemma apply_persisted_fixed:
  "message \<in> {''create chain'', ''update chain'', ''get chain before update''} \<Longrightarrow>
     fixed_text (fst (apply_persisted factory message rs app))"
  using fixed_text_context [of message "fst rs"]
  by (cases rs; cases "fst rs") (auto simp: apply_persisted_def fixed_text_def)

lemma chain_create_fixed: "fixed_text (fst (chain_create R sources factory cmd app))"
  using validate_source_fixed [of sources "cc_rpc_url cmd" None]
  by (auto simp: chain_create_def fixed_text_def [of "Inl e" for e] split: sum.splits intro!: apply_persisted_fixed)

lemma chain_update_fixed: "fixed_text (fst (chain_update_service R sources factory c cmd app))"
proof -
  let ?checked = "res_bind (context_error ''get chain before update'' (rp_get_chain R (ap_storage app) (Chain c))) (\<lambda>_.
    res_bind (traverse_option (\<lambda>u. validate_source sources u (Some (Chain c))) (uc_rpc_url cmd)) (\<lambda>_.
    context_error ''get chain before update'' (rp_get_chain R (ap_storage app) (Chain c))))"
  have checked: "fixed_text ?checked"
    by (intro fixed_text_bind traverse_option_fixed validate_source_fixed fixed_text_context) simp_all
  show ?thesis
  proof (cases ?checked)
    case (Inl e)
    with checked have "error_text e \<in> set chain_refusals" by (simp add: fixed_text_def)
    then have "fixed_text (Inl e :: chain_view result)" by (simp add: fixed_text_def)
    then show ?thesis unfolding chain_update_service_def Let_def Inl by (simp add: chain_refusals_def)
  next
    case (Inr r)
    show ?thesis unfolding chain_update_service_def Let_def Inr by (auto simp: chain_refusals_def intro!: apply_persisted_fixed)
  qed
qed

lemma served_fixed: "fixed_text r \<Longrightarrow> served r = Inl e \<Longrightarrow> snd (error_response e) \<in> set chain_refusals"
  by (auto simp: served_def map_err_def app_error_of_def error_response_def fixed_text_def chain_refusals_def
      split: sum.splits if_splits)

lemma respond_error:
  "respond (ok_json f) r = (status, ErrorBody text) \<Longrightarrow> (\<And>v. f v \<noteq> ErrorBody text) \<Longrightarrow>
     \<exists>e. r = Inl e \<and> error_response e = (status, text)"
  by (auto simp: respond_def ok_json_def split: sum.splits prod.splits)

lemma chain_answers_fixed:
  assumes "req = PostChains (Inr b) \<or> req = PatchChain c (Inr u)"
    and run: "api_handle X R sources factory req app = ((status, ErrorBody text), app')"
  shows "text \<in> set chain_refusals"
proof -
  obtain r :: "chain_view result" and f :: "chain_view \<Rightarrow> chain_row" where r: "respond (ok_json ChainBody) (res_bind (served r) (\<lambda>v. Inr (f v))) = (status, ErrorBody text)" and "fixed_text r"
    using assms(1)
  proof
    assume "req = PostChains (Inr b)"
    moreover obtain r app1 where svc: "chain_create R sources factory \<lparr>cc_rpc_url = ccd_rpc_url b, cc_enabled = ccd_enabled b\<rparr> app = (r, app1)" by fastforce
    moreover have "fixed_text r"
      using chain_create_fixed [of R sources factory "\<lparr>cc_rpc_url = ccd_rpc_url b, cc_enabled = ccd_enabled b\<rparr>" app] by (simp add: svc)
    ultimately show ?thesis using that [of r chain_row_of] run
      by (simp add: respond_state_def handle_create_chain_def json_body_def)
  next
    assume "req = PatchChain c (Inr u)"
    moreover obtain r app1 where svc: "chain_update_service R sources factory c \<lparr>uc_rpc_url = ucd_rpc_url u, uc_enabled = ucd_enabled u\<rparr> app = (r, app1)" by fastforce
    moreover have "fixed_text r"
      using chain_update_fixed [of R sources factory c "\<lparr>uc_rpc_url = ucd_rpc_url u, uc_enabled = ucd_enabled u\<rparr>" app] by (simp add: svc)
    ultimately show ?thesis using that [of r chain_row_of] run
      by (simp add: respond_state_def handle_update_chain_def json_body_def)
  qed
  from respond_error [OF r(1)] obtain e where "res_bind (served r) (\<lambda>v. Inr (f v)) = Inl e" "error_response e = (status, text)" by auto
  with served_fixed [OF \<open>fixed_text r\<close>, of e] show ?thesis by (auto simp: res_simps)
qed

lemma respond_500:
  "respond (ok_json f) r = (500, b) \<Longrightarrow> b = ErrorBody ''internal server error''"
  "respond no_content u = (500, b) \<Longrightarrow> b = ErrorBody ''internal server error''"
  by (auto simp: respond_def ok_json_def no_content_def error_response_def split: sum.splits app_error.splits)

lemma api_internal_errors:
  "api_handle X R sources factory req app = ((500, b), app') \<Longrightarrow> b = ErrorBody ''internal server error''"
  by (cases req) (auto simp: respond_state_def ok_json_def [of _ "handle_status app"] dest: respond_500)

end
