(* ===== verification/Deployed_Store.thy ===== *)
theory Deployed_Store
  imports Index_Port Rpc_Live Api
begin

text \<open>
  The program as it is deployed over a storage adapter: workers that poll JSON-RPC endpoints, and
  the requests of the HTTP API, on one database. The locale \<open>deployed_store\<close> is what an adapter has
  to keep for exactly-once indexing; the result is proved here once for all adapters.
\<close>

section \<open>Polls\<close>

definition definitions_kept :: "('s \<Rightarrow> monitor \<Rightarrow> bool) \<Rightarrow> 's \<Rightarrow> 's \<Rightarrow> bool" where
  "definitions_kept stored s s' =
     (\<forall>m'. stored s' m' \<longrightarrow> (\<exists>m. stored s m \<and> fresh_monitor m' = fresh_monitor m))"

lemma definitions_kept_refl [simp]: "definitions_kept stored s s"
  by (auto simp: definitions_kept_def)

context monitor_store begin

lemma poll_keeps_definitions:
  assumes poll: "poll_commits X D ms ch st plans head s r s'" and "ok s"
    and distinct: "\<forall>p \<in> set plans. \<forall>c. commit_matches X D ms ch p c \<longrightarrow> distinct (map mon_id (bc_monitors c))"
  shows "definitions_kept stored s s'"
  unfolding definitions_kept_def
proof (intro allI impI)
  fix m' assume m': "stored s' m'"
  from poll_commits_prefix [OF poll] obtain cs s1 where
    cs: "list_all2 (commit_matches X D ms ch) (take (length cs) plans) cs" "commit_run st s cs s1"
    and fin: "s' = s1 \<or> (\<exists>c e. is_commit_block st s1 c = (Inl e, s'))" by blast
  have ids: "\<forall>c \<in> set cs. distinct (map mon_id (bc_monitors c))"
  proof
    fix c assume "c \<in> set cs"
    with cs(1) obtain p where "p \<in> set (take (length cs) plans)" "commit_matches X D ms ch p c"
      by (metis in_set_conv_nth list_all2_conv_all_nth)
    with distinct show "distinct (map mon_id (bc_monitors c))" by (meson in_set_takeD)
  qed
  have "ok s1" using commit_run_takes [OF cs(2) \<open>ok s\<close> ids] by blast
  from fin m' commit_keeps_stored [OF \<open>ok s1\<close>] obtain m1 where "stored s1 m1" "fresh_monitor m' = fresh_monitor m1" by metis
  with run_keeps_stored [OF cs(2) \<open>ok s\<close> ids] show "\<exists>m. stored s m \<and> fresh_monitor m' = fresh_monitor m" by metis
qed

lemma planned_commits_distinct:
  assumes "distinct (map mon_id ms)" and "batch \<noteq> 0"
  shows "\<forall>p \<in> set (plan_blocks ms head batch). \<forall>c. commit_matches X D ms ch p c \<longrightarrow> distinct (map mon_id (bc_monitors c))"
proof (intro ballI allI impI)
  fix p c assume p: "p \<in> set (plan_blocks ms head batch)" and c: "commit_matches X D ms ch p c"
  have "sorted_wrt (<) (bp_monitor_indices p)" using plan_blocks_window_facts(2) [OF assms(2)] p by blast
  then have "distinct (bp_monitor_indices p)" by (simp add: strict_sorted_iff)
  moreover have "\<forall>i \<in> set (bp_monitor_indices p). i < length ms" using p by (auto simp: set_plan_blocks [OF assms(2)])
  ultimately show "distinct (map mon_id (bc_monitors c))"
    using c planned_ids_distinct [OF assms(1)] by (simp add: commit_matches_def)
qed

lemma poll_keeps_exact:
  assumes poll: "poll_commits X (D ch) (active_monitors all) ch st (plan_blocks (active_monitors all) head batch) head s r s'"
    and batch: "batch \<noteq> 0" and "ok s" and load: "is_load_monitors st s ch = Inr all" and before: "exact X D s"
  shows "ok s' \<and> exact X D s' \<and> definitions_kept stored s s'"
proof -
  let ?ms = "active_monitors all"
  note loaded = loads [OF \<open>ok s\<close> load]
  have mine: "stored s m \<and> mon_chain m = ch" if "m \<in> set ?ms" for m
    using that loaded loads_stored [OF \<open>ok s\<close> load] by (simp add: active_monitors_def)
  then have "\<forall>m \<in> set ?ms. indexed_exactly X (D ch) s m" using before by (auto simp: store_exact_def)
  note after = poll_indexes_exactly [OF poll batch \<open>ok s\<close> load this]
  have "distinct (map mon_id ?ms)" using loaded by (simp add: active_monitors_def distinct_map_filter)
  from poll_keeps_definitions [OF poll \<open>ok s\<close> planned_commits_distinct [OF this batch]]
  have kept: "definitions_kept stored s s'" .
  have "stored_exactly cursor_of rows_of encode X (D (mon_chain m')) s' m'" if m': "stored s' m'" for m'
  proof -
    from kept m' obtain m where m: "stored s m" "fresh_monitor m' = fresh_monitor m" by (auto simp: definitions_kept_def)
    have "stored_exactly cursor_of rows_of encode X (D (mon_chain m)) s' m"
    proof (cases "mon_id m \<in> mon_id ` set ?ms")
      case True
      then obtain m2 where m2: "m2 \<in> set ?ms" "mon_id m2 = mon_id m" by auto
      with stored_unique [OF \<open>ok s\<close> m(1), of m2] mine have "m2 = m" by blast
      with m2(1) mine after show ?thesis by auto
    next
      case False
      with after indexed_exactly_cong [of s' m s] before m(1) show ?thesis by (simp add: store_exact_def)
    qed
    then have "stored_exactly cursor_of rows_of encode X (D (mon_chain m)) s' m'"
      by (rule iffD2 [OF stored_exactly_fresh [OF m(2) encode_fresh [OF m(2)]]])
    then show ?thesis unfolding fresh_fields(2) [OF m(2)] .
  qed
  with after kept show ?thesis by (simp add: store_exact_def)
qed

text \<open>Either a run does not reach its plan, or it is a poll of the loaded monitors.\<close>

lemma run_once_keeps_exact:
  assumes storage: "pc_storage ctx = st" and cache: "pc_cache ctx = created_cache_ops policy"
    and batch: "wc_batch_size cfg \<noteq> 0" and coh: "created.coherent (wc_chain cfg) (cd_block (D (wc_chain cfg))) (w_cache w)"
    and polls: "\<And>all idx. is_load_monitors st (w_storage w) (wc_chain cfg) = Inr all \<Longrightarrow>
      monitor_index_new X all = Inr idx \<Longrightarrow> poll_ok X H all idx (pc_source ctx) (D (wc_chain cfg))"
    and ok: "ok (w_storage w)" and before: "exact X D (w_storage w)" and run: "run_once X H cfg ctx w = (r, w')"
  shows "ok (w_storage w') \<and> exact X D (w_storage w') \<and> definitions_kept stored (w_storage w) (w_storage w')"
proof (cases "\<exists>head all idx. bs_finalized_head (pc_source ctx) = Inr head
    \<and> is_load_monitors st (w_storage w) (wc_chain cfg) = Inr all \<and> monitor_index_new X all = Inr idx")
  case False
  obtain s1 w1 where c1: "checkpoint w = (s1, w1)" by fastforce
  obtain s2 w2 where c2: "checkpoint w1 = (s2, w2)" by fastforce
  have load: "is_load_monitors (pc_storage ctx) (w_storage w2) = is_load_monitors st (w_storage w)"
    using checkpoint_same [OF c1] checkpoint_same [OF c2] by (simp add: storage)
  have "w' = w1 \<or> w' = w2"
    using run False c1 c2 load by (auto simp: run_once_def Let_def split: if_splits sum.splits)
  with checkpoint_same [OF c1] checkpoint_same [OF c2] ok before show ?thesis by auto
next
  case True
  then obtain head all idx where head: "bs_finalized_head (pc_source ctx) = Inr head"
    and load: "is_load_monitors st (w_storage w) (wc_chain cfg) = Inr all" and new: "monitor_index_new X all = Inr idx"
    by blast
  have mons: "mi_monitors idx = active_monitors all" by (rule monitor_index_new_ok(2) [OF new])
  have "is_load_monitors (pc_storage ctx) (w_storage w) (wc_chain cfg) = Inr all" using load by (simp add: storage)
  from created.run_once_ok [OF polls [OF load new] cache batch head this coh run]
  have "poll_commits X (D (wc_chain cfg)) (active_monitors all) (wc_chain cfg) st
      (plan_blocks (active_monitors all) head (wc_batch_size cfg)) head (w_storage w) r (w_storage w')"
    by (simp add: mons storage)
  from poll_keeps_exact [OF this batch ok load before] show ?thesis .
qed

end

section \<open>What the services do to the storage\<close>

inductive service_step :: "externs \<Rightarrow> 's repository \<Rightarrow> 's \<Rightarrow> 's \<Rightarrow> bool" for X :: externs and R :: "'s repository" where
  on_chain_create: "chain_create R sources factory create app = (r, app') \<Longrightarrow> service_step X R (ap_storage app) (ap_storage app')"
| on_chain_update: "chain_update_service R sources factory c update app = (r', app') \<Longrightarrow>
     service_step X R (ap_storage app) (ap_storage app')"
| on_chain_delete: "chain_delete R c app = (r'', app') \<Longrightarrow> service_step X R (ap_storage app) (ap_storage app')"
| on_monitor_create: "monitor_create X R sources cmd s = (m, s') \<Longrightarrow> service_step X R s s'"
| on_monitor_enabled: "monitor_set_enabled R i enabled s = (m, s') \<Longrightarrow> service_step X R s s'"
| on_monitor_delete: "monitor_delete R i s = (u, s') \<Longrightarrow> service_step X R s s'"

text \<open>One change of a repository; a monitor that is created has a schema that was checked.\<close>

inductive storage_change :: "'s repository \<Rightarrow> 's \<Rightarrow> 's \<Rightarrow> bool" for R :: "'s repository" where
  change_create_chain: "rp_create_chain R s nc = (r, s') \<Longrightarrow> storage_change R s s'"
| change_update_chain: "rp_update_chain R s ch update = (r, s') \<Longrightarrow> storage_change R s s'"
| change_delete_chain: "rp_delete_chain R s ch = (u, s') \<Longrightarrow> storage_change R s s'"
| change_create_monitor: "rp_create_monitor R s nm = (m, s') \<Longrightarrow> schema_ok (target_params (nm_target nm)) \<Longrightarrow>
     storage_change R s s'"
| change_set_enabled: "rp_set_monitor_enabled R s i enabled = (m, s') \<Longrightarrow> storage_change R s s'"
| change_delete_monitor: "rp_delete_monitor R s i = (u, s') \<Longrightarrow> storage_change R s s'"

lemma apply_persisted_storage: "ap_storage (snd (apply_persisted factory message rs app)) = snd rs"
  by (cases rs; cases "fst rs") (auto simp: apply_persisted_def)

text \<open>A service either leaves the storage alone or makes one change of the repository.\<close>

lemma service_step_change:
  assumes "service_step X R s s'"
  shows "s' = s \<or> storage_change R s s'"
  using assms
proof cases
  case (on_chain_create sources factory create app r app')
  show ?thesis
  proof (cases "validate_source sources (cc_rpc_url create) None")
    case (Inl e)
    with on_chain_create show ?thesis by (simp add: chain_create_def)
  next
    case (Inr ch)
    let ?nc = "\<lparr>nc_chain = ch, nc_rpc_url = cc_rpc_url create, nc_enabled = cc_enabled create\<rparr>"
    have "s' = snd (rp_create_chain R s ?nc)"
      using on_chain_create Inr apply_persisted_storage [of factory "''create chain''" "rp_create_chain R s ?nc" app]
      by (simp add: chain_create_def)
    then show ?thesis by (metis change_create_chain prod.collapse)
  qed
next
  case (on_chain_update sources factory c update app r app')
  let ?u = "\<lparr>cu_rpc_url = uc_rpc_url update, cu_enabled = uc_enabled update\<rparr>"
  have "s' = s \<or> s' = snd (rp_update_chain R s (Chain c) ?u)"
    using on_chain_update apply_persisted_storage [of factory "''update chain''" "rp_update_chain R s (Chain c) ?u" app]
    by (auto simp: chain_update_service_def Let_def split: if_splits sum.splits)
  then show ?thesis by (metis change_update_chain prod.collapse)
next
  case (on_chain_delete c app r app')
  then obtain q where "rp_delete_chain R s (Chain c) = (q, s')"
    by (auto simp: chain_delete_def Let_def split: prod.splits)
  then show ?thesis by (blast intro: change_delete_chain)
next
  case (on_monitor_create sources cmd m)
  show ?thesis
  proof (cases "new_monitor_of X R sources cmd s")
    case (Inl e)
    with on_monitor_create show ?thesis by (simp add: monitor_create_def)
  next
    case (Inr nm)
    with on_monitor_create obtain q where "rp_create_monitor R s nm = (q, s')"
      by (auto simp: monitor_create_def Let_def split: prod.splits)
    then show ?thesis by (blast intro: change_create_monitor new_monitor_of_ok(3) [OF Inr])
  qed
next
  case (on_monitor_enabled i enabled m)
  then obtain q where "rp_set_monitor_enabled R s i enabled = (q, s')"
    by (auto simp: monitor_set_enabled_def Let_def split: prod.splits)
  then show ?thesis by (blast intro: change_set_enabled)
next
  case (on_monitor_delete i u)
  then obtain q where "rp_delete_monitor R s i = (q, s')"
    by (auto simp: monitor_delete_def Let_def split: prod.splits)
  then show ?thesis by (blast intro: change_delete_monitor)
qed

text \<open>A request of the API makes one step of a service, or leaves the storage alone.\<close>

lemma api_request_service:
  assumes "api_handle X R sources factory req app = (answer, app')"
  shows "ap_storage app' = ap_storage app \<or> service_step X R (ap_storage app) (ap_storage app')"
proof (cases req)
  case (PostChains body)
  with assms show ?thesis
    by (auto simp: respond_state_def handle_create_chain_def split: sum.splits prod.splits intro: on_chain_create)
next
  case (PatchChain c body)
  with assms show ?thesis
    by (auto simp: respond_state_def handle_update_chain_def split: sum.splits prod.splits intro: on_chain_update)
next
  case (DeleteChainPath c)
  with assms show ?thesis
    by (auto simp: respond_state_def handle_delete_chain_def split: prod.splits intro: on_chain_delete)
next
  case (PostMonitors body)
  with assms show ?thesis
    by (auto simp: respond_state_def handle_create_monitor_def on_storage_def split: sum.splits prod.splits intro: on_monitor_create)
next
  case (PatchMonitor i body)
  with assms show ?thesis
    by (auto simp: respond_state_def handle_update_monitor_def on_storage_def split: sum.splits prod.splits intro: on_monitor_enabled)
next
  case (DeleteMonitorPath i)
  with assms show ?thesis
    by (auto simp: respond_state_def handle_delete_monitor_def on_storage_def split: sum.splits prod.splits intro: on_monitor_delete)
qed (use assms in auto)

lemma api_request_change:
  assumes "api_handle X R sources factory req app = (answer, app')"
  shows "ap_storage app' = ap_storage app \<or> storage_change R (ap_storage app) (ap_storage app')"
  using api_request_service [OF assms] by (rule disjE) (simp, erule service_step_change)

section \<open>The deployed system\<close>

text \<open>
  A step: a poll of some chain's worker over one of the sources \<open>S\<close> of its chain, with any coherent
  cache, any cancellation and any outcome; or a request of the API.
\<close>

inductive deployed_step ::
  "externs \<Rightarrow> hash_order \<Rightarrow> (chain \<Rightarrow> block_source \<Rightarrow> bool) \<Rightarrow> (chain \<Rightarrow> chain_data)
     \<Rightarrow> 's index_storage \<Rightarrow> 's repository \<Rightarrow> 's \<Rightarrow> 's \<Rightarrow> bool"
  for X :: externs and H :: hash_order and S :: "chain \<Rightarrow> block_source \<Rightarrow> bool" and D :: "chain \<Rightarrow> chain_data"
    and st :: "'s index_storage" and R :: "'s repository" where
  deployed_poll: "pc_storage ctx = st \<Longrightarrow> S (wc_chain cfg) (pc_source ctx) \<Longrightarrow> pc_cache ctx = created_cache_ops policy \<Longrightarrow>
     wc_batch_size cfg \<noteq> 0 \<Longrightarrow> created.coherent (wc_chain cfg) (cd_block (D (wc_chain cfg))) (w_cache w) \<Longrightarrow>
     run_once X H cfg ctx w = (r, w') \<Longrightarrow> deployed_step X H S D st R (w_storage w) (w_storage w')"
| deployed_request: "api_handle X R sources factory req app = (answer, app') \<Longrightarrow>
     deployed_step X H S D st R (ap_storage app) (ap_storage app')"

text \<open>What the result relies on: the laws of the libraries, and sources that serve their chain.\<close>

definition deployment_ok ::
  "externs \<Rightarrow> hash_order \<Rightarrow> (chain \<Rightarrow> block_source \<Rightarrow> bool) \<Rightarrow> (chain \<Rightarrow> chain_data) \<Rightarrow> bool" where
  "deployment_ok X H S D =
     (type_text_laws X \<and> abi_decode_laws X \<and> hash_order_ok H
      \<and> (\<forall>ch. (\<forall>src. S ch src \<longrightarrow> faithful_source src (D ch)) \<and> chain_data_ok (D ch)))"

text \<open>The JSON-RPC sources on an endpoint per chain, in whatever states their requests find them.\<close>

definition rpc_sources ::
  "externs \<Rightarrow> (log_filter list \<Rightarrow> log_filter list) \<Rightarrow> (chain \<Rightarrow> 'e provider) \<Rightarrow> chain \<Rightarrow> block_source \<Rightarrow> bool" where
  "rpc_sources X F P ch src = (\<exists>mo. moments_ok mo \<and> src = rpc_block_source X F (P ch) mo)"

lemma rpc_deployment_ok:
  assumes "type_text_laws X" and "abi_decode_laws X" and "hash_order_ok H" and "\<forall>fs. mset (F fs) = mset fs"
    and "\<forall>ch. endpoint_truthful (P ch) (D ch) \<and> chain_data_ok (D ch)"
  shows "deployment_ok X H (rpc_sources X F P) D"
  using assms by (auto simp: deployment_ok_def rpc_sources_def intro!: rpc_faithful)

text \<open>
  What a change of the repository may do: a monitor that reads after it was there before, with the
  same cursor and rows, or is new, without a cursor and without rows, and usable.
\<close>

definition change_ok ::
  "externs \<Rightarrow> ('s \<Rightarrow> monitor \<Rightarrow> bool) \<Rightarrow> ('s \<Rightarrow> monitor_id \<Rightarrow> block_number option) \<Rightarrow> ('s \<Rightarrow> monitor_id \<Rightarrow> 'row list)
     \<Rightarrow> 's \<Rightarrow> 's \<Rightarrow> bool" where
  "change_ok X stored cursor_of rows_of s s' =
     (\<forall>m'. stored s' m' \<longrightarrow>
        (\<exists>m. stored s m \<and> fresh_monitor m' = fresh_monitor m
           \<and> cursor_of s' (mon_id m) = cursor_of s (mon_id m) \<and> rows_of s' (mon_id m) = rows_of s (mon_id m))
        \<or> (cursor_of s' (mon_id m') = None \<and> rows_of s' (mon_id m') = [] \<and> monitor_ok X m'))"

locale deployed_store = monitor_store st ok cursor_of rows_of encode stored
  for st :: "'s index_storage" and ok :: "'s \<Rightarrow> bool"
    and cursor_of :: "'s \<Rightarrow> monitor_id \<Rightarrow> block_number option"
    and rows_of :: "'s \<Rightarrow> monitor_id \<Rightarrow> 'row list"
    and encode :: "monitor \<Rightarrow> decoded_result \<Rightarrow> 'row"
    and stored :: "'s \<Rightarrow> monitor \<Rightarrow> bool" +
  fixes X :: externs and R :: "'s repository"
  assumes changes: "type_text_laws X \<Longrightarrow> ok s \<Longrightarrow> storage_change R s s' \<Longrightarrow>
      ok s' \<and> change_ok X stored cursor_of rows_of s s'"
begin

lemma change_keeps_exact:
  assumes change: "change_ok X stored cursor_of rows_of s s'" and exact: "exact X D s"
    and usable: "\<forall>m. stored s m \<longrightarrow> monitor_ok X m"
  shows "exact X D s' \<and> (\<forall>m. stored s' m \<longrightarrow> monitor_ok X m)"
proof -
  have "stored_exactly cursor_of rows_of encode X (D (mon_chain m')) s' m' \<and> monitor_ok X m'" if m': "stored s' m'" for m'
  proof -
    from change m' show ?thesis
      unfolding change_ok_def
    proof (elim allE impE disjE exE conjE)
      fix m assume m: "stored s m" "fresh_monitor m' = fresh_monitor m"
        and same: "cursor_of s' (mon_id m) = cursor_of s (mon_id m)" "rows_of s' (mon_id m) = rows_of s (mon_id m)"
      have "stored_exactly cursor_of rows_of encode X (D (mon_chain m)) s' m"
        using exact m(1) indexed_exactly_cong [OF same] by (simp add: store_exact_def)
      then have "stored_exactly cursor_of rows_of encode X (D (mon_chain m)) s' m'"
        by (rule iffD2 [OF stored_exactly_fresh [OF m(2) encode_fresh [OF m(2)]]])
      moreover have "monitor_ok X m'" unfolding fresh_monitor_ok [OF m(2)] using usable m(1) by blast
      ultimately show ?thesis unfolding fresh_fields(2) [OF m(2)] ..
    next
      assume "cursor_of s' (mon_id m') = None" "rows_of s' (mon_id m') = []" "monitor_ok X m'"
      then show ?thesis by (simp add: stored_exactly_def done_blocks_def)
    qed
  qed
  then show ?thesis by (simp add: store_exact_def)
qed

lemma deployed_keeps_exact:
  assumes steps: "(deployed_step X H S D st R)\<^sup>*\<^sup>* s s'" and deployment: "deployment_ok X H S D"
    and start: "ok s" "exact X D s" "\<forall>m. stored s m \<longrightarrow> monitor_ok X m"
  shows "ok s' \<and> exact X D s' \<and> (\<forall>m. stored s' m \<longrightarrow> monitor_ok X m)"
  using steps
proof (induction rule: rtranclp_induct)
  case base
  show ?case using start by blast
next
  case (step s1 s2)
  then have now1: "ok s1" "exact X D s1" "\<forall>m. stored s1 m \<longrightarrow> monitor_ok X m" by blast+
  from step.hyps(2) show ?case
  proof cases
    case (deployed_poll ctx cfg policy w r w')
    have polls: "poll_ok X H all idx (pc_source ctx) (D (wc_chain cfg))"
      if load: "is_load_monitors st (w_storage w) (wc_chain cfg) = Inr all" and "monitor_index_new X all = Inr idx" for all idx
    proof -
      have "\<forall>m \<in> set all. monitor_ok X m"
        using now1 loads_stored [OF _ load] deployed_poll(1) by blast
      moreover have "faithful_source (pc_source ctx) (D (wc_chain cfg))"
        using deployment deployed_poll(4) by (auto simp: deployment_ok_def)
      ultimately show ?thesis using that(2) deployment by (simp add: poll_ok_def deployment_ok_def)
    qed
    have "ok (w_storage w') \<and> exact X D (w_storage w') \<and> definitions_kept stored (w_storage w) (w_storage w')"
      by (rule run_once_keeps_exact [where H = H and ctx = ctx and cfg = cfg and policy = policy and w = w])
        (use deployed_poll now1 polls in auto)
    moreover have "monitor_ok X m'" if "definitions_kept stored (w_storage w) (w_storage w')" "stored (w_storage w') m'" for m'
    proof -
      from that obtain m where "stored s1 m" "fresh_monitor m' = fresh_monitor m"
        by (auto simp: definitions_kept_def deployed_poll(1))
      with now1(3) show ?thesis by (metis fresh_monitor_ok)
    qed
    ultimately show ?thesis by (simp add: deployed_poll(2))
  next
    case (deployed_request sources factory req app answer app')
    have "s2 = s1 \<or> storage_change R s1 s2"
      using api_request_change [OF deployed_request(3)] by (simp add: deployed_request(1,2))
    then show ?thesis
    proof
      assume "storage_change R s1 s2"
      with changes now1(1) deployment have "ok s2 \<and> change_ok X stored cursor_of rows_of s1 s2"
        by (auto simp: deployment_ok_def)
      with change_keeps_exact now1 show ?thesis by blast
    qed (use now1 in simp)
  qed
qed

end

end
