(* ===== verification/Postgres_Port.thy ===== *)
theory Postgres_Port
  imports Postgres_Commit Deployed_Store
begin

text \<open>
  \<open>PostgresStorage\<close> keeps the contract of \<open>monitor_store\<close>: loads read what is stored, a commit takes
  effect as a whole or not at all.
\<close>

definition row_of_id :: "pg_db \<Rightarrow> monitor_id \<Rightarrow> pg_monitor_row option" where
  "row_of_id db i = List.find (\<lambda>row. pgm_id row = uint (monitor_id_get i)) (pd_monitors db)"

definition pg_cursor :: "'d pg_view \<Rightarrow> 'd \<Rightarrow> monitor_id \<Rightarrow> block_number option" where
  "pg_cursor V d i =
     (case row_of_id (pv_committed V d) i of None \<Rightarrow> None | Some row \<Rightarrow> map_option word_of_int (pgm_cursor row))"

definition pg_rows :: "'d pg_view \<Rightarrow> 'd \<Rightarrow> monitor_id \<Rightarrow> pg_cell list list" where
  "pg_rows V d i = table_rows (pv_committed V d) (uint (monitor_id_get i))"

text \<open>A result is stored in the same way for every monitor.\<close>

definition pg_encode :: "externs \<Rightarrow> pg_codec \<Rightarrow> monitor \<Rightarrow> decoded_result \<Rightarrow> pg_cell list" where
  "pg_encode X C m r = projr (result_cells X C r)"

definition pg_stored :: "externs \<Rightarrow> 'd pg_view \<Rightarrow> 'd \<Rightarrow> monitor \<Rightarrow> bool" where
  "pg_stored X V d m = (\<exists>row \<in> set (pd_monitors (pv_committed V d)). pg_monitor X row = Inr m)"

definition pg_ok :: "'d pg_view \<Rightarrow> 'd \<Rightarrow> bool" where
  "pg_ok V d = pg_db_ok (pv_committed V d)"

section \<open>The transaction of a commit\<close>

context postgres_server begin

lemma tx_case_prod:
  assumes "\<And>a b. tx_op V (E a b) (f a b)"
  shows "tx_op V (\<lambda>p v p'. case x of (a, b) \<Rightarrow> E a b p v p') (case x of (a, b) \<Rightarrow> f a b)"
  using assms by (cases x) simp

lemma tx_insert_call_group: "tx_op V (group_rel f ''call'' (call_cells X C) batch) (insert_group f (insert_calls X C Q) batch)"
  unfolding insert_group_def
  by (rule tx_weaken [OF tx_bind [OF tx_lift tx_insert_calls]]) (auto simp: group_rel_def res_simps)

lemma tx_insert_event_group: "tx_op V (group_rel f ''event'' (event_cells X C) batch) (insert_group f (insert_events X C Q) batch)"
  unfolding insert_group_def
  by (rule tx_weaken [OF tx_bind [OF tx_lift tx_insert_events]]) (auto simp: group_rel_def res_simps)

lemma tx_commit_body:
  assumes "pg_order_ok G"
  shows "tx_op V (commit_rel X C c) (commit_body X C G Q c)"
  unfolding commit_body_def Let_def
  by (rule tx_weaken [OF tx_bind [OF tx_lift tx_bind [OF tx_lift tx_bind [OF tx_lift tx_bind [OF tx_fetch
        tx_bind [OF tx_lift tx_bind [OF tx_lift tx_bind [OF tx_lift tx_case_prod [OF tx_bind [OF
          tx_each [OF tx_insert_call_group] tx_each [OF tx_insert_event_group]]]]]]]]]]])
    (auto simp: res_simps intro!: commit_relI [OF assms])

lemma commit_outcome:
  assumes "pg_order_ok G" and run: "pg_commit_block X C G Q c d = (r, d')" and ok: "pg_ok V d"
  shows "case r of
      Inr u \<Rightarrow> list_all (\<lambda>m. mon_chain m = bc_chain c) (bc_monitors c) \<and> commit_applied X C c (pv_committed V d) (pv_committed V d')
    | Inl e \<Rightarrow> pv_committed V d' = pv_committed V d
        \<or> (list_all (\<lambda>m. mon_chain m = bc_chain c) (bc_monitors c) \<and> commit_applied X C c (pv_committed V d) (pv_committed V d'))"
proof (cases "list_all (\<lambda>m. mon_chain m = bc_chain c) (bc_monitors c)")
  case True
  with run have "pg_transaction Q (commit_body X C G Q c) d = (r, d')"
    by (simp add: pg_commit_block_def io_bind_def io_lift_def)
  from transaction_outcome [OF tx_commit_body [OF assms(1)] this] True ok show ?thesis
    by (simp add: commit_rel_def pg_ok_def split: sum.splits)
next
  case False
  with run show ?thesis by (auto simp: pg_commit_block_def io_bind_def io_lift_def)
qed

end

section \<open>What a commit leaves\<close>

lemma commit_rows_member:
  "row' \<in> set (commit_rows time block ids chain_id rows) \<Longrightarrow>
     \<exists>row \<in> set rows. row' = (if commit_hits ids chain_id row then commit_row block time row else row)"
  by (auto simp: commit_rows_def)

lemma commit_rows_ids [simp]: "map pgm_id (commit_rows time block ids chain_id rows) = map pgm_id rows"
  by (simp add: commit_rows_def commit_row_def)

lemma commit_applied_ok:
  assumes applied: "commit_applied X C c db db'" and ok: "pg_db_ok db"
  shows "pg_db_ok db'"
proof -
  from applied obtain time ids where
    rows: "pd_monitors db' = commit_rows time (uint (bc_block_number c)) ids (uint (chain_id_of (bc_chain c))) (pd_monitors db)"
    and cols: "map_option tb_columns \<circ> pd_tables db' = map_option tb_columns \<circ> pd_tables db"
    by (auto simp: commit_applied_def Let_def)
  have table: "has_table db' i kind schema = has_table db i kind schema" for i kind schema by (rule same_columns(1) [OF cols])
  have "monitor_row_fits db' row'" if "row' \<in> set (pd_monitors db')" for row'
  proof -
    from commit_rows_member [OF that [unfolded rows]] obtain row where row: "row \<in> set (pd_monitors db)"
      "row' = (if commit_hits ids (uint (chain_id_of (bc_chain c))) row then commit_row (uint (bc_block_number c)) time row else row)" by blast
    with ok have "monitor_row_fits db row" by (simp add: pg_db_ok_def)
    with row(2) show ?thesis by (simp add: monitor_row_fits_def table commit_row_def row_table_def split: if_splits)
  qed
  moreover have "(\<lambda>row. monitor_table (pgm_id row)) ` set (pd_monitors db') = (\<lambda>row. monitor_table (pgm_id row)) ` set (pd_monitors db)"
    by (simp add: image_image [of monitor_table pgm_id, symmetric] rows flip: set_map)
  ultimately show ?thesis
    using ok same_columns(2) [OF cols] by (simp add: pg_db_ok_def rows)
qed

lemma row_of_id_stored:
  "pg_db_ok db \<Longrightarrow> row \<in> set (pd_monitors db) \<Longrightarrow> uint (monitor_id_get i) = pgm_id row \<Longrightarrow> row_of_id db i = Some row"
  by (simp add: row_of_id_def pg_db_ok_def find_distinct_key)

lemma stored_row_id:
  assumes "pg_db_ok db" and "row \<in> set (pd_monitors db)" and "pg_monitor X row = Inr m"
  shows "uint (monitor_id_get (mon_id m)) = pgm_id row"
proof -
  have "monitor_row_fits db row" using assms(1,2) by (simp add: pg_db_ok_def)
  then show ?thesis using pg_monitor_fields(1) [OF assms(3)] by (simp add: monitor_row_fits_def uint_word_of_int_64)
qed

lemma traverse_projr: "traverse f xs = Inr ys \<Longrightarrow> ys = map (\<lambda>x. projr (f x)) xs"
  by (induction xs arbitrary: ys) (auto simp: res_simps)

lemma commit_applied_facts:
  assumes applied: "commit_applied X C c (pv_committed V d) (pv_committed V d')" and ok: "pg_ok V d"
  shows "committed_as (pg_cursor V) (pg_rows V) (pg_encode X C) d c d'"
proof -
  let ?db = "pv_committed V d" and ?db' = "pv_committed V d'"
  let ?chain = "uint (chain_id_of (bc_chain c))"
  from applied obtain time ids where
    rows: "pd_monitors ?db' = commit_rows time (uint (bc_block_number c)) ids ?chain (pd_monitors ?db)"
    and ids: "set ids = (\<lambda>m. uint (monitor_id_get (mon_id m))) ` set (bc_monitors c)"
    and hit: "\<forall>m \<in> set (bc_monitors c). \<exists>row \<in> set (pd_monitors ?db).
      pgm_id row = uint (monitor_id_get (mon_id m)) \<and> pgm_chain_id row = ?chain"
    and members: "\<forall>r \<in> set (bc_results c). result_monitor_id r \<in> mon_id ` set (bc_monitors c)"
    and block: "unat (bc_block_number c) \<le> 9223372036854775807"
    and written: "\<And>k. \<exists>new. traverse (result_cells X C) (filter (\<lambda>r. result_monitor_id r = k) (bc_results c)) = Inr new \<and> storable_rows new
      \<and> table_rows ?db' (uint (monitor_id_get k)) = table_rows ?db (uint (monitor_id_get k)) @ new"
    by (auto simp: commit_applied_def Let_def)
  let ?f = "\<lambda>r. if commit_hits ids ?chain r then commit_row (uint (bc_block_number c)) time r else r"
  have find: "row_of_id ?db' i = map_option ?f (row_of_id ?db i)" for i
    unfolding row_of_id_def rows commit_rows_def by (rule find_map_same) (simp add: commit_row_def)
  have appended: "pg_rows V d' k = pg_rows V d k @ map (pg_encode X C m) (filter (\<lambda>r. result_monitor_id r = k) (bc_results c))" for k m
    using written [of k] traverse_projr by (fastforce simp: pg_rows_def pg_encode_def [abs_def])
  have moved: "pg_cursor V d' (mon_id m) = Some (bc_block_number c)" if m: "m \<in> set (bc_monitors c)" for m
  proof -
    from hit m obtain row where row: "row \<in> set (pd_monitors ?db)" "pgm_id row = uint (monitor_id_get (mon_id m))" "pgm_chain_id row = ?chain" by blast
    then have "row_of_id ?db (mon_id m) = Some row" using ok by (simp add: row_of_id_stored pg_ok_def)
    moreover have "commit_hits ids ?chain row" using row ids m by (simp add: commit_hits_def)
    ultimately show ?thesis by (simp add: pg_cursor_def find commit_row_def)
  qed
  have others: "pg_cursor V d' i = pg_cursor V d i \<and> pg_rows V d' i = pg_rows V d i" if i: "i \<notin> mon_id ` set (bc_monitors c)" for i
  proof -
    have "uint (monitor_id_get i) \<notin> set ids" using i by (auto simp: ids monitor_id_get_inject)
    then have "map_option ?f (row_of_id ?db i) = row_of_id ?db i"
    proof (cases "row_of_id ?db i")
      case (Some row)
      then have "pgm_id row = uint (monitor_id_get i)" by (auto simp: row_of_id_def find_Some_iff)
      with Some \<open>uint (monitor_id_get i) \<notin> set ids\<close> show ?thesis by (simp add: commit_hits_def)
    qed simp
    moreover have "filter (\<lambda>r. result_monitor_id r = i) (bc_results c) = []"
      using members i by (auto simp: filter_empty_conv)
    ultimately show ?thesis using appended [of i] by (simp add: pg_cursor_def find)
  qed
  have "unat (- 1 :: u64) = 18446744073709551615" by (simp add: u64_simps)
  with block have "bc_block_number c < - 1" by (simp add: word_less_nat_alt)
  with moved appended others show ?thesis by (auto simp: committed_as_def)
qed

section \<open>Loads\<close>

lemma list_all2_map_eq:
  "list_all2 P xs ys \<Longrightarrow> (\<And>x y. x \<in> set xs \<Longrightarrow> P x y \<Longrightarrow> g y = f x) \<Longrightarrow> map g ys = map f xs"
  by (induction rule: list_all2_induct) simp_all

lemma pg_monitor_pairs:
  assumes "traverse (pg_monitor X) rows = Inr ms" and "m \<in> set ms"
  shows "\<exists>row \<in> set rows. pg_monitor X row = Inr m"
  by (rule traverse_member [OF assms])

context postgres_server begin

text \<open>A statement outside of a transaction that only reads.\<close>

lemma read_effect:
  assumes "fst (pg_fetch Q False read q d) = Inr v"
  shows "\<exists>time a db'. sql_effect time q (pv_committed V d) a db' \<and> read a = Some v"
proof -
  obtain r d' where run: "pq_execute Q False q d = (r, d')" by fastforce
  with assms obtain a where "r = Inr a" "read a = Some v"
    by (cases r) (auto simp: pg_fetch_def io_bind_def io_lift_def ok_or_def split: option.splits)
  with autocommits [OF run] show ?thesis by auto
qed

lemma load_facts:
  assumes ok: "pg_ok V d" and load: "fst (pg_load_monitors X Q ch d) = Inr ms"
  shows "distinct (map mon_id ms)"
    and "m \<in> set ms \<Longrightarrow> mon_chain m = ch \<and> cursor_block (mon_cursor m) = pg_cursor V d (mon_id m) \<and> pg_stored X V d m"
proof -
  let ?db = "pv_committed V d"
  let ?mine = "filter (\<lambda>r. pgm_chain_id r = uint (chain_id_of ch)) (pd_monitors ?db)"
  obtain r1 d1 where list: "repo_list_monitors Q (Some (chain_id_of ch)) d = (r1, d1)" by fastforce
  with load obtain rows where rows: "r1 = Inr rows" "traverse (pg_monitor X) rows = Inr ms"
    by (cases r1) (auto simp: pg_load_monitors_def io_bind_def io_lift_def)
  from list rows(1) have "fst (pg_fetch Q False monitor_rows (SelectMonitors (Some (uint (chain_id_of ch)))) d) = Inr rows"
    by (auto simp: repo_list_monitors_def io_bind_def io_lift_def res_simps pg_to_i64_def split: sum.splits if_splits)
  from read_effect [OF this] have rows_eq: "rows = sort_key pgm_id ?mine" by auto
  have fits: "monitor_row_fits ?db row" if "row \<in> set rows" for row
    using ok that by (auto simp: rows_eq pg_ok_def pg_db_ok_def)
  have stored_row: "row \<in> set (pd_monitors ?db) \<and> pgm_chain_id row = uint (chain_id_of ch)" if "row \<in> set rows" for row
    using that by (simp add: rows_eq)
  have "map (\<lambda>m. uint (monitor_id_get (mon_id m))) ms = map pgm_id rows"
    using rows(2) stored_row stored_row_id [of ?db _ X] ok unfolding traverse_Inr
    by (elim list_all2_map_eq) (simp add: pg_ok_def)
  then have ids: "map (\<lambda>i. uint (monitor_id_get i)) (map mon_id ms) = map pgm_id rows" by (simp add: comp_def)
  have "distinct (map pgm_id (pd_monitors ?db))" using ok by (simp add: pg_ok_def pg_db_ok_def)
  then have "distinct (map pgm_id ?mine)" by (rule distinct_map_filter)
  moreover have "mset (map pgm_id rows) = mset (map pgm_id ?mine)" by (simp add: rows_eq)
  ultimately have "distinct (map pgm_id rows)" by (metis mset_eq_imp_distinct_iff)
  then show "distinct (map mon_id ms)" unfolding ids [symmetric] by (simp only: distinct_map)
  show "mon_chain m = ch \<and> cursor_block (mon_cursor m) = pg_cursor V d (mon_id m) \<and> pg_stored X V d m" if m: "m \<in> set ms"
  proof -
    from pg_monitor_pairs [OF rows(2) m] obtain row where row: "row \<in> set rows" "pg_monitor X row = Inr m" by blast
    note here = stored_row [OF row(1)]
    have "row_of_id ?db (mon_id m) = Some row"
      using ok here stored_row_id [OF _ _ row(2)] by (simp add: row_of_id_stored pg_ok_def)
    with pg_monitor_fields [OF row(2)] here row(2) show ?thesis by (auto simp: pg_cursor_def pg_stored_def)
  qed
qed

end

section \<open>The contract\<close>

text \<open>The part of a row no commit and no switch changes.\<close>

definition same_pg_definition :: "pg_monitor_row \<Rightarrow> pg_monitor_row \<Rightarrow> bool" where
  "same_pg_definition row row' =
     (row' = row\<lparr>pgm_cursor := pgm_cursor row', pgm_completed := pgm_completed row',
                 pgm_enabled := pgm_enabled row', pgm_updated_at := pgm_updated_at row'\<rparr>)"

lemma same_pg_definition_simps [simp]:
  "same_pg_definition row row" "same_pg_definition row (commit_row b t row)" "same_pg_definition row (enabled_row e t row)"
  by (cases row; simp add: same_pg_definition_def commit_row_def enabled_row_def)+

lemma same_pg_definition_fields:
  assumes "same_pg_definition row row'"
  shows "pgm_id row' = pgm_id row" and "pgm_chain_id row' = pgm_chain_id row" and "pgm_start_block row' = pgm_start_block row"
    and "pgm_end_block row' = pgm_end_block row" and "pgm_kind row' = pgm_kind row"
    and "pgm_param_schema row' = pgm_param_schema row"
    and "pg_target X row' = pg_target X row" and "pg_filter X row' t = pg_filter X row t"
proof -
  note eq = assms [unfolded same_pg_definition_def]
  have fields: "pgm_address row' = pgm_address row" "pgm_signature_hash row' = pgm_signature_hash row"
    "pgm_filter_ast row' = pgm_filter_ast row" "pgm_filter_version row' = pgm_filter_version row"
    by (subst eq, simp)+
  show simple: "pgm_id row' = pgm_id row" "pgm_chain_id row' = pgm_chain_id row" "pgm_start_block row' = pgm_start_block row"
    "pgm_end_block row' = pgm_end_block row" "pgm_kind row' = pgm_kind row" "pgm_param_schema row' = pgm_param_schema row"
    by (subst eq, simp)+
  show "pg_target X row' = pg_target X row" unfolding pg_target_def fields simple ..
  show "pg_filter X row' t = pg_filter X row t" unfolding pg_filter_def pg_incomplete_filter_def fields simple ..
qed

lemma same_pg_definition_monitor:
  assumes "pg_monitor X row' = Inr m'" and "same_pg_definition row row'" and "monitor_row_fits db row"
  shows "\<exists>m. pg_monitor X row = Inr m \<and> fresh_monitor m' = fresh_monitor m"
proof -
  have "\<exists>cur. traverse_option (\<lambda>v. pg_from_i64 v ''cursor'') (pgm_cursor row) = Inr cur"
    using assms(3) by (cases "pgm_cursor row") (auto simp: monitor_row_fits_def pg_from_i64_def)
  with assms(1) show ?thesis
    unfolding pg_monitor_def same_pg_definition_fields [OF assms(2)]
    by (auto simp: res_simps fresh_monitor_def)
qed

locale pg_index = postgres_server Q V for Q :: "'d postgres" and V :: "'d pg_view" +
  fixes X :: externs and C :: pg_codec and G :: pg_order
  assumes any_order: "pg_order_ok G"

sublocale pg_index \<subseteq> store: monitor_store "pg_index_storage X C G Q" "pg_ok V"
  "pg_cursor V" "pg_rows V" "pg_encode X C" "pg_stored X V"
proof (unfold_locales, goal_cases)
  case (1 s ch ms)
  then show ?case using load_facts by (fastforce simp: pg_index_storage_def)
next
  case (2 s c r s')
  then have "pg_commit_block X C G Q c s = (r, s')" by (simp add: pg_index_storage_def)
  from commit_outcome [OF any_order this 2(1)] commit_applied_facts [OF _ 2(1)] commit_applied_ok 2(1)
  show ?case by (auto simp: pg_ok_def holds_same_def pg_cursor_def pg_rows_def split: sum.splits)
next
  case (3 s ch ms m)
  then show ?case using load_facts(2) by (fastforce simp: pg_index_storage_def)
next
  case (4 s m m')
  then obtain row row' where row: "row \<in> set (pd_monitors (pv_committed V s))" "pg_monitor X row = Inr m"
    "row' \<in> set (pd_monitors (pv_committed V s))" "pg_monitor X row' = Inr m'" by (auto simp: pg_stored_def)
  have "distinct (map pgm_id (pd_monitors (pv_committed V s)))" using 4(1) by (simp add: pg_ok_def pg_db_ok_def)
  moreover have "pgm_id row' = pgm_id row"
    using 4 stored_row_id [of _ row X m] stored_row_id [of _ row' X m'] row by (simp add: pg_ok_def)
  ultimately have "row' = row" using row(1,3) by (auto simp: distinct_map dest: inj_onD)
  with row show ?case by simp
next
  case (5 s c r s' m')
  let ?db = "pv_committed V s"
  from 5(3) obtain row' where row': "row' \<in> set (pd_monitors (pv_committed V s'))" "pg_monitor X row' = Inr m'"
    by (auto simp: pg_stored_def)
  have "pg_commit_block X C G Q c s = (r, s')" using 5(2) by (simp add: pg_index_storage_def)
  from commit_outcome [OF any_order this 5(1)]
  have "pv_committed V s' = ?db \<or> commit_applied X C c ?db (pv_committed V s')" by (auto split: sum.splits)
  then have "\<exists>row \<in> set (pd_monitors ?db). same_pg_definition row row'"
  proof
    assume "commit_applied X C c ?db (pv_committed V s')"
    then obtain t b ids chain_id where "pd_monitors (pv_committed V s') = commit_rows t b ids chain_id (pd_monitors ?db)"
      by (auto simp: commit_applied_def Let_def)
    with commit_rows_member [of row'] row'(1) obtain row where row: "row \<in> set (pd_monitors ?db)"
      "row' = (if commit_hits ids chain_id row then commit_row b t row else row)" by metis
    then show ?thesis by (intro bexI [of _ row]) simp_all
  qed (use row'(1) in \<open>auto intro: bexI [of _ row']\<close>)
  then obtain row where row: "row \<in> set (pd_monitors ?db)" "same_pg_definition row row'" by blast
  with 5(1) have "monitor_row_fits ?db row" by (simp add: pg_ok_def pg_db_ok_def)
  from same_pg_definition_monitor [OF row'(2) row(2) this] row(1) show ?case by (auto simp: pg_stored_def)
next
  case 6
  show ?case by (simp add: pg_encode_def [abs_def])
qed

end
