(* ===== verification/Postgres_Deployed.thy ===== *)
theory Postgres_Deployed
  imports Postgres_Port
begin

text \<open>
  The changes of chains and monitors through \<open>PostgresStorage\<close>, each an effect on the tables, and the
  adapter as a \<open>deployed_store\<close>: exactly-once indexing holds over PostgreSQL as it does over MongoDB.
\<close>

section \<open>What a change leaves of the stored monitors\<close>

definition pg_row_kept :: "pg_db \<Rightarrow> pg_db \<Rightarrow> pg_monitor_row \<Rightarrow> bool" where
  "pg_row_kept db db' row' =
     (\<exists>row \<in> set (pd_monitors db). same_pg_definition row row' \<and> pgm_cursor row' = pgm_cursor row
        \<and> table_rows db' (pgm_id row) = table_rows db (pgm_id row))"

definition pg_row_new :: "externs \<Rightarrow> pg_db \<Rightarrow> pg_monitor_row \<Rightarrow> bool" where
  "pg_row_new X db' row' =
     (pgm_cursor row' = None \<and> table_rows db' (pgm_id row') = []
      \<and> (\<forall>t. pg_target X row' = Inr t \<longrightarrow> schema_ok (target_params t)))"

definition pg_change :: "externs \<Rightarrow> pg_db \<Rightarrow> pg_db \<Rightarrow> bool" where
  "pg_change X db db' = (\<forall>row' \<in> set (pd_monitors db'). pg_row_kept db db' row' \<or> pg_row_new X db' row')"

lemma pg_row_kept_same:
  "row' \<in> set (pd_monitors db) \<Longrightarrow> table_rows db' (pgm_id row') = table_rows db (pgm_id row') \<Longrightarrow> pg_row_kept db db' row'"
  unfolding pg_row_kept_def by (rule bexI [of _ row']) simp_all

lemma pg_same_monitors:
  assumes "pd_monitors db' = pd_monitors db" and "pd_tables db' = pd_tables db" and "pg_db_ok db"
  shows "pg_db_ok db' \<and> pg_change X db db'"
  using assms pg_row_kept_same [of _ db db']
  by (auto simp: pg_db_ok_def pg_change_def monitor_row_fits_def row_table_def has_table_def table_rows_def)

lemma enabled_row_fields [simp]: "pgm_cursor (enabled_row b t row) = pgm_cursor row"
  by (simp add: enabled_row_def)

lemma pgm_keys: "(\<lambda>r. monitor_table (pgm_id r)) ` set rows = monitor_table ` set (map pgm_id rows)"
  by (simp add: image_image)

lemma enabled_effect:
  assumes ok: "pg_db_ok db" and rows: "pd_monitors db' = map (\<lambda>r. if pgm_id r = i then enabled_row b t r else r) (pd_monitors db)"
    and tables: "pd_tables db' = pd_tables db"
  shows "pg_db_ok db' \<and> pg_change X db db'"
proof -
  have ids: "map pgm_id (pd_monitors db') = map pgm_id (pd_monitors db)" by (simp add: rows enabled_row_def)
  then have keys: "(\<lambda>r. monitor_table (pgm_id r)) ` set (pd_monitors db') = (\<lambda>r. monitor_table (pgm_id r)) ` set (pd_monitors db)"
    unfolding pgm_keys by (rule arg_cong)
  have fits: "monitor_row_fits db' (enabled_row b t r) = monitor_row_fits db r" "monitor_row_fits db' r = monitor_row_fits db r" for r
    by (simp_all add: monitor_row_fits_def row_table_def has_table_def tables enabled_row_def)
  have "pg_row_kept db db' row'" if "row' \<in> set (pd_monitors db')" for row'
  proof -
    from that obtain row where row: "row \<in> set (pd_monitors db)" "row' = row \<or> row' = enabled_row b t row" by (auto simp: rows)
    then show ?thesis
      unfolding pg_row_kept_def by (intro bexI [of _ row]) (auto simp: table_rows_def tables)
  qed
  moreover have "pg_db_ok db'" using ok fits unfolding pg_db_ok_def ids keys tables by (auto simp: rows)
  ultimately show ?thesis by (simp add: pg_change_def)
qed

text \<open>Some monitors are gone, with exactly their tables.\<close>

lemma removed_effect:
  assumes ok: "pg_db_ok db" and rows: "pd_monitors db' = filter (\<lambda>r. \<not> gone r) (pd_monitors db)"
    and tables: "\<And>n. pd_tables db' n
      = (if n \<in> (\<lambda>r. monitor_table (pgm_id r)) ` set (filter gone (pd_monitors db)) then None else pd_tables db n)"
  shows "pg_db_ok db' \<and> pg_change X db db'"
proof -
  have ids: "distinct (map pgm_id (pd_monitors db))" using ok by (simp add: pg_db_ok_def)
  have kept: "pd_tables db' (monitor_table (pgm_id r)) = pd_tables db (monitor_table (pgm_id r))"
    if "r \<in> set (pd_monitors db)" "\<not> gone r" for r
  proof -
    have "r2 = r" if "r2 \<in> set (pd_monitors db)" "pgm_id r2 = pgm_id r" for r2
      using ids \<open>r \<in> set (pd_monitors db)\<close> that by (auto simp: distinct_map dest: inj_onD)
    with \<open>\<not> gone r\<close> have "monitor_table (pgm_id r) \<notin> (\<lambda>r. monitor_table (pgm_id r)) ` set (filter gone (pd_monitors db))" by auto
    with tables show ?thesis by simp
  qed
  have "monitor_row_fits db' r" if "r \<in> set (pd_monitors db')" for r
    using ok that kept [of r] by (auto simp: rows pg_db_ok_def monitor_row_fits_def row_table_def has_table_def)
  moreover have "dom (pd_tables db') = (\<lambda>r. monitor_table (pgm_id r)) ` set (pd_monitors db')"
  proof (intro equalityI subsetI)
    fix n assume "n \<in> dom (pd_tables db')"
    then have "n \<in> dom (pd_tables db)" "n \<notin> (\<lambda>r. monitor_table (pgm_id r)) ` set (filter gone (pd_monitors db))"
      by (auto simp: tables split: if_splits)
    with ok show "n \<in> (\<lambda>r. monitor_table (pgm_id r)) ` set (pd_monitors db')" by (auto simp: pg_db_ok_def rows)
  next
    fix n assume "n \<in> (\<lambda>r. monitor_table (pgm_id r)) ` set (pd_monitors db')"
    then obtain r where r: "r \<in> set (pd_monitors db)" "\<not> gone r" "n = monitor_table (pgm_id r)" by (auto simp: rows)
    with ok have "n \<in> dom (pd_tables db)" by (simp add: pg_db_ok_def)
    with kept [OF r(1,2)] r(3) show "n \<in> dom (pd_tables db')" by (simp add: dom_def)
  qed
  moreover have "pg_row_kept db db' r" if "r \<in> set (pd_monitors db')" for r
    using that kept [of r] by (intro pg_row_kept_same) (auto simp: rows table_rows_def)
  ultimately show ?thesis using ids by (simp add: pg_db_ok_def pg_change_def rows distinct_map_filter)
qed

text \<open>A monitor is new, with an empty table for its schema.\<close>

lemma created_effect:
  assumes ok: "pg_db_ok db" and rows: "pd_monitors db' = pd_monitors db @ [row]"
    and tables: "pd_tables db' = (pd_tables db)(monitor_table (pgm_id row) := Some t)"
    and t: "tb_columns t = result_columns (pgm_kind row) (pgm_param_schema row)" "tb_rows t = []"
    and row: "0 < pgm_id row" "pgm_id row \<le> 9223372036854775807" "pgm_id row \<notin> pgm_id ` set (pd_monitors db)"
      "pgm_cursor row = None" "\<forall>t. pg_target X row = Inr t \<longrightarrow> schema_ok (target_params t)"
  shows "pg_db_ok db' \<and> pg_change X db db'"
proof -
  have others: "pd_tables db' (monitor_table (pgm_id r)) = pd_tables db (monitor_table (pgm_id r))"
    if "r \<in> set (pd_monitors db)" for r
  proof -
    have "pgm_id r \<noteq> pgm_id row" using row(3) that by (metis image_eqI)
    then show ?thesis by (simp add: tables)
  qed
  then have "monitor_row_fits db' r" if "r \<in> set (pd_monitors db)" for r
    using ok that by (simp add: pg_db_ok_def monitor_row_fits_def row_table_def has_table_def)
  moreover have "monitor_row_fits db' row"
    using row t by (simp add: monitor_row_fits_def row_table_def has_table_def tables)
  moreover have "dom (pd_tables db') = (\<lambda>r. monitor_table (pgm_id r)) ` set (pd_monitors db')"
    using ok by (simp add: pg_db_ok_def rows tables)
  moreover have "pg_row_new X db' row" using row t by (simp add: pg_row_new_def table_rows_def tables)
  moreover have "pg_row_kept db db' r" if "r \<in> set (pd_monitors db)" for r
    using that others by (intro pg_row_kept_same) (simp_all add: table_rows_def)
  ultimately show ?thesis using ok row(3) by (auto simp: pg_db_ok_def pg_change_def rows)
qed

section \<open>The transactions\<close>

definition create_table_rel ::
  "externs \<Rightarrow> i64 \<Rightarrow> string \<Rightarrow> pg_param list \<Rightarrow> pg_db \<Rightarrow> unit \<Rightarrow> pg_db \<Rightarrow> bool" where
  "create_table_rel X i kind schema p u p' =
     (0 < i \<and> (i \<le> 9223372036854775807 \<longrightarrow>
        pd_tables p (monitor_table i) = None
        \<and> p' = p\<lparr>pd_tables := (pd_tables p)(monitor_table i := Some \<lparr>tb_columns = result_columns kind schema, tb_rows = []\<rparr>)\<rparr>))"

lemma table_columns_names:
  "table_columns kind = Inr identity \<Longrightarrow> filter (\<lambda>c. c \<noteq> ''PRIMARY KEY'') (map fst identity)
     = (if kind = ''call'' then CALL_RESERVED else EVENT_RESERVED)"
  by (auto simp: table_columns_def CALL_COLUMNS_def EVENT_COLUMNS_def CALL_RESERVED_def EVENT_RESERVED_def split: if_splits)

lemma param_columns_names:
  "traverse param_column params = Inr columns \<Longrightarrow>
     map (pg_name \<circ> identifier_name \<circ> fst) columns = map pg_name (map pp_column params)"
  by (induction params arbitrary: columns) (auto simp: param_column_def identifier_new_def res_simps split: if_splits)

lemma create_table_relI:
  assumes table: "result_table i = Inr table" and params: "postgres_params X kind schema = Inr params"
    and identity: "table_columns kind = Inr identity" and columns: "traverse param_column params = Inr columns"
    and effect: "sql_effect time (CreateTable table identity columns) p a p'"
  shows "create_table_rel X i kind schema p u p'"
proof -
  from postgres_params_Inr(2) [OF params]
  have "filter (\<lambda>c. c \<noteq> ''PRIMARY KEY'') (map fst identity) @ map (pg_name \<circ> identifier_name \<circ> fst) columns = result_columns kind schema"
    unfolding table_columns_names [OF identity] param_columns_names [OF columns]
    by (auto simp: result_columns_def reserved_columns_def simp del: map_map split: if_splits)
  with table effect show ?thesis by (auto simp: create_table_rel_def result_table_Inr Let_def)
qed

definition drop_table_rel :: "i64 \<Rightarrow> pg_db \<Rightarrow> unit \<Rightarrow> pg_db \<Rightarrow> bool" where
  "drop_table_rel i p u p' = (i \<le> 9223372036854775807 \<longrightarrow> p' = p\<lparr>pd_tables := (pd_tables p)(monitor_table i := None)\<rparr>)"

lemma drop_tables_effect:
  assumes "each_rel drop_table_rel ids p p'" and "\<forall>i \<in> set ids. i \<le> 9223372036854775807"
  shows "p' = p\<lparr>pd_tables := (\<lambda>n. if n \<in> monitor_table ` set ids then None else pd_tables p n)\<rparr>"
  using assms
proof (induction ids arbitrary: p)
  case (Cons i ids)
  let ?p1 = "p\<lparr>pd_tables := (pd_tables p)(monitor_table i := None)\<rparr>"
  from Cons.prems have "each_rel drop_table_rel ids ?p1 p'" by (auto simp: drop_table_rel_def [of i])
  from Cons.IH [OF this] Cons.prems(2) show ?case by (auto simp: fun_eq_iff)
qed simp

definition create_monitor_rel :: "externs \<Rightarrow> new_monitor \<Rightarrow> pg_db \<Rightarrow> pg_monitor_row \<Rightarrow> pg_db \<Rightarrow> bool" where
  "create_monitor_rel X nm p row p' = (type_text_laws X \<longrightarrow> schema_ok (target_params (nm_target nm)) \<longrightarrow> pg_db_ok p \<longrightarrow>
     pg_db_ok p' \<and> pg_change X p p')"

definition keeps_rel :: "externs \<Rightarrow> pg_db \<Rightarrow> 'a \<Rightarrow> pg_db \<Rightarrow> bool" where
  "keeps_rel X p v p' = (pg_db_ok p \<longrightarrow> pg_db_ok p' \<and> pg_change X p p')"

lemma delete_chain_relI:
  assumes locked: "sql_effect t1 (LockMonitorIds c) p a1 p1" "id_rows a1 = Some ids"
    and drops: "each_rel drop_table_rel ids p1 p2" and deleted: "sql_effect t2 (DeleteChain c) p2 a2 p'"
  shows "keeps_rel X p v p'"
  unfolding keeps_rel_def
proof
  assume ok: "pg_db_ok p"
  from locked have ids: "set ids = pgm_id ` set (filter (\<lambda>r. pgm_chain_id r = c) (pd_monitors p))" and p1: "p1 = p" by auto
  have "\<forall>i \<in> set ids. i \<le> 9223372036854775807" using ok by (auto simp: ids pg_db_ok_def monitor_row_fits_def)
  from drop_tables_effect [OF drops this] deleted p1
  have "pd_monitors p' = filter (\<lambda>r. \<not> pgm_chain_id r = c) (pd_monitors p)"
    and "pd_tables p' = (\<lambda>n. if n \<in> monitor_table ` set ids then None else pd_tables p n)" by auto
  then show "pg_db_ok p' \<and> pg_change X p p'"
    by (intro removed_effect [OF ok, where gone = "\<lambda>r. pgm_chain_id r = c"]) (simp_all only: ids image_image)
qed

lemma delete_monitor_relI:
  assumes found: "sql_effect t1 (SelectMonitor i) p a1 p1" "monitor_rows a1 = Some rows" "first_row rows = Some current"
    and drop: "drop_table_rel (pgm_id current) p1 u p2" and deleted: "sql_effect t2 (DeleteMonitor i) p2 a2 p'"
  shows "keeps_rel X p v p'"
  unfolding keeps_rel_def
proof
  assume ok: "pg_db_ok p"
  from found have p1: "p1 = p" and "set rows = {r \<in> set (pd_monitors p). pgm_id r = i}" by auto
  with found(3) have current: "current \<in> set (pd_monitors p)" "pgm_id current = i" by (auto simp: first_row_def split: list.splits)
  then have "i \<le> 9223372036854775807" using ok by (auto simp: pg_db_ok_def monitor_row_fits_def)
  with drop deleted p1 current have "pd_monitors p' = filter (\<lambda>r. \<not> pgm_id r = i) (pd_monitors p)"
    and "pd_tables p' = (pd_tables p)(monitor_table i := None)" by (auto simp: drop_table_rel_def)
  moreover have "(\<lambda>r. monitor_table (pgm_id r)) ` set (filter (\<lambda>r. pgm_id r = i) (pd_monitors p)) = {monitor_table i}"
    using current by auto
  ultimately show "pg_db_ok p' \<and> pg_change X p p'"
    by (intro removed_effect [OF ok, where gone = "\<lambda>r. pgm_id r = i"]) auto
qed

lemma create_monitor_relI:
  assumes input: "pg_monitor_input_of X nm = Inr input"
    and inserted: "sql_effect time (InsertMonitor input) p a p1" "monitor_rows a = Some (row # rest)"
    and table: "create_table_rel X (pgm_id row) (pgm_kind row) (pgi_param_schema input) p1 u p'"
  shows "create_monitor_rel X nm p row p'"
  unfolding create_monitor_rel_def
proof (intro impI)
  assume laws: "type_text_laws X" and schema: "schema_ok (target_params (nm_target nm))" and ok: "pg_db_ok p"
  from inserted obtain i where i: "0 < i" "i \<le> 9223372036854775807" "i \<notin> pgm_id ` set (pd_monitors p)"
    and row: "row = pg_inserted_monitor i time input" and p1: "p1 = p\<lparr>pd_monitors := pd_monitors p @ [row]\<rparr>" by auto
  from table i row p1 have "pd_monitors p' = pd_monitors p @ [row]"
    and "pd_tables p' = (pd_tables p)(monitor_table (pgm_id row) :=
      Some \<lparr>tb_columns = result_columns (pgm_kind row) (pgm_param_schema row), tb_rows = []\<rparr>)"
    by (auto simp: create_table_rel_def pg_inserted_monitor_def)
  then show "pg_db_ok p' \<and> pg_change X p p'"
    by (rule created_effect [OF ok])
      (use i pg_monitor_input_target [OF laws schema input] schema in \<open>auto simp: row pg_inserted_monitor_def\<close>)
qed

lemma io_map_run: "io_bind m (\<lambda>v. io_lift (f v)) d = (r, d') \<Longrightarrow> \<exists>r'. m d = (r', d')"
  by (auto simp: io_bind_def io_lift_def split: prod.splits sum.splits)

lemma io_lift_run: "io_bind (io_lift q) m d = (r, d') \<Longrightarrow> d' = d \<or> (\<exists>v. q = Inr v \<and> m v d = (r, d'))"
  by (auto simp: io_bind_def io_lift_def split: sum.splits)

context postgres_server begin

lemma tx_create_result_table: "tx_op V (create_table_rel X i kind schema) (create_result_table X Q i kind schema)"
  unfolding create_result_table_def
  by (rule tx_weaken [OF tx_bind [OF tx_lift tx_bind [OF tx_lift tx_bind [OF tx_lift tx_bind [OF tx_lift tx_bind [OF tx_fetch
        tx_bind [OF tx_lift tx_bind [OF tx_fetch tx_lift]]]]]]]])
    (auto intro!: create_table_relI simp del: sql_effect.simps(15))

lemma tx_drop_result_table: "tx_op V (drop_table_rel i) (drop_result_table Q i)"
  unfolding drop_result_table_def
  by (rule tx_weaken [OF tx_bind [OF tx_lift tx_bind [OF tx_fetch tx_lift]]]) (auto simp: drop_table_rel_def res_simps)

lemma tx_delete_chain: "tx_op V (keeps_rel X) (delete_chain_body Q c)"
  unfolding delete_chain_body_def
  by (rule tx_weaken [OF tx_bind [OF tx_fetch_optional tx_bind [OF tx_lift tx_bind [OF tx_fetch
        tx_bind [OF tx_each [OF tx_drop_result_table] tx_bind [OF tx_fetch tx_lift]]]]]])
    (auto intro!: delete_chain_relI)

lemma tx_delete_monitor: "tx_op V (keeps_rel X) (delete_monitor_body Q i)"
  unfolding delete_monitor_body_def
  by (rule tx_weaken [OF tx_bind [OF tx_fetch_optional tx_bind [OF tx_lift
        tx_bind [OF tx_drop_result_table tx_bind [OF tx_fetch tx_lift]]]]])
    (auto simp: res_simps intro!: delete_monitor_relI)

lemma tx_create_monitor:
  assumes "pg_monitor_input_of X nm = Inr input"
  shows "tx_op V (create_monitor_rel X nm) (create_monitor_body X Q c input)"
  unfolding create_monitor_body_def
  by (rule tx_weaken [OF tx_bind [OF tx_fetch_optional tx_bind [OF tx_lift tx_bind [OF tx_fetch_one
        tx_bind [OF tx_create_result_table tx_lift]]]]])
    (auto intro!: create_monitor_relI [OF assms])

end

section \<open>The changes of the repository\<close>

lemma pg_change_refl: "pg_db_ok db \<Longrightarrow> pg_db_ok db \<and> pg_change X db db"
  by (rule pg_same_monitors) simp_all

definition pg_moves :: "externs \<Rightarrow> 'd pg_view \<Rightarrow> 'd \<Rightarrow> 'd \<Rightarrow> bool" where
  "pg_moves X V d d' = (pg_ok V d \<longrightarrow> pg_ok V d' \<and> pg_change X (pv_committed V d) (pv_committed V d'))"

lemma pg_moves_refl [simp]: "pg_moves X V d d"
  using pg_change_refl by (auto simp: pg_moves_def pg_ok_def)

text \<open>A statement that keeps the tables in order in each of its effects.\<close>

definition sql_keeps :: "externs \<Rightarrow> sql \<Rightarrow> bool" where
  "sql_keeps X q = (\<forall>time db a db'. sql_effect time q db a db' \<longrightarrow> pg_db_ok db \<longrightarrow> pg_db_ok db' \<and> pg_change X db db')"

lemma sql_keeps_simps [simp]:
  "sql_keeps X (InsertChain c u b)" "sql_keeps X (UpdateChain c v e)" "sql_keeps X (UpdateEnabled i b)"
proof -
  show "sql_keeps X (InsertChain c u b)" "sql_keeps X (UpdateChain c v e)"
    unfolding sql_keeps_def by (intro allI impI pg_same_monitors; simp add: Let_def)+
  show "sql_keeps X (UpdateEnabled i b)"
    unfolding sql_keeps_def
  proof (intro allI impI)
    fix time db a db' assume "sql_effect time (UpdateEnabled i b) db a db'" and "pg_db_ok db"
    then show "pg_db_ok db' \<and> pg_change X db db'" by (intro enabled_effect [where i = i and b = b and t = time]) (simp_all add: Let_def)
  qed
qed

context postgres_server begin

lemma fetch_moves:
  assumes keeps: "sql_keeps X q" and run: "pg_fetch Q False read q d = (r, d')"
  shows "pg_moves X V d d'"
proof -
  from io_map_run [OF run [unfolded pg_fetch_def]] obtain r1 where "pq_execute Q False q d = (r1, d')" by blast
  from autocommits [OF this] have "pv_committed V d' = pv_committed V d
      \<or> (\<exists>time a. sql_effect time q (pv_committed V d) a (pv_committed V d'))" by (auto split: sum.splits)
  with keeps pg_change_refl [of "pv_committed V d" X] show ?thesis by (auto simp: pg_moves_def pg_ok_def sql_keeps_def)
qed

lemma fetch_one_moves: "sql_keeps X q \<Longrightarrow> pg_fetch_one Q False read q d = (r, d') \<Longrightarrow> pg_moves X V d d'"
  unfolding pg_fetch_one_def by (drule io_map_run) (auto intro: fetch_moves)

lemma fetch_optional_moves: "sql_keeps X q \<Longrightarrow> pg_fetch_optional Q False read q d = (r, d') \<Longrightarrow> pg_moves X V d d'"
  unfolding pg_fetch_optional_def by (drule io_map_run) (auto intro: fetch_moves)

lemma transaction_moves:
  assumes "tx_op V E body" and "\<And>p v p'. E p v p' \<Longrightarrow> pg_db_ok p \<Longrightarrow> pg_db_ok p' \<and> pg_change X p p'"
    and "pg_transaction Q body d = (r, d')"
  shows "pg_moves X V d d'"
  using transaction_outcome [OF assms(1,3)] assms(2) pg_change_refl [of "pv_committed V d" X]
  by (auto simp: pg_moves_def pg_ok_def split: sum.splits)

lemma repository_moves:
  assumes change: "storage_change (pg_repository X C Q) d d'" and laws: "type_text_laws X"
  shows "pg_moves X V d d'"
  using change
proof cases
  case (change_create_chain nc r)
  then obtain r1 where "repo_create_chain Q (nc_chain nc) (nc_rpc_url nc) (nc_enabled nc) d = (r1, d')"
    by (auto simp: pg_repository_def io_map_def Let_def dest: io_map_run)
  then show ?thesis unfolding repo_create_chain_def by (auto dest!: io_lift_run intro: fetch_one_moves [rotated])
next
  case (change_update_chain ch u r)
  then obtain r1 where "repo_update_chain Q (chain_id_of ch) (cu_rpc_url u) (cu_enabled u) d = (r1, d')"
    by (auto simp: pg_repository_def io_map_def Let_def dest: io_map_run)
  then show ?thesis unfolding repo_update_chain_def
    by (auto dest!: io_lift_run io_map_run intro: fetch_optional_moves [rotated])
next
  case (change_delete_chain ch r)
  then have "repo_delete_chain Q (chain_id_of ch) d = (r, d')" by (simp add: pg_repository_def Let_def)
  then show ?thesis unfolding repo_delete_chain_def
    by (auto dest!: io_lift_run intro: transaction_moves [OF tx_delete_chain [of X]] simp: keeps_rel_def)
next
  case (change_create_monitor nm r)
  then obtain r1 where "create_prepared X Q nm d = (r1, d')"
    by (auto simp: pg_repository_def io_map_def Let_def dest: io_map_run)
  then show ?thesis unfolding create_prepared_def
    using laws change_create_monitor(2)
    by (auto dest!: io_lift_run intro: transaction_moves [OF tx_create_monitor] simp: create_monitor_rel_def)
next
  case (change_set_enabled i b r)
  then obtain r1 where "repo_set_enabled Q i b d = (r1, d')"
    by (auto simp: pg_repository_def io_map_def Let_def dest: io_map_run)
  then show ?thesis unfolding repo_set_enabled_def by (auto dest!: io_lift_run intro: fetch_one_moves [rotated])
next
  case (change_delete_monitor i r)
  then have "repo_delete_monitor Q i d = (r, d')" by (simp add: pg_repository_def Let_def)
  then show ?thesis unfolding repo_delete_monitor_def
    by (auto dest!: io_lift_run intro: transaction_moves [OF tx_delete_monitor [of X]] simp: keeps_rel_def)
qed

end

section \<open>The deployed program over PostgreSQL\<close>

context pg_index begin

lemma row_of_monitor:
  assumes "pg_ok V d" and "row \<in> set (pd_monitors (pv_committed V d))" and m: "pg_monitor X row = Inr m"
  shows "pg_cursor V d (mon_id m) = map_option word_of_int (pgm_cursor row)"
    and "pg_rows V d (mon_id m) = table_rows (pv_committed V d) (pgm_id row)"
  using assms stored_row_id [of "pv_committed V d" row X m]
  by (simp_all add: pg_cursor_def pg_rows_def row_of_id_stored pg_ok_def)

end

sublocale pg_index \<subseteq> deployed: deployed_store "pg_index_storage X C G Q" "pg_ok V"
  "pg_cursor V" "pg_rows V" "pg_encode X C" "pg_stored X V" X "pg_repository X C Q"
proof (unfold_locales, goal_cases)
  case (1 s s')
  let ?db = "pv_committed V s" and ?db' = "pv_committed V s'"
  from repository_moves [OF 1(3,1)] 1(2) have ok: "pg_ok V s'" and rows: "pg_change X ?db ?db'"
    by (auto simp: pg_moves_def)
  have "change_ok X (pg_stored X V) (pg_cursor V) (pg_rows V) s s'"
    unfolding change_ok_def
  proof (intro allI impI)
    fix m' assume "pg_stored X V s' m'"
    then obtain row' where row': "row' \<in> set (pd_monitors ?db')" "pg_monitor X row' = Inr m'" by (auto simp: pg_stored_def)
    note held' = row_of_monitor [OF ok row']
    from rows row'(1) consider "pg_row_kept ?db ?db' row'" | "pg_row_new X ?db' row'" by (auto simp: pg_change_def)
    then show "(\<exists>m. pg_stored X V s m \<and> fresh_monitor m' = fresh_monitor m
          \<and> pg_cursor V s' (mon_id m) = pg_cursor V s (mon_id m) \<and> pg_rows V s' (mon_id m) = pg_rows V s (mon_id m))
        \<or> (pg_cursor V s' (mon_id m') = None \<and> pg_rows V s' (mon_id m') = [] \<and> monitor_ok X m')"
    proof cases
      case 1
      then obtain row where row: "row \<in> set (pd_monitors ?db)" "same_pg_definition row row'" "pgm_cursor row' = pgm_cursor row"
        "table_rows ?db' (pgm_id row) = table_rows ?db (pgm_id row)" by (auto simp: pg_row_kept_def)
      have "monitor_row_fits ?db row" using \<open>pg_ok V s\<close> row(1) by (simp add: pg_ok_def pg_db_ok_def)
      from same_pg_definition_monitor [OF row'(2) row(2) this] obtain m where m: "pg_monitor X row = Inr m"
        "fresh_monitor m' = fresh_monitor m" by blast
      note held = row_of_monitor [OF \<open>pg_ok V s\<close> row(1) m(1)]
      have "mon_id m' = mon_id m" by (rule fresh_fields(1) [OF m(2)])
      with held held' row(3,4) same_pg_definition_fields(1) [OF row(2)]
      have "pg_cursor V s' (mon_id m) = pg_cursor V s (mon_id m)" "pg_rows V s' (mon_id m) = pg_rows V s (mon_id m)" by auto
      with m row(1) show ?thesis by (auto simp: pg_stored_def)
    next
      case 2
      with held' pg_filter_compiled pg_monitor_fields(4,5) [OF row'(2)] show ?thesis
        by (auto simp: pg_row_new_def monitor_ok_def)
    qed
  qed
  with ok show ?case ..
qed

context pg_index begin

lemma deployment_keeps_exact:
  "(deployed_step X H S D (pg_index_storage X C G Q) (pg_repository X C Q))\<^sup>*\<^sup>* d d' \<Longrightarrow> deployment_ok X H S D \<Longrightarrow>
     pg_ok V d \<Longrightarrow> store_exact (pg_stored X V) (pg_cursor V) (pg_rows V) (pg_encode X C) X D d \<Longrightarrow>
     \<forall>m. pg_stored X V d m \<longrightarrow> monitor_ok X m \<Longrightarrow>
     pg_ok V d' \<and> store_exact (pg_stored X V) (pg_cursor V) (pg_rows V) (pg_encode X C) X D d'"
  using deployed.deployed_keeps_exact by blast

end

end
