(* ===== verification/Postgres_Correct.thy ===== *)
theory Postgres_Correct
  imports Postgres_Deployed
begin

text \<open>
  Facts about \<open>PostgresStorage\<close> beyond the contract of the storage port: what is written for a result
  is what a query reads back, and every statement stays below the bind limit of the protocol.
\<close>

section \<open>Values\<close>

text \<open>
  Documented behaviour of the conversions: a decimal text survives \<open>BigDecimal\<close>, and an address is
  printed as its bytes are.
\<close>

definition pg_codec_laws :: "externs \<Rightarrow> pg_codec \<Rightarrow> bool" where
  "pg_codec_laws X C =
     ((\<forall>w. \<exists>n. cx_decimal_from_str C (u256_display X w) = Inr n \<and> cx_to_plain_string C n = u256_display X w)
      \<and> (\<forall>w. \<exists>n. cx_decimal_from_str C (i256_display X w) = Inr n \<and> cx_to_plain_string C n = i256_display X w)
      \<and> (\<forall>a. address_display X a = ''0x'' @ hex_encode X (be_bytes 20 a)))"

lemma codec_uint: "pg_codec_laws X C \<Longrightarrow> \<exists>n. cx_decimal_from_str C (u256_display X w) = Inr n \<and> cx_to_plain_string C n = u256_display X w"
  and codec_int: "pg_codec_laws X C \<Longrightarrow> \<exists>n. cx_decimal_from_str C (i256_display X w) = Inr n \<and> cx_to_plain_string C n = i256_display X w"
  and codec_address: "pg_codec_laws X C \<Longrightarrow> address_display X a = ''0x'' @ hex_encode X (be_bytes 20 a)"
  unfolding pg_codec_laws_def by blast+

lemma parse_sol_type:
  assumes "type_text_laws X" and "scalar_type (param_ty p)"
  shows "parse_abi_type X (pgp_sol_type (pg_param_of X p)) = Inr (param_ty p)"
  using assms
  by (cases "param_ty p") (simp_all add: parse_abi_type_def pg_param_of_def sol_type_def type_text_laws_def
      scalar_type_def ensure_supported_type_def)

lemma column_type_exists:
  assumes "type_text_laws X" and "scalar_type (param_ty p)"
  shows "\<exists>k. pg_column_type_of X (pg_param_of X p) = Inr k"
  using assms(2) parse_sol_type [OF assms]
  by (cases "param_ty p") (simp_all add: pg_column_type_of_def scalar_type_def)

text \<open>The column of a parameter takes the value and gives its canonical JSON.\<close>

lemma value_cell_json:
  assumes laws: "type_text_laws X" "pg_codec_laws X C" and scalar: "scalar_type (param_ty p)"
    and conforms: "value_has_type (wire_type ev p) v" and call: "ev \<or> \<not> param_indexed p"
    and k: "pg_column_type_of X (pg_param_of X p) = Inr k"
  shows "\<exists>cell. push_value X C v = Inr cell \<and> cell_json X C k cell = Inr (canonical_value X v)"
proof -
  note type = parse_sol_type [OF laws(1) scalar]
  have indexed: "pgp_indexed (pg_param_of X p) = param_indexed p" by (simp add: pg_param_of_def)
  show ?thesis
  proof (cases v)
    case (DUint w)
    with conforms have "k = PgNumeric" using k type call indexed
      by (cases "param_ty p") (auto simp: wire_type_def topic_type_def pg_column_type_of_def split: if_splits)
    with codec_uint [OF laws(2), of w] DUint show ?thesis
      by (auto simp: push_value_def pg_foreign_def cell_json_def canonical_value_def)
  next
    case (DInt w)
    with conforms have "k = PgNumeric" using k type call indexed
      by (cases "param_ty p") (auto simp: wire_type_def topic_type_def pg_column_type_of_def split: if_splits)
    with codec_int [OF laws(2), of w] DInt show ?thesis
      by (auto simp: push_value_def pg_foreign_def cell_json_def canonical_value_def)
  next
    case (DBool b)
    with conforms have "k = PgBool" using k type call indexed
      by (cases "param_ty p") (auto simp: wire_type_def topic_type_def pg_column_type_of_def split: if_splits)
    with DBool show ?thesis by (simp add: push_value_def cell_json_def canonical_value_def)
  next
    case (DAddress a)
    with conforms have "k = PgBytea" using k type call indexed
      by (cases "param_ty p") (auto simp: wire_type_def topic_type_def pg_column_type_of_def split: if_splits)
    with DAddress codec_address [OF laws(2)] show ?thesis
      by (simp add: push_value_def cell_json_def canonical_value_def)
  next
    case (DString s)
    with conforms have "k = PgText" using k type call indexed
      by (cases "param_ty p") (auto simp: wire_type_def topic_type_def pg_column_type_of_def split: if_splits)
    with DString show ?thesis by (simp add: push_value_def cell_json_def canonical_value_def)
  next
    case (DBytes bs)
    with conforms have "k = PgBytea" using k type call indexed
      by (cases "param_ty p") (auto simp: wire_type_def topic_type_def pg_column_type_of_def split: if_splits)
    with DBytes show ?thesis by (simp add: push_value_def cell_json_def canonical_value_def)
  qed
qed

section \<open>Rows\<close>

lemma schema_columns:
  assumes "type_text_laws X" and "\<forall>p \<in> set ps. scalar_type (param_ty p)" and "kind = ''call'' \<or> kind = ''event''"
  shows "\<exists>params. postgres_params X kind (map (pg_param_of X) ps) = Inr params"
proof -
  let ?schema = "map (pg_param_of X) ps"
  obtain reserved where reserved: "reserved_columns kind = Inr reserved" using assms(3) by (auto simp: reserved_columns_def)
  have "\<exists>params. traverse (\<lambda>(p, col). res_bind (pg_column_type_of X p) (\<lambda>k.
        Inr \<lparr>pp_name = pgp_name p, pp_column = col, pp_kind = k\<rparr>)) (zip ?schema cols) = Inr params" for cols
    using assms(2)
  proof (induction ps arbitrary: cols)
    case (Cons p ps)
    then obtain k where "pg_column_type_of X (pg_param_of X p) = Inr k" using column_type_exists [OF assms(1), of p] by auto
    with Cons show ?case by (cases cols) (simp, fastforce simp: res_simps)
  qed simp
  with reserved show ?thesis by (simp add: postgres_params_def)
qed

text \<open>Reading the parameters of a row whose columns hold the written values.\<close>

lemma read_params_written:
  assumes laws: "type_text_laws X" "pg_codec_laws X C"
    and types: "list_all2 (\<lambda>p col. pg_column_type_of X p = Inr (pp_kind col)) (map (pg_param_of X) ps) params"
    and names: "map pp_name params = map param_name ps"
    and scalar: "\<forall>p \<in> set ps. scalar_type (param_ty p) \<and> (ev \<or> \<not> param_indexed p)"
    and conforms: "params_conform ev ps vs" and cells: "push_values X C vs = Inr cells"
    and row: "list_all2 (\<lambda>col cell. map_of row (pp_column col) = Some cell) params cells"
  shows "read_params X C params row = Inr (collect_object (map (\<lambda>(p, v). (param_name p, canonical_value X v)) (zip ps vs)))"
proof -
  have len: "length params = length ps" "length vs = length ps" "length cells = length ps"
    using list_all2_lengthD [OF types] list_all2_lengthD [OF conforms [unfolded params_conform_def]] list_all2_lengthD [OF row] by simp_all
  have one: "res_bind (try_get row (pp_column (params ! i))) (\<lambda>v. res_bind (cell_json X C (pp_kind (params ! i)) v)
        (\<lambda>value. Inr (pp_name (params ! i), value))) = Inr (param_name (ps ! i), canonical_value X (vs ! i))"
    if i: "i < length ps" for i
  proof -
    have k: "pg_column_type_of X (pg_param_of X (ps ! i)) = Inr (pp_kind (params ! i))"
      using types i by (auto simp: list_all2_conv_all_nth)
    have v: "value_has_type (wire_type ev (ps ! i)) (vs ! i)"
      using conforms i by (simp add: params_conform_def list_all2_conv_all_nth)
    have "push_value X C (vs ! i) = Inr (cells ! i)"
      using cells i len by (simp add: push_values_def traverse_Inr list_all2_conv_all_nth)
    with value_cell_json [OF laws _ v _ k] scalar i
    have "cell_json X C (pp_kind (params ! i)) (cells ! i) = Inr (canonical_value X (vs ! i))" by fastforce
    moreover have "map_of row (pp_column (params ! i)) = Some (cells ! i)" using row i len by (simp add: list_all2_conv_all_nth)
    moreover have "pp_name (params ! i) = param_name (ps ! i)" using arg_cong [OF names, of "\<lambda>l. l ! i"] i len by simp
    ultimately show ?thesis by (simp add: try_get_def)
  qed
  let ?get = "\<lambda>p. res_bind (try_get row (pp_column p)) (\<lambda>v. res_bind (cell_json X C (pp_kind p) v) (\<lambda>value. Inr (pp_name p, value)))"
  have "traverse ?get params = Inr (map (\<lambda>(p, v). (param_name p, canonical_value X v)) (zip ps vs))"
    unfolding traverse_Inr list_all2_conv_all_nth using one len by simp
  then show ?thesis by (simp add: read_params_def)
qed

text \<open>The values of a result and the target it was decoded for.\<close>

definition target_kind :: "target \<Rightarrow> string" where
  "target_kind t = (case t of CallT c \<Rightarrow> ''call'' | EventT e \<Rightarrow> ''event'')"

definition result_values :: "decoded_result \<Rightarrow> decoded_value list" where
  "result_values r = (case r of ResultCall c \<Rightarrow> dc_params c | ResultEvent e \<Rightarrow> de_params e)"

definition result_fits :: "target \<Rightarrow> decoded_result \<Rightarrow> bool" where
  "result_fits t r =
     (case (t, r) of
        (CallT ct, ResultCall c) \<Rightarrow> params_conform False (ct_inputs ct) (dc_params c) \<and> (\<forall>p \<in> set (ct_inputs ct). \<not> param_indexed p)
      | (EventT et, ResultEvent e) \<Rightarrow> params_conform True (et_params et) (de_params e)
      | _ \<Rightarrow> False)"

definition record_of_result :: "decoded_result \<Rightarrow> json \<Rightarrow> result_record" where
  "record_of_result r params =
     (case r of
        ResultCall c \<Rightarrow> RecordCall (dc_transaction_hash c) (dc_block_number c) params
      | ResultEvent e \<Rightarrow> RecordEvent (de_transaction_hash e) (de_log_index e) (de_block_number e) params)"

lemma map_of_zip_append:
  assumes "distinct (xs @ ys)" and "length xs = length as" and "length ys = length bs"
  shows "list_all2 (\<lambda>y b. map_of (zip (xs @ ys) (as @ bs)) y = Some b) ys bs"
  unfolding list_all2_conv_all_nth
proof (intro conjI allI impI)
  fix i assume i: "i < length ys"
  have "map_of (zip (xs @ ys) (as @ bs)) ((xs @ ys) ! (length xs + i)) = Some ((as @ bs) ! (length xs + i))"
    by (rule map_of_zip_nth) (use assms i in simp_all)
  then show "map_of (zip (xs @ ys) (as @ bs)) (ys ! i) = Some (bs ! i)" by (simp add: assms(2) nth_append)
qed (use assms in simp)

text \<open>The columns of a schema whose names the server keeps in full.\<close>

definition kept_columns :: "string \<Rightarrow> string list \<Rightarrow> bool" where
  "kept_columns kind names =
     (\<forall>c \<in> set (column_names (if kind = ''call'' then CALL_RESERVED else EVENT_RESERVED) [] names). length c \<le> 63)"

lemma result_columns_kept:
  assumes "kept_columns kind (map pgp_name schema)"
  shows "result_columns kind schema
    = (if kind = ''call'' then CALL_RESERVED else EVENT_RESERVED)
        @ column_names (if kind = ''call'' then CALL_RESERVED else EVENT_RESERVED) [] (map pgp_name schema)"
proof -
  have "map pg_name (column_names (if kind = ''call'' then CALL_RESERVED else EVENT_RESERVED) [] (map pgp_name schema))
      = column_names (if kind = ''call'' then CALL_RESERVED else EVENT_RESERVED) [] (map pgp_name schema)"
    using assms by (intro map_idI) (simp add: kept_columns_def)
  then show ?thesis unfolding result_columns_def Let_def by simp
qed

lemma reserved_and_columns_distinct:
  assumes "reserved = CALL_RESERVED \<or> reserved = EVENT_RESERVED"
  shows "distinct (reserved @ column_names reserved [] names)"
proof -
  have "distinct reserved" using assms by (auto simp: CALL_RESERVED_def EVENT_RESERVED_def)
  with column_names_distinct [of reserved "[]" names] column_names_unreserved [OF assms, of "[]" names]
  show ?thesis by auto
qed

lemma read_written_params:
  assumes laws: "type_text_laws X" "pg_codec_laws X C" and kind: "kind = ''call'' \<or> kind = ''event''"
    and params: "postgres_params X kind (map (pg_param_of X) ps) = Inr params"
    and scalar: "\<forall>p \<in> set ps. scalar_type (param_ty p) \<and> (ev \<or> \<not> param_indexed p)"
    and kept: "kept_columns kind (map param_name ps)"
    and conforms: "params_conform ev ps vs" and cells: "push_values X C vs = Inr cells"
    and identity: "length identity = length (if kind = ''call'' then CALL_RESERVED else EVENT_RESERVED)"
  shows "read_params X C params (zip (result_columns kind (map (pg_param_of X) ps)) (identity @ cells))
    = Inr (collect_object (map (\<lambda>(p, v). (param_name p, canonical_value X v)) (zip ps vs)))"
proof -
  let ?schema = "map (pg_param_of X) ps"
  let ?reserved = "if kind = ''call'' then CALL_RESERVED else EVENT_RESERVED"
  have names: "map pgp_name ?schema = map param_name ps" by (simp add: pg_param_of_def)
  have columns: "map pp_column params = column_names ?reserved [] (map param_name ps)"
    using postgres_params_Inr(2) [OF params] kind unfolding names by (auto simp: reserved_columns_def)
  have row: "result_columns kind ?schema = ?reserved @ map pp_column params"
    using result_columns_kept [of kind ?schema] kept unfolding names columns by simp
  have "distinct (?reserved @ map pp_column params)"
    unfolding columns by (rule reserved_and_columns_distinct) simp
  moreover have "length (map pp_column params) = length cells"
    using postgres_params_Inr(3) [OF params] traverse_length [OF cells [unfolded push_values_def]]
      list_all2_lengthD [OF conforms [unfolded params_conform_def]] by simp
  ultimately have "list_all2 (\<lambda>y b. map_of (zip (?reserved @ map pp_column params) (identity @ cells)) y = Some b) (map pp_column params) cells"
    by (intro map_of_zip_append) (simp_all add: identity)
  then have "list_all2 (\<lambda>col cell. map_of (zip (result_columns kind ?schema) (identity @ cells)) (pp_column col) = Some cell) params cells"
    unfolding row by (simp add: list_all2_map1)
  moreover have "map pp_name params = map param_name ps" using postgres_params_Inr(1) [OF params] unfolding names .
  ultimately show ?thesis by (intro read_params_written [OF laws postgres_params_Inr(4) [OF params] _ scalar conforms cells])
qed

section \<open>The bind limit\<close>

text \<open>A driver that refuses a statement with more bound values than the protocol can count.\<close>

definition limited :: "'d postgres \<Rightarrow> 'd postgres" where
  "limited Q = Q\<lparr>pq_execute := (\<lambda>tx q d.
     if statement_binds q \<le> 65535 then pq_execute Q tx q d else (Inl [Backend ''too many arguments for query''], d))\<rparr>"

lemma limited_fetch:
  "statement_binds q \<le> 65535 \<Longrightarrow> pg_fetch (limited Q) tx read q = pg_fetch Q tx read q"
  by (rule ext) (simp add: pg_fetch_def io_bind_def limited_def)

lemma io_bind_cong: "(\<And>d v d'. m d = (Inr v, d') \<Longrightarrow> f v d' = g v d') \<Longrightarrow> io_bind m f d = io_bind m g d"
  by (auto simp: io_bind_def split: prod.splits sum.splits)

lemma io_lift_cong: "(\<And>v. r = Inr v \<Longrightarrow> f v = g v) \<Longrightarrow> io_bind (io_lift r) f = io_bind (io_lift r) g"
  by (cases r) (auto simp: io_bind_def io_lift_def fun_eq_iff)

lemma io_each_cong: "\<forall>x \<in> set xs. f x = g x \<Longrightarrow> io_each f xs = io_each g xs"
proof -
  have "\<forall>x \<in> set xs. f x = g x \<Longrightarrow> io_traverse f xs = io_traverse g xs" by (induction xs) simp_all
  then show "\<forall>x \<in> set xs. f x = g x \<Longrightarrow> io_each f xs = io_each g xs" by (simp add: io_each_def)
qed

lemma slice_chunks_length: "c \<in> set (slice_chunks n xs) \<Longrightarrow> length c \<le> n \<and> set c \<subseteq> set xs"
proof (induction n xs rule: slice_chunks.induct)
  case (1 n xs)
  show ?case
  proof (cases "xs = [] \<or> n = 0")
    case True
    with 1 show ?thesis by (simp add: slice_chunks.simps)
  next
    case False
    with "1.prems" have "c = take n xs \<or> c \<in> set (slice_chunks n (drop n xs))"
      by (subst (asm) slice_chunks.simps) simp
    with "1.IH" False show ?thesis by (auto dest: in_set_takeD in_set_dropD)
  qed
qed

lemma limited_chunk:
  assumes width: "\<forall>x \<in> set chunk. \<forall>row. cells x = Inr row \<longrightarrow> length row = width"
    and bound: "length chunk * width \<le> 65535"
  shows "insert_chunk (limited Q) table identity params cells chunk = insert_chunk Q table identity params cells chunk"
proof -
  have binds: "statement_binds (InsertRows table identity columns rows) \<le> 65535" if rows: "traverse cells chunk = Inr rows" for columns rows
  proof -
    have "\<forall>row \<in> set rows. length row = width" using traverse_member [OF rows] width by blast
    then have "map length rows = replicate (length rows) width" by (simp add: map_replicate_const [symmetric] cong: map_cong)
    then have "sum_list (map length rows) = length chunk * width" by (simp add: sum_list_replicate traverse_length [OF rows])
    with bound show ?thesis by simp
  qed
  show ?thesis unfolding insert_chunk_def by (intro io_lift_cong) (simp only: limited_fetch [OF binds])
qed

lemma limited_chunks:
  assumes width: "\<forall>x \<in> set inputs. \<forall>row. cells x = Inr row \<longrightarrow> length row = width" and "width \<le> BIND_LIMIT"
  shows "io_each (insert_chunk (limited Q) table identity params cells) (slice_chunks (BIND_LIMIT div width) inputs)
    = io_each (insert_chunk Q table identity params cells) (slice_chunks (BIND_LIMIT div width) inputs)"
proof (rule io_each_cong, rule ballI, rule limited_chunk [where width = width])
  fix chunk assume chunk: "chunk \<in> set (slice_chunks (BIND_LIMIT div width) inputs)"
  show "\<forall>x \<in> set chunk. \<forall>row. cells x = Inr row \<longrightarrow> length row = width" using slice_chunks_length [OF chunk] width by blast
  have "length chunk * width \<le> BIND_LIMIT div width * width" using slice_chunks_length [OF chunk] by simp
  also have "\<dots> \<le> BIND_LIMIT" by simp
  finally show "length chunk * width \<le> 65535" by (simp add: BIND_LIMIT_def)
qed

lemma call_cells_length: "call_cells X C inp = Inr row \<Longrightarrow> length row = length (ci_params inp) + 2"
  and event_cells_length: "event_cells X C einp = Inr row \<Longrightarrow> length row = length (ei_params einp) + 3"
  by (auto simp: call_cells_def event_cells_def push_values_def res_simps dest!: traverse_length)

lemma limited_insert_calls: "insert_calls X C (limited Q) i schema inputs = insert_calls X C Q i schema inputs"
  unfolding insert_calls_def Let_def
  by (intro io_lift_cong limited_chunks) (auto simp: res_simps list_all_iff dest!: call_cells_length)

lemma limited_insert_events: "insert_events X C (limited Q) i schema inputs = insert_events X C Q i schema inputs"
  unfolding insert_events_def Let_def
  by (intro io_lift_cong limited_chunks) (auto simp: res_simps list_all_iff dest!: event_cells_length)

lemma list_all2_image_member: "list_all2 P xs ys \<Longrightarrow> x \<in> set xs \<Longrightarrow> \<exists>y \<in> set ys. P x y"
  by (induction rule: list_all2_induct) auto

lemma push_values_member:
  "push_values X C vs = Inr cells \<Longrightarrow> v \<in> set vs \<Longrightarrow> \<exists>cell \<in> set cells. push_value X C v = Inr cell"
  unfolding push_values_def traverse_Inr by (rule list_all2_image_member)

end
