(* ===== verification/Postgres_Reference.thy ===== *)
theory Postgres_Reference
  imports Postgres_Deployed Mongo_Reference
begin

text \<open>
  An in-memory server that keeps every law of \<open>postgres_server\<close>, with a budget of commits that take
  effect although their answer is lost, and conversions of numbers and URLs. It models no code of
  the repository and serves the witnesses.
\<close>

section \<open>Statements\<close>

definition fresh_monitor_row_id :: "pg_db \<Rightarrow> i64" where
  "fresh_monitor_row_id db = foldr max (map pgm_id (pd_monitors db)) 0 + 1"

fun ref_sql :: "int \<Rightarrow> sql \<Rightarrow> pg_db \<Rightarrow> (pg_answer \<times> pg_db) option" where
  "ref_sql time (InsertChain c u b) db =
     (let row = \<lparr>pgc_chain_id = c, pgc_rpc_url = u, pgc_enabled = b, pgc_created_at = time, pgc_updated_at = time\<rparr> in
      if c \<in> pgc_chain_id ` set (pd_chains db) \<or> c < 0 then None
      else Some (AnsChains [row], db\<lparr>pd_chains := pd_chains db @ [row]\<rparr>))"
| "ref_sql time SelectChains db = Some (AnsChains (sort_key pgc_chain_id (pd_chains db)), db)"
| "ref_sql time (SelectChain c) db = Some (AnsChains (filter (\<lambda>r. pgc_chain_id r = c) (pd_chains db)), db)"
| "ref_sql time (UpdateChain c u b) db =
     (let f = (\<lambda>r. if pgc_chain_id r = c then chain_update_row u b time r else r) in
      Some (AnsChains (map f (filter (\<lambda>r. pgc_chain_id r = c) (pd_chains db))), db\<lparr>pd_chains := map f (pd_chains db)\<rparr>))"
| "ref_sql time (LockChain c) db = Some (AnsIds (map pgc_chain_id (filter (\<lambda>r. pgc_chain_id r = c) (pd_chains db))), db)"
| "ref_sql time (LockMonitorIds c) db =
     Some (AnsIds (sort (map pgm_id (filter (\<lambda>r. pgm_chain_id r = c) (pd_monitors db)))), db)"
| "ref_sql time (DeleteChain c) db =
     Some (AnsCount (int (length (filter (\<lambda>r. pgc_chain_id r = c) (pd_chains db)))),
       db\<lparr>pd_chains := filter (\<lambda>r. pgc_chain_id r \<noteq> c) (pd_chains db),
          pd_monitors := filter (\<lambda>r. pgm_chain_id r \<noteq> c) (pd_monitors db)\<rparr>)"
| "ref_sql time (InsertMonitor input) db =
     (let row = pg_inserted_monitor (fresh_monitor_row_id db) time input in
      if pgi_chain_id input \<in> pgc_chain_id ` set (pd_chains db) \<and> fresh_monitor_row_id db \<le> 9223372036854775807
      then Some (AnsMonitors [row], db\<lparr>pd_monitors := pd_monitors db @ [row]\<rparr>) else None)"
| "ref_sql time (SelectMonitors only) db =
     Some (AnsMonitors (sort_key pgm_id
       (filter (\<lambda>r. case only of None \<Rightarrow> True | Some c \<Rightarrow> pgm_chain_id r = c) (pd_monitors db))), db)"
| "ref_sql time CountMonitors db = Some (AnsCount (int (length (pd_monitors db))), db)"
| "ref_sql time (SelectMonitor i) db = Some (AnsMonitors (filter (\<lambda>r. pgm_id r = i) (pd_monitors db)), db)"
| "ref_sql time (DeleteMonitor i) db =
     Some (AnsCount (int (length (filter (\<lambda>r. pgm_id r = i) (pd_monitors db)))),
       db\<lparr>pd_monitors := filter (\<lambda>r. pgm_id r \<noteq> i) (pd_monitors db)\<rparr>)"
| "ref_sql time (UpdateEnabled i b) db =
     (let f = (\<lambda>r. if pgm_id r = i then enabled_row b time r else r) in
      Some (AnsMonitors (map f (filter (\<lambda>r. pgm_id r = i) (pd_monitors db))), db\<lparr>pd_monitors := map f (pd_monitors db)\<rparr>))"
| "ref_sql time (CommitMonitors block ids c) db =
     (let f = (\<lambda>r. if commit_hits ids c r then commit_row block time r else r) in
      Some (AnsMonitors (map f (filter (commit_hits ids c) (pd_monitors db))), db\<lparr>pd_monitors := map f (pd_monitors db)\<rparr>))"
| "ref_sql time (CreateTable table identity columns) db =
     (let n = pg_name (identifier_name table);
          names = filter (\<lambda>c. c \<noteq> ''PRIMARY KEY'') (map fst identity) @ map (pg_name \<circ> identifier_name \<circ> fst) columns in
      if pd_tables db n = None \<and> distinct names
      then Some (AnsCount 0, db\<lparr>pd_tables := (pd_tables db)(n := Some \<lparr>tb_columns = names, tb_rows = []\<rparr>)\<rparr>) else None)"
| "ref_sql time (CreateIndex index table) db = Some (AnsCount 0, db)"
| "ref_sql time (DropTable table) db =
     Some (AnsCount 0, db\<lparr>pd_tables := (pd_tables db)(pg_name (identifier_name table) := None)\<rparr>)"
| "ref_sql time (InsertRows table identity columns rows) db =
     (let n = pg_name (identifier_name table); names = identity @ map (pg_name \<circ> identifier_name) columns in
      case pd_tables db n of
        None \<Rightarrow> None
      | Some t \<Rightarrow>
          if distinct names \<and> set names \<subseteq> set (tb_columns t)
            \<and> list_all (\<lambda>row. length row = length names \<and> list_all storable_cell row) rows
          then Some (AnsCount (int (length rows)), db\<lparr>pd_tables := (pd_tables db)(n :=
            Some (t\<lparr>tb_rows := tb_rows t @ map (\<lambda>row. stored_cells (tb_columns t) (zip names row)) rows\<rparr>))\<rparr>)
          else None)"
| "ref_sql time (SelectRows table kind limit skip) db =
     (case pd_tables db (pg_name (identifier_name table)) of
        None \<Rightarrow> None
      | Some t \<Rightarrow>
          (let all = foldr (insert_before (newer_row kind)) (map (zip (tb_columns t)) (tb_rows t)) [] in
           if sorted_wrt (\<lambda>x y. \<not> newer_row kind y x) all then Some (AnsRows (take (nat limit) (drop (nat skip) all)), db)
           else None))"

lemma fresh_monitor_row_id: "0 < fresh_monitor_row_id db" "fresh_monitor_row_id db \<notin> pgm_id ` set (pd_monitors db)"
proof -
  have "0 \<le> foldr max ks 0 \<and> (\<forall>k \<in> set ks. k \<le> foldr max ks 0)" for ks :: "int list"
    by (induction ks) (auto simp: max_def)
  note bound = this [of "map pgm_id (pd_monitors db)"]
  from bound show "0 < fresh_monitor_row_id db" by (simp add: fresh_monitor_row_id_def)
  from bound show "fresh_monitor_row_id db \<notin> pgm_id ` set (pd_monitors db)"
    unfolding fresh_monitor_row_id_def set_map [symmetric] by fastforce
qed

lemma ref_sql_effect: "ref_sql time q db = Some (a, db') \<Longrightarrow> sql_effect time q db a db'"
proof (cases q)
  case (InsertMonitor input)
  assume "ref_sql time q db = Some (a, db')"
  with InsertMonitor fresh_monitor_row_id [of db] show ?thesis
    by (auto simp: Let_def split: if_splits intro!: exI [of _ "fresh_monitor_row_id db"])
next
  case (SelectRows table kind limit skip)
  assume "ref_sql time q db = Some (a, db')"
  with SelectRows obtain t where t: "pd_tables db (pg_name (identifier_name table)) = Some t"
    and sorted: "sorted_wrt (\<lambda>x y. \<not> newer_row kind y x) (foldr (insert_before (newer_row kind)) (map (zip (tb_columns t)) (tb_rows t)) [])"
    and a: "db' = db" "a = AnsRows (take (nat limit) (drop (nat skip) (foldr (insert_before (newer_row kind)) (map (zip (tb_columns t)) (tb_rows t)) [])))"
    by (auto simp: Let_def split: option.splits if_splits)
  from sorted show ?thesis
    unfolding SelectRows sql_effect.simps a using t mset_foldr_insert_before by blast
qed (auto simp: Let_def list_all_iff split: if_splits option.splits)

lemma ref_sql_some: "ref_sql time q db = Some (a, db') \<Longrightarrow> \<exists>time. sql_effect time q db a db'"
  using ref_sql_effect by blast

section \<open>The server\<close>

record ref_postgres =
  pgr_committed :: pg_db
  pgr_pending :: "pg_db option"
  pgr_clock :: int
  pgr_lost :: nat

definition ref_pg_view :: "ref_postgres pg_view" where
  "ref_pg_view = \<lparr>pv_committed = pgr_committed, pv_pending = pgr_pending\<rparr>"

definition ref_refused :: error where
  "ref_refused = [Backend ''statement refused'']"

definition ref_execute :: "bool \<Rightarrow> sql \<Rightarrow> ref_postgres \<Rightarrow> pg_answer result \<times> ref_postgres" where
  "ref_execute tx q s =
     (case (if tx then pgr_pending s else Some (pgr_committed s)) of
        None \<Rightarrow> (Inl ref_refused, s)
      | Some db \<Rightarrow>
          (case ref_sql (pgr_clock s) q db of
             None \<Rightarrow> (Inl ref_refused, s)
           | Some (a, db') \<Rightarrow> (Inr a, if tx then s\<lparr>pgr_pending := Some db'\<rparr> else s\<lparr>pgr_committed := db'\<rparr>)))"

definition ref_pg :: "ref_postgres postgres" where
  "ref_pg =
     \<lparr>pq_begin = (\<lambda>s. (Inr (), s\<lparr>pgr_pending := Some (pgr_committed s)\<rparr>)),
      pq_commit = (\<lambda>s. case pgr_pending s of
          None \<Rightarrow> (Inl ref_refused, s)
        | Some p \<Rightarrow>
            if pgr_lost s = 0 then (Inr (), s\<lparr>pgr_committed := p, pgr_pending := None\<rparr>)
            else (Inl [Backend ''connection reset''], s\<lparr>pgr_committed := p, pgr_pending := None, pgr_lost := pgr_lost s - 1\<rparr>)),
      pq_rollback = (\<lambda>s. s\<lparr>pgr_pending := None\<rparr>),
      pq_execute = ref_execute\<rparr>"

definition ref_plain :: "big_decimal \<Rightarrow> string" where
  "ref_plain d = show_int (fst d)"

definition ref_codec :: pg_codec where
  "ref_codec =
     \<lparr>cx_decimal_from_str = (\<lambda>s. case ref_int_of_text s of None \<Rightarrow> Inl ''invalid digit'' | Some i \<Rightarrow> Inr (i, 0)),
      cx_to_plain_string = ref_plain, cx_url_parse = Inr\<rparr>"

definition ref_batches :: pg_order where
  "ref_batches = \<lparr>po_calls = rev, po_events = rev\<rparr>"

interpretation refpg: pg_index ref_pg ref_pg_view ref_externs ref_codec ref_batches
proof (unfold_locales, goal_cases)
  case 1 then show ?case by (auto simp: ref_pg_def ref_pg_view_def)
next
  case 2 then show ?case
    by (auto simp: ref_pg_def ref_pg_view_def ref_execute_def split: option.splits intro: ref_sql_some)
next
  case 3 then show ?case
    by (auto simp: ref_pg_def ref_pg_view_def ref_execute_def split: option.splits intro: ref_sql_some)
next
  case 4 then show ?case by (auto simp: ref_pg_def ref_pg_view_def split: if_splits)
next
  case 5 show ?case by (simp add: ref_pg_def ref_pg_view_def)
next
  case 6 show ?case by (simp add: pg_order_ok_def ref_batches_def)
qed

lemma ref_postgres_server: "postgres_server ref_pg ref_pg_view"
  by (rule refpg.postgres_server_axioms)

lemma ref_batches_ok: "pg_order_ok ref_batches"
  by (rule refpg.any_order)

definition empty_tables :: pg_db where
  "empty_tables = \<lparr>pd_chains = [], pd_monitors = [], pd_tables = (\<lambda>n. None)\<rparr>"

definition ref_pg_empty :: ref_postgres where
  "ref_pg_empty = \<lparr>pgr_committed = empty_tables, pgr_pending = None, pgr_clock = 0, pgr_lost = 1\<rparr>"

end
