(* ===== verification/Postgres_Properties.thy ===== *)
theory Postgres_Properties
  imports Postgres_Correct Postgres_Reference
begin

text \<open>
  The properties of the PostgreSQL adapter with their witnesses, which run on the reference server
  with a chain, an event monitor and its result table.
\<close>

section \<open>Sample tables\<close>

definition ex_note :: abi_param where
  "ex_note = \<lparr>param_name = ''note'', param_ty = TString, param_indexed = False\<rparr>"

definition ex_note_target :: "abi_param \<Rightarrow> event_target" where
  "ex_note_target p = \<lparr>et_address = 34, et_topic0 = 7, et_params = [p]\<rparr>"

definition ex_note_row :: "abi_param \<Rightarrow> pg_monitor_row" where
  "ex_note_row p =
     \<lparr>pgm_id = 1, pgm_chain_id = 1, pgm_address = be_bytes 20 (34 :: address), pgm_kind = ''event'',
      pgm_signature_hash = be_bytes 32 (7 :: b256), pgm_param_schema = [pg_param_of ref_externs p], pgm_start_block = 2,
      pgm_end_block = None, pgm_cursor = None, pgm_completed = False, pgm_enabled = True, pgm_filter_ast = None,
      pgm_filter_version = None, pgm_created_at = 0, pgm_updated_at = 0\<rparr>"

definition ex_note_db :: "abi_param \<Rightarrow> pg_cell list list \<Rightarrow> pg_db" where
  "ex_note_db p rows =
     \<lparr>pd_chains = [\<lparr>pgc_chain_id = 1, pgc_rpc_url = ''http://node'', pgc_enabled = True, pgc_created_at = 0, pgc_updated_at = 0\<rparr>],
      pd_monitors = [ex_note_row p],
      pd_tables = [monitor_table 1 \<mapsto> \<lparr>tb_columns = result_columns ''event'' [pg_param_of ref_externs p], tb_rows = rows\<rparr>]\<rparr>"

definition ex_note_server :: "abi_param \<Rightarrow> pg_cell list list \<Rightarrow> ref_postgres" where
  "ex_note_server p rows = \<lparr>pgr_committed = ex_note_db p rows, pgr_pending = None, pgr_clock = 1, pgr_lost = 0\<rparr>"

definition ex_note_monitor :: monitor where
  "ex_note_monitor =
     \<lparr>mon_id = MonitorId 1, mon_chain = Chain 1, mon_target = EventT (ex_note_target ex_note), mon_start_block = 2,
      mon_end_block = None, mon_cursor = Cursor None, mon_completed = False, mon_enabled = True, mon_filter = FilterAll\<rparr>"

definition ex_note_event :: "string \<Rightarrow> decoded_event" where
  "ex_note_event s =
     \<lparr>de_monitor_id = MonitorId 1, de_block_number = 5, de_transaction_hash = 99, de_log_index = 0, de_params = [DString s]\<rparr>"

definition ex_note_commit :: "string \<Rightarrow> block_commit" where
  "ex_note_commit s =
     \<lparr>bc_chain = Chain 1, bc_block_number = 5, bc_monitors = [ex_note_monitor], bc_results = [ResultEvent (ex_note_event s)]\<rparr>"

lemma ex_note_db_ok: "pg_db_ok (pv_committed ref_pg_view (ex_note_server p rows))"
  by (simp add: pg_db_ok_def monitor_row_fits_def row_table_def has_table_def ref_pg_view_def ex_note_server_def
      ex_note_db_def ex_note_row_def)

lemma ex_note_params:
  "postgres_params ref_externs ''event'' [pg_param_of ref_externs ex_note] = Inr [\<lparr>pp_name = ''note'', pp_column = ''note'', pp_kind = PgText\<rparr>]"
proof -
  have "pg_column_type_of ref_externs (pg_param_of ref_externs ex_note) = Inr PgText"
    using parse_sol_type [OF ref_type_text_laws, of ex_note]
    by (simp add: pg_column_type_of_def scalar_type_def ex_note_def pg_param_of_def)
  moreover have "pgp_name (pg_param_of ref_externs ex_note) = ''note''" by (simp add: pg_param_of_def ex_note_def)
  ultimately show ?thesis by (simp add: postgres_params_def reserved_columns_def column_base_def EVENT_RESERVED_def)
qed

lemma ex_note_table: "result_table 1 = Inr (Identifier (monitor_table 1))"
  by (simp add: result_table_Inr)

lemma ex_note_columns:
  "result_columns ''event'' [pg_param_of ref_externs ex_note] = [''tx_hash'', ''log_index'', ''block_number'', ''note'']"
proof -
  have "pgp_name (pg_param_of ref_externs ex_note) = ''note''" by (simp add: pg_param_of_def ex_note_def)
  then show ?thesis by (simp add: result_columns_def column_base_def EVENT_RESERVED_def)
qed

lemma ex_note_commits:
  "fst (pg_commit_block ref_externs ref_codec ref_batches ref_pg (ex_note_commit ''hi'') (ex_note_server ex_note [])) = Inr ()"
  by (simp add: pg_commit_block_def ex_note_commit_def ex_note_monitor_def pg_transaction_def commit_body_def ref_pg_def
     ex_note_server_def pg_to_monitor_id_def pg_fetch_def ref_execute_def ex_note_db_def ex_note_row_def commit_hits_def
     commit_row_def rows_by_id_def pg_from_monitor_id_def pg_from_i64_def monitor_id_new_def ex_note_event_def
     event_input_of_def insert_group_def ref_batches_def insert_events_def ex_note_params ex_note_table io_bind_def
     io_lift_def BIND_LIMIT_def io_each_def slice_chunks.simps insert_chunk_def push_param_columns_def identifier_new_def
     event_cells_def push_values_def push_value_def ex_note_columns Let_def pg_to_i64_def storable_cell_def stored_cells_def)

section \<open>Commits\<close>

text \<open>
  C5. Commits to PostgreSQL are atomic. Whatever statement of the transaction fails, a commit leaves
  the tables as they were or has exactly its effect: the cursors of exactly its monitors stand at the
  block, their completion flags say whether it is their last, the result table of each has the rows of
  its results appended in order, and nothing else changes. A commit that reports success has had this
  effect, and the tables stay consistent.
\<close>

theorem postgres_commit_atomic:
  assumes "postgres_server Q V" and "pg_order_ok G" and "pg_db_ok (pv_committed V d)"
    and "pg_commit_block X C G Q c d = (r, d')"
  shows "(pv_committed V d' = pv_committed V d \<or> commit_applied X C c (pv_committed V d) (pv_committed V d'))
    \<and> (r = Inr () \<longrightarrow> commit_applied X C c (pv_committed V d) (pv_committed V d'))
    \<and> pg_db_ok (pv_committed V d')"
  using postgres_server.commit_outcome [OF assms(1,2,4)] commit_applied_ok [OF _ assms(3)] assms(3)
  by (auto simp: pg_ok_def split: sum.splits)

lemma postgres_commit_atomic_witness:
  "commit_applied ref_externs ref_codec (ex_note_commit ''hi'') (ex_note_db ex_note [])
     (pgr_committed (snd (pg_commit_block ref_externs ref_codec ref_batches ref_pg (ex_note_commit ''hi'') (ex_note_server ex_note []))))"
  using postgres_commit_atomic [OF ref_postgres_server ref_batches_ok ex_note_db_ok prod.collapse [symmetric]] ex_note_commits
  by (simp add: ref_pg_view_def ex_note_server_def)

text \<open>
  C26. A text the server cannot hold stops a monitor for good. When a result of a block has a string
  value with the character NUL, which the chain can carry and PostgreSQL refuses, no commit of that
  block ever succeeds or changes the tables.
\<close>

theorem nul_text_blocks_commit:
  assumes "postgres_server Q V" and "pg_order_ok G" and "pg_db_ok (pv_committed V d)"
    and res: "res \<in> set (bc_results c)" and nul: "DString s \<in> set (result_values res)" "CHR 0x00 \<in> set s"
    and "pg_commit_block X C G Q c d = (r, d')"
  shows "r \<noteq> Inr () \<and> pv_committed V d' = pv_committed V d"
proof -
  have "\<not> commit_applied X C c db db'" for db db'
  proof
    assume "commit_applied X C c db db'"
    then obtain new where new: "traverse (result_cells X C) (filter (\<lambda>r. result_monitor_id r = result_monitor_id res) (bc_results c)) = Inr new"
      and storable: "storable_rows new" unfolding commit_applied_def Let_def by blast
    have "\<exists>row \<in> set new. result_cells X C res = Inr row"
      using list_all2_image_member [OF new [unfolded traverse_Inr], of res] res by simp
    then obtain row where row: "row \<in> set new" "result_cells X C res = Inr row" by blast
    then have "CellText s \<in> set row"
      using nul(1) push_values_member [where v = "DString s"]
      by (auto simp: result_cells_def result_values_def call_cells_def event_cells_def call_input_of_def event_input_of_def
          push_value_def res_simps split: decoded_result.splits)
    with row(1) storable nul(2) show False by (fastforce simp: storable_rows_def storable_cell_def)
  qed
  with postgres_server.commit_outcome [OF assms(1,2,7)] assms(3) show ?thesis
    by (auto simp: pg_ok_def split: sum.splits)
qed

lemma nul_text_blocks_commit_witness:
  "fst (pg_commit_block ref_externs ref_codec ref_batches ref_pg (ex_note_commit [CHR 0x00]) (ex_note_server ex_note [])) \<noteq> Inr ()"
  using nul_text_blocks_commit [OF ref_postgres_server ref_batches_ok ex_note_db_ok, of "ResultEvent (ex_note_event [CHR 0x00])"
      "ex_note_commit [CHR 0x00]" "[CHR 0x00]", OF _ _ _ prod.collapse [symmetric]]
  by (simp add: ex_note_commit_def ex_note_event_def result_values_def)

section \<open>Results\<close>




section \<open>Statements and names\<close>

lemma limited_transaction [simp]: "pg_transaction (limited Q) body = pg_transaction Q body"
proof -
  have "pq_begin (limited Q) = pq_begin Q" "pq_commit (limited Q) = pq_commit Q" "pq_rollback (limited Q) = pq_rollback Q"
    by (simp_all add: limited_def)
  then show ?thesis by (intro ext) (simp only: pg_transaction_def)
qed

lemma limited_drop: "drop_result_table (limited Q) = drop_result_table Q"
  by (rule ext) (simp add: drop_result_table_def limited_fetch)

lemma limited_create: "create_result_table X (limited Q) i kind schema = create_result_table X Q i kind schema"
  by (simp add: create_result_table_def limited_fetch)

lemma limited_inserts: "insert_calls X C (limited Q) = insert_calls X C Q" "insert_events X C (limited Q) = insert_events X C Q"
  by (simp_all add: fun_eq_iff limited_insert_calls limited_insert_events)

text \<open>
  C28. Every statement the adapter sends stays below the limit of 65535 bind parameters of the
  protocol, whatever the size of the blocks: with a driver that refuses longer statements the storage
  and the repository behave as with one that has no limit.
\<close>

theorem statements_below_bind_limit:
  "pg_index_storage X C G (limited Q) = pg_index_storage X C G Q
   \<and> pg_repository X C (limited Q) = pg_repository X C Q"
proof
  show "pg_index_storage X C G (limited Q) = pg_index_storage X C G Q"
    by (simp add: pg_index_storage_def pg_load_monitors_def repo_list_monitors_def pg_commit_block_def commit_body_def
        limited_fetch limited_inserts)
  show "pg_repository X C (limited Q) = pg_repository X C Q"
    by (simp add: pg_repository_def repo_list_chains_def repo_create_chain_def repo_get_chain_def repo_update_chain_def
        repo_delete_chain_def delete_chain_body_def repo_count_monitors_def create_prepared_def create_monitor_body_def
        repo_list_monitors_def repo_get_monitor_def repo_delete_monitor_def delete_monitor_body_def repo_set_enabled_def
        pg_query_results_def table_results_def pg_fetch_one_def pg_fetch_optional_def limited_fetch limited_drop limited_create)
qed

text \<open>
  The columns of a result table never clash: whatever names the parameters of a monitor carry,
  repeated ones and those of the fixed columns included, each gets a column of its own.
\<close>

theorem result_columns_distinct:
  "distinct (CALL_RESERVED @ column_names CALL_RESERVED [] names)
   \<and> distinct (EVENT_RESERVED @ column_names EVENT_RESERVED [] names)
   \<and> length (column_names CALL_RESERVED [] names) = length names"
  by (simp add: reserved_and_columns_distinct del: distinct_append)


lemma column_not_found: "column \<notin> set columns \<Longrightarrow> map_of (zip columns cells) column = None"
  by (rule map_of_eq_None_iff [THEN iffD2]) (auto dest: set_zip_leftD)

text \<open>A column of a long name is missing from every row the server returns.\<close>

lemma long_column_missing:
  assumes params: "postgres_params X kind schema = Inr params" and kind: "kind = ''call'' \<or> kind = ''event''"
    and long: "\<not> kept_columns kind (map pgp_name schema)"
  shows "\<exists>e. read_params X C params (zip (result_columns kind schema) cells) = Inl e"
proof -
  let ?reserved = "if kind = ''call'' then CALL_RESERVED else EVENT_RESERVED"
  obtain c where c: "c \<in> set (column_names ?reserved [] (map pgp_name schema))" "63 < length c"
    using long by (auto simp: kept_columns_def not_le)
  moreover have "map pp_column params = column_names ?reserved [] (map pgp_name schema)"
    using postgres_params_Inr(2) [OF params] kind by (auto simp: reserved_columns_def)
  ultimately obtain p where p: "p \<in> set params" "pp_column p = c" by (metis image_iff set_map)
  have "\<forall>k \<in> set (result_columns kind schema). length k \<le> 63"
    by (auto simp: result_columns_def Let_def pg_name_def CALL_RESERVED_def EVENT_RESERVED_def)
  with c have "c \<notin> set (result_columns kind schema)" by fastforce
  then have "map_of (zip (result_columns kind schema) cells) c = None" by (rule column_not_found)
  then have missing: "res_bind (try_get (zip (result_columns kind schema) cells) (pp_column p)) f \<noteq> Inr v" for f and v :: "string \<times> json"
    unfolding p(2) by (simp add: try_get_def)
  show ?thesis
  proof (rule ccontr)
    assume "\<not> ?thesis"
    then obtain json where "read_params X C params (zip (result_columns kind schema) cells) = Inr json" by (metis sumE)
    then obtain fs where fs: "traverse (\<lambda>p. res_bind (try_get (zip (result_columns kind schema) cells) (pp_column p)) (\<lambda>v.
        res_bind (cell_json X C (pp_kind p) v) (\<lambda>value. Inr (pp_name p, value)))) params = Inr fs"
      unfolding read_params_def res_bind_Inr by blast
    from list_all2_image_member [OF fs [unfolded traverse_Inr] p(1)] missing show False by blast
  qed
qed

text \<open>
  C30. Results under a long column name cannot be read. The server cuts the names of columns at 63
  bytes and the queries ask for the full ones, so once a monitor has a parameter whose column is
  longer, every query of its results fails or finds none, although commits keep storing them.
\<close>

theorem long_names_unreadable:
  assumes "postgres_server Q V" and ok: "pg_db_ok (pv_committed V d)"
    and row: "row \<in> set (pd_monitors (pv_committed V d))" "pgm_id row = uint (monitor_id_get (mr_id monitor))"
      "pgm_kind row = target_kind (mr_target monitor)"
      "pgm_param_schema row = map (pg_param_of X) (target_params (mr_target monitor))"
    and long: "\<not> kept_columns (target_kind (mr_target monitor)) (map param_name (target_params (mr_target monitor)))"
    and "fst (pg_query_results X C Q monitor q d) = Inr records"
  shows "records = []"
proof -
  let ?kind = "target_kind (mr_target monitor)" and ?schema = "map (pg_param_of X) (target_params (mr_target monitor))"
  have kind: "?kind = ''call'' \<or> ?kind = ''event''" by (cases "mr_target monitor") (simp_all add: target_kind_def)
  have "pg_query_results X C Q monitor q = io_bind (io_lift (pg_to_monitor_id (mr_id monitor))) (\<lambda>i.
      table_results X C Q i ?kind ?schema (rq_limit q) (rq_offset q))"
    by (simp add: pg_query_results_def target_kind_def target_params_def split: target.splits)
  with assms(8) obtain params skip rows d1 where params: "postgres_params X ?kind ?schema = Inr params"
    and run: "pg_fetch Q False result_rows (SelectRows (Identifier (monitor_table (pgm_id row))) ?kind (uint (page_limit_get (rq_limit q))) skip) d
        = (Inr rows, d1)"
    and records: "traverse (read_result X C ?kind params) rows = Inr records"
    by (auto simp: table_results_def io_bind_def io_lift_def pg_to_monitor_id_def row(2) res_simps fst_eq_Inr
        split: prod.splits sum.splits)
  from run have run: "pq_execute Q False (SelectRows (Identifier (monitor_table (pgm_id row))) ?kind (uint (page_limit_get (rq_limit q))) skip) d
      = (Inr (AnsRows rows), d1)" unfolding pg_fetch_def by (auto simp: io_simps res_simps elim: result_rows.elims)
  have fits: "monitor_row_fits (pv_committed V d) row" using ok row(1) by (simp add: pg_db_ok_def)
  then obtain t where t: "pd_tables (pv_committed V d) (monitor_table (pgm_id row)) = Some t" "tb_columns t = result_columns ?kind ?schema"
    unfolding monitor_row_fits_def row_table_def has_table_def row(3,4) by blast
  from postgres_server.autocommits [OF assms(1) run] fits t
  obtain all where all: "mset all = mset (map (zip (tb_columns t)) (tb_rows t))" "set rows \<subseteq> set all"
    by (fastforce simp: monitor_row_fits_def dest: in_set_takeD in_set_dropD)
  show ?thesis
  proof (rule ccontr)
    assume "records \<noteq> []"
    then obtain r where r: "r \<in> set records" by (cases records) auto
    from traverse_member [OF records r] obtain cols where cols: "cols \<in> set rows" "read_result X C ?kind params cols = Inr r" by blast
    with all have "cols \<in> zip (tb_columns t) ` set (tb_rows t)" using mset_eq_setD [OF all(1)] by auto
    then obtain cells where cells: "cols = zip (result_columns ?kind ?schema) cells" unfolding t(2) by blast
    have "map pgp_name ?schema = map param_name (target_params (mr_target monitor))" by (simp add: pg_param_of_def)
    with long_column_missing [OF params kind, of C cells] long obtain e where "read_params X C params cols = Inl e"
      unfolding cells by metis
    with cols(2) show False by (simp add: read_result_def)
  qed
qed

definition ex_long :: abi_param where
  "ex_long = \<lparr>param_name = replicate 64 CHR ''n'', param_ty = TString, param_indexed = False\<rparr>"

definition ex_long_record :: monitor_record where
  "ex_long_record =
     \<lparr>mr_id = MonitorId 1, mr_chain = Chain 1, mr_target = EventT (ex_note_target ex_long), mr_start_block = 2, mr_end_block = None,
      mr_cursor = None, mr_completed = False, mr_enabled = True, mr_filter = None, mr_created_at = 0, mr_updated_at = 0\<rparr>"

definition ex_long_query :: result_query where
  "ex_long_query = \<lparr>rq_limit = PageLimit 10, rq_offset = 0\<rparr>"

definition ex_long_server :: ref_postgres where
  "ex_long_server = ex_note_server ex_long [[CellBytea (be_bytes 32 (99 :: b256)), CellBigint 0, CellBigint 5, CellText ''hi'']]"

lemma ex_long_params: "\<exists>params. postgres_params ref_externs ''event'' [pg_param_of ref_externs ex_long] = Inr params"
  using schema_columns [OF ref_type_text_laws, of "[ex_long]" "''event''"] by (simp add: ex_long_def scalar_type_def)

lemma ex_long_rows:
  assumes "postgres_params ref_externs ''event'' [pg_param_of ref_externs ex_long] = Inr params"
  shows "\<exists>row. fst (pg_query_results ref_externs ref_codec ref_pg ex_long_record ex_long_query ex_long_server)
    = traverse (read_result ref_externs ref_codec ''event'' params) [row]"
  using assms
  by (auto simp: pg_query_results_def ex_long_record_def ex_note_target_def pg_to_monitor_id_def table_results_def ex_note_table
      io_bind_def io_lift_def pg_fetch_def ref_pg_def ref_execute_def ex_long_server_def ex_note_server_def ex_note_db_def
      pg_to_i64_def ex_long_query_def)

lemma long_names_unreadable_witness:
  "\<exists>e. fst (pg_query_results ref_externs ref_codec ref_pg ex_long_record ex_long_query ex_long_server) = Inl e"
proof -
  obtain row params where rows: "fst (pg_query_results ref_externs ref_codec ref_pg ex_long_record ex_long_query ex_long_server)
    = traverse (read_result ref_externs ref_codec ''event'' params) [row]"
    using ex_long_params ex_long_rows by blast
  have long: "\<not> kept_columns ''event'' [replicate 64 CHR ''n'']"
    by (simp add: kept_columns_def column_base_def EVENT_RESERVED_def numeral_eq_Suc)
  have "records = []" if "fst (pg_query_results ref_externs ref_codec ref_pg ex_long_record ex_long_query ex_long_server) = Inr records"
    for records
    by (rule long_names_unreadable [OF ref_postgres_server _ _ _ _ _ _ that, of "ex_note_row ex_long"])
      (use long ex_note_db_ok in \<open>simp_all add: ex_long_server_def ref_pg_view_def ex_note_server_def ex_note_db_def ex_note_row_def
        ex_long_record_def ex_note_target_def target_params_def target_kind_def ex_long_def\<close>)
  moreover have "records \<noteq> []" if "fst (pg_query_results ref_externs ref_codec ref_pg ex_long_record ex_long_query ex_long_server) = Inr records"
    for records using traverse_length [OF that [unfolded rows]] by auto
  ultimately show ?thesis by (metis sumE)
qed

end
