(* ===== verification/Rpc_Properties.thy ===== *)
theory Rpc_Properties
  imports Rpc_Live Reference_Scenario
begin

text \<open>
  The properties of the JSON-RPC block source, each with a witness on an endpoint that serves the
  chain of \<open>Reference_Scenario\<close> block by block and supports neither batches nor block receipts.
\<close>

section \<open>An endpoint\<close>

definition ref_rpc_log :: "source_log \<Rightarrow> rpc_log" where
  "ref_rpc_log log =
     \<lparr>rl_address = sl_address log, rl_topics = sl_topics log, rl_data = sl_data log,
      rl_block_number = sl_block_number log, rl_transaction_hash = sl_transaction_hash log,
      rl_log_index = sl_log_index log, rl_removed = sl_removed log\<rparr>"

definition ref_rpc_transaction :: "block_transaction \<Rightarrow> rpc_transaction" where
  "ref_rpc_transaction tx = \<lparr>rt_hash = bt_hash tx, rt_from = bt_from tx, rt_to = Some (bt_to tx), rt_input = bt_input tx\<rparr>"

definition ref_refusal :: "int \<Rightarrow> string \<Rightarrow> error" where
  "ref_refusal code message = [Transport (Some (code, message, False)) message]"

definition ref_provider :: "unit provider" where
  "ref_provider =
     \<lparr>pv_get_chain_id = (\<lambda>e. (Inr 1, e)),
      pv_get_block_by_number = (\<lambda>tag full e.
        (Inr (Some (case tag of TagFinalized \<Rightarrow> \<lparr>rb_number = 6, rb_transactions = TransactionHashes []\<rparr>
           | TagNumber b \<Rightarrow> \<lparr>rb_number = b,
               rb_transactions = FullTransactions (map ref_rpc_transaction (sb_transactions (cd_block ex_chain b)))\<rparr>)), e)),
      pv_get_logs = (\<lambda>flt e.
        if lf_from flt = lf_to flt \<and> lf_from flt \<noteq> None
        then (Inr (map ref_rpc_log (range_logs ex_chain flt (the (lf_from flt)) (the (lf_to flt)))), e)
        else if lf_from flt \<noteq> None \<and> lf_to flt \<noteq> None \<and> the (lf_from flt) < the (lf_to flt)
        then (Inl (ref_refusal (- 32005) ''block range limit exceeded''), e)
        else (Inr [], e)),
      pv_get_transaction_receipt = (\<lambda>h e. (Inr (Some \<lparr>rr_transaction_hash = h, rr_status = True\<rparr>), e)),
      pv_get_block_receipts = (\<lambda>b e. (Inl (ref_refusal (- 32601) ''method not found''), e)),
      pv_add_call = (\<lambda>h. Inr ()),
      pv_send_batch = (\<lambda>hs e. (Inl (ref_refusal (- 32600) ''invalid request''), e)),
      pv_set_url = (\<lambda>u e. e)\<rparr>"

definition ref_rpc_state :: "unit json_rpc_source" where
  "ref_rpc_state = (with_transport () True rpc_config_default)\<lparr>js_chain_id := Some 1\<rparr>"

definition ref_moments :: "unit rpc_moments" where
  "ref_moments =
     \<lparr>mo_chain_id = ref_rpc_state, mo_finalized_head = ref_rpc_state, mo_fetch_block = (\<lambda>b. ref_rpc_state),
      mo_outcomes = (\<lambda>b hs. ref_rpc_state), mo_logs = (\<lambda>q. ref_rpc_state), mo_set_rpc_url = (\<lambda>u. ref_rpc_state)\<rparr>"

lemma ref_moments_ok: "moments_ok ref_moments"
  by (simp add: moments_ok_def ref_moments_def ref_rpc_state_def with_transport_def rpc_config_default_def)

lemma ref_logs_back: "source_log_of \<circ> ref_rpc_log = id"
  by (simp add: fun_eq_iff source_log_of_def ref_rpc_log_def)

lemma ref_transactions_back: "List.map_filter block_transaction_of (map ref_rpc_transaction txs) = txs"
  by (induction txs) (simp_all add: block_transaction_of_def ref_rpc_transaction_def)

lemma empty_range_logs: "b < a \<Longrightarrow> range_logs D flt a b = []"
  by (auto simp: range_logs_def range_inclusive_def word_less_nat_alt)

lemma ref_provider_truthful: "endpoint_truthful ref_provider ex_chain"
  unfolding endpoint_truthful_def
proof (intro conjI allI impI)
  show "endpoint_receipts ref_provider (\<lambda>h succeeded. succeeded = cd_succeeded ex_chain h)"
    by (simp add: endpoint_receipts_def ref_provider_def ex_chain_def)
next
  fix e :: unit and flt logs e' a b
  assume "pv_get_logs ref_provider flt e = (Inr logs, e')" "lf_from flt = Some a" "lf_to flt = Some b"
  then have "map source_log_of logs = range_logs ex_chain flt a b"
    by (cases "a = b") (auto simp: ref_provider_def ref_logs_back empty_range_logs not_less_iff_gr_or_eq split: if_splits)
  then show "mset (map source_log_of logs) = mset (range_logs ex_chain flt a b)" by simp
qed (auto simp: ref_provider_def ref_transactions_back)



section \<open>The properties\<close>

text \<open>
  C6. The JSON-RPC source is faithful. Against an endpoint that may fail, refuse or answer short in
  any way, but serves the finalized chain where it answers, and whatever happens to it between the
  requests, the blocks, execution outcomes and logs the source answers are those of the chain: the
  exact filters miss and repeat no log, split ranges add up, and every receipt strategy and fall
  back gives one outcome per transaction in the requested order.
\<close>

theorem rpc_source_is_faithful:
  assumes "endpoint_truthful P D" and "chain_data_ok D" and "moments_ok mo" and "\<forall>fs. mset (F fs) = mset fs"
  shows "faithful_source (rpc_block_source X F P mo) D"
  by (rule rpc_faithful) (use assms in auto)

lemma rpc_source_is_faithful_witness: "faithful_source (rpc_block_source ref_externs rev ref_provider ref_moments) ex_chain"
  by (rule rpc_source_is_faithful) (simp_all add: ref_provider_truthful ex_chain_ok ref_moments_ok)

text \<open>
  Answers match their requests, even from an endpoint that lies: a block has the requested
  number, and outcomes are one per requested hash, in order.
\<close>

theorem rpc_answers_match_requests:
  assumes "moments_ok mo"
  shows "(\<forall>b. case bs_fetch_block (rpc_block_source X F P mo) b of Inl e \<Rightarrow> True | Inr blk \<Rightarrow> sb_number blk = b)
    \<and> (\<forall>b hs. case bs_fetch_execution_outcomes (rpc_block_source X F P mo) b hs of Inl e \<Rightarrow> True
         | Inr outs \<Rightarrow> map eo_transaction_hash outs = hs)"
  using rpc_answers [OF assms] by (auto split: sum.split)

lemma rpc_answers_match_requests_witness:
  "case bs_fetch_execution_outcomes (rpc_block_source ref_externs rev ref_provider ref_moments) 5 [99, 98] of
     Inl e \<Rightarrow> True | Inr outs \<Rightarrow> map eo_transaction_hash outs = [99, 98]"
  using rpc_answers_match_requests [OF ref_moments_ok] by blast





text \<open>
  An unsupported request form is tried no more: once batches or block receipts are marked
  unsupported, no sequence of requests of the worker sends one again or forgets it.
\<close>

theorem unsupported_is_remembered:
  assumes "(rpc_step X F P)\<^sup>*\<^sup>* s s'"
  shows "(js_batch_capability s = CAPABILITY_UNSUPPORTED \<longrightarrow>
         js_batch_capability s' = CAPABILITY_UNSUPPORTED
         \<and> filter (uses_strategy ''batch'') (js_telemetry s') = filter (uses_strategy ''batch'') (js_telemetry s))
    \<and> (js_block_receipts_capability s = CAPABILITY_UNSUPPORTED \<longrightarrow>
         js_block_receipts_capability s' = CAPABILITY_UNSUPPORTED
         \<and> filter (uses_strategy ''block_receipts'') (js_telemetry s')
           = filter (uses_strategy ''block_receipts'') (js_telemetry s))"
  using rpc_steps_kept [OF assms] by (simp add: unsupported_kept_def)

definition ref_unsupported :: "unit json_rpc_source" where
  "ref_unsupported = ref_rpc_state\<lparr>js_batch_capability := CAPABILITY_UNSUPPORTED\<rparr>"

lemma unsupported_is_remembered_witness:
  "js_batch_capability (snd (rpc_fetch_execution_outcomes ref_externs ref_provider 5 [99, 98] ref_unsupported))
     = CAPABILITY_UNSUPPORTED"
proof -
  have "(rpc_step ref_externs rev ref_provider)\<^sup>*\<^sup>* ref_unsupported
      (snd (rpc_fetch_execution_outcomes ref_externs ref_provider 5 [99, 98] ref_unsupported))"
    by (intro r_into_rtranclp step_outcomes [OF prod.collapse [symmetric]])
  from unsupported_is_remembered [OF this] show ?thesis by (simp add: ref_unsupported_def)
qed

text \<open>
  Nothing the transport said is shown: an error of any request of the worker that has a
  transport error among its causes is displayed as one fixed text.
\<close>

theorem rpc_errors_scrubbed:
  assumes "list_ex is_transport e"
    and "fst (rpc_chain_id P s) = Inl e \<or> fst (rpc_finalized_head P s) = Inl e \<or> fst (rpc_fetch_block P b s) = Inl e
      \<or> fst (rpc_fetch_execution_outcomes X P b hs s) = Inl e \<or> fst (rpc_fetch_logs F P q s) = Inl e"
  shows "safe_error_message e = ''block source request failed''"
proof -
  have "safe_error_message e = ''block source request failed''" if "fst (rpc_chain_id P s) = Inl e"
    using that assms(1) source_request_error_scrubbed by (auto simp: rpc_chain_id_def split: prod.splits sum.splits)
  with assms(2) map_io_err_scrubbed [OF _ assms(1)] show ?thesis
    unfolding rpc_finalized_head_def rpc_fetch_block_def rpc_fetch_execution_outcomes_def rpc_fetch_logs_def by metis
qed

definition ref_down :: "unit provider" where
  "ref_down = ref_provider\<lparr>pv_get_chain_id := (\<lambda>e. (Inl [Transport None ''http://key@host refused''], e))\<rparr>"

lemma rpc_errors_scrubbed_witness:
  "safe_error_message (projl (fst (rpc_chain_id ref_down ref_rpc_state))) = ''block source request failed''"
  by (rule rpc_errors_scrubbed [where P = ref_down and s = ref_rpc_state])
    (simp_all add: ref_down_def rpc_chain_id_def on_endpoint_def source_request_error_def is_transport_def)

end
