(* ===== verification/Webhook.thy ===== *)
theory Webhook
  imports Ports "HOL-Library.Multiset"
begin

text \<open>
  \<open>parseon-webhook-sink/src/lib.rs\<close>: best-effort delivery of sink batches. A sink holds the free
  permits of its semaphore, the cancellation token and the spawned delivery tasks; reqwest and the
  receiver behind it only decide when a request is answered and how. The log keeps the requests that
  went out.
\<close>

section \<open>The sink\<close>

text \<open>The answer to a request: the status of the response, or a transport error.\<close>

datatype delivery_answer = Answered nat | AttemptFailed

datatype delivery_outcome = Delivered | NonSuccess | DeliveryFailed | DeliveryCancelled

text \<open>A task holds its batch, its permit, and whether its request has gone out.\<close>

record delivery =
  dl_batch :: sink_batch
  dl_posted :: bool

record webhook =
  wh_permits :: nat
  wh_cancelled :: bool
  wh_tasks :: "delivery list"
  wh_posts :: "sink_batch list"
  wh_outcomes :: "(sink_batch \<times> delivery_outcome) list"

definition webhook_new :: "nat \<Rightarrow> webhook" where
  "webhook_new concurrency =
     \<lparr>wh_permits = concurrency, wh_cancelled = False, wh_tasks = [], wh_posts = [], wh_outcomes = []\<rparr>"

definition webhook_submit :: "sink_batch \<Rightarrow> webhook \<Rightarrow> webhook" where
  "webhook_submit batch w =
     (if sk_results batch = [] \<or> wh_cancelled w then w
      else
        (case wh_permits w of
           0 \<Rightarrow> w
         | Suc left \<Rightarrow>
             w\<lparr>wh_permits := left, wh_tasks := wh_tasks w @ [\<lparr>dl_batch = batch, dl_posted = False\<rparr>]\<rparr>))"

definition answer_outcome :: "delivery_answer \<Rightarrow> delivery_outcome" where
  "answer_outcome a =
     (case a of
        Answered status \<Rightarrow> if 200 \<le> status \<and> status \<le> 299 then Delivered else NonSuccess
      | AttemptFailed \<Rightarrow> DeliveryFailed)"

text \<open>A task that ends gives its permit back.\<close>

definition end_delivery :: "nat \<Rightarrow> delivery_outcome \<Rightarrow> webhook \<Rightarrow> webhook" where
  "end_delivery i outcome w =
     w\<lparr>wh_permits := Suc (wh_permits w), wh_tasks := take i (wh_tasks w) @ drop (Suc i) (wh_tasks w),
       wh_outcomes := wh_outcomes w @ [(dl_batch (wh_tasks w ! i), outcome)]\<rparr>"

text \<open>The first poll of the \<open>attempt\<close> future sends the request.\<close>

definition start_attempt :: "nat \<Rightarrow> webhook \<Rightarrow> webhook" where
  "start_attempt i w =
     (if dl_posted (wh_tasks w ! i) then w
      else
        w\<lparr>wh_tasks := (wh_tasks w)[i := (wh_tasks w ! i)\<lparr>dl_posted := True\<rparr>],
          wh_posts := wh_posts w @ [dl_batch (wh_tasks w ! i)]\<rparr>)"

text \<open>
  One poll of task \<open>i\<close>. The \<open>select!\<close> is biased: it looks at the token first and polls the attempt
  only when the token is live; \<open>answer\<close> is what that poll finds.
\<close>

definition delivery_turn :: "nat \<Rightarrow> delivery_answer option \<Rightarrow> webhook \<Rightarrow> webhook" where
  "delivery_turn i answer w =
     (if length (wh_tasks w) \<le> i then w
      else if wh_cancelled w then end_delivery i DeliveryCancelled w
      else
        (let w1 = start_attempt i w in
         case answer of None \<Rightarrow> w1 | Some a \<Rightarrow> end_delivery i (answer_outcome a) w1))"

definition webhook_shutdown :: "webhook \<Rightarrow> webhook" where
  "webhook_shutdown w = w\<lparr>wh_cancelled := True\<rparr>"

section \<open>Runs\<close>

datatype webhook_op = Submit sink_batch | Turn nat "delivery_answer option" | Shutdown

fun webhook_apply :: "webhook_op \<Rightarrow> webhook \<Rightarrow> webhook" where
  "webhook_apply (Submit b) w = webhook_submit b w"
| "webhook_apply (Turn i a) w = delivery_turn i a w"
| "webhook_apply Shutdown w = webhook_shutdown w"

definition webhook_run :: "webhook_op list \<Rightarrow> webhook \<Rightarrow> webhook" where
  "webhook_run ops w = fold webhook_apply ops w"

lemma webhook_run_simps [simp]:
  "webhook_run [] w = w" "webhook_run (op # ops) w = webhook_run ops (webhook_apply op w)"
  "webhook_run (xs @ ys) w = webhook_run ys (webhook_run xs w)"
  by (simp_all add: webhook_run_def)

fun submitted :: "webhook_op list \<Rightarrow> sink_batch list" where
  "submitted [] = []"
| "submitted (Submit b # ops) = b # submitted ops"
| "submitted (_ # ops) = submitted ops"

lemma submitted_append [simp]: "submitted (xs @ ys) = submitted xs @ submitted ys"
  by (induction xs rule: submitted.induct) simp_all

section \<open>What a sink keeps\<close>

text \<open>
  Every accepted batch is either waiting to be sent, in flight or has an outcome; a request goes out
  at most once, and not before its batch was accepted.
\<close>

definition accepted :: "webhook \<Rightarrow> sink_batch multiset" where
  "accepted w = mset (map dl_batch (wh_tasks w)) + mset (map fst (wh_outcomes w))"

definition unsent :: "webhook \<Rightarrow> sink_batch multiset" where
  "unsent w = mset (map dl_batch (filter (\<lambda>t. \<not> dl_posted t) (wh_tasks w)))"

definition webhook_ok :: "nat \<Rightarrow> sink_batch list \<Rightarrow> webhook \<Rightarrow> bool" where
  "webhook_ok concurrency subs w =
     (wh_permits w + length (wh_tasks w) = concurrency
      \<and> accepted w \<subseteq># mset (filter (\<lambda>b. sk_results b \<noteq> []) subs)
      \<and> mset (wh_posts w) + unsent w \<subseteq># accepted w)"

lemma webhook_ok_new: "webhook_ok n [] (webhook_new n)"
  by (simp add: webhook_ok_def webhook_new_def accepted_def unsent_def)

lemma webhook_ok_more: "webhook_ok n subs w \<Longrightarrow> webhook_ok n (subs @ extra) w"
  by (auto simp: webhook_ok_def intro: subset_mset.order_trans)

lemma webhook_ok_submit:
  assumes "webhook_ok n subs w"
  shows "webhook_ok n (subs @ [b]) (webhook_submit b w)"
proof (cases "sk_results b = [] \<or> wh_cancelled w \<or> wh_permits w = 0")
  case True
  then have "webhook_submit b w = w" by (auto simp: webhook_submit_def)
  with webhook_ok_more [OF assms, of "[b]"] show ?thesis by simp
next
  case False
  then obtain left where left: "wh_permits w = Suc left" by (cases "wh_permits w") auto
  with False have "webhook_submit b w = w\<lparr>wh_permits := left, wh_tasks := wh_tasks w @ [\<lparr>dl_batch = b, dl_posted = False\<rparr>]\<rparr>"
    by (simp add: webhook_submit_def)
  with assms left False show ?thesis
    by (auto simp: webhook_ok_def accepted_def unsent_def subset_mset.add_mono)
qed

lemma task_split: "i < length ts \<Longrightarrow> ts = take i ts @ ts ! i # drop (Suc i) ts"
  by (rule id_take_nth_drop)

lemma webhook_ok_start:
  assumes "webhook_ok n subs w" and i: "i < length (wh_tasks w)"
  shows "webhook_ok n subs (start_attempt i w)"
proof (cases "dl_posted (wh_tasks w ! i)")
  case False
  obtain before t after where ts: "wh_tasks w = before @ t # after" and len: "length before = i"
    using task_split [OF i] i by (metis length_take min.absorb4)
  then have t: "wh_tasks w ! i = t" by (metis nth_append_length)
  with assms False ts len show ?thesis
    by (auto simp: start_attempt_def webhook_ok_def accepted_def unsent_def list_update_append)
qed (simp add: assms start_attempt_def)

lemma webhook_ok_end:
  assumes "webhook_ok n subs w" and i: "i < length (wh_tasks w)"
  shows "webhook_ok n subs (end_delivery i outcome w)"
proof -
  obtain before t after where ts: "wh_tasks w = before @ t # after" and len: "length before = i"
    using task_split [OF i] i by (metis length_take min.absorb4)
  then have t: "wh_tasks w ! i = t" by (metis nth_append_length)
  have same: "accepted (end_delivery i outcome w) = accepted w"
    using ts len t by (simp add: accepted_def end_delivery_def ac_simps)
  have "unsent (end_delivery i outcome w) \<subseteq># unsent w"
    using ts len t by (auto simp: unsent_def end_delivery_def)
  then have "mset (wh_posts w) + unsent (end_delivery i outcome w) \<subseteq># mset (wh_posts w) + unsent w" by simp
  also have "\<dots> \<subseteq># accepted w" using assms(1) by (simp add: webhook_ok_def)
  finally have "mset (wh_posts w) + unsent (end_delivery i outcome w) \<subseteq># accepted w" .
  moreover have "wh_posts (end_delivery i outcome w) = wh_posts w"
    "wh_permits (end_delivery i outcome w) + length (wh_tasks (end_delivery i outcome w)) = wh_permits w + length (wh_tasks w)"
    using ts len by (simp_all add: end_delivery_def)
  ultimately show ?thesis using assms(1) by (simp add: webhook_ok_def same)
qed

lemma length_start [simp]: "length (wh_tasks (start_attempt i w)) = length (wh_tasks w)"
  by (simp add: start_attempt_def)

lemma webhook_ok_turn: "webhook_ok n subs w \<Longrightarrow> webhook_ok n subs (delivery_turn i a w)"
  by (auto simp: delivery_turn_def Let_def webhook_ok_start webhook_ok_end split: option.splits)

lemma webhook_ok_run: "webhook_ok n subs w \<Longrightarrow> webhook_ok n (subs @ submitted ops) (webhook_run ops w)"
proof (induction ops arbitrary: subs w)
  case (Cons op ops)
  show ?case
  proof (cases op)
    case (Submit b)
    from Cons.IH [OF webhook_ok_submit [OF Cons.prems]] Submit show ?thesis by simp
  next
    case (Turn i a)
    from Cons.IH [OF webhook_ok_turn [OF Cons.prems]] Turn show ?thesis by simp
  next
    case Shutdown
    have "webhook_ok n subs (webhook_shutdown w)"
      using Cons.prems by (simp add: webhook_ok_def accepted_def unsent_def webhook_shutdown_def)
    from Cons.IH [OF this] Shutdown show ?thesis by simp
  qed
qed simp

section \<open>After a shutdown\<close>

lemma cancelled_apply:
  "wh_cancelled w \<Longrightarrow> wh_cancelled (webhook_apply op w) \<and> wh_posts (webhook_apply op w) = wh_posts w"
  by (cases op) (auto simp: webhook_submit_def delivery_turn_def end_delivery_def webhook_shutdown_def)

lemma cancelled_run: "wh_cancelled w \<Longrightarrow> wh_cancelled (webhook_run ops w) \<and> wh_posts (webhook_run ops w) = wh_posts w"
proof (induction ops arbitrary: w)
  case (Cons op ops)
  from cancelled_apply [OF Cons.prems, of op] Cons.IH [of "webhook_apply op w"] show ?case by simp
qed simp

text \<open>The first task has its turn as often as there are tasks.\<close>

lemma cancelled_drain:
  "wh_cancelled w \<Longrightarrow> wh_tasks (webhook_run (replicate (length (wh_tasks w)) (Turn 0 None)) w) = []"
proof (induction "length (wh_tasks w)" arbitrary: w)
  case (Suc n)
  then obtain t ts where ts: "wh_tasks w = t # ts" "n = length ts" by (cases "wh_tasks w") auto
  with Suc.prems have rest: "n = length (wh_tasks (delivery_turn 0 None w))" "wh_cancelled (delivery_turn 0 None w)"
    by (simp_all add: delivery_turn_def end_delivery_def)
  from Suc.hyps(1) [OF rest] show ?case by (simp add: ts flip: rest(1))
qed simp

end
