(* ===== verification/Metrics.thy ===== *)
theory Metrics
  imports Worker
begin

text \<open>
  \<open>parseon-server/src/metrics.rs\<close>: the Prometheus collector behind the telemetry port. A family is the
  map of its label sets to their values, which are created with the first use; counters are 64-bit
  and gauges are signed 64-bit words. The histograms of durations are not modelled.
\<close>

section \<open>Families\<close>

record result_labels =
  rl_chain_id :: string
  rl_kind :: string

record stage_labels =
  sl_chain_id :: string
  sl_stage :: string

record cache_labels =
  cl_chain_id :: string
  cl_result :: string

record rpc_labels =
  rpl_chain_id :: string
  rpl_operation :: string
  rpl_outcome :: string
  rpl_strategy :: string

record metrics =
  mt_rpc_operations :: "rpc_labels \<Rightarrow> u64 option"
  mt_blocks_committed :: "string \<Rightarrow> u64 option"
  mt_results_committed :: "result_labels \<Rightarrow> u64 option"
  mt_worker_lag :: "string \<Rightarrow> 64 word option"
  mt_in_flight :: "stage_labels \<Rightarrow> 64 word option"
  mt_cache_access :: "cache_labels \<Rightarrow> u64 option"

definition metrics_default :: metrics where
  "metrics_default =
     \<lparr>mt_rpc_operations = (\<lambda>_. None), mt_blocks_committed = (\<lambda>_. None), mt_results_committed = (\<lambda>_. None),
      mt_worker_lag = (\<lambda>_. None), mt_in_flight = (\<lambda>_. None), mt_cache_access = (\<lambda>_. None)\<rparr>"

text \<open>\<open>get_or_create\<close>: a value that is not there yet starts at zero.\<close>

definition family_get :: "('k \<Rightarrow> 'v::len word option) \<Rightarrow> 'k \<Rightarrow> 'v word" where
  "family_get m k = (case m k of None \<Rightarrow> 0 | Some v \<Rightarrow> v)"

definition inc_by :: "'v word \<Rightarrow> 'k \<Rightarrow> ('k \<Rightarrow> 'v::len word option) \<Rightarrow> 'k \<Rightarrow> 'v word option" where
  "inc_by n k m = m(k \<mapsto> family_get m k + n)"

definition dec_by :: "'v word \<Rightarrow> 'k \<Rightarrow> ('k \<Rightarrow> 'v::len word option) \<Rightarrow> 'k \<Rightarrow> 'v word option" where
  "dec_by n k m = m(k \<mapsto> family_get m k - n)"

lemma family_get_inc [simp]: "family_get (inc_by n k m) k' = (if k' = k then family_get m k + n else family_get m k')"
  by (simp add: family_get_def inc_by_def)

lemma family_get_dec [simp]: "family_get (dec_by n k m) k' = (if k' = k then family_get m k - n else family_get m k')"
  by (simp add: family_get_def dec_by_def)

section \<open>Recording\<close>

definition metrics_record_rpc :: "chain_id \<Rightarrow> string \<Rightarrow> string \<Rightarrow> string \<Rightarrow> metrics \<Rightarrow> metrics" where
  "metrics_record_rpc c operation strategy outcome m =
     m\<lparr>mt_rpc_operations := inc_by 1
         \<lparr>rpl_chain_id = show_u64 c, rpl_operation = operation, rpl_outcome = outcome, rpl_strategy = strategy\<rparr>
         (mt_rpc_operations m)\<rparr>"

definition metrics_record_cache :: "chain_id \<Rightarrow> bool \<Rightarrow> metrics \<Rightarrow> metrics" where
  "metrics_record_cache c hit m =
     m\<lparr>mt_cache_access := inc_by 1
         \<lparr>cl_chain_id = show_u64 c, cl_result = (if hit then ''hit'' else ''miss'')\<rparr> (mt_cache_access m)\<rparr>"

definition record_results :: "chain_id \<Rightarrow> string \<Rightarrow> u64 \<Rightarrow> metrics \<Rightarrow> metrics" where
  "record_results c kind n m =
     (if 0 < n
      then m\<lparr>mt_results_committed := inc_by n \<lparr>rl_chain_id = show_u64 c, rl_kind = kind\<rparr> (mt_results_committed m)\<rparr>
      else m)"

definition metrics_record_commit :: "chain_id \<Rightarrow> u64 \<Rightarrow> u64 \<Rightarrow> string \<Rightarrow> metrics \<Rightarrow> metrics" where
  "metrics_record_commit c calls events outcome m =
     (if outcome \<noteq> ''success'' then m
      else
        (let m1 = m\<lparr>mt_blocks_committed := inc_by 1 (show_u64 c) (mt_blocks_committed m)\<rparr> in
         fold (\<lambda>(kind, n). record_results c kind n) [(''call'', calls), (''event'', events)] m1))"

text \<open>\<open>i64::try_from(lag).unwrap_or(i64::MAX)\<close>.\<close>

definition metrics_set_worker_lag :: "chain_id \<Rightarrow> u64 \<Rightarrow> metrics \<Rightarrow> metrics" where
  "metrics_set_worker_lag c lag m =
     m\<lparr>mt_worker_lag := (mt_worker_lag m)(show_u64 c \<mapsto> (if lag \<le> 9223372036854775807 then lag else 9223372036854775807))\<rparr>"

definition metrics_adjust_in_flight :: "chain_id \<Rightarrow> string \<Rightarrow> 64 word \<Rightarrow> metrics \<Rightarrow> metrics" where
  "metrics_adjust_in_flight c stage delta m =
     (let k = \<lparr>sl_chain_id = show_u64 c, sl_stage = stage\<rparr> in
      if 0 <s delta then m\<lparr>mt_in_flight := inc_by delta k (mt_in_flight m)\<rparr>
      else m\<lparr>mt_in_flight := dec_by (- delta) k (mt_in_flight m)\<rparr>)"

text \<open>The method a recorded event stands for.\<close>

fun metrics_record :: "telemetry_event \<Rightarrow> metrics \<Rightarrow> metrics" where
  "metrics_record (RecordRpc c operation strategy outcome) m = metrics_record_rpc c operation strategy outcome m"
| "metrics_record (RecordCache c hit) m = metrics_record_cache c hit m"
| "metrics_record (RecordCommit c calls events outcome) m = metrics_record_commit c (of_nat calls) (of_nat events) outcome m"
| "metrics_record (SetWorkerLag c lag) m = metrics_set_worker_lag c lag m"
| "metrics_record (AdjustInFlight c stage delta) m = metrics_adjust_in_flight c stage (word_of_int delta) m"

definition metrics_of :: "telemetry_event list \<Rightarrow> metrics" where
  "metrics_of es = fold metrics_record es metrics_default"

section \<open>What a trace adds up to\<close>

fun committed_blocks :: "chain_id \<Rightarrow> telemetry_event list \<Rightarrow> nat" where
  "committed_blocks c [] = 0"
| "committed_blocks c (e # es) =
     (case e of RecordCommit c' calls events outcome \<Rightarrow> if c' = c \<and> outcome = ''success'' then 1 else 0 | _ \<Rightarrow> 0)
       + committed_blocks c es"

fun committed_results :: "chain_id \<Rightarrow> string \<Rightarrow> telemetry_event list \<Rightarrow> nat" where
  "committed_results c kind [] = 0"
| "committed_results c kind (e # es) =
     (case e of
        RecordCommit c' calls events outcome \<Rightarrow>
          if c' = c \<and> outcome = ''success''
          then (if kind = ''call'' then calls else if kind = ''event'' then events else 0) else 0
      | _ \<Rightarrow> 0) + committed_results c kind es"

definition blocks_value :: "metrics \<Rightarrow> chain_id \<Rightarrow> u64" where
  "blocks_value m c = family_get (mt_blocks_committed m) (show_u64 c)"

definition results_value :: "metrics \<Rightarrow> chain_id \<Rightarrow> string \<Rightarrow> u64" where
  "results_value m c kind = family_get (mt_results_committed m) \<lparr>rl_chain_id = show_u64 c, rl_kind = kind\<rparr>"

definition gauge_value :: "metrics \<Rightarrow> chain_id \<Rightarrow> string \<Rightarrow> 64 word" where
  "gauge_value m c stage = family_get (mt_in_flight m) \<lparr>sl_chain_id = show_u64 c, sl_stage = stage\<rparr>"

lemma record_results_value [simp]:
  "results_value (record_results c' kind' n m) c kind = results_value m c kind + (if c' = c \<and> kind' = kind then n else 0)"
  "blocks_value (record_results c' kind' n m) c = blocks_value m c"
  "gauge_value (record_results c' kind' n m) c stage = gauge_value m c stage"
  by (auto simp: record_results_def results_value_def blocks_value_def gauge_value_def word_gt_0)

lemmas recording_defs = metrics_record_rpc_def metrics_record_cache_def metrics_record_commit_def
  metrics_set_worker_lag_def metrics_adjust_in_flight_def Let_def

lemma update_values [simp]:
  "blocks_value (m\<lparr>mt_blocks_committed := inc_by n (show_u64 c') b\<rparr>) c = blocks_value (m\<lparr>mt_blocks_committed := b\<rparr>) c + (if c' = c then n else 0)"
  "results_value (m\<lparr>mt_blocks_committed := b\<rparr>) c kind = results_value m c kind"
  "gauge_value (m\<lparr>mt_blocks_committed := b\<rparr>) c stage = gauge_value m c stage"
  "blocks_value (m\<lparr>mt_rpc_operations := f\<rparr>) c = blocks_value m c" "blocks_value (m\<lparr>mt_cache_access := g\<rparr>) c = blocks_value m c"
  "blocks_value (m\<lparr>mt_worker_lag := h\<rparr>) c = blocks_value m c" "blocks_value (m\<lparr>mt_in_flight := k\<rparr>) c = blocks_value m c"
  "results_value (m\<lparr>mt_rpc_operations := f\<rparr>) c kind = results_value m c kind"
  "results_value (m\<lparr>mt_cache_access := g\<rparr>) c kind = results_value m c kind"
  "results_value (m\<lparr>mt_worker_lag := h\<rparr>) c kind = results_value m c kind"
  "results_value (m\<lparr>mt_in_flight := k\<rparr>) c kind = results_value m c kind"
  "gauge_value (m\<lparr>mt_rpc_operations := f\<rparr>) c stage = gauge_value m c stage"
  "gauge_value (m\<lparr>mt_cache_access := g\<rparr>) c stage = gauge_value m c stage"
  "gauge_value (m\<lparr>mt_worker_lag := h\<rparr>) c stage = gauge_value m c stage"
  by (simp_all add: blocks_value_def results_value_def gauge_value_def)

lemma metrics_record_blocks: "blocks_value (metrics_record e m) c = blocks_value m c + of_nat (committed_blocks c [e])"
  by (cases e) (simp_all add: recording_defs)

lemma metrics_record_results:
  "results_value (metrics_record e m) c kind = results_value m c kind + of_nat (committed_results c kind [e])"
  by (cases e) (simp_all add: recording_defs)

lemma metrics_record_gauge:
  "gauge_value (metrics_record e m) c stage = gauge_value m c stage + word_of_int (in_flight c stage [e])"
  by (cases e) (simp_all add: recording_defs, simp add: gauge_value_def)

lemmas metrics_record_values = metrics_record_blocks metrics_record_results metrics_record_gauge

lemma committed_Cons:
  "committed_blocks c (e # es) = committed_blocks c [e] + committed_blocks c es"
  "committed_results c kind (e # es) = committed_results c kind [e] + committed_results c kind es"
  "in_flight c stage (e # es) = in_flight c stage [e] + in_flight c stage es"
  by simp_all

lemma metrics_fold:
  "blocks_value (fold metrics_record es m) c = blocks_value m c + of_nat (committed_blocks c es)
   \<and> results_value (fold metrics_record es m) c kind = results_value m c kind + of_nat (committed_results c kind es)
   \<and> gauge_value (fold metrics_record es m) c stage = gauge_value m c stage + word_of_int (in_flight c stage es)"
proof (induction es arbitrary: m)
  case (Cons e es)
  show ?case
    unfolding committed_Cons [where e = e and es = es] fold.simps comp_def
    by (simp add: Cons metrics_record_values del: committed_blocks.simps(2) committed_results.simps(2) in_flight.simps(2))
qed simp

end
