(* ===== verification/Worker_Reports.thy ===== *)
theory Worker_Reports
  imports Worker_Correct Metrics
begin

text \<open>
  What a worker reports against what it commits. A storage is given a ledger of the commits it took;
  after any poll the sink has got the batches of exactly the new commits of the ledger, in order, and
  the telemetry has counted exactly these.
\<close>

section \<open>A storage with a ledger\<close>

definition ledgered :: "'s index_storage \<Rightarrow> ('s \<times> block_commit list) index_storage" where
  "ledgered st =
     \<lparr>is_load_monitors = (\<lambda>(s, ledger) ch. is_load_monitors st s ch),
      is_commit_block = (\<lambda>(s, ledger) c.
        case is_commit_block st s c of (Inl e, s') \<Rightarrow> (Inl e, (s', ledger)) | (Inr u, s') \<Rightarrow> (Inr u, (s', ledger @ [c])))\<rparr>"

text \<open>The batches submitted for a list of commits.\<close>

definition batch_of_commit :: "externs \<Rightarrow> block_commit \<Rightarrow> sink_batch option" where
  "batch_of_commit X c =
     (case sink_batch_new X (bc_chain c) (bc_block_number c) (bc_monitors c) (bc_results c) of
        Inr b \<Rightarrow> b | Inl e \<Rightarrow> None)"

definition batches_of :: "externs \<Rightarrow> bool \<Rightarrow> block_commit list \<Rightarrow> sink_batch list" where
  "batches_of X enabled cs = (if enabled then List.map_filter (batch_of_commit X) cs else [])"

definition of_chain :: "chain_id \<Rightarrow> block_commit list \<Rightarrow> block_commit list" where
  "of_chain c cs = filter (\<lambda>k. chain_id_of (bc_chain k) = c) cs"

definition ledger_results :: "string \<Rightarrow> block_commit list \<Rightarrow> nat" where
  "ledger_results kind cs = sum_list (map (\<lambda>k.
     if kind = ''call'' then length (filter is_call (bc_results k))
     else if kind = ''event'' then length (bc_results k) - length (filter is_call (bc_results k)) else 0) cs)"

section \<open>Reports\<close>

text \<open>Between \<open>w\<close> and \<open>w'\<close> exactly the commits \<open>new\<close> were taken and reported.\<close>

definition reports ::
  "externs \<Rightarrow> bool \<Rightarrow> block_commit list \<Rightarrow> ('c, 's \<times> block_commit list) world \<Rightarrow> ('c, 's \<times> block_commit list) world \<Rightarrow> bool" where
  "reports X enabled new w w' =
     (snd (w_storage w') = snd (w_storage w) @ new
      \<and> w_sink w' = w_sink w @ batches_of X enabled new
      \<and> (\<forall>c. committed_blocks c (w_telemetry w') = committed_blocks c (w_telemetry w) + length (of_chain c new))
      \<and> (\<forall>c kind. committed_results c kind (w_telemetry w')
            = committed_results c kind (w_telemetry w) + ledger_results kind (of_chain c new)))"

lemma committed_append [simp]:
  "committed_blocks c (xs @ ys) = committed_blocks c xs + committed_blocks c ys"
  "committed_results c kind (xs @ ys) = committed_results c kind xs + committed_results c kind ys"
  by (induction xs) simp_all

lemma ledger_append [simp]:
  "batches_of X enabled (xs @ ys) = batches_of X enabled xs @ batches_of X enabled ys"
  "of_chain c (xs @ ys) = of_chain c xs @ of_chain c ys"
  "ledger_results kind (xs @ ys) = ledger_results kind xs + ledger_results kind ys"
  "batches_of X enabled [] = []" "of_chain c [] = []" "ledger_results kind [] = 0"
  by (simp_all add: batches_of_def of_chain_def ledger_results_def List.map_filter_def)

lemma reports_trans: "reports X b xs w w1 \<Longrightarrow> reports X b ys w1 w2 \<Longrightarrow> reports X b (xs @ ys) w w2"
  by (simp add: reports_def)

lemma reports_Nil_trans:
  "reports X b [] w w1 \<Longrightarrow> reports X b new w1 w2 \<Longrightarrow> reports X b new w w2"
  "reports X b new w w1 \<Longrightarrow> reports X b [] w1 w2 \<Longrightarrow> reports X b new w w2"
  using reports_trans [of X b "[]" w w1 new w2] reports_trans [of X b new w w1 "[]" w2] by simp_all

lemma reports_refl [simp]: "reports X b [] w w"
  by (simp add: reports_def)

text \<open>An event that is not a commit reports nothing.\<close>

definition no_commit :: "telemetry_event \<Rightarrow> bool" where
  "no_commit e = (case e of RecordCommit c calls events outcome \<Rightarrow> outcome \<noteq> ''success'' | _ \<Rightarrow> True)"

lemma no_commit_counts: "no_commit e \<Longrightarrow> committed_blocks c [e] = 0 \<and> committed_results c kind [e] = 0"
  by (cases e) (simp_all add: no_commit_def)

lemma reports_event [simp]: "no_commit e \<Longrightarrow> reports X b [] w (record_event e w)"
  using no_commit_counts [of e] by (simp add: reports_def del: committed_blocks.simps(2) committed_results.simps(2))

lemma reports_then_event: "reports X b new w w1 \<Longrightarrow> no_commit e \<Longrightarrow> reports X b new w (record_event e w1)"
  by (rule reports_Nil_trans(2) [OF _ reports_event])

lemma no_commit_events [simp]:
  "no_commit (in_flight_enter c stage)" "no_commit (in_flight_leave c stage)" "no_commit (RecordCache c hit)"
  "no_commit (SetWorkerLag c lag)" "no_commit (RecordCommit c calls events ''error'')"
  by (simp_all add: no_commit_def in_flight_enter_def in_flight_leave_def)

lemma reports_cache [simp]: "reports X b new w (w'\<lparr>w_cache := c\<rparr>) = reports X b new w w'"
  by (simp add: reports_def)

lemma reports_checkpoint: "checkpoint w = (stop, w1) \<Longrightarrow> reports X b [] w w1"
  by (auto simp: checkpoint_def reports_def split: option.splits nat.splits)

lemma guarded_reports:
  assumes "\<And>w r w'. m w = (r, w') \<Longrightarrow> reports X b [] w w'" and "guarded c stage m w = (r, w')"
  shows "reports X b [] w w'"
proof -
  from assms(2) obtain w1 where m: "m (record_event (in_flight_enter c stage) w) = (r, w1)"
    and w': "w' = record_event (in_flight_leave c stage) w1"
    by (auto simp: guarded_def split: prod.splits)
  have "reports X b [] w w1" by (rule reports_Nil_trans(1) [OF reports_event assms(1) [OF m]]) simp
  then show ?thesis unfolding w' by (rule reports_Nil_trans(2) [OF _ reports_event]) simp
qed

lemma load_block_reports: "load_block C S ch blk w = (r, w') \<Longrightarrow> reports X b [] w w'"
  by (auto simp: load_block_def reports_def Let_def split: prod.splits option.splits sum.splits)

lemma prepare_calls_reports: "prepare_calls X H C S ch idx plan w = (r, w') \<Longrightarrow> reports X b [] w w'"
  unfolding prepare_calls_def
  by (rule guarded_reports [rotated], assumption)
    (auto simp: act_bind_def act_pure_def split: prod.splits sum.splits if_splits dest: load_block_reports)

lemma prepare_all_reports: "prepare_all X H C S ch idx plans w = (rs, w') \<Longrightarrow> reports X b [] w w'"
proof (induction plans arbitrary: w rs)
  case (Cons plan plans)
  then obtain r w1 rs1 where "prepare_calls X H C S ch idx plan w = (r, w1)"
    "prepare_all X H C S ch idx plans w1 = (rs1, w')" by (auto split: prod.splits)
  with Cons.IH prepare_calls_reports show ?case by (metis reports_Nil_trans(1))
qed simp

lemma prepare_window_reports: "prepare_event_window X H C S ch idx plans q w = (r, w') \<Longrightarrow> reports X b [] w w'"
  by (auto simp: prepare_event_window_def split: prod.splits dest: prepare_all_reports)

section \<open>Commits\<close>

lemma commit_prepared_reports:
  assumes storage: "pc_storage ctx = ledgered st" and run: "commit_prepared X ch ctx pb progress w = (r, w')"
  shows "\<exists>new. reports X (pc_sink_enabled ctx) new w w'"
proof -
  let ?b = "pc_sink_enabled ctx"
  obtain stop w1 where c: "checkpoint w = (stop, w1)" by fastforce
  note r1 = reports_checkpoint [OF c, of X ?b]
  show ?thesis
  proof (cases "stop \<or> \<not> pc_writes_open ctx")
    case True
    with run c r1 show ?thesis by (auto simp: commit_prepared_def Let_def split: if_splits)
  next
    case False
    let ?c = "commit_of ch pb" and ?w2 = "record_event (in_flight_enter (chain_id_of ch) ''storage'') w1"
    obtain s ledger where s: "w_storage w1 = (s, ledger)" by fastforce
    obtain u s' where commit: "is_commit_block st s ?c = (u, s')" by fastforce
    have w2: "reports X ?b [] w ?w2" by (rule reports_Nil_trans(1) [OF r1 reports_event]) simp
    show ?thesis
    proof (cases u)
      case (Inl e)
      let ?w3 = "record_event (in_flight_leave (chain_id_of ch) ''storage'') (?w2\<lparr>w_storage := (s', ledger)\<rparr>)"
      have "reports X ?b [] ?w2 (?w2\<lparr>w_storage := (s', ledger)\<rparr>)" by (simp add: reports_def s)
      moreover have "w' = record_event (RecordCommit (chain_id_of ch) (length (filter is_call (pb_results pb)))
          (length (pb_results pb) - length (filter is_call (pb_results pb))) ''error'') ?w3"
        using run c False commit Inl by (auto simp: commit_prepared_def Let_def storage ledgered_def s)
      moreover from calculation(1) have "reports X ?b [] w ?w3"
        by (intro reports_then_event reports_Nil_trans(1) [OF w2]) simp_all
      ultimately have "reports X ?b [] w w'" by (simp add: reports_then_event)
      then show ?thesis by blast
    next
      case (Inr v)
      let ?w3 = "record_event (in_flight_leave (chain_id_of ch) ''storage'') (?w2\<lparr>w_storage := (s', ledger @ [?c])\<rparr>)"
      let ?w4 = "submit_batch X ctx ?c (record_event (RecordCommit (chain_id_of ch) (length (filter is_call (pb_results pb)))
          (length (pb_results pb) - length (filter is_call (pb_results pb))) ''success'') ?w3)"
      have "w' = ?w4"
        using run c False commit Inr by (auto simp: commit_prepared_def Let_def storage ledgered_def s)
      moreover have "reports X ?b [?c] ?w2 ?w4"
        by (simp add: reports_def s submit_batch_def batches_of_def batch_of_commit_def of_chain_def ledger_results_def
            commit_of_def List.map_filter_def in_flight_enter_def in_flight_leave_def length_filter_le split: sum.splits option.splits)
      ultimately show ?thesis using reports_Nil_trans(1) [OF w2] by blast
    qed
  qed
qed

lemma reports_more: "reports X b new w w1 \<Longrightarrow> \<exists>more. reports X b more w1 w2 \<Longrightarrow> \<exists>all. reports X b all w w2"
  using reports_trans by blast

lemma commit_window_reports:
  assumes storage: "pc_storage ctx = ledgered st"
  shows "commit_window X ch ctx ps progress decoded w = (r, w') \<Longrightarrow> \<exists>new. reports X (pc_sink_enabled ctx) new w w'"
proof (induction ps arbitrary: progress decoded w)
  case Nil
  then show ?case by (auto intro: exI [of _ "[]"])
next
  case (Cons p ps)
  show ?case
  proof (cases p)
    case (Inl e)
    with Cons.prems show ?thesis by (auto intro: exI [of _ "[]"])
  next
    case (Inr pb)
    obtain r1 w1 where one: "commit_prepared X ch ctx pb progress w = (r1, w1)" by fastforce
    from commit_prepared_reports [OF storage one] obtain new where new: "reports X (pc_sink_enabled ctx) new w w1" ..
    from Cons.prems Inr one have "w' = w1 \<or> (\<exists>progress' decoded'. commit_window X ch ctx ps progress' decoded' w1 = (r, w'))"
      by (auto split: sum.splits commit_outcome.splits)
    with new Cons.IH reports_more [OF new] show ?thesis by blast
  qed
qed

lemma commit_stream_reports:
  assumes storage: "pc_storage ctx = ledgered st"
  shows "commit_stream X H ch ctx idx plans progress decoded w = (r, w') \<Longrightarrow> \<exists>new. reports X (pc_sink_enabled ctx) new w w'"
proof (induction plans arbitrary: progress decoded w)
  case Nil
  then show ?case by (auto split: prod.splits dest: reports_checkpoint)
next
  case (Cons plan plans)
  obtain stop w1 where c: "checkpoint w = (stop, w1)" by fastforce
  obtain r2 w2 where p: "prepare_calls X H (pc_cache ctx) (pc_source ctx) ch idx plan w1 = (r2, w2)" by fastforce
  have w1: "reports X (pc_sink_enabled ctx) [] w w1" by (rule reports_checkpoint [OF c])
  have w2: "reports X (pc_sink_enabled ctx) [] w w2" by (rule reports_Nil_trans(1) [OF w1 prepare_calls_reports [OF p]])
  show ?case
  proof (cases "\<not> stop \<and> (\<exists>pb. res_bind r2 (\<lambda>prepared. finish_prepared X H idx prepared []) = Inr pb)")
    case False
    with Cons.prems c p have "w' = w1 \<or> w' = w2" by (auto split: if_splits sum.splits)
    with w1 w2 show ?thesis by blast
  next
    case True
    then obtain pb where pb: "res_bind r2 (\<lambda>prepared. finish_prepared X H idx prepared []) = Inr pb" by blast
    obtain r3 w3 where one: "commit_prepared X ch ctx pb progress w2 = (r3, w3)" by fastforce
    from commit_prepared_reports [OF storage one] obtain new where new: "reports X (pc_sink_enabled ctx) new w2 w3" ..
    note w3 = reports_Nil_trans(1) [OF w2 new]
    from Cons.prems True c p pb one
    have "w' = w3 \<or> (\<exists>progress' decoded'. commit_stream X H ch ctx idx plans progress' decoded' w3 = (r, w'))"
      by (auto split: sum.splits commit_outcome.splits)
    with w3 Cons.IH reports_more [OF w3] show ?thesis by blast
  qed
qed

section \<open>Polls\<close>

lemma run_window_reports:
  assumes storage: "pc_storage ctx = ledgered st" and run: "run_window X H ch ctx idx window progress decoded w = (r, w')"
  shows "\<exists>new. reports X (pc_sink_enabled ctx) new w w'"
proof (cases "\<exists>query. window_query window idx = Inr (Some query)")
  case False
  with run have "w' = w \<or> commit_stream X H ch ctx idx window progress decoded w = (r, w')"
    by (auto simp: run_window_def split: sum.splits option.splits)
  with commit_stream_reports [OF storage] reports_refl show ?thesis by blast
next
  case True
  then obtain query where query: "window_query window idx = Inr (Some query)" ..
  obtain stop w1 where c: "checkpoint w = (stop, w1)" by fastforce
  obtain r2 w2 where p: "prepare_event_window X H (pc_cache ctx) (pc_source ctx) ch idx window query w1 = (r2, w2)" by fastforce
  have w1: "reports X (pc_sink_enabled ctx) [] w w1" by (rule reports_checkpoint [OF c])
  have w2: "reports X (pc_sink_enabled ctx) [] w w2" by (rule reports_Nil_trans(1) [OF w1 prepare_window_reports [OF p]])
  from run query c p have "w' = w1 \<or> w' = w2 \<or> (\<exists>prepared. commit_window X ch ctx prepared progress decoded w2 = (r, w'))"
    by (auto simp: run_window_def split: if_splits sum.splits)
  with w1 w2 commit_window_reports [OF storage] reports_more [OF w2] show ?thesis by blast
qed

lemma run_windows_reports:
  assumes storage: "pc_storage ctx = ledgered st"
  shows "run_windows X H ch ctx idx windows progress decoded w = (r, w') \<Longrightarrow> \<exists>new. reports X (pc_sink_enabled ctx) new w w'"
proof (induction windows arbitrary: progress decoded w)
  case Nil
  then show ?case by (auto intro: exI [of _ "[]"])
next
  case (Cons window windows)
  obtain r1 w1 where one: "run_window X H ch ctx idx window progress decoded w = (r1, w1)" by fastforce
  from run_window_reports [OF storage one] obtain new where new: "reports X (pc_sink_enabled ctx) new w w1" ..
  from Cons.prems one have "w' = w1 \<or> (\<exists>progress' decoded'. run_windows X H ch ctx idx windows progress' decoded' w1 = (r, w'))"
    by (auto split: sum.splits loop_state.splits)
  with new Cons.IH reports_more [OF new] show ?case by blast
qed

lemma finish_poll_reports:
  assumes "reports X b new w w1" and "finish_poll ch ctx active head progress decoded w1 = (r, w')"
  shows "reports X b new w w'"
proof -
  have "reports X b new w (w1\<lparr>w_cache := c\<rparr>)" for c using assms(1) by simp
  with assms show ?thesis by (auto simp: finish_poll_def Let_def intro!: reports_then_event split: list.splits)
qed

lemma run_once_reports:
  assumes storage: "pc_storage ctx = ledgered st" and run: "run_once X H cfg ctx w = (r, w')"
  shows "\<exists>new. reports X (pc_sink_enabled ctx) new w w'"
proof -
  let ?b = "pc_sink_enabled ctx"
  obtain s1 w1 where c1: "checkpoint w = (s1, w1)" by fastforce
  obtain s2 w2 where c2: "checkpoint w1 = (s2, w2)" by fastforce
  obtain s3 w3 where c3: "checkpoint w2 = (s3, w3)" by fastforce
  have r1: "reports X ?b [] w w1" by (rule reports_checkpoint [OF c1])
  have r2: "reports X ?b [] w w2" by (rule reports_Nil_trans(1) [OF r1 reports_checkpoint [OF c2]])
  have r3: "reports X ?b [] w w3" by (rule reports_Nil_trans(1) [OF r2 reports_checkpoint [OF c3]])
  then have lag: "reports X ?b [] w (record_event (SetWorkerLag (chain_id_of (wc_chain cfg)) 0) w3)"
    by (rule reports_then_event) simp
  have "w' \<in> {w1, w2, w3, record_event (SetWorkerLag (chain_id_of (wc_chain cfg)) 0) w3}
    \<or> (\<exists>idx windows progress r4 w4. run_windows X H (wc_chain cfg) ctx idx windows progress 0 w2 = (r4, w4)
         \<and> (w' = w4 \<or> (\<exists>active head progress' decoded r5. finish_poll (wc_chain cfg) ctx active head progress' decoded w4 = (r5, w'))))"
    using run c1 c2 c3 by (auto simp: run_once_def Let_def split: if_splits sum.splits prod.splits loop_state.splits) blast+
  then show ?thesis
  proof
    assume "w' \<in> {w1, w2, w3, record_event (SetWorkerLag (chain_id_of (wc_chain cfg)) 0) w3}"
    with r1 r2 r3 lag show ?thesis by blast
  next
    assume "\<exists>idx windows progress r4 w4. run_windows X H (wc_chain cfg) ctx idx windows progress 0 w2 = (r4, w4)
      \<and> (w' = w4 \<or> (\<exists>active head progress' decoded r5. finish_poll (wc_chain cfg) ctx active head progress' decoded w4 = (r5, w')))"
    then obtain idx windows progress r4 w4 where windows: "run_windows X H (wc_chain cfg) ctx idx windows progress 0 w2 = (r4, w4)"
      and fin: "w' = w4 \<or> (\<exists>active head progress' decoded r5. finish_poll (wc_chain cfg) ctx active head progress' decoded w4 = (r5, w'))"
      by blast
    from run_windows_reports [OF storage windows] obtain new where "reports X ?b new w2 w4" ..
    then have "reports X ?b new w w4" by (rule reports_Nil_trans(1) [OF r2])
    with fin finish_poll_reports show ?thesis by blast
  qed
qed

end
