(* ===== verification/Postgres_Quiet.thy ===== *)
theory Postgres_Quiet
  imports Postgres_Storage Api
begin

text \<open>
  The errors of the PostgreSQL adapter are never invalid commands, as long as sqlx makes none up: no
  operation of the repository blames the client.
\<close>

section \<open>Quiet calls\<close>

definition quiet_call :: "('d \<Rightarrow> 'a result \<times> 'd) \<Rightarrow> bool" where
  "quiet_call m = (\<forall>d. quiet_result (fst (m d)))"

definition quiet_driver :: "'d postgres \<Rightarrow> bool" where
  "quiet_driver Q =
     (quiet_call (pq_begin Q) \<and> quiet_call (pq_commit Q) \<and> (\<forall>tx q. quiet_call (pq_execute Q tx q)))"

lemma quiet_Inr [simp]: "quiet_result (Inr v)"
  by (simp add: quiet_result_def)

lemma quiet_Inl [simp]: "quiet_result (Inl e) = quiet e"
  by (simp add: quiet_result_def)

lemma quiet_causes [simp]:
  "quiet (anyhow m)" "quiet [Backend m]" "quiet [AbiType m]" "quiet [AbiParse m]" "quiet [Panic m]" "quiet [InvalidMonitorId]"
  by (simp_all add: quiet_def anyhow_def is_invalid_command_def)

named_theorems quiet_rules

lemma quiet_bind [quiet_rules]: "quiet_result r \<Longrightarrow> (\<And>v. quiet_result (f v)) \<Longrightarrow> quiet_result (res_bind r f)"
  by (cases r) simp_all

lemma quiet_ensure [quiet_rules]: "quiet e \<Longrightarrow> quiet_result (ensure b e)"
  by (cases b) simp_all

lemma quiet_ok_or [quiet_rules]: "quiet e \<Longrightarrow> quiet_result (ok_or e x)"
  by (cases x) simp_all

lemma quiet_traverse [quiet_rules]: "(\<And>x. quiet_result (f x)) \<Longrightarrow> quiet_result (traverse f xs)"
  by (induction xs) (simp_all add: quiet_bind)

lemma quiet_traverse_option [quiet_rules]: "(\<And>x. quiet_result (f x)) \<Longrightarrow> quiet_result (traverse_option f x)"
  by (cases x) (simp_all add: traverse_option_def quiet_bind)

lemma quiet_foreign [quiet_rules]: "quiet_result (pg_foreign r)"
  by (cases r) (simp_all add: pg_foreign_def)

lemma quiet_call_lift [quiet_rules]: "quiet_result r \<Longrightarrow> quiet_call (io_lift r)"
  by (simp add: quiet_call_def io_lift_def)

lemma quiet_call_bind [quiet_rules]: "quiet_call m \<Longrightarrow> (\<And>v. quiet_call (f v)) \<Longrightarrow> quiet_call (io_bind m f)"
  by (auto simp: quiet_call_def io_bind_def split: prod.splits sum.splits) (metis fst_conv quiet_Inl)

lemma quiet_call_traverse [quiet_rules]: "(\<And>x. quiet_call (f x)) \<Longrightarrow> quiet_call (io_traverse f xs)"
  by (induction xs) (simp_all add: quiet_rules)

lemma quiet_call_each [quiet_rules]: "(\<And>x. quiet_call (f x)) \<Longrightarrow> quiet_call (io_each f xs)"
  by (simp add: io_each_def quiet_rules)

lemma quiet_fetch [quiet_rules]: "quiet_driver Q \<Longrightarrow> quiet_call (pg_fetch Q tx read q)"
  unfolding pg_fetch_def by (intro quiet_rules) (simp_all add: quiet_driver_def)

lemma quiet_fetch_some [quiet_rules]:
  "quiet_driver Q \<Longrightarrow> quiet_call (pg_fetch_one Q tx rows q)" "quiet_driver Q \<Longrightarrow> quiet_call (pg_fetch_optional Q tx rows q)"
  unfolding pg_fetch_one_def pg_fetch_optional_def by (intro quiet_rules; simp)+

lemma quiet_transaction [quiet_rules]: "quiet_driver Q \<Longrightarrow> quiet_call body \<Longrightarrow> quiet_call (pg_transaction Q body)"
  by (auto simp: quiet_driver_def quiet_call_def pg_transaction_def split: prod.splits sum.splits) (metis fst_conv quiet_Inl)+

section \<open>The conversions\<close>

lemma quiet_numbers [quiet_rules]:
  "quiet_result (pg_to_i64 v name)" "quiet_result (pg_from_i64 i name)" "quiet_result (pg_to_monitor_id mid)"
  "quiet_result (pg_from_monitor_id i)" "quiet_result (pg_address bs)" "quiet_result (pg_selector bs)" "quiet_result (pg_b256 bs name)"
  by (auto simp: pg_to_i64_def pg_from_i64_def pg_to_monitor_id_def pg_from_monitor_id_def pg_address_def pg_selector_def
      pg_b256_def monitor_id_new_def intro!: quiet_bind)

lemma quiet_supported [quiet_rules]: "quiet_result (ensure_supported_type X ty)"
  by (cases ty) (simp_all add: ensure_supported_type_def)

lemma quiet_types [quiet_rules]:
  "quiet_result (parse_abi_type X s)" "quiet_result (abi_param_new X n ty)" "quiet_result (pg_column_type_of X p)"
proof -
  have "quiet_result (map_err (\<lambda>e. [AbiType e]) r)" for r :: "string + 'b" by (cases r) simp_all
  then show parse: "quiet_result (parse_abi_type X s)" for s unfolding parse_abi_type_def by (intro quiet_rules) simp_all
  show "quiet_result (abi_param_new X n ty)" unfolding abi_param_new_def by (intro quiet_rules) simp_all
  show "quiet_result (pg_column_type_of X p)"
    unfolding pg_column_type_of_def by (intro quiet_bind parse) (auto split: dyn_sol_type.splits)
qed

lemma quiet_rows [quiet_rules]:
  "quiet_result (pg_target X row)" "quiet_result (pg_filter_definition row)" "quiet_result (pg_monitor_record X row)"
  "quiet_result (pg_chain_record U chain)" "quiet_result (pg_monitor_input_of X nm)"
proof -
  show target: "quiet_result (pg_target X row)"
    unfolding pg_target_def pg_param_to_abi_def by (auto intro!: quiet_rules)
  show flt: "quiet_result (pg_filter_definition row)"
    by (simp add: pg_filter_definition_def pg_incomplete_filter_def split: option.splits)
  show "quiet_result (pg_monitor_record X row)"
    unfolding pg_monitor_record_def by (intro quiet_rules target flt) simp
  show "quiet_result (pg_chain_record U chain)" unfolding pg_chain_record_def by (intro quiet_rules) simp
  show "quiet_result (pg_monitor_input_of X nm)"
    unfolding pg_monitor_input_of_def Let_def by (auto intro!: quiet_rules split: prod.splits)
qed

section \<open>The repository\<close>

lemma quiet_identifier [quiet_rules]: "quiet_result (identifier_new n)" "quiet_result (result_table i)"
  by (auto simp: identifier_new_def result_table_def result_table_name_def intro!: quiet_bind)

lemma quiet_params [quiet_rules]: "quiet_result (postgres_params X kind schema)" "quiet_result (table_columns kind)"
  "quiet_result (param_column p)"
  unfolding postgres_params_def reserved_columns_def table_columns_def param_column_def
  by (auto intro!: quiet_rules split: prod.splits)

lemma quiet_drop [quiet_rules]: "quiet_driver Q \<Longrightarrow> quiet_call (drop_result_table Q i)"
  unfolding drop_result_table_def by (intro quiet_rules) simp_all

lemma quiet_create [quiet_rules]: "quiet_driver Q \<Longrightarrow> quiet_call (create_result_table X Q i kind schema)"
  unfolding create_result_table_def by (intro quiet_rules) simp_all

lemma quiet_not_found [simp]: "quiet (pg_chain_not_found c)"
  by (simp add: pg_chain_not_found_def)

lemmas repository_changes = repo_create_chain_def repo_update_chain_def repo_delete_chain_def delete_chain_body_def
  create_prepared_def create_monitor_body_def repo_set_enabled_def repo_delete_monitor_def delete_monitor_body_def io_map_def

lemma pg_repository_quiet:
  assumes "quiet_driver Q"
  shows "quiet_repository (pg_repository X C Q)"
proof -
  have "quiet_call (io_map (pg_chain_record U) (repo_create_chain Q ch u b))"
    and "quiet_call (io_map (pg_chain_record U) (repo_update_chain Q c ou ob))"
    and "quiet_call (repo_delete_chain Q c)"
    and "quiet_call (io_map (pg_monitor_record X) (create_prepared X Q nm))"
    and "quiet_call (io_map (pg_monitor_record X) (repo_set_enabled Q mid b))"
    and "quiet_call (repo_delete_monitor Q mid)" for U ch u b c ou ob nm mid
    unfolding repository_changes by (intro quiet_rules assms; simp)+
  then show ?thesis by (simp add: quiet_repository_def pg_repository_def Let_def quiet_call_def)
qed

end
