(* ===== verification/Exactly_Once.thy ===== *)
theory Exactly_Once
  imports Mongo_Port Deployed_Store
begin

text \<open>
  The worker, the services and the MongoDB adapter composed: the adapter keeps the contract of
  \<open>deployed_store\<close>, so that at every moment the results stored for a monitor are those the finalized
  chain dictates for the blocks from its start to its cursor, each once.
\<close>

section \<open>What a stored monitor row demands\<close>

definition row_results :: "mongo_db \<Rightarrow> i64 \<Rightarrow> result_row list" where
  "row_results db i = filter (\<lambda>r. rdoc_monitor_id r = i) (db_results db)"

definition row_exact :: "externs \<Rightarrow> (chain \<Rightarrow> chain_data) \<Rightarrow> mongo_db \<Rightarrow> monitor_document \<Rightarrow> bool" where
  "row_exact X D db row =
     (\<forall>m. mongo_monitor X row = Inr m \<longrightarrow>
        (case cursor_block (mon_cursor m) of None \<Rightarrow> True | Some c \<Rightarrow> mon_start_block m \<le> c \<and> c < - 1)
        \<and> mset (row_results db (mdoc_id row))
            = mset (map (mongo_encode X m)
                (concat (map (monitor_truth X (D (mon_chain m)) m) (done_blocks m (cursor_block (mon_cursor m)))))))"

definition database_exact :: "externs \<Rightarrow> (chain \<Rightarrow> chain_data) \<Rightarrow> mongo_db \<Rightarrow> bool" where
  "database_exact X D db = (\<forall>row \<in> set (db_monitors db). row_exact X D db row)"

text \<open>The part of a row no commit and no switch changes.\<close>

definition same_definition :: "monitor_document \<Rightarrow> monitor_document \<Rightarrow> bool" where
  "same_definition row row' =
     (row' = row\<lparr>mdoc_cursor := mdoc_cursor row', mdoc_completed := mdoc_completed row',
                 mdoc_enabled := mdoc_enabled row', mdoc_updated_at := mdoc_updated_at row'\<rparr>)"

lemma same_definition_refl [simp]: "same_definition row row"
  by (simp add: same_definition_def)

lemma same_definition_trans: "same_definition a b \<Longrightarrow> same_definition b c \<Longrightarrow> same_definition a c"
  unfolding same_definition_def by (cases a; cases b; cases c) simp

lemma same_definition_id: "same_definition row row' \<Longrightarrow> mdoc_id row' = mdoc_id row"
  unfolding same_definition_def by (cases row; cases row') simp

lemma same_definition_commit: "same_definition row (commit_update b t row)"
  by (cases row) (simp add: same_definition_def commit_update_def)

lemma same_definition_enabled: "same_definition row (enabled_set b t row)"
  by (cases row) (simp add: same_definition_def enabled_set_def)

lemma same_definition_target:
  assumes "same_definition row row'"
  shows "mongo_target X row' = mongo_target X row" and "mongo_filter X row' t = mongo_filter X row t"
proof -
  have fields: "mdoc_address row' = mdoc_address row" "mdoc_param_schema row' = mdoc_param_schema row"
    "mdoc_kind row' = mdoc_kind row" "mdoc_signature_hash row' = mdoc_signature_hash row" "mdoc_id row' = mdoc_id row"
    "mdoc_filter_ast row' = mdoc_filter_ast row" "mdoc_filter_version row' = mdoc_filter_version row"
    using assms unfolding same_definition_def by (cases row; cases row'; simp)+
  show "mongo_target X row' = mongo_target X row" unfolding mongo_target_def fields ..
  show "mongo_filter X row' t = mongo_filter X row t" unfolding mongo_filter_def incomplete_filter_def fields ..
qed

lemma same_definition_monitor:
  assumes "mongo_monitor X row' = Inr m'" and "same_definition row row'" and "monitor_row_ok row"
  shows "\<exists>m. mongo_monitor X row = Inr m \<and> fresh_monitor m' = fresh_monitor m
    \<and> cursor_block (mon_cursor m) = map_option word_of_int (mdoc_cursor row)"
proof -
  have fields: "mdoc_id row' = mdoc_id row" "mdoc_chain_id row' = mdoc_chain_id row"
    "mdoc_start_block row' = mdoc_start_block row" "mdoc_end_block row' = mdoc_end_block row"
    using assms(2) unfolding same_definition_def by (cases row; cases row'; simp)+
  have "\<exists>cur. traverse_option (\<lambda>v. from_i64 v ''cursor'') (mdoc_cursor row) = Inr cur \<and> cur = map_option word_of_int (mdoc_cursor row)"
    using assms(3) by (auto simp: monitor_row_ok_def from_i64_def split: option.splits)
  with assms(1) show ?thesis
    unfolding mongo_monitor_def same_definition_target [OF assms(2)] fields
    by (auto simp: res_simps fresh_monitor_def)
qed

lemma locked_single: "locked_monitor [m] i
    = (if mon_id m = i then Inr m else Inl (anyhow (''monitor '' @ show_u64 (monitor_id_get i) @ '' was not locked'')))"
  by (simp add: locked_monitor_def)

lemma fresh_encode:
  assumes "fresh_monitor m' = fresh_monitor m"
  shows "mongo_encode X m' = mongo_encode X m"
proof
  fix r
  have "result_document X c [m'] r = result_document X c [m] r" for c
  proof (cases r)
    case (ResultCall call)
    show ?thesis
      by (cases "mon_id m = dc_monitor_id call") (simp_all add: ResultCall result_document_def locked_single fresh_fields [OF assms])
  next
    case (ResultEvent event)
    show ?thesis
      by (cases "mon_id m = de_monitor_id event") (simp_all add: ResultEvent result_document_def locked_single fresh_fields [OF assms])
  qed
  then show "mongo_encode X m' r = mongo_encode X m r"
    by (simp add: mongo_encode_def fresh_fields [OF assms])
qed

section \<open>Changes made through the services\<close>

lemma row_ok: "database_ok db \<Longrightarrow> row \<in> set (db_monitors db) \<Longrightarrow> monitor_row_ok row"
  by (rule database_ok_rows)

text \<open>
  What a change does to the rows: a row was there before, with the same definition, cursor and
  results, or is a new one of a usable monitor.
\<close>

definition row_kept :: "mongo_db \<Rightarrow> mongo_db \<Rightarrow> monitor_document \<Rightarrow> bool" where
  "row_kept db db' row' =
     (\<exists>row \<in> set (db_monitors db). same_definition row row' \<and> mdoc_cursor row' = mdoc_cursor row
        \<and> row_results db' (mdoc_id row) = row_results db (mdoc_id row))"

definition row_new :: "externs \<Rightarrow> mongo_db \<Rightarrow> monitor_document \<Rightarrow> bool" where
  "row_new X db' row' =
     (mdoc_cursor row' = None \<and> row_results db' (mdoc_id row') = []
      \<and> (\<forall>t. mongo_target X row' = Inr t \<longrightarrow> schema_ok (target_params t)))"

definition rows_change :: "externs \<Rightarrow> mongo_db \<Rightarrow> mongo_db \<Rightarrow> bool" where
  "rows_change X db db' = (\<forall>row' \<in> set (db_monitors db'). row_kept db db' row' \<or> row_new X db' row')"

lemma row_kept_same:
  "row' \<in> set (db_monitors db) \<Longrightarrow> row_results db' (mdoc_id row') = row_results db (mdoc_id row') \<Longrightarrow> row_kept db db' row'"
  unfolding row_kept_def by (rule bexI [of _ row']) simp_all

lemma rows_change_same:
  "set (db_monitors db') \<subseteq> set (db_monitors db) \<Longrightarrow> db_results db' = db_results db \<Longrightarrow> rows_change X db db'"
  unfolding rows_change_def row_results_def [abs_def]
  by (intro ballI disjI1 row_kept_same) (auto simp: row_results_def)

lemma rows_change_enabled: "rows_change X db (db_monitors_update (update_first p (enabled_set b t)) db)"
  unfolding rows_change_def
proof
  let ?db' = "db_monitors_update (update_first p (enabled_set b t)) db"
  fix row' assume "row' \<in> set (db_monitors ?db')"
  then have "row' \<in> set (db_monitors db) \<or> (\<exists>row \<in> set (db_monitors db). row' = enabled_set b t row)"
    by (auto dest: set_update_first)
  then show "row_kept db ?db' row' \<or> row_new X ?db' row'"
  proof
    assume "row' \<in> set (db_monitors db)"
    then show ?thesis by (intro disjI1 row_kept_same) (simp_all add: row_results_def)
  next
    assume "\<exists>row \<in> set (db_monitors db). row' = enabled_set b t row"
    then obtain row where "row \<in> set (db_monitors db)" "row' = enabled_set b t row" by blast
    with same_definition_enabled have "row_kept db ?db' row'"
      unfolding row_kept_def by (intro bexI [of _ row]) (simp_all add: row_results_def enabled_set_def)
    then show ?thesis ..
  qed
qed

lemma rows_change_create:
  assumes ok: "database_ok db" and row: "monitor_template X t nm = Inr template"
    and laws: "type_text_laws X" "hash_text_laws X" and schema: "schema_ok (target_params (nm_target nm))"
  shows "rows_change X db (create_monitor_effect template db)"
  unfolding rows_change_def
proof
  let ?i = "counter_value db ''monitors'' + 1" and ?db' = "create_monitor_effect template db"
  have results: "row_results ?db' k = row_results db k" for k
    by (simp add: row_results_def create_monitor_effect_def)
  have none: "row_results db ?i = []"
    using result_owner [OF ok] monitor_id_bounds [OF ok] by (fastforce simp: row_results_def filter_empty_conv)
  have "row_new X ?db' (template\<lparr>mdoc_id := ?i\<rparr>)"
    using monitor_template_fields(4) [OF row] monitor_template_target [OF laws schema row] schema
    by (simp add: row_new_def results none)
  moreover fix row' assume "row' \<in> set (db_monitors ?db')"
  ultimately show "row_kept db ?db' row' \<or> row_new X ?db' row'"
    using row_kept_same [of row' db ?db', OF _ results] by (auto simp: create_monitor_effect_def)
qed

lemma results_of_chain:
  assumes ok: "database_ok db" and ids: "distinct (map mdoc_id (db_monitors db))"
    and row: "row \<in> set (db_monitors db)" and r: "r \<in> set (db_results db)" "rdoc_monitor_id r = mdoc_id row"
  shows "rdoc_chain_id r = mdoc_chain_id row"
proof -
  from result_owner [OF ok r(1)]
  obtain m where m: "m \<in> set (db_monitors db)" "mdoc_id m = rdoc_monitor_id r" "mdoc_chain_id m = rdoc_chain_id r" by blast
  with ids row r(2) have "m = row" by (auto simp: distinct_map dest: inj_onD)
  with m(3) show ?thesis by simp
qed

lemma rows_change_delete_chain:
  assumes ok: "database_ok db" and ids: "distinct (map mdoc_id (db_monitors db))"
  shows "rows_change X db (delete_chain_effect i db)"
  unfolding rows_change_def
proof
  fix row' assume "row' \<in> set (db_monitors (delete_chain_effect i db))"
  then have row': "row' \<in> set (db_monitors db)" "mdoc_chain_id row' \<noteq> i" by (auto simp: delete_chain_effect_def)
  have "row_results (delete_chain_effect i db) (mdoc_id row') = row_results db (mdoc_id row')"
    using results_of_chain [OF ok ids row'(1)] row'(2)
    by (auto simp: row_results_def delete_chain_effect_def intro!: filter_cong)
  from row_kept_same [OF row'(1) this]
  show "row_kept db (delete_chain_effect i db) row' \<or> row_new X (delete_chain_effect i db) row'" ..
qed

lemma rows_change_delete_monitor:
  assumes ids: "distinct (map mdoc_id (db_monitors db))"
  shows "rows_change X db (delete_monitor_effect i db)"
  unfolding rows_change_def
proof
  fix row' assume "row' \<in> set (db_monitors (delete_monitor_effect i db))"
  then have row': "row' \<in> set (db_monitors db)" "mdoc_id row' \<noteq> i"
    using delete_first_distinct [OF ids, of i] by (auto simp: delete_monitor_effect_def)
  have "row_results (delete_monitor_effect i db) (mdoc_id row') = row_results db (mdoc_id row')"
    using row'(2) by (auto simp: row_results_def delete_monitor_effect_def intro!: filter_cong)
  from row_kept_same [OF row'(1) this]
  show "row_kept db (delete_monitor_effect i db) row' \<or> row_new X (delete_monitor_effect i db) row'" ..
qed

lemma stored_filter_compiled: "mongo_filter X row t = Inr f \<Longrightarrow> filter_compiled X t f"
  by (auto simp: mongo_filter_def compile_definition_def filter_compiled_def res_simps split: option.splits if_splits)

lemma row_new_monitor_ok: "row_new X db row \<Longrightarrow> mongo_monitor X row = Inr m \<Longrightarrow> monitor_ok X m"
  using stored_filter_compiled by (auto simp: monitor_ok_def mongo_monitor_def row_new_def res_simps)

section \<open>The adapter as a store of monitors\<close>

definition mongo_stored :: "externs \<Rightarrow> 'd mongo_view \<Rightarrow> 'd \<Rightarrow> monitor \<Rightarrow> bool" where
  "mongo_stored X V d m = (\<exists>row \<in> set (db_monitors (vw_committed V d)). mongo_monitor X row = Inr m)"

context mongo_index begin

lemma row_of_monitor:
  assumes inv: "mongo_invariant V d" and row: "row \<in> set (db_monitors (vw_committed V d))" and m: "mongo_monitor X row = Inr m"
  shows "mongo_cursor V d (mon_id m) = cursor_block (mon_cursor m)"
    and "mongo_rows V d (mon_id m) = row_results (vw_committed V d) (mdoc_id row)"
    and "uint (monitor_id_get (mon_id m)) = mdoc_id row"
proof -
  have ok: "database_ok (vw_committed V d)" and ids: "distinct (map mdoc_id (db_monitors (vw_committed V d)))"
    using inv unique_ok_identities by (auto simp: mongo_invariant_def identities_ok_def)
  show id: "uint (monitor_id_get (mon_id m)) = mdoc_id row"
    using monitor_id_bounds [OF ok row] mongo_monitor_fields(1) [OF m] by (simp add: uint_word_of_int_64)
  show "mongo_cursor V d (mon_id m) = cursor_block (mon_cursor m)"
    using find_distinct_key [OF ids row] mongo_monitor_fields(3) [OF m] by (simp add: mongo_cursor_def id)
  show "mongo_rows V d (mon_id m) = row_results (vw_committed V d) (mdoc_id row)"
    by (simp add: mongo_rows_def row_results_def id)
qed

lemma row_exact_stored:
  assumes "mongo_invariant V d" and "row \<in> set (db_monitors (vw_committed V d))" and m: "mongo_monitor X row = Inr m"
  shows "row_exact X D (vw_committed V d) row
    \<longleftrightarrow> stored_exactly (mongo_cursor V) (mongo_rows V) (mongo_encode X) X (D (mon_chain m)) d m"
  using row_of_monitor [OF assms] m by (simp add: row_exact_def stored_exactly_def)

text \<open>A database is exact when its rows are.\<close>

lemma database_exact_stored:
  assumes "mongo_invariant V d"
  shows "database_exact X D (vw_committed V d)
    \<longleftrightarrow> store_exact (mongo_stored X V) (mongo_cursor V) (mongo_rows V) (mongo_encode X) X D d"
proof -
  have "database_exact X D (vw_committed V d)
      \<longleftrightarrow> (\<forall>row \<in> set (db_monitors (vw_committed V d)). \<forall>m. mongo_monitor X row = Inr m \<longrightarrow>
        stored_exactly (mongo_cursor V) (mongo_rows V) (mongo_encode X) X (D (mon_chain m)) d m)"
    unfolding database_exact_def using row_exact_stored [OF assms] by (metis row_exact_def)
  then show ?thesis by (auto simp: store_exact_def mongo_stored_def)
qed

lemma commit_keeps_rows:
  assumes "mongo_commit_block X M c d = Some (r, d')" and "row' \<in> set (db_monitors (vw_committed V d'))"
  shows "\<exists>row \<in> set (db_monitors (vw_committed V d)). same_definition row row'"
proof (cases r)
  case (Inl e)
  with commit_block_outcome [OF assms(1)] assms(2) show ?thesis by (auto intro: same_definition_refl)
next
  case (Inr u)
  with commit_block_outcome [OF assms(1)] obtain inp t where "vw_committed V d' = commit_effect t inp (vw_committed V d)" by auto
  with assms(2) show ?thesis
    by (cases inp) (auto simp: commit_effect_def intro: same_definition_commit same_definition_refl)
qed

end

sublocale mongo_index \<subseteq> store: monitor_store "mongo_index_storage X M" "mongo_invariant V"
  "mongo_cursor V" "mongo_rows V" "mongo_encode X" "mongo_stored X V"
proof (unfold_locales, goal_cases)
  case (1 s ch ms m)
  then show ?case using load_facts(2) by (fastforce simp: mongo_index_storage_def mongo_stored_def)
next
  case (2 s m m')
  then obtain row row' where row: "row \<in> set (db_monitors (vw_committed V s))" "mongo_monitor X row = Inr m"
    "row' \<in> set (db_monitors (vw_committed V s))" "mongo_monitor X row' = Inr m'" by (auto simp: mongo_stored_def)
  have "distinct (map mdoc_id (db_monitors (vw_committed V s)))"
    using 2(1) unique_ok_identities by (auto simp: mongo_invariant_def identities_ok_def)
  moreover have "mdoc_id row' = mdoc_id row"
    using row_of_monitor(3) [OF 2(1) row(1,2)] row_of_monitor(3) [OF 2(1) row(3,4)] 2(4) by simp
  ultimately have "row' = row" using row(1,3) by (auto simp: distinct_map dest: inj_onD)
  with row show ?case by simp
next
  case (3 s c r s' m')
  then obtain row' where row': "row' \<in> set (db_monitors (vw_committed V s'))" "mongo_monitor X row' = Inr m'"
    by (auto simp: mongo_stored_def)
  have "\<exists>row \<in> set (db_monitors (vw_committed V s)). same_definition row row'"
  proof (cases "mongo_commit_block X M c s")
    case None
    with 3(2) row'(1) show ?thesis by (auto simp: mongo_index_storage_def settled_def intro: same_definition_refl)
  next
    case (Some rd)
    with 3(2) have "mongo_commit_block X M c s = Some (r, s')" by (simp add: mongo_index_storage_def settled_def)
    from commit_keeps_rows [OF this row'(1)] show ?thesis .
  qed
  then obtain row where row: "row \<in> set (db_monitors (vw_committed V s))" "same_definition row row'" by blast
  from 3(1) have "monitor_row_ok row" using row_ok row(1) by (auto simp: mongo_invariant_def)
  from same_definition_monitor [OF row'(2) row(2) this] row(1) show ?case by (auto simp: mongo_stored_def)
next
  case (4 m' m)
  then show ?case by (rule fresh_encode)
qed

section \<open>The deployed program over MongoDB\<close>

lemma settled_cases: "settled outcome d = (r, d') \<Longrightarrow> d' = d \<or> outcome = Some (r, d')"
  by (auto simp: settled_def split: option.splits)

locale mongo_deployment = mongo_index M V X for M :: "'d mongo" and V :: "'d mongo_view" and X :: externs +
  fixes Y :: row_readers
  assumes hash_texts: "hash_text_laws X"
begin

abbreviation same_rows :: "'d \<Rightarrow> 'd \<Rightarrow> bool" where
  "same_rows d d' \<equiv> vw_committed V d' = vw_committed V d"

lemma change_rows:
  assumes change: "storage_change (mongo_repository X Y M) d d'" and types: "type_text_laws X" and inv: "mongo_invariant V d"
  shows "mongo_invariant V d' \<and> rows_change X (vw_committed V d) (vw_committed V d')"
proof -
  let ?db = "vw_committed V d"
  have ok: "database_ok ?db" and ids: "distinct (map mdoc_id (db_monitors ?db))"
    using inv unique_ok_identities by (auto simp: mongo_invariant_def identities_ok_def)
  have same: "rows_change X ?db ?db" by (simp add: rows_change_same)
  have changed: "rows_change X ?db (vw_committed V d')" if "changes_to Q d d'" "\<And>db'. Q ?db db' \<Longrightarrow> rows_change X ?db db'" for Q
    using that same by (auto simp: changes_to_def)
  have kept: "mongo_invariant V d'" if "admin_step X Y M d d'" using admin_keeps_invariant [OF that inv] .
  have stay: ?thesis if "d' = d" using inv same that by simp
  from change show ?thesis
  proof cases
    case (change_create_chain nc r)
    then have run: "mongo_create_chain Y M nc d = (r, d')" by (simp add: mongo_repository_def)
    show ?thesis
      by (rule conjI [OF kept [OF step_create_chain [OF run]]], rule changed [OF create_chain_changes [OF run]]) (auto intro: rows_change_same)
  next
    case (change_update_chain ch u r)
    then have run: "mongo_update_chain Y M ch u d = (r, d')" by (simp add: mongo_repository_def)
    show ?thesis
      by (rule conjI [OF kept [OF step_update_chain [OF run]]], rule changed [OF update_chain_changes [OF run]]) (auto intro: rows_change_same)
  next
    case (change_delete_chain ch r)
    then have "settled (mongo_delete_chain M ch d) d = (r, d')" by (simp add: mongo_repository_def)
    from settled_cases [OF this] show ?thesis
    proof
      assume run: "mongo_delete_chain M ch d = Some (r, d')"
      show ?thesis
        by (rule conjI [OF kept [OF step_delete_chain [OF run]]], rule changed [OF delete_chain_changes [OF run]]) (auto intro: rows_change_delete_chain [OF ok ids])
    qed (rule stay)
  next
    case (change_create_monitor nm r)
    then have "settled (mongo_create_monitor X Y M nm d) d = (r, d')" by (simp add: mongo_repository_def)
    from settled_cases [OF this] show ?thesis
    proof
      assume run: "mongo_create_monitor X Y M nm d = Some (r, d')"
      show ?thesis
        by (rule conjI [OF kept [OF step_create_monitor [OF run]]], rule changed [OF create_monitor_changes [OF run]]) (auto intro: rows_change_create [OF ok _ types hash_texts change_create_monitor(2)])
    qed (rule stay)
  next
    case (change_set_enabled i b r)
    then have run: "mongo_set_monitor_enabled X Y M i b d = (r, d')" by (simp add: mongo_repository_def)
    show ?thesis
      by (rule conjI [OF kept [OF step_set_enabled [OF run]]], rule changed [OF set_enabled_changes [OF run]]) (auto intro: rows_change_enabled)
  next
    case (change_delete_monitor i r)
    then have "settled (mongo_delete_monitor M i d) d = (r, d')" by (simp add: mongo_repository_def)
    from settled_cases [OF this] show ?thesis
    proof
      assume run: "mongo_delete_monitor M i d = Some (r, d')"
      show ?thesis
        by (rule conjI [OF kept [OF step_delete_monitor [OF run]]], rule changed [OF delete_monitor_changes [OF run]]) (auto intro: rows_change_delete_monitor [OF ids])
    qed (rule stay)
  qed
qed

end

sublocale mongo_deployment \<subseteq> deployed: deployed_store "mongo_index_storage X M" "mongo_invariant V"
  "mongo_cursor V" "mongo_rows V" "mongo_encode X" "mongo_stored X V" X "mongo_repository X Y M"
proof (unfold_locales, goal_cases)
  case (1 s s')
  from change_rows [OF 1(3,1,2)] have inv: "mongo_invariant V s'"
    and rows: "rows_change X (vw_committed V s) (vw_committed V s')" by blast+
  have "change_ok X (mongo_stored X V) (mongo_cursor V) (mongo_rows V) s s'"
    unfolding change_ok_def
  proof (intro allI impI)
    fix m' assume "mongo_stored X V s' m'"
    then obtain row' where row': "row' \<in> set (db_monitors (vw_committed V s'))" "mongo_monitor X row' = Inr m'"
      by (auto simp: mongo_stored_def)
    note held' = row_of_monitor [OF inv row']
    from rows row'(1) consider "row_kept (vw_committed V s) (vw_committed V s') row'" | "row_new X (vw_committed V s') row'"
      by (auto simp: rows_change_def)
    then show "(\<exists>m. mongo_stored X V s m \<and> fresh_monitor m' = fresh_monitor m
          \<and> mongo_cursor V s' (mon_id m) = mongo_cursor V s (mon_id m) \<and> mongo_rows V s' (mon_id m) = mongo_rows V s (mon_id m))
        \<or> (mongo_cursor V s' (mon_id m') = None \<and> mongo_rows V s' (mon_id m') = [] \<and> monitor_ok X m')"
    proof cases
      case 1
      then obtain row where row: "row \<in> set (db_monitors (vw_committed V s))" "same_definition row row'"
        "mdoc_cursor row' = mdoc_cursor row"
        "row_results (vw_committed V s') (mdoc_id row) = row_results (vw_committed V s) (mdoc_id row)"
        by (auto simp: row_kept_def)
      have "monitor_row_ok row" using \<open>mongo_invariant V s\<close> row_ok row(1) by (auto simp: mongo_invariant_def)
      from same_definition_monitor [OF row'(2) row(2) this] obtain m where m: "mongo_monitor X row = Inr m"
        "fresh_monitor m' = fresh_monitor m" "cursor_block (mon_cursor m) = map_option word_of_int (mdoc_cursor row)" by blast
      note held = row_of_monitor [OF \<open>mongo_invariant V s\<close> row(1) m(1)]
      have "mon_id m' = mon_id m" by (rule fresh_fields(1) [OF m(2)])
      with held held' row(3,4) m same_definition_id [OF row(2)] mongo_monitor_fields(3) [OF row'(2)]
      have "mongo_cursor V s' (mon_id m) = mongo_cursor V s (mon_id m)" "mongo_rows V s' (mon_id m) = mongo_rows V s (mon_id m)"
        by auto
      with m row(1) show ?thesis by (auto simp: mongo_stored_def)
    next
      case 2
      with held' mongo_monitor_fields(3) [OF row'(2)] row_new_monitor_ok [OF 2 row'(2)] show ?thesis
        by (auto simp: row_new_def)
    qed
  qed
  with inv show ?case by blast
qed

context mongo_deployment begin

text \<open>Exactly-once indexing, on the database itself.\<close>

lemma deployment_keeps_exact:
  assumes "(deployed_step X H S D (mongo_index_storage X M) (mongo_repository X Y M))\<^sup>*\<^sup>* d d'" and "deployment_ok X H S D"
    and inv: "mongo_invariant V d" and "database_exact X D (vw_committed V d)" and "\<forall>m. mongo_stored X V d m \<longrightarrow> monitor_ok X m"
  shows "mongo_invariant V d' \<and> database_exact X D (vw_committed V d') \<and> (\<forall>m. mongo_stored X V d' m \<longrightarrow> monitor_ok X m)"
proof -
  have "store_exact (mongo_stored X V) (mongo_cursor V) (mongo_rows V) (mongo_encode X) X D d"
    using assms(4) database_exact_stored [OF inv] by blast
  from deployed.deployed_keeps_exact [OF assms(1,2) inv this assms(5)] database_exact_stored show ?thesis by blast
qed

end

end
