(* ===== verification/System_Properties.thy ===== *)
theory System_Properties
  imports Exactly_Once Mongo_Properties Rpc_Properties Postgres_Reference
begin

text \<open>
  The properties of the composed system, from an empty database on, with the scenarios their
  witnesses run: a chain and a monitor are created through the API and a worker polls.
\<close>

definition ex_mongo_context :: "(created_cache, ref_server) poll_context" where
  "ex_mongo_context =
     \<lparr>pc_storage = mongo_index_storage ref_externs ref_mongo, pc_source = ex_source,
      pc_cache = created_cache_ops ex_policy, pc_writes_open = True, pc_sink_enabled = True\<rparr>"

definition empty_database :: mongo_db where
  "empty_database = \<lparr>db_chains = [], db_monitors = [], db_results = [], db_counters = []\<rparr>"

text \<open>From a fresh database on, over any block sources that are faithful to their chain.\<close>

theorem indexing_is_exactly_once:
  assumes "mongo_server M V" and "mongo_connect M database d0 = (Inr (), d1)"
    and "vw_committed V d0 = empty_database" and "unique_ok (vw_indexes V d0) (vw_committed V d0)"
    and "hash_text_laws X" and "deployment_ok X H S D"
    and "(deployed_step X H S D (mongo_index_storage X M) (mongo_repository X Y M))\<^sup>*\<^sup>* d1 d"
  shows "database_exact X D (vw_committed V d) \<and> database_ok (vw_committed V d) \<and> identities_ok (vw_committed V d)"
proof -
  note connected = mongo_server.connect_effect [OF assms(1,2,4)]
  then have start: "mongo_invariant V d1" "database_exact X D (vw_committed V d1)"
    "\<forall>m. mongo_stored X V d1 m \<longrightarrow> monitor_ok X m"
    by (auto simp: mongo_invariant_def database_ok_def assms(3) empty_database_def counter_value_def mongo_stored_def
        database_exact_def)
  have "mongo_deployment M V X"
    by (intro mongo_deployment.intro mongo_deployment_axioms.intro mongo_index.intro assms(1,5))
  from mongo_deployment.deployment_keeps_exact [OF this assms(7,6) start] unique_ok_identities
  show ?thesis by (auto simp: mongo_invariant_def)
qed

section \<open>The deployed program\<close>

text \<open>
  C1. Exactly-once indexing. On a fresh database, whatever sequence of API requests and of polls
  over JSON-RPC endpoints happens (polls that fail or are cancelled at any point, requests an endpoint refuses, drops or
  answers short, transactions that are retried, workers that restart with another cache, monitors
  created, disabled, enabled and deleted, chains removed), the results stored for every monitor are
  exactly those the finalized chain dictates for the blocks from its start block to its stored
  cursor: none is missing, none is stored twice, none comes from elsewhere.
\<close>

theorem deployment_is_exactly_once:
  assumes "mongo_server M V" and "mongo_connect M database d0 = (Inr (), d1)"
    and "vw_committed V d0 = empty_database" and "unique_ok (vw_indexes V d0) (vw_committed V d0)"
    and "type_text_laws X" and "hash_text_laws X" and "abi_decode_laws X" and "hash_order_ok H"
    and "\<forall>fs. mset (F fs) = mset fs" and "\<forall>ch. endpoint_truthful (P ch) (D ch) \<and> chain_data_ok (D ch)"
    and "(deployed_step X H (rpc_sources X F P) D (mongo_index_storage X M) (mongo_repository X Y M))\<^sup>*\<^sup>* d1 d"
  shows "database_exact X D (vw_committed V d) \<and> database_ok (vw_committed V d) \<and> identities_ok (vw_committed V d)"
  by (rule indexing_is_exactly_once [OF assms(1-4,6) rpc_deployment_ok [OF assms(5,7-10)] assms(11)])

definition ex_repository :: "ref_server repository" where
  "ex_repository = mongo_repository ref_externs ref_readers ref_mongo"

definition ex_rpc_factory :: source_factory where
  "ex_rpc_factory = (\<lambda>u. Inr (rpc_block_source ref_externs rev ref_provider ref_moments))"

definition ex_add_chain :: api_request where
  "ex_add_chain = PostChains (Inr \<lparr>ccd_rpc_url = ''http://node'', ccd_enabled = True\<rparr>)"

definition ex_add_monitor :: api_request where
  "ex_add_monitor =
     PostMonitors (Inr \<lparr>cmd_chain_id = 1, cmd_address = 17, cmd_signature = ''function pay(uint256 amount)'',
       cmd_start_block = Some 5, cmd_end_block = Some 6, cmd_filter = None\<rparr>)"

definition ex_app :: "ref_server app" where
  "ex_app = snd (api_handle ref_externs ex_repository ex_rpc_factory ex_rpc_factory ex_add_chain
     \<lparr>ap_storage = ref_connected, ap_supervisor = supervisor_init\<rparr>)"

definition ex_deployed_world :: "(created_cache, ref_server) world" where
  "ex_deployed_world =
     \<lparr>w_cache = cache_factory_create 8,
      w_storage = ap_storage (snd (api_handle ref_externs ex_repository ex_rpc_factory ex_rpc_factory ex_add_monitor ex_app)),
      w_telemetry = [], w_sink = [], w_cancel = Some 7\<rparr>"

definition ex_deployed_context :: "(created_cache, ref_server) poll_context" where
  "ex_deployed_context = ex_mongo_context\<lparr>pc_source := rpc_block_source ref_externs rev ref_provider ref_moments\<rparr>"

lemma deployment_is_exactly_once_witness:
  "database_exact ref_externs (\<lambda>ch. ex_chain)
     (rs_committed (w_storage (snd (run_once ref_externs ex_order ex_config ex_deployed_context ex_deployed_world))))"
proof -
  let ?S = "rpc_sources ref_externs rev (\<lambda>ch. ref_provider)"
  let ?step = "deployed_step ref_externs ex_order ?S (\<lambda>ch. ex_chain) (mongo_index_storage ref_externs ref_mongo) ex_repository"
  let ?polled = "w_storage (snd (run_once ref_externs ex_order ex_config ex_deployed_context ex_deployed_world))"
  have ref: "vw_committed ref_view ref_empty = empty_database" "unique_ok (vw_indexes ref_view ref_empty) (vw_committed ref_view ref_empty)"
    by (simp_all add: ref_view_def ref_empty_def empty_database_def unique_ok_def)
  have "?step (ap_storage \<lparr>ap_storage = ref_connected, ap_supervisor = supervisor_init\<rparr>) (ap_storage ex_app)"
    unfolding ex_app_def by (rule deployed_request [OF prod.collapse [symmetric]])
  moreover have "?step (ap_storage ex_app) (w_storage ex_deployed_world)"
    unfolding ex_deployed_world_def world.simps
    by (rule deployed_request [OF prod.collapse [symmetric]])
  moreover have "?step (w_storage ex_deployed_world) ?polled"
    by (rule deployed_poll [where policy = ex_policy, OF _ _ _ _ _ prod.collapse [symmetric]])
      (auto simp: ex_deployed_context_def ex_mongo_context_def ex_config_def ex_deployed_world_def
        created_cache_coherent rpc_sources_def intro: exI [of _ ref_moments] ref_moments_ok)
  ultimately have "?step\<^sup>*\<^sup>* ref_connected ?polled"
    by (metis (no_types, lifting) app.select_convs(1) converse_rtranclp_into_rtranclp r_into_rtranclp)
  from deployment_is_exactly_once [OF ref_mongo_server ref_connects ref _ ref_hash_text_laws _ ex_order_ok _ _
      this [unfolded ex_repository_def]]
  show ?thesis by (simp add: ref_view_def ref_laws ref_provider_truthful ex_chain_ok)
qed

section \<open>The deployed program over PostgreSQL\<close>

definition pg_row_exact :: "externs \<Rightarrow> pg_codec \<Rightarrow> (chain \<Rightarrow> chain_data) \<Rightarrow> pg_db \<Rightarrow> pg_monitor_row \<Rightarrow> bool" where
  "pg_row_exact X C D db row =
     (\<forall>m. pg_monitor X row = Inr m \<longrightarrow>
        (case cursor_block (mon_cursor m) of None \<Rightarrow> True | Some c \<Rightarrow> mon_start_block m \<le> c \<and> c < - 1)
        \<and> mset (table_rows db (pgm_id row))
            = mset (map (pg_encode X C m)
                (concat (map (monitor_truth X (D (mon_chain m)) m) (done_blocks m (cursor_block (mon_cursor m)))))))"

definition tables_exact :: "externs \<Rightarrow> pg_codec \<Rightarrow> (chain \<Rightarrow> chain_data) \<Rightarrow> pg_db \<Rightarrow> bool" where
  "tables_exact X C D db = (\<forall>row \<in> set (pd_monitors db). pg_row_exact X C D db row)"

lemma tables_exact_stored:
  assumes ok: "pg_ok V d" and exact: "store_exact (pg_stored X V) (pg_cursor V) (pg_rows V) (pg_encode X C) X D d"
  shows "tables_exact X C D (pv_committed V d)"
  unfolding tables_exact_def pg_row_exact_def
proof (intro ballI allI impI)
  let ?db = "pv_committed V d"
  fix row m assume row: "row \<in> set (pd_monitors ?db)" and m: "pg_monitor X row = Inr m"
  then have "stored_exactly (pg_cursor V) (pg_rows V) (pg_encode X C) X (D (mon_chain m)) d m"
    using exact by (auto simp: store_exact_def pg_stored_def)
  moreover have id: "uint (monitor_id_get (mon_id m)) = pgm_id row"
    using stored_row_id [OF _ row m] ok by (simp add: pg_ok_def)
  moreover have "pg_cursor V d (mon_id m) = cursor_block (mon_cursor m)"
    using row_of_id_stored [OF _ row id] ok pg_monitor_fields(3) [OF m] by (simp add: pg_cursor_def pg_ok_def)
  ultimately show "(case cursor_block (mon_cursor m) of None \<Rightarrow> True | Some c \<Rightarrow> mon_start_block m \<le> c \<and> c < - 1)
      \<and> mset (table_rows ?db (pgm_id row)) = mset (map (pg_encode X C m)
          (concat (map (monitor_truth X (D (mon_chain m)) m) (done_blocks m (cursor_block (mon_cursor m))))))"
    by (simp add: stored_exactly_def pg_rows_def)
qed

text \<open>
  C2. Exactly-once indexing over PostgreSQL. The same holds with the PostgreSQL adapter, from empty
  tables on and with any server: whatever requests and polls happen, whatever statements the server
  refuses and whatever commits it takes without the answer arriving, the result table of every
  monitor holds exactly the rows of the results the finalized chain dictates from its start block to
  its cursor. Monitor ids stay unique, every monitor has its table with the columns of its schema,
  and no table outlives its monitor.
\<close>

theorem postgres_deployment_is_exactly_once:
  assumes "postgres_server Q V" and "pg_order_ok G" and "pv_committed V d0 = empty_tables"
    and "type_text_laws X" and "abi_decode_laws X" and "hash_order_ok H"
    and "\<forall>fs. mset (F fs) = mset fs" and "\<forall>ch. endpoint_truthful (P ch) (D ch) \<and> chain_data_ok (D ch)"
    and "(deployed_step X H (rpc_sources X F P) D (pg_index_storage X C G Q) (pg_repository X C Q))\<^sup>*\<^sup>* d0 d"
  shows "tables_exact X C D (pv_committed V d) \<and> pg_db_ok (pv_committed V d)"
proof -
  have "pg_index Q V G" by (intro pg_index.intro pg_index_axioms.intro assms(1,2))
  moreover have "pg_ok V d0" "\<forall>m. \<not> pg_stored X V d0 m"
    by (simp_all add: pg_ok_def pg_db_ok_def pg_stored_def assms(3) empty_tables_def)
  ultimately have "pg_ok V d \<and> store_exact (pg_stored X V) (pg_cursor V) (pg_rows V) (pg_encode X C) X D d"
    using pg_index.deployment_keeps_exact [OF _ assms(9) rpc_deployment_ok [OF assms(4-8)]]
    by (simp add: store_exact_def)
  with tables_exact_stored show ?thesis by (auto simp: pg_ok_def)
qed

definition ex_pg_repository :: "ref_postgres repository" where
  "ex_pg_repository = pg_repository ref_externs ref_codec ref_pg"

definition ex_pg_app :: "ref_postgres app" where
  "ex_pg_app = snd (api_handle ref_externs ex_pg_repository ex_rpc_factory ex_rpc_factory ex_add_chain
     \<lparr>ap_storage = ref_pg_empty, ap_supervisor = supervisor_init\<rparr>)"

definition ex_pg_world :: "(created_cache, ref_postgres) world" where
  "ex_pg_world =
     \<lparr>w_cache = cache_factory_create 8,
      w_storage = ap_storage (snd (api_handle ref_externs ex_pg_repository ex_rpc_factory ex_rpc_factory ex_add_monitor ex_pg_app)),
      w_telemetry = [], w_sink = [], w_cancel = Some 7\<rparr>"

definition ex_pg_context :: "(created_cache, ref_postgres) poll_context" where
  "ex_pg_context =
     \<lparr>pc_storage = pg_index_storage ref_externs ref_codec ref_batches ref_pg,
      pc_source = rpc_block_source ref_externs rev ref_provider ref_moments,
      pc_cache = created_cache_ops ex_policy, pc_writes_open = True, pc_sink_enabled = True\<rparr>"

lemma postgres_deployment_is_exactly_once_witness:
  "tables_exact ref_externs ref_codec (\<lambda>ch. ex_chain)
     (pgr_committed (w_storage (snd (run_once ref_externs ex_order ex_config ex_pg_context ex_pg_world))))"
proof -
  let ?S = "rpc_sources ref_externs rev (\<lambda>ch. ref_provider)"
  let ?step = "deployed_step ref_externs ex_order ?S (\<lambda>ch. ex_chain)
    (pg_index_storage ref_externs ref_codec ref_batches ref_pg) ex_pg_repository"
  let ?polled = "w_storage (snd (run_once ref_externs ex_order ex_config ex_pg_context ex_pg_world))"
  have "?step (ap_storage \<lparr>ap_storage = ref_pg_empty, ap_supervisor = supervisor_init\<rparr>) (ap_storage ex_pg_app)"
    unfolding ex_pg_app_def by (rule deployed_request [OF prod.collapse [symmetric]])
  moreover have "?step (ap_storage ex_pg_app) (w_storage ex_pg_world)"
    unfolding ex_pg_world_def world.simps
    by (rule deployed_request [OF prod.collapse [symmetric]])
  moreover have "?step (w_storage ex_pg_world) ?polled"
    by (rule deployed_poll [where policy = ex_policy, OF _ _ _ _ _ prod.collapse [symmetric]])
      (auto simp: ex_pg_context_def ex_config_def ex_pg_world_def
        created_cache_coherent rpc_sources_def intro: exI [of _ ref_moments] ref_moments_ok)
  ultimately have "?step\<^sup>*\<^sup>* ref_pg_empty ?polled"
    by (metis (no_types, lifting) app.select_convs(1) converse_rtranclp_into_rtranclp r_into_rtranclp)
  from postgres_deployment_is_exactly_once [OF ref_postgres_server ref_batches_ok _ _ _ ex_order_ok _ _
      this [unfolded ex_pg_repository_def]]
  show ?thesis by (simp add: ref_pg_view_def ref_pg_empty_def ref_laws ref_provider_truthful ex_chain_ok)
qed

end
