(* ===== verification/Spec2Isabelle.thy ===== *)
theory Spec2Isabelle
  imports Decoding_Properties Worker_Properties Service_Properties Mongo_Properties
    Postgres_Properties Rpc_Properties Server_Properties System_Properties
begin

text \<open>
  parseon indexes finalized EVM blocks: a monitor names a contract call or event, a block range
  and an optional filter; per chain, a worker polls a JSON-RPC source, decodes what its monitors
  match and commits each block's results and cursors to storage in one transaction; a supervisor
  keeps one worker per enabled chain while an HTTP API changes chains and monitors.

  The theories, in the order of their imports, and what they model.

  \<^item> \<open>Prelude\<close>, \<open>Strings\<close>, \<open>Containers\<close>: \<open>u64\<close> arithmetic at its width, errors as chains of
    causes with the result monad of \<open>?\<close>, the standard library's strings, binary search and
    ordered maps.
  \<^item> \<open>Model\<close>: \<open>parseon-core/src/model.rs\<close>. \<open>Externals\<close>: the alloy and \<open>serde_json\<close> functions the
    code calls, as the record \<open>externs\<close> every definition using them takes as argument \<open>X\<close>, with
    their documented laws as named predicates. \<open>Reference_Externals\<close> is a concrete record that
    satisfies all of them; \<open>Reference_Scenario\<close> a small chain with two monitors. Both serve the
    witnesses only.
  \<^item> \<open>Abi\<close>: \<open>abi.rs\<close>, signatures, schemas and decoders. \<open>Filters\<close>: \<open>filter.rs\<close>, limits,
    compilation and evaluation of filter expressions, with their classical reading \<open>holds\<close>.
  \<^item> \<open>Monitors\<close>: \<open>monitor.rs\<close> and \<open>scheduler.rs\<close>. \<open>Indexer\<close>: \<open>indexer.rs\<close>, the monitors grouped by
    key and ABI layout. \<open>Decoding\<close>: the reference decoders, one monitor at a time, and the proof
    that the grouped ones agree with them.
  \<^item> \<open>Ports\<close>: \<open>ports/\<close>, each trait a record of its methods, and the data they exchange.
    \<open>Cache_Contract\<close>: the locale \<open>block_cache_port\<close> a worker's correctness rests on;
    \<open>Memory_Cache\<close>: \<open>parseon-memory-cache\<close>, which interprets it.
  \<^item> \<open>Preparation\<close>, \<open>Prepared_Results\<close>: \<open>worker/prepare.rs\<close> and what a prepared block holds.
    \<open>Status\<close>: \<open>status.rs\<close>. \<open>Worker\<close>: \<open>worker/commit.rs\<close> and \<open>worker/mod.rs\<close>. \<open>Worker_Correct\<close>,
    \<open>Worker_Poll\<close>, \<open>Worker_Loop\<close>, \<open>Worker_Live\<close>: what polls commit, the quantities they leave, the
    end of the loop under cancellation, and that an undisturbed poll completes.
  \<^item> \<open>Supervisor\<close>: \<open>supervisor.rs\<close> as a step relation with its invariant. \<open>Services\<close>:
    \<open>commands.rs\<close>, \<open>views.rs\<close> and \<open>services.rs\<close>.
  \<^item> \<open>Mongo_Documents\<close>, \<open>Mongo_Server\<close>, \<open>Mongo_Storage\<close>: \<open>parseon-mongodb/src/storage.rs\<close>, its
    documents, the driver it calls as the record \<open>mongo\<close>, the transaction retries and the methods
    of its traits. \<open>Mongo_Contract\<close>: the locale \<open>mongo_server\<close>, what a server promises of reads,
    writes, unique indexes and transactions. \<open>Mongo_Correct\<close>, \<open>Mongo_Invariant\<close>: the effect of each
    method and the invariant of the stored documents. \<open>Mongo_Reference\<close> is a server in memory that
    satisfies the locale.
  \<^item> \<open>Rpc_Source\<close>: \<open>parseon-rpc/src/provider.rs\<close> and \<open>fetch.rs\<close>, with alloy's provider and the
    endpoint behind it as the record \<open>provider\<close>. \<open>Rpc_Correct\<close>: \<open>endpoint_truthful\<close>, what is assumed of
    an endpoint that answers, and that the source is then faithful; \<open>Rpc_Live\<close>: \<open>endpoint_recoverable\<close>,
    when it answers always, the number of log requests, and the capability flags along \<open>rpc_step\<close>.
  \<^item> \<open>Postgres_Rows\<close>, \<open>Postgres_Tables\<close>, \<open>Postgres_Server\<close>, \<open>Postgres_Results\<close>, \<open>Postgres_Storage\<close>:
    \<open>parseon-postgres\<close>, from the conversions of \<open>pg_types.rs\<close> and the stored rows over the columns of a
    result table and the texts of its statements (\<open>dyn_table.rs\<close>) to the repositories and the methods
    of \<open>PostgresStorage\<close>. A query is a value of \<open>sql\<close>; the driver is the record \<open>postgres\<close>, what a
    statement does to the tables is \<open>sql_effect\<close>, and the locale \<open>postgres_server\<close> says that a statement
    has this effect or is refused and that a transaction takes effect wholly or not at all.
    \<open>Postgres_Contract\<close>, \<open>Postgres_Commit\<close>: the effect of each transaction, by relations between the
    tables before and after it. \<open>Postgres_Correct\<close>: values, rows and the bind limit.
    \<open>Postgres_Reference\<close> is a server in memory that satisfies the locale.
  \<^item> \<open>Api\<close>: \<open>parseon-server/src/error.rs\<close>, \<open>api/dto.rs\<close> and \<open>api/handlers.rs\<close>, the handlers of the HTTP
    API over the services, composed in \<open>api_handle\<close>, and which of their errors a client sees;
    \<open>Postgres_Quiet\<close>: the PostgreSQL repository never blames the client. \<open>Metrics\<close>:
    \<open>parseon-server/src/metrics.rs\<close>, counters and gauges behind the telemetry port, and what a trace adds
    up to in them; \<open>Worker_Reports\<close>: what polls report, over a storage with a ledger of its commits.
    \<open>Webhook\<close>: \<open>parseon-webhook-sink\<close>, a sink with its permits and delivery tasks, whose runs are
    sequences of submissions, task turns and a shutdown.
  \<^item> \<open>Index_Port\<close>: the locale \<open>monitor_store\<close>, what indexing needs of a storage, and exactly-once
    indexing over it; \<open>Deployed_Store\<close>: the locale \<open>deployed_store\<close>, a store behind the API and the
    JSON-RPC source, whose checks keep the stored schemas usable, with the steps of a deployment and
    the invariant they keep. \<open>Mongo_Port\<close> and \<open>Exactly_Once\<close> give both for the MongoDB adapter over every
    \<open>mongo_server\<close>, \<open>Postgres_Port\<close> and \<open>Postgres_Deployed\<close> for the PostgreSQL adapter over every
    \<open>postgres_server\<close>.
  \<^item> \<open>Decoding_Properties\<close>, \<open>Worker_Properties\<close>, \<open>Service_Properties\<close>, \<open>Mongo_Properties\<close>,
    \<open>Postgres_Properties\<close>, \<open>Rpc_Properties\<close>, \<open>Server_Properties\<close>, \<open>System_Properties\<close>: the properties, by
    claim id, with their witnesses, and theorems of the same kind beside them.

  Conventions. A struct is a record with a two-letter field prefix, an enum a datatype, a
  fallible function a sum whose left side is the error as a list of causes, outermost first; an
  \<open>async\<close> method is its result. State is passed explicitly: a worker acts on a \<open>world\<close> of cache,
  storage, telemetry trace and sink batches. A shared status is a cell of a store. The
  cancellation token is the number of looks at it that find it live, so a cancelled run is any
  run with a finite number; a cancellation that arrives inside an awaited preparation is the one
  found by the look before it, because a preparation only touches the cache and the gauges it
  restores. A commit or write that storage answers with an error may have taken effect all the same.
  The transactions of PostgreSQL are taken one after the other, which the row locks they take stand
  for; it keeps the first 63 characters of a name (names of monitors' parameters are identifiers of
  the ABI, so their characters are bytes). A request of the JSON-RPC source finds the source in a state of its own (\<open>rpc_moments\<close>),
  so that whatever happens between requests is covered; the log queries of one request finish in
  any order \<open>F\<close>.

  Bounds. Block numbers, chain ids and batch sizes are 64-bit words with the code's saturating
  and checked operations; addresses, hashes and integers of the ABI are words of their width.
  Byte lengths, indices and counts are naturals (\<open>usize\<close>). No definition uses fuel:
  the loops without a bound are each a \<open>partial_function\<close> whose value is \<open>None\<close> when it does not
  return. \<open>worker_run\<close> returns under cancellation (\<open>worker_stops_when_cancelled\<close>); the transaction
  loops of the MongoDB adapter return against a deployment that does not ask for retries for ever
  (\<open>mongo_transactions_return\<close>). The splitting of log ranges ends by the measure \<open>range_work\<close>.

  Not modelled: wall-clock durations and logging; the interleaving of the concurrent streams
  inside one poll (they yield in input order, which is kept; their effects on the cache and the
  telemetry are put in one order); dropped request futures; HTTP routing, serialisation, the
  command line and the process wiring of \<open>parseon-server\<close>; the histograms of durations; the connection
  pool and the migrations of PostgreSQL. The database servers are assumed to be written by this process only.
\<close>

end
